(* ===== verification/Prelude.thy ===== *)
theory Prelude
  imports Main
begin

text \<open>
  Shared vocabulary of the development: the result type of a fallible operation and
  its sequencing, the lemma collections the component theories fill, and the facts on
  lists and maps that several components need.

  A Python operation that may raise is a function into \<open>'e + 'a\<close>: \<open>Inl e\<close> is the
  exception, \<open>Inr x\<close> the value returned. \<open>rbind\<close> runs the second computation only
  when the first one returned, which is what the source's sequencing of statements
  does; \<open>require\<close> is the \<open>if not ...: raise\<close> idiom. Strings are \<open>string\<close> and
  stand for the UTF-8 encoding of the Python string, so equality is the same and a
  length is a length in bytes. Python integers are \<open>int\<close>.
\<close>


subsection \<open>Fallible computations\<close>

type_synonym ('e, 'a) result = "'e + 'a"

definition rbind :: "('e, 'a) result \<Rightarrow> ('a \<Rightarrow> ('e, 'b) result) \<Rightarrow> ('e, 'b) result" where
  "rbind m f = (case m of Inl e \<Rightarrow> Inl e | Inr x \<Rightarrow> f x)"

definition require :: "bool \<Rightarrow> 'e \<Rightarrow> ('e, unit) result" where
  "require b e = (if b then Inr () else Inl e)"

abbreviation rthen :: "('e, 'a) result \<Rightarrow> ('e, 'b) result \<Rightarrow> ('e, 'b) result" where
  "rthen m n \<equiv> rbind m (\<lambda>_. n)"

lemma rbind_simps [simp]:
  "rbind (Inl e) f = Inl e"
  "rbind (Inr x) f = f x"
  by (simp_all add: rbind_def)

lemma require_simps [simp]:
  "require True e = Inr ()"
  "require False e = Inl e"
  by (simp_all add: require_def)

lemma rbind_eq_Inr [simp]: "rbind m f = Inr y \<longleftrightarrow> (\<exists>x. m = Inr x \<and> f x = Inr y)"
  by (cases m) auto

lemma rbind_eq_Inl: "rbind m f = Inl e \<longleftrightarrow> m = Inl e \<or> (\<exists>x. m = Inr x \<and> f x = Inl e)"
  by (cases m) auto

lemma require_eq_Inr [simp]: "require b e = Inr u \<longleftrightarrow> b"
  by (cases b) auto

lemma require_eq_Inl [simp]: "require b e = Inl e' \<longleftrightarrow> \<not> b \<and> e' = e"
  by (cases b) auto

lemma require_bind: "rthen (require b e) m = (if b then m else Inl e)"
  by simp

lemma rbind_cong [fundef_cong]:
  "m = m' \<Longrightarrow> (\<And>x. m' = Inr x \<Longrightarrow> f x = g x) \<Longrightarrow> rbind m f = rbind m' g"
  by (cases m') auto

text \<open>The error of a chain of checks: the first failing one.\<close>

fun first_error :: "('e, unit) result list \<Rightarrow> 'e option" where
  "first_error [] = None"
| "first_error (Inl e # _) = Some e"
| "first_error (Inr _ # ms) = first_error ms"

fun check_all :: "('e, unit) result list \<Rightarrow> ('e, unit) result" where
  "check_all [] = Inr ()"
| "check_all (m # ms) = rthen m (check_all ms)"

lemma check_all_eq_Inr [simp]: "check_all ms = Inr u \<longleftrightarrow> (\<forall>m \<in> set ms. m = Inr ())"
  by (induction ms) auto

lemma check_all_eq_Inl: "check_all ms = Inl e \<longleftrightarrow> first_error ms = Some e"
  by (induction ms rule: first_error.induct) auto

subsection \<open>Lists and maps\<close>

lemma find_Some_mem: "List.find P xs = Some x \<Longrightarrow> x \<in> set xs \<and> P x"
  by (auto simp: find_Some_iff)

lemma find_None_all: "List.find P xs = None \<longleftrightarrow> (\<forall>x \<in> set xs. \<not> P x)"
  by (induction xs) auto

lemma filter_ConsD: "filter P xs = y # ys \<Longrightarrow> y \<in> set xs \<and> P y"
proof -
  assume "filter P xs = y # ys"
  then have "y \<in> set (filter P xs)" by simp
  then show ?thesis by simp
qed

text \<open>The first element of a list with some property, everything before it failing.\<close>

lemma ex_prefix_Cons:
  "(\<exists>pre suf. c # cs = pre @ x # suf \<and> (\<forall>y \<in> set pre. Q y)) \<longleftrightarrow>
     c = x \<or> Q c \<and> (\<exists>pre suf. cs = pre @ x # suf \<and> (\<forall>y \<in> set pre. Q y))"
  (is "?L \<longleftrightarrow> ?R")
proof
  assume ?L
  then obtain pre suf where "c # cs = pre @ x # suf" "\<forall>y \<in> set pre. Q y" by blast
  then show ?R by (cases pre) auto
next
  assume ?R
  then show ?L
  proof
    assume "c = x"
    then show ?L by (auto intro: exI [of _ "[]"])
  next
    assume "Q c \<and> (\<exists>pre suf. cs = pre @ x # suf \<and> (\<forall>y \<in> set pre. Q y))"
    then obtain pre suf where "Q c" "cs = pre @ x # suf" "\<forall>y \<in> set pre. Q y" by blast
    then show ?L by (intro exI [of _ "c # pre"] exI [of _ suf]) simp
  qed
qed

lemma filter_prefix:
  assumes "filter P xs = pre @ y # suf"
  shows "\<exists>us vs. xs = us @ y # vs \<and> filter P us = pre \<and> P y"
  using assms
proof (induction xs arbitrary: pre)
  case (Cons x xs)
  show ?case
  proof (cases "P x \<and> pre \<noteq> []")
    case True
    with Cons.prems have "filter P xs = tl pre @ y # suf" "hd pre = x"
      by (cases pre; simp)+
    then obtain us vs where "xs = us @ y # vs" "filter P us = tl pre" "P y"
      using Cons.IH by blast
    then show ?thesis
      using True \<open>hd pre = x\<close> by (intro exI [of _ "x # us"] exI [of _ vs]) (cases pre, auto)
  next
    case False
    show ?thesis
    proof (cases "P x")
      case True
      with False Cons.prems show ?thesis by (auto intro: exI [of _ "[]"])
    next
      case notP: False
      with Cons.prems obtain us vs where "xs = us @ y # vs" "filter P us = pre" "P y"
        using Cons.IH by auto
      with notP show ?thesis by (auto intro: exI [of _ "x # us"])
    qed
  qed
qed simp

lemma map_upd_mono:
  fixes n :: "'a::order"
  shows "(\<And>v. m k = Some v \<Longrightarrow> v \<le> n) \<Longrightarrow> m k' = Some v \<Longrightarrow> \<exists>w. (m(k \<mapsto> n)) k' = Some w \<and> v \<le> w"
  by auto

end
