(* ===== verification/Target.thy ===== *)
theory Target
  imports Prelude
begin

text \<open>
  Models \<open>src/kdive/seams/target.py\<close>: the identity, platform and lease facts of a
  debug target. \<open>recovery_payload\<close> is the byte string that \<open>TargetKey.recovery_key\<close>
  hashes to name the durable files of a target; SHA-256 itself is a parameter.
  Timestamps are integers counting microseconds from the epoch (a UTC-aware
  \<open>datetime\<close>).
\<close>

subsection \<open>Enumerations\<close>

datatype arch = X86_64 | PPC64LE | S390X | AARCH64

datatype console_kind = UART | HVC | VIRTIO

datatype target_state =
    ACQUIRING | PREPARING | BOOTING | TS_READY | DEBUGGING | RESETTING | TS_CRASHED | RELEASING

datatype break_hint = HINT_UART_BREAK | HINT_SYSRQ_G | HINT_AGENT_PROXY_BREAK | HINT_GDBSTUB_NATIVE

instantiation target_state :: enum
begin

definition enum_target_state :: "target_state list" where
  "enum_target_state =
     [ACQUIRING, PREPARING, BOOTING, TS_READY, DEBUGGING, RESETTING, TS_CRASHED, RELEASING]"

definition enum_all_target_state :: "(target_state \<Rightarrow> bool) \<Rightarrow> bool" where
  "enum_all_target_state P \<longleftrightarrow> list_all P
     [ACQUIRING, PREPARING, BOOTING, TS_READY, DEBUGGING, RESETTING, TS_CRASHED, RELEASING]"

definition enum_ex_target_state :: "(target_state \<Rightarrow> bool) \<Rightarrow> bool" where
  "enum_ex_target_state P \<longleftrightarrow> list_ex P
     [ACQUIRING, PREPARING, BOOTING, TS_READY, DEBUGGING, RESETTING, TS_CRASHED, RELEASING]"

lemma all_target_state_iff:
  "list_all P [ACQUIRING, PREPARING, BOOTING, TS_READY, DEBUGGING, RESETTING, TS_CRASHED, RELEASING]
    \<longleftrightarrow> (\<forall>st. P st)"
  by (auto intro: target_state.induct)

lemma ex_target_state_iff:
  "list_ex P [ACQUIRING, PREPARING, BOOTING, TS_READY, DEBUGGING, RESETTING, TS_CRASHED, RELEASING]
    \<longleftrightarrow> (\<exists>st. P st)"
  using all_target_state_iff [of "\<lambda>st. \<not> P st"] by auto

instance
proof
  show "(UNIV :: target_state set) = set enum_class.enum"
    by (auto simp: enum_target_state_def intro: target_state.exhaust)
  show "distinct (enum_class.enum :: target_state list)"
    by (simp add: enum_target_state_def)
  show "enum_class.enum_all P \<longleftrightarrow> Ball UNIV P" for P :: "target_state \<Rightarrow> bool"
    by (simp only: enum_all_target_state_def all_target_state_iff) simp
  show "enum_class.enum_ex P \<longleftrightarrow> Bex UNIV P" for P :: "target_state \<Rightarrow> bool"
    by (simp only: enum_ex_target_state_def ex_target_state_iff) simp
qed

end

subsection \<open>Target identity\<close>

record target_key =
  provisioner :: string
  target_id :: string

text \<open>
  \<open>n.to_bytes(4, "big")\<close>: Python raises \<open>OverflowError\<close> when the number needs more
  than four bytes, which is \<open>None\<close> here. \<open>char_of\<close> keeps a number's low eight bits.
\<close>

definition to_bytes4 :: "nat \<Rightarrow> string option" where
  "to_bytes4 n =
     (if n < 2 ^ 32
      then Some [char_of (n div 2 ^ 24), char_of (n div 2 ^ 16), char_of (n div 2 ^ 8), char_of n]
      else None)"

definition recovery_payload :: "target_key \<Rightarrow> string option" where
  "recovery_payload k =
     (case (to_bytes4 (length (provisioner k)), to_bytes4 (length (target_id k))) of
        (Some lp, Some lt) \<Rightarrow> Some (lp @ provisioner k @ lt @ target_id k)
      | _ \<Rightarrow> None)"

text \<open>\<open>sha256(payload).hexdigest()\<close>, with the hash as a parameter.\<close>

definition recovery_key :: "(string \<Rightarrow> string) \<Rightarrow> target_key \<Rightarrow> string option" where
  "recovery_key sha256 k = map_option sha256 (recovery_payload k)"

subsection \<open>Platform, kernel and lease facts\<close>

record ssh_endpoint =
  ssh_host :: string
  ssh_port :: int
  ssh_user :: string
  ssh_key_ref :: string

record platform_metadata =
  console_kind :: console_kind
  console_count :: int
  dedicated_debug_line :: bool
  ssh_reachable :: bool
  break_hints :: "break_hint list"

record kernel_provenance =
  kp_build_id :: string
  kp_release :: string
  vmlinux_ref :: string
  modules_ref :: "string option"
  kp_cmdline :: string
  config_ref :: "string option"

record lease_info =
  lease_id :: string
  lease_holder :: string
  expires_at :: "int option"
  renewable :: bool

text \<open>
  The validator of \<open>LeaseInfo.expires_at\<close>: a \<open>datetime\<close> is its local reading with
  an optional UTC offset; a naive one is refused, an aware one is normalised to UTC.
\<close>

record raw_datetime =
  local_micros :: int
  utc_offset_micros :: "int option"

datatype expires_at_error = Naive_expires_at

definition expires_at_must_be_utc_aware :: "raw_datetime option \<Rightarrow> (expires_at_error, int option) result" where
  "expires_at_must_be_utc_aware v =
     (case v of
        None \<Rightarrow> Inr None
      | Some d \<Rightarrow>
          (case utc_offset_micros d of
             None \<Rightarrow> Inl Naive_expires_at
           | Some off \<Rightarrow> Inr (Some (local_micros d - off))))"

subsection \<open>The recovery payload determines the key\<close>

lemma to_bytes4_Some_length: "to_bytes4 n = Some bs \<Longrightarrow> length bs = 4"
  by (auto simp: to_bytes4_def split: if_splits)

lemma digits4: "n = 2 ^ 24 * (n div 2 ^ 24) + (2 ^ 16 * (n div 2 ^ 16 mod 256)
    + (2 ^ 8 * (n div 2 ^ 8 mod 256) + n mod 256))" for n :: nat
proof -
  have combine: "m0 = 2 ^ 24 * m3 + (2 ^ 16 * r2 + (2 ^ 8 * r1 + r0))"
    if "m0 = 256 * m1 + r0" "m1 = 256 * m2 + r1" "m2 = 256 * m3 + r2"
    for m0 m1 m2 m3 r0 r1 r2 :: nat
    using that by simp
  have "n div 2 ^ 16 = n div 2 ^ 8 div 256" "n div 2 ^ 24 = n div 2 ^ 16 div 256"
    by (simp_all add: div_mult2_eq [symmetric])
  then show ?thesis
    by (intro combine [where ?m1.0 = "n div 2 ^ 8" and ?m2.0 = "n div 2 ^ 16"]) simp_all
qed

lemma char_of_eq_mod: "(char_of a :: char) = char_of b \<longleftrightarrow> a mod 256 = b mod 256" for a b :: nat
  by (metis char_of_mod_256 of_char_of)

lemma to_bytes4_inj:
  assumes "to_bytes4 m = Some bs" and "to_bytes4 n = Some bs"
  shows "m = n"
proof -
  have lt: "m < 2 ^ 32" "n < 2 ^ 32"
    using assms unfolding to_bytes4_def by (auto split: if_splits)
  have "to_bytes4 m = to_bytes4 n"
    using assms by simp
  with lt have digits: "m div 2 ^ 24 mod 256 = n div 2 ^ 24 mod 256"
    "m div 2 ^ 16 mod 256 = n div 2 ^ 16 mod 256"
    "m div 2 ^ 8 mod 256 = n div 2 ^ 8 mod 256" "m mod 256 = n mod 256"
    unfolding to_bytes4_def if_P [OF lt(1)] if_P [OF lt(2)] option.inject list.inject char_of_eq_mod
    by blast+
  moreover have "m div 2 ^ 24 mod 256 = m div 2 ^ 24" "n div 2 ^ 24 mod 256 = n div 2 ^ 24"
    using lt by simp_all
  ultimately show ?thesis
    by (metis digits4)
qed

lemma recovery_payload_inj:
  assumes "recovery_payload a = Some bs" and "recovery_payload b = Some bs"
  shows "a = b"
proof -
  obtain lpa lta where a: "to_bytes4 (length (provisioner a)) = Some lpa"
      "to_bytes4 (length (target_id a)) = Some lta"
      "bs = lpa @ provisioner a @ lta @ target_id a"
    using assms(1) by (auto simp: recovery_payload_def split: option.splits)
  obtain lpb ltb where b: "to_bytes4 (length (provisioner b)) = Some lpb"
      "to_bytes4 (length (target_id b)) = Some ltb"
      "bs = lpb @ provisioner b @ ltb @ target_id b"
    using assms(2) by (auto simp: recovery_payload_def split: option.splits)
  have lens: "length lpa = length lpb" "length lta = length ltb"
    using a b by (simp_all add: to_bytes4_Some_length)
  then have "lpa = lpb"
    using a(3) b(3) by simp
  then have "length (provisioner a) = length (provisioner b)"
    using a(1) b(1) to_bytes4_inj by blast
  then show ?thesis
    using a(3) b(3) lens by simp
qed

end
