(* ===== verification/IpAddress.thy ===== *)
theory IpAddress
  imports PyText
begin

text \<open>
  Python's \<open>ipaddress.ip_address\<close> and \<open>is_loopback\<close>, as the endpoint validators of
  \<open>seams/transport_state.py\<close>, \<open>coordination/endpoint_safety.py\<close> and the gdbstub
  backend use them. This is the standard library, so nothing here carries a map entry.
  From Python 3.13 on, \<open>IPv6Address.is_loopback\<close> also accepts an IPv4-mapped loopback
  address; the flag of \<open>is_loopback\<close> selects that behaviour. Both versions are in the
  project's CI.
\<close>

datatype ip_addr = V4 nat | V6 nat

subsection \<open>IPv4 literals\<close>

definition parse_octet :: "string \<Rightarrow> nat option" where
  "parse_octet s =
     (if s = [] \<or> \<not> list_all is_digit s \<or> length s > 3 then None
      else if s \<noteq> ''0'' \<and> hd s = CHR ''0'' then None
      else if dec_value s > 255 then None
      else Some (dec_value s))"

definition parse_v4 :: "string \<Rightarrow> nat option" where
  "parse_v4 s =
     (case map parse_octet (split_on (CHR ''.'') s) of
        [Some a, Some b, Some c, Some d] \<Rightarrow> Some (((a * 256 + b) * 256 + c) * 256 + d)
      | _ \<Rightarrow> None)"

subsection \<open>IPv6 literals\<close>

definition parse_hextet :: "string \<Rightarrow> nat option" where
  "parse_hextet s = (if s = [] \<or> length s > 4 then None else hex_value s)"

text \<open>\<open>_split_scope_id\<close>: an address may carry a zone after \<open>%\<close>.\<close>

definition strip_scope :: "string \<Rightarrow> string option" where
  "strip_scope s =
     (case split_on (CHR ''%'') s of
        [a] \<Rightarrow> Some a
      | [a, z] \<Rightarrow> (if z = [] then None else Some a)
      | _ \<Rightarrow> None)"

definition opt_list :: "'a option list \<Rightarrow> 'a list option" where
  "opt_list xs = (if None \<in> set xs then None else Some (map the xs))"

text \<open>A dotted-quad tail stands for the last two hextets.\<close>

definition expand_tail :: "string list \<Rightarrow> nat option list option" where
  "expand_tail parts =
     (if CHR ''.'' \<in> set (last parts)
      then (case parse_v4 (last parts) of
              None \<Rightarrow> None
            | Some v \<Rightarrow> Some (map parse_hextet (butlast parts) @
                             [Some (v div 65536), Some (v mod 65536)]))
      else Some (map parse_hextet parts))"

definition hextets_value :: "nat list \<Rightarrow> nat" where
  "hextets_value hs = fold (\<lambda>h n. 65536 * n + h) hs 0"

definition parse_v6 :: "string \<Rightarrow> nat option" where
  "parse_v6 s0 =
     (case strip_scope s0 of
        None \<Rightarrow> None
      | Some s \<Rightarrow>
          (let parts = split_on (CHR '':'') s in
           if s = [] \<or> CHR ''/'' \<in> set s0 \<or> length parts < 3 then None
           else (case expand_tail parts of
              None \<Rightarrow> None
            | Some hs \<Rightarrow>
                (let n = length hs;
                     empty_at = (\<lambda>i. i < length parts \<and> parts ! i = []);
                     skips = filter empty_at [1..<n - 1]
                 in
                 if n > 9 then None
                 else if length skips > 1 then None
                 else (case skips of
                     [] \<Rightarrow> (if n \<noteq> 8 then None else map_option hextets_value (opt_list hs))
                   | k # _ \<Rightarrow>
                       (let hi = (if hd parts = [] then k - 1 else k);
                            lo = (if empty_at (n - 1) then n - k - 2 else n - k - 1)
                        in
                        if hd parts = [] \<and> hi > 0 then None
                        else if empty_at (n - 1) \<and> lo > 0 then None
                        else if hi + lo > 7 then None
                        else (case (opt_list (take hi hs), opt_list (drop (n - lo) hs)) of
                            (Some his, Some los) \<Rightarrow>
                              Some (hextets_value (his @ replicate (8 - hi - lo) 0 @ los))
                          | _ \<Rightarrow> None)))))))"

definition ip_address :: "string \<Rightarrow> ip_addr option" where
  "ip_address s =
     (case parse_v4 s of
        Some n \<Rightarrow> Some (V4 n)
      | None \<Rightarrow> map_option V6 (parse_v6 s))"

subsection \<open>Loopback\<close>

definition is_loopback :: "bool \<Rightarrow> ip_addr \<Rightarrow> bool" where
  "is_loopback mapped_aware a =
     (case a of
        V4 n \<Rightarrow> n div 2 ^ 24 = 127
      | V6 n \<Rightarrow>
          if mapped_aware \<and> n div 2 ^ 32 = 65535 then n mod 2 ^ 32 div 2 ^ 24 = 127
          else n = 1)"

definition loopback_literal :: "bool \<Rightarrow> string \<Rightarrow> bool" where
  "loopback_literal m s = (case ip_address s of None \<Rightarrow> False | Some a \<Rightarrow> is_loopback m a)"

lemma parse_octet_bound: "parse_octet s = Some n \<Longrightarrow> n < 256"
  by (auto simp: parse_octet_def split: if_splits)

lemma parse_v4_SomeE:
  assumes "parse_v4 s = Some n"
  obtains a b c d where "map parse_octet (split_on (CHR ''.'') s) = [Some a, Some b, Some c, Some d]"
    and "n = ((a * 256 + b) * 256 + c) * 256 + d"
  using assms by (auto simp: parse_v4_def split: list.splits option.splits)

text \<open>Of a dotted quad, \<open>is_loopback\<close> looks at the first octet alone: it must be 127.\<close>

lemma v4_first_octet:
  assumes "map parse_octet (split_on (CHR ''.'') s) = [Some a, Some b, Some c, Some d]"
  shows "(((a * 256 + b) * 256 + c) * 256 + d) div 2 ^ 24 = a"
proof -
  have "set (map parse_octet (split_on (CHR ''.'') s)) = {Some a, Some b, Some c, Some d}"
    using assms by simp
  then have "b < 256 \<and> c < 256 \<and> d < 256"
    using parse_octet_bound by (metis insertI1 insert_commute imageE list.set_map)
  then show ?thesis
    by (intro div_nat_eqI) simp_all
qed

lemma loopback_127_0_0_1: "loopback_literal m ''127.0.0.1''"
  by (simp add: loopback_literal_def ip_address_def parse_v4_def parse_octet_def is_digit_def
      dec_value_def digit_value_def is_loopback_def)

end
