(* ===== verification/TransportState.thy ===== *)
theory TransportState
  imports Target IpAddress
begin

text \<open>
  Models \<open>src/kdive/seams/transport_state.py\<close>: routing data and its freezing
  (\<open>_deep_freeze\<close>, \<open>_deep_thaw\<close>), the endpoint types with their validators, the
  channel descriptor, the open request and the durable \<open>TransportSession\<close> record.
\<close>

subsection \<open>Routing data\<close>

text \<open>
  What may reach \<open>_deep_freeze\<close>. A finite float is its exact value
  \<open>m * 2 ^ e\<close>; a mapping is its items in insertion order. \<open>RawOther\<close> is a value of a
  type that is not JSON.
\<close>

datatype raw_key = KStr string | KOther string

datatype raw =
    RawNone
  | RawStr string
  | RawBool bool
  | RawInt int
  | RawFloat int int
  | RawNonFinite
  | RawMap "(raw_key \<times> raw) list"
  | RawList "raw list"
  | RawTuple "raw list"
  | RawOther string

text \<open>Frozen data: a \<open>MappingProxyType\<close> for a mapping, a tuple for a sequence.\<close>

datatype frozen =
    FNone
  | FStr string
  | FBool bool
  | FInt int
  | FFloat int int
  | FMap "(string \<times> frozen) list"
  | FTuple "frozen list"

datatype freeze_error = Float_not_finite | Key_not_string string | Not_json string

fun deep_freeze :: "raw \<Rightarrow> (freeze_error, frozen) result"
  and freeze_items :: "(raw_key \<times> raw) list \<Rightarrow> (freeze_error, (string \<times> frozen) list) result"
  and freeze_seq :: "raw list \<Rightarrow> (freeze_error, frozen list) result" where
  "deep_freeze RawNone = Inr FNone"
| "deep_freeze (RawStr s) = Inr (FStr s)"
| "deep_freeze (RawBool b) = Inr (FBool b)"
| "deep_freeze (RawInt i) = Inr (FInt i)"
| "deep_freeze (RawFloat m e) = Inr (FFloat m e)"
| "deep_freeze RawNonFinite = Inl Float_not_finite"
| "deep_freeze (RawMap xs) = rbind (freeze_items xs) (\<lambda>ys. Inr (FMap ys))"
| "deep_freeze (RawList xs) = rbind (freeze_seq xs) (\<lambda>ys. Inr (FTuple ys))"
| "deep_freeze (RawTuple xs) = rbind (freeze_seq xs) (\<lambda>ys. Inr (FTuple ys))"
| "deep_freeze (RawOther t) = Inl (Not_json t)"
| "freeze_items [] = Inr []"
| "freeze_items ((KStr k, v) # xs) =
     rbind (deep_freeze v) (\<lambda>w. rbind (freeze_items xs) (\<lambda>ys. Inr ((k, w) # ys)))"
| "freeze_items ((KOther t, v) # xs) = Inl (Key_not_string t)"
| "freeze_seq [] = Inr []"
| "freeze_seq (x # xs) =
     rbind (deep_freeze x) (\<lambda>y. rbind (freeze_seq xs) (\<lambda>ys. Inr (y # ys)))"

fun deep_thaw :: "frozen \<Rightarrow> raw"
  and thaw_items :: "(string \<times> frozen) list \<Rightarrow> (raw_key \<times> raw) list"
  and thaw_seq :: "frozen list \<Rightarrow> raw list" where
  "deep_thaw FNone = RawNone"
| "deep_thaw (FStr s) = RawStr s"
| "deep_thaw (FBool b) = RawBool b"
| "deep_thaw (FInt i) = RawInt i"
| "deep_thaw (FFloat m e) = RawFloat m e"
| "deep_thaw (FMap xs) = RawMap (thaw_items xs)"
| "deep_thaw (FTuple xs) = RawList (thaw_seq xs)"
| "thaw_items [] = []"
| "thaw_items ((k, v) # xs) = (KStr k, deep_thaw v) # thaw_items xs"
| "thaw_seq [] = []"
| "thaw_seq (x # xs) = deep_thaw x # thaw_seq xs"

text \<open>JSON-compatible data, and what freezing and thawing leaves of it: tuples become lists.\<close>

fun json_ok :: "raw \<Rightarrow> bool"
  and json_ok_items :: "(raw_key \<times> raw) list \<Rightarrow> bool"
  and json_ok_seq :: "raw list \<Rightarrow> bool" where
  "json_ok (RawMap xs) = json_ok_items xs"
| "json_ok (RawList xs) = json_ok_seq xs"
| "json_ok (RawTuple xs) = json_ok_seq xs"
| "json_ok RawNonFinite = False"
| "json_ok (RawOther t) = False"
| "json_ok _ = True"
| "json_ok_items [] = True"
| "json_ok_items ((KStr k, v) # xs) = (json_ok v \<and> json_ok_items xs)"
| "json_ok_items ((KOther t, v) # xs) = False"
| "json_ok_seq [] = True"
| "json_ok_seq (x # xs) = (json_ok x \<and> json_ok_seq xs)"

fun untuple :: "raw \<Rightarrow> raw"
  and untuple_items :: "(raw_key \<times> raw) list \<Rightarrow> (raw_key \<times> raw) list"
  and untuple_seq :: "raw list \<Rightarrow> raw list" where
  "untuple (RawMap xs) = RawMap (untuple_items xs)"
| "untuple (RawList xs) = RawList (untuple_seq xs)"
| "untuple (RawTuple xs) = RawList (untuple_seq xs)"
| "untuple r = r"
| "untuple_items [] = []"
| "untuple_items ((k, v) # xs) = (k, untuple v) # untuple_items xs"
| "untuple_seq [] = []"
| "untuple_seq (x # xs) = untuple x # untuple_seq xs"

lemma freeze_thaw:
  "deep_freeze (deep_thaw f) = Inr f"
  "freeze_items (thaw_items fi) = Inr fi"
  "freeze_seq (thaw_seq fs) = Inr fs"
  by (induction f and fi and fs rule: deep_thaw_thaw_items_thaw_seq.induct) auto

lemma freeze_defined:
  "(\<exists>f. deep_freeze r = Inr f) \<longleftrightarrow> json_ok r"
  "(\<exists>fi. freeze_items ri = Inr fi) \<longleftrightarrow> json_ok_items ri"
  "(\<exists>fs. freeze_seq rs = Inr fs) \<longleftrightarrow> json_ok_seq rs"
  by (induction r and ri and rs rule: deep_freeze_freeze_items_freeze_seq.induct) auto

lemma thaw_freeze:
  "deep_freeze r = Inr f \<Longrightarrow> deep_thaw f = untuple r"
  "freeze_items ri = Inr fi \<Longrightarrow> thaw_items fi = untuple_items ri"
  "freeze_seq rs = Inr fs \<Longrightarrow> thaw_seq fs = untuple_seq rs"
  by (induction r and ri and rs arbitrary: f and fi and fs
      rule: deep_freeze_freeze_items_freeze_seq.induct) auto

text \<open>
  Python's \<open>==\<close> on frozen routing data: numbers compare by value across \<open>bool\<close>,
  \<open>int\<close> and \<open>float\<close>; mappings compare without order.
\<close>

definition num_eq :: "int \<times> int \<Rightarrow> int \<times> int \<Rightarrow> bool" where
  "num_eq a b = (let e = min (snd a) (snd b) in
     fst a * 2 ^ nat (snd a - e) = fst b * 2 ^ nat (snd b - e))"

fun num_of :: "frozen \<Rightarrow> (int \<times> int) option" where
  "num_of (FBool b) = Some (if b then 1 else 0, 0)"
| "num_of (FInt i) = Some (i, 0)"
| "num_of (FFloat m e) = Some (m, e)"
| "num_of _ = None"

fun py_eq :: "frozen \<Rightarrow> frozen \<Rightarrow> bool"
  and py_eq_items :: "(string \<times> frozen) list \<Rightarrow> (string \<times> frozen) list \<Rightarrow> bool"
  and py_eq_seq :: "frozen list \<Rightarrow> frozen list \<Rightarrow> bool" where
  "py_eq (FMap xs) b =
     (case b of FMap ys \<Rightarrow> length xs = length ys \<and> py_eq_items xs ys | _ \<Rightarrow> False)"
| "py_eq (FTuple xs) b = (case b of FTuple ys \<Rightarrow> py_eq_seq xs ys | _ \<Rightarrow> False)"
| "py_eq (FStr s) b = (b = FStr s)"
| "py_eq FNone b = (b = FNone)"
| "py_eq (FBool x) b = (case num_of b of None \<Rightarrow> False | Some n \<Rightarrow> num_eq (if x then 1 else 0, 0) n)"
| "py_eq (FInt i) b = (case num_of b of None \<Rightarrow> False | Some n \<Rightarrow> num_eq (i, 0) n)"
| "py_eq (FFloat m e) b = (case num_of b of None \<Rightarrow> False | Some n \<Rightarrow> num_eq (m, e) n)"
| "py_eq_items [] ys = True"
| "py_eq_items ((k, v) # xs) ys =
     (case map_of ys k of None \<Rightarrow> False | Some w \<Rightarrow> py_eq v w \<and> py_eq_items xs ys)"
| "py_eq_seq [] ys = (ys = [])"
| "py_eq_seq (x # xs) ys = (case ys of [] \<Rightarrow> False | y # zs \<Rightarrow> py_eq x y \<and> py_eq_seq xs zs)"

text \<open>The keys of a Python mapping are distinct.\<close>

fun keys_distinct :: "frozen \<Rightarrow> bool"
  and keys_distinct_items :: "(string \<times> frozen) list \<Rightarrow> bool"
  and keys_distinct_seq :: "frozen list \<Rightarrow> bool" where
  "keys_distinct (FMap xs) = (distinct (map fst xs) \<and> keys_distinct_items xs)"
| "keys_distinct (FTuple xs) = keys_distinct_seq xs"
| "keys_distinct _ = True"
| "keys_distinct_items [] = True"
| "keys_distinct_items ((k, v) # xs) = (keys_distinct v \<and> keys_distinct_items xs)"
| "keys_distinct_seq [] = True"
| "keys_distinct_seq (x # xs) = (keys_distinct x \<and> keys_distinct_seq xs)"

lemma num_eq_refl [simp]: "num_eq a a"
  by (simp add: num_eq_def Let_def)

lemma py_eq_refl:
  "keys_distinct f \<Longrightarrow> py_eq f f"
  "keys_distinct_items fi \<Longrightarrow> \<forall>kv \<in> set fi. map_of whole (fst kv) = Some (snd kv)
    \<Longrightarrow> py_eq_items fi whole"
  "keys_distinct_seq fs \<Longrightarrow> py_eq_seq fs fs"
proof (induction f and fi and fs arbitrary: and whole and
    rule: keys_distinct_keys_distinct_items_keys_distinct_seq.induct)
  case (1 xs)
  then show ?case by simp
qed auto

subsection \<open>Enumerations\<close>

datatype line_role = SHARED_CONSOLE | DEDICATED_DEBUG | RSP

datatype break_method = GDBSTUB_NATIVE | UART_BREAK | AGENT_PROXY_BREAK | SYSRQ_G

datatype endpoint_exposure = LOOPBACK_LOCAL | BROKERED_REQUIRED

datatype transport_locality = LOCAL | REMOTE

datatype record_state = RS_PENDING | OPENING | RS_READY | DEGRADED | CLOSING | RS_ABANDONED | CLOSED

datatype execution_state = EXECUTING | HALTED | UNKNOWN

subsection \<open>Endpoints\<close>

datatype endpoint = TcpEndpoint string int | UnixSocketEndpoint string int

datatype endpoint_error =
    Host_not_ip_literal | Host_not_loopback | Port_out_of_range
  | Path_empty | Path_control_character | Path_not_absolute | Path_traversal
  | Mode_out_of_range | Mode_group_or_other

definition host_must_be_loopback :: "bool \<Rightarrow> string \<Rightarrow> (endpoint_error, unit) result" where
  "host_must_be_loopback m host =
     (case ip_address host of
        None \<Rightarrow> Inl Host_not_ip_literal
      | Some a \<Rightarrow> require (is_loopback m a) Host_not_loopback)"

definition make_tcp :: "bool \<Rightarrow> string \<Rightarrow> int \<Rightarrow> (endpoint_error, endpoint) result" where
  "make_tcp m host port =
     rthen (host_must_be_loopback m host)
       (rthen (require (1 \<le> port \<and> port \<le> 65535) Port_out_of_range)
         (Inr (TcpEndpoint host port)))"

text \<open>
  A control character (Unicode category \<open>Cc\<close>): U+0000 to U+001F and U+007F are single
  bytes, U+0080 to U+009F are the byte C2 and a byte from 80 to 9F.
\<close>

fun has_control_char :: "string \<Rightarrow> bool" where
  "has_control_char [] = False"
| "has_control_char (c # cs) =
     ((of_char c :: nat) < 32 \<or> (of_char c :: nat) = 127
      \<or> ((of_char c :: nat) = 194 \<and>
         (case cs of [] \<Rightarrow> False
          | d # _ \<Rightarrow> 128 \<le> (of_char d :: nat) \<and> (of_char d :: nat) \<le> 159))
      \<or> has_control_char cs)"

definition path_must_be_safe :: "string \<Rightarrow> (endpoint_error, unit) result" where
  "path_must_be_safe p = check_all
     [require (p \<noteq> []) Path_empty,
      require (\<not> has_control_char p) Path_control_character,
      require (starts_with ''/'' p) Path_not_absolute,
      require (''..'' \<notin> set (split_on (CHR ''/'') p)) Path_traversal]"

text \<open>\<open>value & 0o077\<close> keeps the six low bits, which is \<open>mod 64\<close>; \<open>0o777\<close> is 511.\<close>

definition mode_must_be_owner_only :: "int \<Rightarrow> (endpoint_error, unit) result" where
  "mode_must_be_owner_only v = check_all
     [require (0 \<le> v \<and> v \<le> 511) Mode_out_of_range,
      require (v mod 64 = 0) Mode_group_or_other]"

definition make_unix :: "string \<Rightarrow> int \<Rightarrow> (endpoint_error, endpoint) result" where
  "make_unix p v =
     rthen (path_must_be_safe p) (rthen (mode_must_be_owner_only v) (Inr (UnixSocketEndpoint p v)))"

subsection \<open>Channels, requests and the durable record\<close>

record transport_ref =
  tr_provider :: string
  tr_channel_id :: string
  tr_line_role :: line_role
  tr_caps :: "string list"
  tr_target_ref :: frozen
  tr_opts :: frozen
  tr_secret_refs :: "string list"

record open_request =
  req_target_key :: target_key
  req_generation :: int
  req_transport_ref :: transport_ref
  req_required_caps :: "string list"
  req_platform :: platform_metadata
  req_lease :: "lease_info option"
  req_min_lease_ttl :: "int option"

record break_plan =
  bp_method :: break_method
  bp_channel_id :: string
  bp_rationale :: string

datatype error_category =
    CONFIGURATION_ERROR | MISSING_DEPENDENCY | BUILD_FAILURE | BOOT_TIMEOUT | READINESS_FAILURE | TEST_FAILURE
  | DEBUG_ATTACH_FAILURE | INFRASTRUCTURE_FAILURE | NOT_IMPLEMENTED | STALE_HANDLE | TRANSPORT_CONFLICT

record artifact_ref =
  ar_path :: string
  ar_kind :: string
  ar_sensitive :: bool
  ar_description :: "string option"

record transport_session =
  session_id :: string
  ts_target_key :: target_key
  ts_generation :: int
  ts_provider :: string
  ts_channel_id :: string
  console_endpoint :: "endpoint option"
  rsp_endpoint :: "endpoint option"
  record_state :: record_state
  console_lease_token :: "string option"
  stop_guard_token :: "string option"
  attach_epoch :: int
  ts_break_plan :: "break_plan option"
  execution_state :: execution_state
  backend_pid :: "int option"
  backend_start_time :: "string option"
  created_at :: int
  ended_at :: "int option"
  ts_artifacts :: "artifact_ref list"

definition default_min_lease_ttl_seconds :: int where
  "default_min_lease_ttl_seconds = 300"

end
