(* ===== verification/Admission.thy ===== *)
theory Admission
  imports Target TransportState
begin

text \<open>
  Models \<open>src/kdive/coordination/admission.py\<close>: the admission gate of a target.

  Every public operation takes the target's key lock for its whole body, so it is one step on the
  service's state; it either raises, and then has changed nothing, or returns a value and the new
  state. A handle is a mutable object shared by the binding table and its owner: it lives in
  \<open>handles\<close>, a store the handles are appended to, and is named by its index there. Times are in
  microseconds, \<open>now\<close> is the argument or the clock's reading. The uuid of a handle is an argument.
\<close>

datatype adm_code =
    Snapshot_missing | Snapshot_generation_regression | Target_not_ready | Target_mismatch
  | Not_recovery_required | Stale_platform | Admission_closed | Recovery_required | Stale_handle
  | Insufficient_caps | Foreign_ref | Stale_lease | Lease_near_expiry | Execution_state_unknown
  | Target_halted | Handle_not_pending | Admission_cancelled | Execution_state_changed
  | Invalid_terminal_transition | Reaper_confirmation_required | Reap_not_permitted
  | Handle_already_disposed | Abandon_not_permitted | Generation_not_advanced | Bindings_outstanding

text \<open>The category each code is raised with.\<close>

fun category :: "adm_code \<Rightarrow> error_category" where
  "category Snapshot_generation_regression = CONFIGURATION_ERROR"
| "category Target_mismatch = CONFIGURATION_ERROR"
| "category Stale_platform = CONFIGURATION_ERROR"
| "category Insufficient_caps = CONFIGURATION_ERROR"
| "category Foreign_ref = CONFIGURATION_ERROR"
| "category Stale_lease = CONFIGURATION_ERROR"
| "category Stale_handle = STALE_HANDLE"
| "category _ = READINESS_FAILURE"

datatype admission_op = TRANSPORT_OPEN | SSH_TIER

datatype admission_state = PENDING | PROMOTED | ROLLED_BACK | COMPLETED | ABANDONED

text \<open>The proof's state is not type-checked at run time, so it is any string.\<close>

record execution_proof =
  ep_generation :: int
  ep_epoch :: int
  ep_state :: string

definition execution_state_of :: "string \<Rightarrow> execution_state option" where
  "execution_state_of s =
     (if s = ''executing'' then Some EXECUTING
      else if s = ''halted'' then Some HALTED
      else if s = ''unknown'' then Some UNKNOWN
      else None)"

record target_snapshot =
  ss_generation :: int
  ss_transports :: "transport_ref list"
  ss_platform :: platform_metadata
  ss_state :: target_state
  ss_lease :: "lease_info option"

record admission_handle =
  ah_handle_id :: string
  ah_target_key :: target_key
  ah_generation :: int
  ah_admit_epoch :: int
  ah_op :: admission_op
  ah_channel :: "transport_ref option"
  ah_platform :: platform_metadata
  ah_recovery :: bool
  ah_state :: admission_state
  ah_cancel :: bool
  ah_reaped :: bool

type_synonym href = nat

record admission =
  store :: "target_key \<rightharpoonup> target_snapshot"
  default_min_lease_ttl :: int
  bindings :: "target_key \<Rightarrow> href list"
  closed_at :: "target_key \<rightharpoonup> int"
  recovery_required :: "target_key \<rightharpoonup> int"
  exec_epoch :: "target_key \<rightharpoonup> int"
  handles :: "admission_handle list"

definition new_admission :: "int \<Rightarrow> admission" where
  "new_admission ttl =
     \<lparr>store = Map.empty, default_min_lease_ttl = ttl, bindings = (\<lambda>_. []), closed_at = Map.empty,
      recovery_required = Map.empty, exec_epoch = Map.empty, handles = []\<rparr>"

definition non_live_states :: "target_state set" where
  "non_live_states = {ACQUIRING, PREPARING, BOOTING, RESETTING, RELEASING, TS_CRASHED}"

subsection \<open>Snapshots and epochs\<close>

definition store_put ::
  "target_key \<Rightarrow> target_snapshot \<Rightarrow> (target_key \<rightharpoonup> target_snapshot) \<Rightarrow> (adm_code, target_key \<rightharpoonup> target_snapshot) result" where
  "store_put k snap m =
     (case m k of
        Some current \<Rightarrow>
          (if ss_generation snap < ss_generation current then Inl Snapshot_generation_regression
           else Inr (m(k \<mapsto> snap)))
      | None \<Rightarrow> Inr (m(k \<mapsto> snap)))"

definition publish_snapshot :: "target_key \<Rightarrow> target_snapshot \<Rightarrow> admission \<Rightarrow> (adm_code, admission) result" where
  "publish_snapshot k snap a = rbind (store_put k snap (store a)) (\<lambda>m. Inr (a\<lparr>store := m\<rparr>))"

definition publish_ready_snapshot ::
  "target_key \<Rightarrow> int \<Rightarrow> transport_ref list \<Rightarrow> platform_metadata \<Rightarrow> lease_info option
     \<Rightarrow> admission \<Rightarrow> (adm_code, admission) result" where
  "publish_ready_snapshot k gen ts plat lease a =
     publish_snapshot k \<lparr>ss_generation = gen, ss_transports = ts, ss_platform = plat,
       ss_state = TS_READY, ss_lease = lease\<rparr> a"

definition current_snapshot :: "target_key \<Rightarrow> admission \<Rightarrow> target_snapshot option" where
  "current_snapshot k a = store a k"

definition require_target_snapshot :: "target_key \<Rightarrow> admission \<Rightarrow> (adm_code, target_snapshot) result" where
  "require_target_snapshot k a =
     (case current_snapshot k a of None \<Rightarrow> Inl Snapshot_missing | Some snap \<Rightarrow> Inr snap)"

definition current_execution_epoch :: "target_key \<Rightarrow> admission \<Rightarrow> int" where
  "current_execution_epoch k a = (case exec_epoch a k of None \<Rightarrow> 0 | Some e \<Rightarrow> e)"

definition generation_current :: "target_key \<Rightarrow> int \<Rightarrow> admission \<Rightarrow> bool" where
  "generation_current k gen a = (case store a k of None \<Rightarrow> False | Some snap \<Rightarrow> gen = ss_generation snap)"

definition note_execution_transition :: "target_key \<Rightarrow> int \<Rightarrow> admission \<Rightarrow> int \<times> admission" where
  "note_execution_transition k gen a =
     (if \<not> generation_current k gen a then (current_execution_epoch k a, a)
      else let epoch = current_execution_epoch k a + 1 in (epoch, a\<lparr>exec_epoch := (exec_epoch a)(k \<mapsto> epoch)\<rparr>))"

subsection \<open>The checks of an admission\<close>

definition bind_snapshot :: "target_key \<Rightarrow> int \<Rightarrow> bool \<Rightarrow> admission \<Rightarrow> (adm_code, target_snapshot) result" where
  "bind_snapshot k gen recovery a =
     (if closed_at a k \<noteq> None then Inl Admission_closed
      else if \<not> recovery \<and> (case recovery_required a k of
                None \<Rightarrow> False
              | Some tomb \<Rightarrow> (case store a k of None \<Rightarrow> True | Some snap \<Rightarrow> tomb \<ge> ss_generation snap))
           then Inl Recovery_required
      else case store a k of
             None \<Rightarrow> Inl Stale_handle
           | Some snap \<Rightarrow> (if gen \<noteq> ss_generation snap then Inl Stale_handle else Inr snap))"

text \<open>The first offered channel with the request's identity must agree with it.\<close>

fun rebind_loop :: "transport_ref \<Rightarrow> transport_ref list \<Rightarrow> (adm_code, transport_ref) result" where
  "rebind_loop ref [] = Inl Foreign_ref"
| "rebind_loop ref (offered # rest) =
     (if tr_provider offered = tr_provider ref \<and> tr_channel_id offered = tr_channel_id ref
      then if py_eq (tr_target_ref offered) (tr_target_ref ref) \<and> tr_line_role offered = tr_line_role ref
              \<and> tr_caps offered = tr_caps ref
           then Inr offered
           else Inl Foreign_ref
      else rebind_loop ref rest)"

definition rebind :: "transport_ref \<Rightarrow> target_snapshot \<Rightarrow> (adm_code, transport_ref) result" where
  "rebind ref snap = rebind_loop ref (ss_transports snap)"

definition check_caps :: "string list \<Rightarrow> transport_ref \<Rightarrow> (adm_code, unit) result" where
  "check_caps required channel = require (set required \<subseteq> set (tr_caps channel)) Insufficient_caps"

definition check_platform_drift :: "target_snapshot \<Rightarrow> platform_metadata \<Rightarrow> (adm_code, unit) result" where
  "check_platform_drift snap plat = require (plat = ss_platform snap) Stale_platform"

definition check_lease_identity :: "target_snapshot \<Rightarrow> lease_info option \<Rightarrow> (adm_code, unit) result" where
  "check_lease_identity snap lease =
     (case ss_lease snap of
        None \<Rightarrow> Inr ()
      | Some l \<Rightarrow>
          (case lease of
             None \<Rightarrow> Inl Stale_lease
           | Some r \<Rightarrow> require (lease_id r = lease_id l) Stale_lease))"

definition check_lease_ttl :: "admission \<Rightarrow> target_snapshot \<Rightarrow> int option \<Rightarrow> int \<Rightarrow> (adm_code, unit) result" where
  "check_lease_ttl a snap min_lease_ttl now =
     (case ss_lease snap of
        None \<Rightarrow> Inr ()
      | Some l \<Rightarrow>
          (case expires_at l of
             None \<Rightarrow> Inr ()
           | Some t \<Rightarrow>
               (let min_ttl = (case min_lease_ttl of None \<Rightarrow> default_min_lease_ttl a | Some n \<Rightarrow> n)
                in if t \<le> now + min_ttl * 1000000 then Inl Lease_near_expiry else Inr ())))"

definition reject_non_live :: "target_state \<Rightarrow> (adm_code, unit) result" where
  "reject_non_live st = require (st \<notin> non_live_states) Target_not_ready"

definition validate_open ::
  "target_key \<Rightarrow> open_request \<Rightarrow> int \<Rightarrow> bool \<Rightarrow> admission \<Rightarrow> (adm_code, target_snapshot \<times> transport_ref) result" where
  "validate_open k req now recovery a =
     rthen (require (req_target_key req = k) Target_mismatch)
    (rbind (bind_snapshot k (req_generation req) recovery a) (\<lambda>snap.
     rbind (rebind (req_transport_ref req) snap) (\<lambda>channel.
     rthen (check_caps (req_required_caps req) channel)
    (rthen (check_platform_drift snap (req_platform req))
    (rthen (check_lease_identity snap (req_lease req))
    (rthen (check_lease_ttl a snap (req_min_lease_ttl req) now)
    (rthen (reject_non_live (ss_state snap))
           (Inr (snap, channel)))))))))"

definition require_recovery_tombstone :: "target_key \<Rightarrow> target_snapshot \<Rightarrow> admission \<Rightarrow> (adm_code, unit) result" where
  "require_recovery_tombstone k snap a =
     require (recovery_required a k = Some (ss_generation snap)) Not_recovery_required"

definition require_executing_proof ::
  "target_key \<Rightarrow> target_snapshot \<Rightarrow> execution_proof option \<Rightarrow> admission \<Rightarrow> (adm_code, unit) result" where
  "require_executing_proof k snap proof a =
     (case proof of
        None \<Rightarrow> Inl Execution_state_unknown
      | Some p \<Rightarrow>
          (case execution_state_of (ep_state p) of
             None \<Rightarrow> Inl Execution_state_unknown
           | Some st \<Rightarrow>
               (if st = UNKNOWN then Inl Execution_state_unknown
                else if ep_generation p \<noteq> ss_generation snap then Inl Stale_handle
                else if ep_epoch p \<noteq> current_execution_epoch k a then Inl Execution_state_unknown
                else if st = HALTED then Inl Target_halted
                else if st \<noteq> EXECUTING then Inl Execution_state_unknown
                else Inr ())))"

subsection \<open>Admission\<close>

definition register ::
  "string \<Rightarrow> target_key \<Rightarrow> admission_op \<Rightarrow> transport_ref option \<Rightarrow> target_snapshot \<Rightarrow> bool \<Rightarrow> admission \<Rightarrow> href \<times> admission" where
  "register uuid k op channel snap recovery a =
     (let h = length (handles a);
          handle = \<lparr>ah_handle_id = uuid, ah_target_key = k, ah_generation = ss_generation snap,
                    ah_admit_epoch = current_execution_epoch k a, ah_op = op, ah_channel = channel,
                    ah_platform = ss_platform snap, ah_recovery = recovery, ah_state = PENDING,
                    ah_cancel = False, ah_reaped = False\<rparr>
      in (h, a\<lparr>handles := handles a @ [handle], bindings := (bindings a)(k := bindings a k @ [h])\<rparr>))"

definition admit ::
  "string \<Rightarrow> target_key \<Rightarrow> open_request \<Rightarrow> int \<Rightarrow> admission \<Rightarrow> (adm_code, href \<times> admission) result" where
  "admit uuid k req now a =
     rbind (validate_open k req now False a) (\<lambda>(snap, channel).
     rthen (require (ss_state snap = TS_READY) Target_not_ready)
           (Inr (register uuid k TRANSPORT_OPEN (Some channel) snap False a)))"

definition admit_recovery ::
  "string \<Rightarrow> target_key \<Rightarrow> open_request \<Rightarrow> int \<Rightarrow> admission \<Rightarrow> (adm_code, href \<times> admission) result" where
  "admit_recovery uuid k req now a =
     rbind (validate_open k req now True a) (\<lambda>(snap, channel).
     rthen (require_recovery_tombstone k snap a)
           (Inr (register uuid k TRANSPORT_OPEN (Some channel) snap True a)))"

record ssh_request =
  sr_generation :: int
  sr_platform :: platform_metadata
  sr_lease :: "lease_info option"
  sr_min_lease_ttl :: "int option"
  sr_execution_proof :: "execution_proof option"

definition admit_ssh_tier ::
  "string \<Rightarrow> target_key \<Rightarrow> ssh_request \<Rightarrow> int \<Rightarrow> admission \<Rightarrow> (adm_code, href \<times> admission) result" where
  "admit_ssh_tier uuid k req now a =
     rbind (bind_snapshot k (sr_generation req) False a) (\<lambda>snap.
     rthen (check_platform_drift snap (sr_platform req))
    (rthen (check_lease_identity snap (sr_lease req))
    (rthen (check_lease_ttl a snap (sr_min_lease_ttl req) now)
    (rthen (reject_non_live (ss_state snap))
    (rthen (if ss_state snap \<noteq> TS_READY then require_executing_proof k snap (sr_execution_proof req) a
            else Inr ())
           (Inr (register uuid k SSH_TIER None snap False a)))))))"

subsection \<open>Handles\<close>

definition upd_handle :: "href \<Rightarrow> (admission_handle \<Rightarrow> admission_handle) \<Rightarrow> admission \<Rightarrow> admission" where
  "upd_handle h f a = a\<lparr>handles := (handles a)[h := f (handles a ! h)]\<rparr>"

abbreviation handle_of :: "admission \<Rightarrow> href \<Rightarrow> admission_handle" where
  "handle_of a h \<equiv> handles a ! h"

definition cancel_all :: "href list \<Rightarrow> admission \<Rightarrow> admission" where
  "cancel_all hs a = foldl (\<lambda>a h. upd_handle h (\<lambda>x. x\<lparr>ah_cancel := True\<rparr>) a) a hs"

definition cancel_ssh_tier :: "target_key \<Rightarrow> int \<Rightarrow> int \<Rightarrow> admission \<Rightarrow> href list \<times> admission" where
  "cancel_ssh_tier k gen halt_epoch a =
     (if \<not> generation_current k gen a then ([], a)
      else let hs = filter (\<lambda>h. ah_op (handle_of a h) = SSH_TIER \<and> ah_generation (handle_of a h) = gen
                              \<and> ah_admit_epoch (handle_of a h) \<le> halt_epoch) (bindings a k)
           in (hs, cancel_all hs a))"

definition epoch_stale_for_op :: "href \<Rightarrow> admission \<Rightarrow> bool" where
  "epoch_stale_for_op h a \<longleftrightarrow>
     ah_op (handle_of a h) = SSH_TIER
     \<and> ah_admit_epoch (handle_of a h) \<noteq> current_execution_epoch (ah_target_key (handle_of a h)) a"

definition promote :: "href \<Rightarrow> admission \<Rightarrow> (adm_code, admission) result" where
  "promote h a =
     (let hnd = handle_of a h in
      if h \<notin> set (bindings a (ah_target_key hnd)) \<or> ah_state hnd \<noteq> PENDING then Inl Handle_not_pending
      else if ah_cancel hnd then Inl Admission_cancelled
      else Inr (upd_handle h (\<lambda>x. x\<lparr>ah_state := PROMOTED\<rparr>) a))"

definition dispose :: "href \<Rightarrow> admission_state \<Rightarrow> admission \<Rightarrow> (adm_code, admission) result" where
  "dispose h terminal a =
     (let hnd = handle_of a h; k = ah_target_key hnd in
      if h \<notin> set (bindings a k) \<or> ah_state hnd \<notin> {PENDING, PROMOTED} then Inl Handle_already_disposed
      else Inr ((upd_handle h (\<lambda>x. x\<lparr>ah_state := terminal\<rparr>) a)\<lparr>bindings := (bindings a)(k := remove1 h (bindings a k))\<rparr>))"

definition complete :: "href \<Rightarrow> admission \<Rightarrow> (adm_code, admission) result" where
  "complete h a =
     (let hnd = handle_of a h in
      if ah_cancel hnd then Inl Admission_cancelled
      else if epoch_stale_for_op h a then Inl Execution_state_changed
      else if ah_state hnd = PENDING \<and> ah_op hnd = TRANSPORT_OPEN then Inl Invalid_terminal_transition
      else dispose h COMPLETED a)"

definition rollback :: "href \<Rightarrow> admission \<Rightarrow> (adm_code, admission) result" where
  "rollback h a =
     (let hnd = handle_of a h in
      if ah_state hnd = PROMOTED \<and> closed_at a (ah_target_key hnd) \<noteq> None \<and> \<not> ah_reaped hnd
      then Inl Reaper_confirmation_required
      else dispose h ROLLED_BACK a)"

definition confirm_reaped :: "href \<Rightarrow> admission \<Rightarrow> (adm_code, admission) result" where
  "confirm_reaped h a =
     (let hnd = handle_of a h in
      if closed_at a (ah_target_key hnd) = None \<or> \<not> ah_cancel hnd then Inl Reap_not_permitted
      else if h \<notin> set (bindings a (ah_target_key hnd)) then Inl Handle_already_disposed
      else Inr (upd_handle h (\<lambda>x. x\<lparr>ah_reaped := True\<rparr>) a))"

definition abandon :: "href \<Rightarrow> admission \<Rightarrow> (adm_code, admission) result" where
  "abandon h a =
     (let hnd = handle_of a h in
      if closed_at a (ah_target_key hnd) = None \<or> \<not> ah_cancel hnd then Inl Abandon_not_permitted
      else if \<not> ah_reaped hnd then Inl Reaper_confirmation_required
      else dispose h ABANDONED a)"

subsection \<open>Closing and reopening\<close>

definition is_stale_lifecycle_close :: "target_key \<Rightarrow> int \<Rightarrow> admission \<Rightarrow> bool" where
  "is_stale_lifecycle_close k gen a =
     (if closed_at a k \<noteq> None then False
      else case store a k of None \<Rightarrow> False | Some snap \<Rightarrow> ss_generation snap > gen)"

definition close_admission :: "target_key \<Rightarrow> int \<Rightarrow> admission \<Rightarrow> href list \<times> admission" where
  "close_admission k gen a =
     (if closed_at a k = None \<and> is_stale_lifecycle_close k gen a then ([], a)
      else let a1 = (if closed_at a k = None then a\<lparr>closed_at := (closed_at a)(k \<mapsto> gen)\<rparr> else a);
               hs = bindings a1 k
           in (hs, cancel_all hs a1))"

definition reopen :: "target_key \<Rightarrow> admission \<Rightarrow> (adm_code, admission) result" where
  "reopen k a =
     (case closed_at a k of
        None \<Rightarrow> Inr a
      | Some closed \<Rightarrow>
          (if (case store a k of None \<Rightarrow> True | Some snap \<Rightarrow> ss_generation snap \<le> closed)
           then Inl Generation_not_advanced
           else if bindings a k \<noteq> [] then Inl Bindings_outstanding
           else Inr (a\<lparr>closed_at := (closed_at a)(k := None)\<rparr>)))"

definition mark_recovery_required :: "target_key \<Rightarrow> int \<Rightarrow> admission \<Rightarrow> admission" where
  "mark_recovery_required k gen a =
     (case recovery_required a k of
        Some existing \<Rightarrow> (if gen < existing then a else a\<lparr>recovery_required := (recovery_required a)(k \<mapsto> gen)\<rparr>)
      | None \<Rightarrow> a\<lparr>recovery_required := (recovery_required a)(k \<mapsto> gen)\<rparr>)"

definition clear_recovery_required :: "target_key \<Rightarrow> int \<Rightarrow> admission \<Rightarrow> admission" where
  "clear_recovery_required k expected a =
     (if recovery_required a k = Some expected
      then a\<lparr>recovery_required := (recovery_required a)(k := None)\<rparr> else a)"

text \<open>
  The part of \<open>invalidate_lifecycle\<close> under the key lock: the staleness decision and step 1. The
  flag says whether \<open>dispatcher.emit\<close> (step 2, outside the lock) follows.
\<close>

definition invalidate_close :: "target_key \<Rightarrow> int \<Rightarrow> bool \<Rightarrow> admission \<Rightarrow> bool \<times> admission" where
  "invalidate_close k gen close a =
     (if is_stale_lifecycle_close k gen a then (False, a)
      else (True, if close then snd (close_admission k gen a) else a))"

end
