(* ===== verification/AdmissionInv.thy ===== *)
theory AdmissionInv
  imports Admission
begin

text \<open>
  The admission service as a state machine over its operations, its reachable states, the
  invariant of the binding table and the monotone quantities, and the fence it implements for one
  target, an abstract machine of its own.
\<close>

datatype adm_call =
    Publish target_key target_snapshot
  | Note target_key int
  | Admit string target_key open_request int
  | Admit_recovery string target_key open_request int
  | Admit_ssh string target_key ssh_request int
  | Cancel_ssh target_key int int
  | Promote href
  | Complete href
  | Rollback href
  | Confirm_reaped href
  | Abandon href
  | Close target_key int
  | Reopen target_key
  | Mark target_key int
  | Clear target_key int
  | Invalidate target_key int bool

fun run_call :: "adm_call \<Rightarrow> admission \<Rightarrow> (adm_code, admission) result" where
  "run_call (Publish k snap) a = publish_snapshot k snap a"
| "run_call (Note k gen) a = Inr (snd (note_execution_transition k gen a))"
| "run_call (Admit u k req now) a = rbind (admit u k req now a) (\<lambda>(h, a'). Inr a')"
| "run_call (Admit_recovery u k req now) a = rbind (admit_recovery u k req now a) (\<lambda>(h, a'). Inr a')"
| "run_call (Admit_ssh u k req now) a = rbind (admit_ssh_tier u k req now a) (\<lambda>(h, a'). Inr a')"
| "run_call (Cancel_ssh k gen e) a = Inr (snd (cancel_ssh_tier k gen e a))"
| "run_call (Promote h) a = promote h a"
| "run_call (Complete h) a = complete h a"
| "run_call (Rollback h) a = rollback h a"
| "run_call (Confirm_reaped h) a = confirm_reaped h a"
| "run_call (Abandon h) a = abandon h a"
| "run_call (Close k gen) a = Inr (snd (close_admission k gen a))"
| "run_call (Reopen k) a = reopen k a"
| "run_call (Mark k gen) a = Inr (mark_recovery_required k gen a)"
| "run_call (Clear k gen) a = Inr (clear_recovery_required k gen a)"
| "run_call (Invalidate k gen cl) a = Inr (snd (invalidate_close k gen cl a))"

text \<open>A call that raises leaves the state as it was.\<close>

definition after_call :: "adm_call \<Rightarrow> admission \<Rightarrow> admission" where
  "after_call c a = (case run_call c a of Inl e \<Rightarrow> a | Inr a' \<Rightarrow> a')"

fun run_calls :: "adm_call list \<Rightarrow> admission \<Rightarrow> admission" where
  "run_calls [] a = a"
| "run_calls (c # cs) a = run_calls cs (after_call c a)"

inductive reachable :: "admission \<Rightarrow> bool" where
  start: "reachable (new_admission ttl)"
| call: "reachable a \<Longrightarrow> reachable (after_call c a)"

lemma reachable_run: "reachable a \<Longrightarrow> reachable (run_calls cs a)"
  by (induction cs arbitrary: a) (auto intro: reachable.call)

subsection \<open>What the primitives do to the handles\<close>

lemma upd_handle_simps [simp]:
  "store (upd_handle h f a) = store a" "bindings (upd_handle h f a) = bindings a"
  "closed_at (upd_handle h f a) = closed_at a" "recovery_required (upd_handle h f a) = recovery_required a"
  "exec_epoch (upd_handle h f a) = exec_epoch a" "default_min_lease_ttl (upd_handle h f a) = default_min_lease_ttl a"
  "length (handles (upd_handle h f a)) = length (handles a)"
  by (simp_all add: upd_handle_def)

lemma upd_handle_nth:
  "i < length (handles a) \<Longrightarrow> handle_of (upd_handle h f a) i = (if i = h then f (handle_of a i) else handle_of a i)"
  by (auto simp: upd_handle_def nth_list_update)

lemma cancel_all_frame [simp]:
  "store (cancel_all hs a) = store a" "bindings (cancel_all hs a) = bindings a"
  "closed_at (cancel_all hs a) = closed_at a" "recovery_required (cancel_all hs a) = recovery_required a"
  "exec_epoch (cancel_all hs a) = exec_epoch a" "length (handles (cancel_all hs a)) = length (handles a)"
  unfolding cancel_all_def by (induction hs arbitrary: a) simp_all

lemma cancel_all_nth:
  "i < length (handles a) \<Longrightarrow>
     handle_of (cancel_all hs a) i = (if i \<in> set hs then (handle_of a i)\<lparr>ah_cancel := True\<rparr> else handle_of a i)"
  unfolding cancel_all_def
  by (induction hs arbitrary: a) (auto simp: upd_handle_nth)

lemma current_epoch_cong: "exec_epoch a = exec_epoch b \<Longrightarrow> current_execution_epoch k a = current_execution_epoch k b"
  by (simp add: current_execution_epoch_def)

subsection \<open>The invariant\<close>

abbreviation live_states :: "admission_state set" where
  "live_states \<equiv> {PENDING, PROMOTED}"

text \<open>The facts of one handle: \<open>b\<close> says whether its target is closed, \<open>e\<close> and \<open>g\<close> bound its fences.\<close>

definition handle_ok :: "admission \<Rightarrow> admission_handle \<Rightarrow> bool" where
  "handle_ok a x \<longleftrightarrow>
     (closed_at a (ah_target_key x) \<noteq> None \<and> ah_state x \<in> live_states \<longrightarrow> ah_cancel x)
     \<and> ah_admit_epoch x \<le> current_execution_epoch (ah_target_key x) a
     \<and> (\<exists>snap. store a (ah_target_key x) = Some snap \<and> ah_generation x \<le> ss_generation snap)
     \<and> (ah_reaped x \<longrightarrow> ah_cancel x)
     \<and> (ah_channel x = None \<longleftrightarrow> ah_op x = SSH_TIER)"

definition table_ok :: "admission \<Rightarrow> bool" where
  "table_ok a \<longleftrightarrow>
     (\<forall>k h. h \<in> set (bindings a k) \<longleftrightarrow>
        h < length (handles a) \<and> ah_state (handle_of a h) \<in> live_states \<and> ah_target_key (handle_of a h) = k)
     \<and> (\<forall>k. distinct (bindings a k))"

definition adm_ok :: "admission \<Rightarrow> bool" where
  "adm_ok a \<longleftrightarrow> table_ok a \<and> (\<forall>h < length (handles a). handle_ok a (handle_of a h))"

lemma adm_okI:
  "table_ok a \<Longrightarrow> (\<And>h. h < length (handles a) \<Longrightarrow> handle_ok a (handle_of a h)) \<Longrightarrow> adm_ok a"
  by (simp add: adm_ok_def)

lemma adm_ok_handle: "adm_ok a \<Longrightarrow> h < length (handles a) \<Longrightarrow> handle_ok a (handle_of a h)"
  by (simp add: adm_ok_def)

lemma adm_ok_table: "adm_ok a \<Longrightarrow> table_ok a"
  by (simp add: adm_ok_def)

lemma table_mem:
  "table_ok a \<Longrightarrow> h \<in> set (bindings a k) \<longleftrightarrow>
     h < length (handles a) \<and> ah_state (handle_of a h) \<in> live_states \<and> ah_target_key (handle_of a h) = k"
  by (simp add: table_ok_def)

lemma table_ok_cong:
  assumes "table_ok a" and "bindings b = bindings a" and "length (handles b) = length (handles a)"
    and "\<And>h. h < length (handles a) \<Longrightarrow> ah_target_key (handle_of b h) = ah_target_key (handle_of a h)
            \<and> (ah_state (handle_of b h) \<in> live_states \<longleftrightarrow> ah_state (handle_of a h) \<in> live_states)"
  shows "table_ok b"
  using assms unfolding table_ok_def by metis

lemma adm_ok_new: "adm_ok (new_admission ttl)"
  by (simp add: adm_ok_def table_ok_def new_admission_def)

text \<open>Changing the maps only.\<close>

lemma adm_ok_maps:
  assumes "adm_ok a" and "bindings b = bindings a" and "handles b = handles a"
    and "\<And>h. h < length (handles a) \<Longrightarrow> handle_ok a (handle_of a h) \<Longrightarrow> handle_ok b (handle_of a h)"
  shows "adm_ok b"
  using assms table_ok_cong [OF adm_ok_table [OF assms(1)], of b]
  by (simp add: adm_ok_def)

lemma adm_ok_publish:
  assumes "adm_ok a" and "publish_snapshot k snap a = Inr a'"
  shows "adm_ok a'"
proof (rule adm_ok_maps [OF assms(1)])
  fix h assume "handle_ok a (handle_of a h)"
  then show "handle_ok a' (handle_of a h)"
    using assms(2)
    by (auto simp: publish_snapshot_def store_put_def handle_ok_def current_execution_epoch_def
        split: option.splits if_splits)
qed (use assms(2) in \<open>auto simp: publish_snapshot_def\<close>)

lemma adm_ok_note: "adm_ok a \<Longrightarrow> adm_ok (snd (note_execution_transition k gen a))"
  by (erule adm_ok_maps)
    (auto simp: note_execution_transition_def Let_def handle_ok_def current_execution_epoch_def split: option.splits)

lemma adm_ok_mark: "adm_ok a \<Longrightarrow> adm_ok (mark_recovery_required k gen a)"
  by (erule adm_ok_maps)
    (auto simp: mark_recovery_required_def handle_ok_def current_execution_epoch_def split: option.splits)

lemma adm_ok_clear: "adm_ok a \<Longrightarrow> adm_ok (clear_recovery_required k gen a)"
  by (erule adm_ok_maps) (auto simp: clear_recovery_required_def handle_ok_def current_execution_epoch_def)

lemma adm_ok_reopen: "adm_ok a \<Longrightarrow> reopen k a = Inr a' \<Longrightarrow> adm_ok a'"
  by (erule adm_ok_maps)
    (auto simp: reopen_def handle_ok_def current_execution_epoch_def split: option.splits if_splits)

text \<open>A new handle on an open target.\<close>

lemma register_fields:
  assumes "register u k op ch snap rec a = (h, a')"
  shows "h = length (handles a)" and "bindings a' = (bindings a)(k := bindings a k @ [h])"
    and "\<exists>x. handles a' = handles a @ [x] \<and> ah_target_key x = k \<and> ah_op x = op \<and> ah_channel x = ch
           \<and> ah_generation x = ss_generation snap \<and> ah_admit_epoch x = current_execution_epoch k a
           \<and> ah_platform x = ss_platform snap \<and> ah_recovery x = rec \<and> ah_state x = PENDING
           \<and> \<not> ah_cancel x \<and> \<not> ah_reaped x \<and> ah_handle_id x = u"
    and "store a' = store a" and "closed_at a' = closed_at a" and "exec_epoch a' = exec_epoch a"
    and "recovery_required a' = recovery_required a"
  using assms by (auto simp: register_def Let_def)

lemma adm_ok_register:
  assumes ok: "adm_ok a" and reg: "register u k op ch snap rec a = (h, a')"
    and "closed_at a k = None" and "store a k = Some snap" and "ch = None \<longleftrightarrow> op = SSH_TIER"
  shows "adm_ok a'"
proof -
  note f = register_fields [OF reg]
  obtain x where x: "handles a' = handles a @ [x]" "ah_target_key x = k" "ah_op x = op" "ah_channel x = ch"
    "ah_generation x = ss_generation snap" "ah_admit_epoch x = current_execution_epoch k a"
    "ah_state x = PENDING" "\<not> ah_cancel x" "\<not> ah_reaped x"
    using f(3) by blast
  have mem: "h' \<in> set (bindings a k') \<longleftrightarrow>
      h' < length (handles a) \<and> ah_state (handle_of a h') \<in> live_states \<and> ah_target_key (handle_of a h') = k'" for h' k'
    by (rule table_mem [OF adm_ok_table [OF ok]])
  show ?thesis
  proof (rule adm_okI)
    show "table_ok a'"
      using adm_ok_table [OF ok] x f(1,2) mem
      by (auto simp: table_ok_def nth_append less_Suc_eq split: if_splits)
    fix i assume i: "i < length (handles a')"
    show "handle_ok a' (handle_of a' i)"
    proof (cases "i < length (handles a)")
      case True
      then show ?thesis
        using adm_ok_handle [OF ok True] x f(4-6) current_epoch_cong [OF f(6)]
        by (simp add: nth_append handle_ok_def)
    next
      case False
      then have "handle_of a' i = x"
        using i x by (simp add: nth_append)
      then show ?thesis
        using x f(4-6) assms(3-5) current_epoch_cong [OF f(6)] by (simp add: handle_ok_def)
    qed
  qed
qed

text \<open>Updating handles in place.\<close>

lemma adm_ok_update:
  assumes ok: "adm_ok a" and "bindings b = bindings a" and "length (handles b) = length (handles a)"
    and "store b = store a" and "exec_epoch b = exec_epoch a"
    and "\<And>h. h < length (handles a) \<Longrightarrow>
          ah_target_key (handle_of b h) = ah_target_key (handle_of a h)
        \<and> (ah_state (handle_of b h) \<in> live_states \<longleftrightarrow> ah_state (handle_of a h) \<in> live_states)
        \<and> ah_admit_epoch (handle_of b h) = ah_admit_epoch (handle_of a h)
        \<and> ah_generation (handle_of b h) = ah_generation (handle_of a h)
        \<and> ah_channel (handle_of b h) = ah_channel (handle_of a h)
        \<and> ah_op (handle_of b h) = ah_op (handle_of a h)
        \<and> (ah_cancel (handle_of a h) \<longrightarrow> ah_cancel (handle_of b h))
        \<and> (ah_reaped (handle_of b h) \<longrightarrow> ah_cancel (handle_of b h))"
    and "\<And>h. closed_at b (ah_target_key (handle_of a h)) \<noteq> None \<Longrightarrow> h < length (handles a) \<Longrightarrow>
          ah_state (handle_of a h) \<in> live_states \<Longrightarrow> ah_cancel (handle_of b h)"
  shows "adm_ok b"
proof (rule adm_okI)
  show "table_ok b"
    using adm_ok_table [OF ok] assms(2,3,6) by (intro table_ok_cong [of a b]) simp_all
  fix h assume h: "h < length (handles b)"
  then have h': "h < length (handles a)"
    using assms(3) by simp
  show "handle_ok b (handle_of b h)"
    using adm_ok_handle [OF ok h'] assms(6) [OF h'] assms(7) [OF _ h'] assms(4)
      current_epoch_cong [OF assms(5)]
    by (simp add: handle_ok_def)
qed

lemma adm_ok_promote:
  assumes "adm_ok a" and "promote h a = Inr a'"
  shows "adm_ok a'"
proof (rule adm_ok_update [OF assms(1)])
  fix i assume i: "i < length (handles a)"
  note hi = adm_ok_handle [OF assms(1) i]
  show "closed_at a' (ah_target_key (handle_of a i)) \<noteq> None \<Longrightarrow> ah_state (handle_of a i) \<in> live_states \<Longrightarrow>
      ah_cancel (handle_of a' i)"
    using assms(2) i hi by (auto simp: promote_def Let_def upd_handle_nth handle_ok_def split: if_splits)
  show "ah_target_key (handle_of a' i) = ah_target_key (handle_of a i)
        \<and> (ah_state (handle_of a' i) \<in> live_states \<longleftrightarrow> ah_state (handle_of a i) \<in> live_states)
        \<and> ah_admit_epoch (handle_of a' i) = ah_admit_epoch (handle_of a i)
        \<and> ah_generation (handle_of a' i) = ah_generation (handle_of a i)
        \<and> ah_channel (handle_of a' i) = ah_channel (handle_of a i)
        \<and> ah_op (handle_of a' i) = ah_op (handle_of a i)
        \<and> (ah_cancel (handle_of a i) \<longrightarrow> ah_cancel (handle_of a' i))
        \<and> (ah_reaped (handle_of a' i) \<longrightarrow> ah_cancel (handle_of a' i))"
    using assms(2) i hi by (auto simp: promote_def Let_def upd_handle_nth handle_ok_def split: if_splits)
qed (use assms(2) in \<open>auto simp: promote_def Let_def split: if_splits\<close>)

lemma adm_ok_confirm_reaped:
  assumes "adm_ok a" and "confirm_reaped h a = Inr a'"
  shows "adm_ok a'"
proof (rule adm_ok_update [OF assms(1)])
  fix i assume i: "i < length (handles a)"
  note hi = adm_ok_handle [OF assms(1) i]
  show "closed_at a' (ah_target_key (handle_of a i)) \<noteq> None \<Longrightarrow> ah_state (handle_of a i) \<in> live_states \<Longrightarrow>
      ah_cancel (handle_of a' i)"
    using assms(2) i hi by (auto simp: confirm_reaped_def Let_def upd_handle_nth handle_ok_def split: if_splits)
  show "ah_target_key (handle_of a' i) = ah_target_key (handle_of a i)
        \<and> (ah_state (handle_of a' i) \<in> live_states \<longleftrightarrow> ah_state (handle_of a i) \<in> live_states)
        \<and> ah_admit_epoch (handle_of a' i) = ah_admit_epoch (handle_of a i)
        \<and> ah_generation (handle_of a' i) = ah_generation (handle_of a i)
        \<and> ah_channel (handle_of a' i) = ah_channel (handle_of a i)
        \<and> ah_op (handle_of a' i) = ah_op (handle_of a i)
        \<and> (ah_cancel (handle_of a i) \<longrightarrow> ah_cancel (handle_of a' i))
        \<and> (ah_reaped (handle_of a' i) \<longrightarrow> ah_cancel (handle_of a' i))"
    using assms(2) i hi by (auto simp: confirm_reaped_def Let_def upd_handle_nth handle_ok_def split: if_splits)
qed (use assms(2) in \<open>auto simp: confirm_reaped_def Let_def split: if_splits\<close>)

lemma adm_ok_cancel_all:
  assumes "adm_ok a"
  shows "adm_ok (cancel_all hs a)"
  by (rule adm_ok_update [OF assms])
    (use adm_ok_handle [OF assms] in \<open>auto simp: cancel_all_nth handle_ok_def\<close>)

lemma adm_ok_close:
  assumes "adm_ok a"
  shows "adm_ok (snd (close_admission k gen a))"
proof (cases "closed_at a k = None \<and> is_stale_lifecycle_close k gen a")
  case True
  then show ?thesis
    using assms by (simp add: close_admission_def)
next
  case False
  let ?a1 = "if closed_at a k = None then a\<lparr>closed_at := (closed_at a)(k \<mapsto> gen)\<rparr> else a"
  have eq: "snd (close_admission k gen a) = cancel_all (bindings a k) ?a1"
    using False by (auto simp: close_admission_def Let_def)
  have f: "handles ?a1 = handles a" "bindings ?a1 = bindings a" "store ?a1 = store a" "exec_epoch ?a1 = exec_epoch a"
    "closed_at ?a1 = (if closed_at a k = None then (closed_at a)(k \<mapsto> gen) else closed_at a)"
    by simp_all
  have nth: "handle_of (cancel_all (bindings a k) ?a1) i =
      (if i \<in> set (bindings a k) then (handle_of a i)\<lparr>ah_cancel := True\<rparr> else handle_of a i)"
    if "i < length (handles a)" for i
    using that cancel_all_nth [of i ?a1 "bindings a k"] f(1) by simp
  show ?thesis
    unfolding eq
  proof (rule adm_ok_update [OF assms])
    fix i assume i: "i < length (handles a)" and "ah_state (handle_of a i) \<in> live_states"
      and "closed_at (cancel_all (bindings a k) ?a1) (ah_target_key (handle_of a i)) \<noteq> None"
    then show "ah_cancel (handle_of (cancel_all (bindings a k) ?a1) i)"
      using adm_ok_handle [OF assms i] table_mem [OF adm_ok_table [OF assms], of i k]
      by (auto simp: nth handle_ok_def split: if_splits)
  qed (use adm_ok_handle [OF assms] nth in \<open>auto simp: handle_ok_def\<close>)
qed

text \<open>A handle leaves the table when it reaches a terminal state.\<close>

lemma dispose_fields:
  assumes "dispose h t a = Inr a'" and "h < length (handles a)"
  shows "h \<in> set (bindings a (ah_target_key (handle_of a h)))" and "ah_state (handle_of a h) \<in> live_states"
    and "bindings a' = (bindings a)(ah_target_key (handle_of a h) :=
            remove1 h (bindings a (ah_target_key (handle_of a h))))"
    and "\<And>i. i < length (handles a) \<Longrightarrow>
            handle_of a' i = (if i = h then (handle_of a h)\<lparr>ah_state := t\<rparr> else handle_of a i)"
    and "length (handles a') = length (handles a)" and "store a' = store a" and "closed_at a' = closed_at a"
    and "exec_epoch a' = exec_epoch a" and "recovery_required a' = recovery_required a"
  using assms by (auto simp: dispose_def Let_def upd_handle_nth upd_handle_def split: if_splits)

lemma dispose_in_range:
  assumes "table_ok a" and "dispose h t a = Inr a'"
  shows "h < length (handles a)"
  using assms by (auto simp: dispose_def Let_def table_mem split: if_splits)

lemma adm_ok_dispose:
  assumes ok: "adm_ok a" and d: "dispose h t a = Inr a'" and t: "t \<notin> live_states"
  shows "adm_ok a'"
proof -
  have h: "h < length (handles a)"
    by (rule dispose_in_range [OF adm_ok_table [OF ok] d])
  note f = dispose_fields [OF d h]
  have mem: "h' \<in> set (bindings a k') \<longleftrightarrow>
      h' < length (handles a) \<and> ah_state (handle_of a h') \<in> live_states \<and> ah_target_key (handle_of a h') = k'" for h' k'
    by (rule table_mem [OF adm_ok_table [OF ok]])
  have dist: "distinct (bindings a k')" for k'
    using adm_ok_table [OF ok] by (simp add: table_ok_def)
  show ?thesis
  proof (rule adm_okI)
    have "h' \<in> set (bindings a' k') \<longleftrightarrow>
       h' < length (handles a') \<and> ah_state (handle_of a' h') \<in> live_states \<and> ah_target_key (handle_of a' h') = k'" for h' k'
    proof (cases "h' < length (handles a)")
      case True
      then show ?thesis
        using f(3,5) f(4) [OF True] t mem [of h' k'] dist [of k'] by (cases "h' = h") auto
    next
      case False
      then show ?thesis
        using f(3,5) mem [of h' k'] by (auto dest: notin_set_remove1)
    qed
    then show "table_ok a'"
      using f(3) dist by (simp add: table_ok_def distinct_remove1)
    fix i assume "i < length (handles a')"
    then have i: "i < length (handles a)"
      using f(5) by simp
    show "handle_ok a' (handle_of a' i)"
      using adm_ok_handle [OF ok i] adm_ok_handle [OF ok h] f(4) [OF i] f(6-8) t current_epoch_cong [OF f(8)]
      by (auto simp: handle_ok_def)
  qed
qed

lemma terminal_dispose:
  "complete h a = Inr a' \<Longrightarrow> dispose h COMPLETED a = Inr a'"
  "rollback h a = Inr a' \<Longrightarrow> dispose h ROLLED_BACK a = Inr a'"
  "abandon h a = Inr a' \<Longrightarrow> dispose h ABANDONED a = Inr a'"
  by (auto simp: complete_def rollback_def abandon_def Let_def split: if_splits)

subsection \<open>When an admission succeeds\<close>

lemma bind_snapshot_Inr:
  "bind_snapshot k gen rec a = Inr snap \<longleftrightarrow>
     closed_at a k = None \<and> store a k = Some snap \<and> gen = ss_generation snap
     \<and> (rec \<or> (\<forall>tomb. recovery_required a k = Some tomb \<longrightarrow> tomb < ss_generation snap))"
  by (auto simp: bind_snapshot_def split: option.splits)

lemma check_lease_ttl_Inr:
  "check_lease_ttl a snap ttl now = Inr () \<longleftrightarrow>
     (\<forall>l t. ss_lease snap = Some l \<longrightarrow> expires_at l = Some t \<longrightarrow>
        now + (case ttl of None \<Rightarrow> default_min_lease_ttl a | Some n \<Rightarrow> n) * 1000000 < t)"
  by (auto simp: check_lease_ttl_def Let_def split: option.splits)

lemma check_lease_identity_Inr:
  "check_lease_identity snap lease = Inr () \<longleftrightarrow>
     (\<forall>l. ss_lease snap = Some l \<longrightarrow> (\<exists>r. lease = Some r \<and> lease_id r = lease_id l))"
  by (auto simp: check_lease_identity_def require_def split: option.splits)

lemma reject_non_live_Inr: "reject_non_live st = Inr () \<longleftrightarrow> st \<in> {TS_READY, DEBUGGING}"
  by (cases st) (auto simp: reject_non_live_def non_live_states_def)

lemma require_executing_proof_Inr:
  "require_executing_proof k snap proof a = Inr () \<longleftrightarrow>
     (\<exists>p. proof = Some p \<and> ep_state p = ''executing'' \<and> ep_generation p = ss_generation snap
        \<and> ep_epoch p = current_execution_epoch k a)"
  by (auto simp: require_executing_proof_def execution_state_of_def split: option.splits if_splits)

lemma validate_open_Inr:
  "validate_open k req now rec a = Inr (snap, ch) \<longleftrightarrow>
     req_target_key req = k \<and> bind_snapshot k (req_generation req) rec a = Inr snap
     \<and> rebind (req_transport_ref req) snap = Inr ch \<and> set (req_required_caps req) \<subseteq> set (tr_caps ch)
     \<and> req_platform req = ss_platform snap \<and> check_lease_identity snap (req_lease req) = Inr ()
     \<and> check_lease_ttl a snap (req_min_lease_ttl req) now = Inr () \<and> ss_state snap \<in> {TS_READY, DEBUGGING}"
  by (auto simp: validate_open_def check_caps_def check_platform_drift_def reject_non_live_Inr)

lemma admit_Inr:
  "admit u k req now a = Inr (h, a') \<longleftrightarrow>
     (\<exists>snap ch. validate_open k req now False a = Inr (snap, ch) \<and> ss_state snap = TS_READY
        \<and> register u k TRANSPORT_OPEN (Some ch) snap False a = (h, a'))"
  by (auto simp: admit_def)

lemma admit_recovery_Inr:
  "admit_recovery u k req now a = Inr (h, a') \<longleftrightarrow>
     (\<exists>snap ch. validate_open k req now True a = Inr (snap, ch)
        \<and> recovery_required a k = Some (ss_generation snap)
        \<and> register u k TRANSPORT_OPEN (Some ch) snap True a = (h, a'))"
  by (auto simp: admit_recovery_def require_recovery_tombstone_def)

lemma admit_ssh_tier_Inr:
  "admit_ssh_tier u k req now a = Inr (h, a') \<longleftrightarrow>
     (\<exists>snap. bind_snapshot k (sr_generation req) False a = Inr snap \<and> sr_platform req = ss_platform snap
        \<and> check_lease_identity snap (sr_lease req) = Inr ()
        \<and> check_lease_ttl a snap (sr_min_lease_ttl req) now = Inr ()
        \<and> (ss_state snap = TS_READY
           \<or> ss_state snap = DEBUGGING \<and> require_executing_proof k snap (sr_execution_proof req) a = Inr ())
        \<and> register u k SSH_TIER None snap False a = (h, a'))"
  by (auto simp: admit_ssh_tier_def check_platform_drift_def reject_non_live_Inr)

text \<open>All three register on an open target and bind its snapshot.\<close>

lemma admissions_register:
  "admit u k req now a = Inr (h, a') \<Longrightarrow>
     \<exists>snap ch. closed_at a k = None \<and> store a k = Some snap
       \<and> register u k TRANSPORT_OPEN (Some ch) snap False a = (h, a')"
  "admit_recovery u k req now a = Inr (h, a') \<Longrightarrow>
     \<exists>snap ch. closed_at a k = None \<and> store a k = Some snap
       \<and> register u k TRANSPORT_OPEN (Some ch) snap True a = (h, a')"
  "admit_ssh_tier u k sreq now a = Inr (h, a') \<Longrightarrow>
     \<exists>snap. closed_at a k = None \<and> store a k = Some snap
       \<and> register u k SSH_TIER None snap False a = (h, a')"
  by (auto simp: admit_Inr admit_recovery_Inr admit_ssh_tier_Inr validate_open_Inr bind_snapshot_Inr)

lemma run_call_register:
  assumes "c \<in> {Admit u k req now, Admit_recovery u k req now, Admit_ssh u k sreq now}"
    and "run_call c a = Inr a'"
  shows "\<exists>h op ch snap rec. register u k op ch snap rec a = (h, a') \<and> closed_at a k = None
     \<and> store a k = Some snap \<and> (ch = None \<longleftrightarrow> op = SSH_TIER)"
  using assms by (auto dest!: admissions_register) blast+

lemma adm_ok_call:
  assumes "adm_ok a" and "run_call c a = Inr a'"
  shows "adm_ok a'"
proof -
  have reg: "adm_ok a'" if "c \<in> {Admit u k req now, Admit_recovery u k req now, Admit_ssh u k sreq now}" for u k req now sreq
    using run_call_register [OF that assms(2)] adm_ok_register [OF assms(1)] by blast
  show ?thesis
  proof (cases c)
    case (Admit u k req now)
    then show ?thesis using reg by blast
  next
    case (Admit_recovery u k req now)
    then show ?thesis using reg by blast
  next
    case (Admit_ssh u k req now)
    then show ?thesis using reg by blast
  qed (use assms in \<open>auto intro: adm_ok_publish adm_ok_note adm_ok_mark adm_ok_clear adm_ok_reopen adm_ok_promote
      adm_ok_confirm_reaped adm_ok_close adm_ok_cancel_all adm_ok_dispose dest: terminal_dispose
      simp: cancel_ssh_tier_def Let_def invalidate_close_def\<close>)
qed

lemma adm_ok_after: "adm_ok a \<Longrightarrow> adm_ok (after_call c a)"
  by (auto simp: after_call_def adm_ok_call split: sum.splits)

lemma reachable_ok: "reachable a \<Longrightarrow> adm_ok a"
  by (induction rule: reachable.induct) (simp_all add: adm_ok_new adm_ok_after)

lemma adm_ok_run: "adm_ok a \<Longrightarrow> adm_ok (run_calls cs a)"
  by (induction cs arbitrary: a) (simp_all add: adm_ok_after)

end
