(* ===== verification/AdmissionFence.thy ===== *)
theory AdmissionFence
  imports AdmissionInv
begin

text \<open>
  What only grows in the admission service, the fence of one target as an abstract machine that
  the service refines, and the behaviour over whole runs: teardown before reopen, stale proofs and
  operations that span a halt, and the drain that always reopens.
\<close>

subsection \<open>What only grows\<close>

fun advances :: "admission_state \<Rightarrow> admission_state \<Rightarrow> bool" where
  "advances PENDING t = True"
| "advances PROMOTED t = (t \<noteq> PENDING)"
| "advances s t = (s = t)"

lemma advances_refl [simp]: "advances s s"
  by (cases s) simp_all

lemma advances_trans: "advances s t \<Longrightarrow> advances t u \<Longrightarrow> advances s u"
  by (cases s; cases t) auto

definition handle_le :: "admission_handle \<Rightarrow> admission_handle \<Rightarrow> bool" where
  "handle_le x y \<longleftrightarrow>
     ah_handle_id y = ah_handle_id x \<and> ah_target_key y = ah_target_key x \<and> ah_generation y = ah_generation x
     \<and> ah_admit_epoch y = ah_admit_epoch x \<and> ah_op y = ah_op x \<and> ah_channel y = ah_channel x
     \<and> ah_platform y = ah_platform x \<and> ah_recovery y = ah_recovery x
     \<and> advances (ah_state x) (ah_state y)
     \<and> (ah_cancel x \<longrightarrow> ah_cancel y) \<and> (ah_reaped x \<longrightarrow> ah_reaped y)"

lemma handle_le_refl [simp]: "handle_le x x"
  by (simp add: handle_le_def)

lemma handle_le_trans: "handle_le x y \<Longrightarrow> handle_le y z \<Longrightarrow> handle_le x z"
  unfolding handle_le_def by (auto intro: advances_trans)

definition adm_le :: "admission \<Rightarrow> admission \<Rightarrow> bool" where
  "adm_le a b \<longleftrightarrow>
     length (handles a) \<le> length (handles b)
     \<and> (\<forall>h < length (handles a). handle_le (handle_of a h) (handle_of b h))
     \<and> (\<forall>k. current_execution_epoch k a \<le> current_execution_epoch k b)
     \<and> (\<forall>k snap. store a k = Some snap \<longrightarrow>
          (\<exists>snap'. store b k = Some snap' \<and> ss_generation snap \<le> ss_generation snap'))"

lemma adm_le_refl [simp]: "adm_le a a"
  by (auto simp: adm_le_def)

lemma adm_le_trans: "adm_le a b \<Longrightarrow> adm_le b c \<Longrightarrow> adm_le a c"
  unfolding adm_le_def by (meson handle_le_trans less_le_trans order_trans)

lemma adm_leI:
  assumes "length (handles a) \<le> length (handles b)"
    and "\<And>h. h < length (handles a) \<Longrightarrow> handle_le (handle_of a h) (handle_of b h)"
    and "exec_epoch b = exec_epoch a" and "store b = store a"
  shows "adm_le a b"
  using assms current_epoch_cong [OF assms(3)] by (simp add: adm_le_def)

lemma adm_le_publish: "publish_snapshot k snap a = Inr a' \<Longrightarrow> adm_le a a'"
  by (auto simp: publish_snapshot_def store_put_def adm_le_def current_execution_epoch_def
      split: option.splits if_splits)

lemma adm_le_note: "adm_le a (snd (note_execution_transition k gen a))"
  by (auto simp: note_execution_transition_def Let_def adm_le_def current_execution_epoch_def split: option.splits)

lemma adm_le_register: "register u k op ch snap rec a = (h, a') \<Longrightarrow> adm_le a a'"
  by (rule adm_leI) (auto simp: register_def Let_def nth_append)

lemma adm_le_cancel: "adm_le a (cancel_all hs a)"
  by (rule adm_leI) (auto simp: cancel_all_nth handle_le_def)

lemma adm_le_close: "adm_le a (snd (close_admission k gen a))"
proof -
  have "adm_le a (a\<lparr>closed_at := c\<rparr>)" for c
    by (rule adm_leI) simp_all
  then show ?thesis
    by (auto simp: close_admission_def Let_def intro: adm_le_trans adm_le_cancel)
qed

lemma adm_le_promote: "promote h a = Inr a' \<Longrightarrow> adm_le a a'"
  by (rule adm_leI) (auto simp: promote_def Let_def upd_handle_nth handle_le_def split: if_splits)

lemma adm_le_confirm: "confirm_reaped h a = Inr a' \<Longrightarrow> adm_le a a'"
  by (rule adm_leI) (auto simp: confirm_reaped_def Let_def upd_handle_nth handle_le_def split: if_splits)

lemma adm_le_dispose:
  assumes "t \<notin> {PENDING, PROMOTED}" and "dispose h t a = Inr a'"
  shows "adm_le a a'"
proof (rule adm_leI)
  fix i assume i: "i < length (handles a)"
  show "handle_le (handle_of a i) (handle_of a' i)"
  proof (cases "i = h")
    case True
    then have "ah_state (handle_of a i) \<in> live_states" and "handle_of a' i = (handle_of a i)\<lparr>ah_state := t\<rparr>"
      using dispose_fields(2,4) [OF assms(2)] i by auto
    then show ?thesis
      using assms(1) by (auto simp: handle_le_def)
  next
    case False
    then show ?thesis
      using assms(2) i by (auto simp: dispose_def Let_def upd_handle_def split: if_splits)
  qed
qed (use assms(2) in \<open>auto simp: dispose_def Let_def upd_handle_def split: if_splits\<close>)

lemma adm_le_call:
  assumes "run_call c a = Inr a'"
  shows "adm_le a a'"
proof -
  have reg: "adm_le a a'" if "c \<in> {Admit u k req now, Admit_recovery u k req now, Admit_ssh u k sreq now}" for u k req now sreq
    using run_call_register [OF that assms] adm_le_register by blast
  show ?thesis
  proof (cases c)
    case (Admit u k req now)
    then show ?thesis using reg by blast
  next
    case (Admit_recovery u k req now)
    then show ?thesis using reg by blast
  next
    case (Admit_ssh u k req now)
    then show ?thesis using reg by blast
  next
    case (Reopen k)
    then show ?thesis
      using assms by (intro adm_leI) (auto simp: reopen_def split: option.splits if_splits)
  next
    case (Mark k gen)
    then show ?thesis
      using assms by (intro adm_leI) (auto simp: mark_recovery_required_def split: option.splits if_splits)
  next
    case (Clear k gen)
    then show ?thesis
      using assms by (intro adm_leI) (auto simp: clear_recovery_required_def split: if_splits)
  qed (use assms in \<open>auto intro: adm_le_publish adm_le_note adm_le_promote adm_le_confirm adm_le_close
      adm_le_cancel adm_le_dispose dest: terminal_dispose simp: cancel_ssh_tier_def Let_def invalidate_close_def\<close>)
qed

lemma adm_le_after: "adm_le a (after_call c a)"
  by (auto simp: after_call_def adm_le_call split: sum.splits)

lemma adm_le_run: "adm_le a (run_calls cs a)"
  by (induction cs arbitrary: a) (auto intro: adm_le_trans adm_le_after)

lemma adm_le_handle:
  "adm_le a b \<Longrightarrow> h < length (handles a) \<Longrightarrow> h < length (handles b) \<and> handle_le (handle_of a h) (handle_of b h)"
  by (auto simp: adm_le_def)

lemma adm_le_epoch: "adm_le a b \<Longrightarrow> current_execution_epoch k a \<le> current_execution_epoch k b"
  by (simp add: adm_le_def)

subsection \<open>The fence of a target\<close>

text \<open>
  What admission promises about one target: a generation that only grows, a closure, the live
  bindings, and those of them that hold resources nobody has proved reclaimed.
\<close>

record fence =
  f_generation :: "int option"
  f_closed :: "int option"
  f_live :: "href set"
  f_held :: "href set"

inductive fence_step :: "fence \<Rightarrow> fence \<Rightarrow> bool" where
  stay: "fence_step f f"
| publish: "(\<And>g'. f_generation f = Some g' \<Longrightarrow> g' \<le> g) \<Longrightarrow> fence_step f (f\<lparr>f_generation := Some g\<rparr>)"
| admit: "f_closed f = None \<Longrightarrow> f_generation f \<noteq> None \<Longrightarrow> h \<notin> f_live f \<Longrightarrow>
    fence_step f (f\<lparr>f_live := insert h (f_live f)\<rparr>)"
| promote: "f_closed f = None \<Longrightarrow> h \<in> f_live f \<Longrightarrow> fence_step f (f\<lparr>f_held := insert h (f_held f)\<rparr>)"
| reap: "f_closed f \<noteq> None \<Longrightarrow> h \<in> f_live f \<Longrightarrow> fence_step f (f\<lparr>f_held := f_held f - {h}\<rparr>)"
| dispose: "h \<in> f_live f \<Longrightarrow> (h \<in> f_held f \<Longrightarrow> f_closed f = None) \<Longrightarrow>
    fence_step f (f\<lparr>f_live := f_live f - {h}, f_held := f_held f - {h}\<rparr>)"
| close: "f_closed f = None \<Longrightarrow> (\<And>g'. f_generation f = Some g' \<Longrightarrow> g' \<le> g) \<Longrightarrow>
    fence_step f (f\<lparr>f_closed := Some g\<rparr>)"
| reopen: "f_closed f = Some g \<Longrightarrow> f_generation f = Some g' \<Longrightarrow> g < g' \<Longrightarrow> f_live f = {} \<Longrightarrow>
    fence_step f (f\<lparr>f_closed := None\<rparr>)"

definition held :: "target_key \<Rightarrow> admission \<Rightarrow> href set" where
  "held k a = {h \<in> set (bindings a k). ah_state (handle_of a h) = PROMOTED \<and> \<not> ah_reaped (handle_of a h)}"

definition fence_of :: "target_key \<Rightarrow> admission \<Rightarrow> fence" where
  "fence_of k a =
     \<lparr>f_generation = map_option ss_generation (store a k), f_closed = closed_at a k,
      f_live = set (bindings a k), f_held = held k a\<rparr>"

text \<open>The invariant of the fence: what is held is live, and a closed target does not grow.\<close>

lemma fence_held_live: "f_held (fence_of k a) \<subseteq> f_live (fence_of k a)"
  by (auto simp: fence_of_def held_def)

lemma fence_step_invariant:
  "fence_step f f' \<Longrightarrow> f_held f \<subseteq> f_live f \<Longrightarrow> f_held f' \<subseteq> f_live f'"
  by (induction rule: fence_step.induct) auto

lemma fence_step_generation:
  "fence_step f f' \<Longrightarrow> f_generation f = Some g \<Longrightarrow> \<exists>g'. f_generation f' = Some g' \<and> g \<le> g'"
  by (induction rule: fence_step.induct) auto

text \<open>The one step out of a closure: nothing live, hence nothing held, and a newer generation.\<close>

lemma fence_step_reopens:
  assumes "fence_step f f'" and "f_closed f = Some g" and "f_closed f' = None"
  shows "f_live f = {}" and "\<exists>g'. f_generation f = Some g' \<and> g < g'"
  using assms by (induction rule: fence_step.induct) auto

lemma fence_step_closed_shrinks:
  assumes "fence_step f f'" and "f_closed f \<noteq> None"
  shows "f_live f' \<subseteq> f_live f" and "f_held f' \<subseteq> f_held f"
  using assms by (induction rule: fence_step.induct) auto

lemma fence_step_closed_keeps:
  assumes "fence_step f f'" and "f_closed f = Some g" and "f_closed f' \<noteq> None"
  shows "f_closed f' = Some g"
  using assms by (induction rule: fence_step.induct) auto

subsection \<open>The service refines the fence\<close>

lemma fence_of_cong:
  assumes "store b k = store a k" and "closed_at b k = closed_at a k" and "bindings b k = bindings a k"
    and "\<And>h. h \<in> set (bindings a k) \<Longrightarrow>
       (ah_state (handle_of b h) = PROMOTED \<and> \<not> ah_reaped (handle_of b h)) \<longleftrightarrow>
       (ah_state (handle_of a h) = PROMOTED \<and> \<not> ah_reaped (handle_of a h))"
  shows "fence_of k b = fence_of k a"
  using assms by (auto simp: fence_of_def held_def)

lemma bindings_range: "adm_ok a \<Longrightarrow> h \<in> set (bindings a k) \<Longrightarrow> h < length (handles a)"
  using adm_ok_table table_mem by blast

lemma fence_of_upd:
  assumes "adm_ok a" and "h \<in> set (bindings a k)"
  defines "x \<equiv> handle_of a h"
  shows "fence_of k (upd_handle h f a) = (fence_of k a)\<lparr>f_held :=
      (if ah_state (f x) = PROMOTED \<and> \<not> ah_reaped (f x) then insert h (f_held (fence_of k a))
       else f_held (fence_of k a) - {h})\<rparr>"
proof -
  have "i \<in> held k (upd_handle h f a) \<longleftrightarrow>
      i \<in> (if ah_state (f x) = PROMOTED \<and> \<not> ah_reaped (f x) then insert h (held k a) else held k a - {h})" for i
  proof (cases "i \<in> set (bindings a k)")
    case True
    then show ?thesis
      using upd_handle_nth [OF bindings_range [OF assms(1) True], of h f]
      by (cases "i = h") (simp_all add: held_def x_def)
  next
    case False
    then show ?thesis
      using assms(2) by (auto simp: held_def)
  qed
  then have "held k (upd_handle h f a) =
      (if ah_state (f x) = PROMOTED \<and> \<not> ah_reaped (f x) then insert h (held k a) else held k a - {h})"
    by blast
  then show ?thesis
    by (simp add: fence_of_def)
qed

lemma fence_of_upd_other:
  assumes "adm_ok a" and "h \<notin> set (bindings a k)"
  shows "fence_of k (upd_handle h f a) = fence_of k a"
proof (rule fence_of_cong)
  fix i assume i: "i \<in> set (bindings a k)"
  then show "(ah_state (handle_of (upd_handle h f a) i) = PROMOTED \<and> \<not> ah_reaped (handle_of (upd_handle h f a) i)) \<longleftrightarrow>
       (ah_state (handle_of a i) = PROMOTED \<and> \<not> ah_reaped (handle_of a i))"
    using assms(2) by (subst upd_handle_nth [OF bindings_range [OF assms(1) i]])+ auto
qed simp_all

lemma fence_cancel_all:
  assumes "adm_ok a"
  shows "fence_of k (cancel_all hs a) = fence_of k a"
  by (rule fence_of_cong) (auto simp: cancel_all_nth bindings_range [OF assms])

lemma refine_register:
  assumes "adm_ok a" and "register u k0 op ch snap rec a = (h, a')" and "closed_at a k0 = None"
    and "store a k0 = Some snap"
  shows "fence_step (fence_of k a) (fence_of k a')"
proof -
  note f = register_fields [OF assms(2)]
  obtain x where x: "handles a' = handles a @ [x]" "ah_state x = PENDING"
    using f(3) by blast
  have old: "handle_of a' i = handle_of a i" if "i \<in> set (bindings a k)" for i
    using bindings_range [OF assms(1) that] x by (simp add: nth_append)
  have fresh: "h \<notin> set (bindings a k0)"
    using bindings_range [OF assms(1)] f(1) by blast
  have new: "ah_state (handle_of a' h) = PENDING"
    using x f(1) by simp
  show ?thesis
  proof (cases "k = k0")
    case True
    have eq: "fence_of k a' = (fence_of k a)\<lparr>f_live := insert h (f_live (fence_of k a))\<rparr>"
      using f(2,4,5) old new True by (auto simp: fence_of_def held_def)
    show ?thesis
      unfolding eq by (rule fence_step.admit) (use assms(3,4) fresh True in \<open>simp_all add: fence_of_def\<close>)
  next
    case False
    then have "fence_of k a' = fence_of k a"
      using f(2,4,5) old by (intro fence_of_cong) auto
    then show ?thesis
      by (simp add: fence_step.stay)
  qed
qed

lemma refine_dispose:
  assumes "adm_ok a" and "dispose h t a = Inr a'" and "t \<notin> live_states"
    and "ah_state (handle_of a h) = PROMOTED \<Longrightarrow> closed_at a (ah_target_key (handle_of a h)) \<noteq> None
          \<Longrightarrow> ah_reaped (handle_of a h)"
  shows "fence_step (fence_of k a) (fence_of k a')"
proof -
  have h: "h < length (handles a)"
    by (rule dispose_in_range [OF adm_ok_table [OF assms(1)] assms(2)])
  note f = dispose_fields [OF assms(2) h]
  have dist: "distinct (bindings a k)"
    using adm_ok_table [OF assms(1)] by (simp add: table_ok_def)
  have nth: "handle_of a' i = (if i = h then (handle_of a h)\<lparr>ah_state := t\<rparr> else handle_of a i)"
    if "i \<in> set (bindings a k)" for i
    by (rule f(4) [OF bindings_range [OF assms(1) that]])
  show ?thesis
  proof (cases "k = ah_target_key (handle_of a h)")
    case True
    then have live: "h \<in> f_live (fence_of k a)"
      using f(1) by (simp add: fence_of_def)
    have closed: "f_closed (fence_of k a) = None" if "h \<in> f_held (fence_of k a)"
    proof (rule ccontr)
      assume "f_closed (fence_of k a) \<noteq> None"
      moreover have "ah_state (handle_of a h) = PROMOTED" "\<not> ah_reaped (handle_of a h)"
        using that by (simp_all add: fence_of_def held_def)
      ultimately show False
        using assms(4) True by (simp add: fence_of_def)
    qed
    have sb: "set (bindings a' k) = set (bindings a k) - {h}"
      unfolding f(3) True using dist [unfolded True] by simp
    have "i \<in> held k a' \<longleftrightarrow> i \<in> held k a - {h}" for i
      using nth [of i] by (cases "i = h") (auto simp: held_def sb)
    then have hb: "held k a' = held k a - {h}"
      by blast
    have eq: "fence_of k a' = (fence_of k a)
        \<lparr>f_live := f_live (fence_of k a) - {h}, f_held := f_held (fence_of k a) - {h}\<rparr>"
      by (simp add: fence_of_def sb hb f(6,7))
    show ?thesis
      unfolding eq by (rule fence_step.dispose [OF live closed])
  next
    case False
    then have "h \<notin> set (bindings a k)"
      using table_mem [OF adm_ok_table [OF assms(1)], of h k] by simp
    moreover have "bindings a' k = bindings a k"
      using False by (simp add: f(3))
    ultimately have "fence_of k a' = fence_of k a"
      by (intro fence_of_cong) (auto simp: f(6,7) nth)
    then show ?thesis
      by (simp add: fence_step.stay)
  qed
qed

text \<open>Every call, seen from any one target, is a step of its fence.\<close>

lemma refine_close:
  assumes "adm_ok a"
  shows "fence_step (fence_of k a) (fence_of k (snd (close_admission k0 gen a)))"
proof (cases "closed_at a k0 = None \<and> \<not> is_stale_lifecycle_close k0 gen a")
  case True
  let ?a1 = "a\<lparr>closed_at := (closed_at a)(k0 \<mapsto> gen)\<rparr>"
  have eq: "snd (close_admission k0 gen a) = cancel_all (bindings a k0) ?a1"
    using True by (simp add: close_admission_def Let_def)
  have "fence_of k (cancel_all (bindings a k0) ?a1) = fence_of k ?a1"
    by (rule fence_of_cong) (auto simp: cancel_all_nth bindings_range [OF assms])
  also have "\<dots> = (if k = k0 then (fence_of k a)\<lparr>f_closed := Some gen\<rparr> else fence_of k a)"
    by (simp add: fence_of_def held_def)
  finally have f: "fence_of k (snd (close_admission k0 gen a)) =
      (if k = k0 then (fence_of k a)\<lparr>f_closed := Some gen\<rparr> else fence_of k a)"
    by (simp add: eq)
  have "fence_step (fence_of k0 a) ((fence_of k0 a)\<lparr>f_closed := Some gen\<rparr>)"
    by (rule fence_step.close) (use True in \<open>auto simp: fence_of_def is_stale_lifecycle_close_def\<close>)
  then show ?thesis
    by (auto simp: f fence_step.stay)
next
  case False
  then have "fence_of k (snd (close_admission k0 gen a)) = fence_of k a"
    by (auto simp: close_admission_def Let_def fence_cancel_all [OF assms])
  then show ?thesis
    by (simp add: fence_step.stay)
qed

lemma refine_promote:
  assumes "adm_ok a" and "promote h a = Inr a'"
  shows "fence_step (fence_of k a) (fence_of k a')"
proof -
  let ?x = "handle_of a h"
  have p: "h \<in> set (bindings a (ah_target_key ?x))" "ah_state ?x = PENDING" "\<not> ah_cancel ?x"
    "a' = upd_handle h (\<lambda>x. x\<lparr>ah_state := PROMOTED\<rparr>) a"
    using assms(2) by (auto simp: promote_def Let_def split: if_splits)
  have h: "h < length (handles a)"
    by (rule bindings_range [OF assms(1) p(1)])
  have ok: "closed_at a (ah_target_key ?x) = None" "\<not> ah_reaped ?x"
    using adm_ok_handle [OF assms(1) h] p by (auto simp: handle_ok_def)
  show ?thesis
  proof (cases "k = ah_target_key ?x")
    case True
    have eq: "fence_of k a' = (fence_of k a)\<lparr>f_held := insert h (f_held (fence_of k a))\<rparr>"
      using fence_of_upd [OF assms(1) p(1)] ok(2) True by (simp add: p(4))
    show ?thesis
      unfolding eq by (rule fence_step.promote) (use p ok True in \<open>simp_all add: fence_of_def\<close>)
  next
    case False
    then have "h \<notin> set (bindings a k)"
      using table_mem [OF adm_ok_table [OF assms(1)], of h k] by simp
    then have "fence_of k a' = fence_of k a"
      unfolding p(4) by (rule fence_of_upd_other [OF assms(1)])
    then show ?thesis
      by (simp add: fence_step.stay)
  qed
qed

lemma refine_confirm_reaped:
  assumes "adm_ok a" and "confirm_reaped h a = Inr a'"
  shows "fence_step (fence_of k a) (fence_of k a')"
proof -
  let ?x = "handle_of a h"
  have p: "h \<in> set (bindings a (ah_target_key ?x))" "closed_at a (ah_target_key ?x) \<noteq> None"
    "a' = upd_handle h (\<lambda>x. x\<lparr>ah_reaped := True\<rparr>) a"
    using assms(2) by (auto simp: confirm_reaped_def Let_def split: if_splits)
  show ?thesis
  proof (cases "k = ah_target_key ?x")
    case True
    have eq: "fence_of k a' = (fence_of k a)\<lparr>f_held := f_held (fence_of k a) - {h}\<rparr>"
      using fence_of_upd [OF assms(1) p(1)] True by (simp add: p(3))
    show ?thesis
      unfolding eq by (rule fence_step.reap) (use p True in \<open>simp_all add: fence_of_def\<close>)
  next
    case False
    then have "h \<notin> set (bindings a k)"
      using table_mem [OF adm_ok_table [OF assms(1)], of h k] by simp
    then have "fence_of k a' = fence_of k a"
      unfolding p(3) by (rule fence_of_upd_other [OF assms(1)])
    then show ?thesis
      by (simp add: fence_step.stay)
  qed
qed

lemma refine_publish:
  assumes "publish_snapshot k0 snap a = Inr a'"
  shows "fence_step (fence_of k a) (fence_of k a')"
proof (cases "k = k0")
  case True
  have a': "a' = a\<lparr>store := (store a)(k0 \<mapsto> snap)\<rparr>"
    and mono: "\<And>cur. store a k0 = Some cur \<Longrightarrow> ss_generation cur \<le> ss_generation snap"
    using assms by (auto simp: publish_snapshot_def store_put_def split: option.splits if_splits)
  have eq: "fence_of k a' = (fence_of k a)\<lparr>f_generation := Some (ss_generation snap)\<rparr>"
    using True by (simp add: a' fence_of_def held_def)
  show ?thesis
    unfolding eq by (rule fence_step.publish) (use mono True in \<open>auto simp: fence_of_def\<close>)
next
  case False
  then have "fence_of k a' = fence_of k a"
    using assms by (intro fence_of_cong) (auto simp: publish_snapshot_def store_put_def split: option.splits if_splits)
  then show ?thesis
    by (simp add: fence_step.stay)
qed

lemma refine_reopen:
  assumes "reopen k0 a = Inr a'"
  shows "fence_step (fence_of k a) (fence_of k a')"
proof (cases "k = k0 \<and> closed_at a k0 \<noteq> None")
  case True
  then obtain c snap where c: "closed_at a k = Some c" "store a k = Some snap" "c < ss_generation snap"
      "bindings a k = []" "a' = a\<lparr>closed_at := (closed_at a)(k := None)\<rparr>"
    using assms by (auto simp: reopen_def not_le split: option.splits if_splits)
  have eq: "fence_of k a' = (fence_of k a)\<lparr>f_closed := None\<rparr>"
    by (simp add: c(5) fence_of_def held_def)
  show ?thesis
    unfolding eq by (rule fence_step.reopen) (use c in \<open>simp_all add: fence_of_def\<close>)
next
  case False
  then have "fence_of k a' = fence_of k a"
    using assms by (intro fence_of_cong) (auto simp: reopen_def split: option.splits if_splits)
  then show ?thesis
    by (simp add: fence_step.stay)
qed

lemma refine_same:
  assumes "store b = store a" "closed_at b = closed_at a" "bindings b = bindings a" "handles b = handles a"
  shows "fence_step (fence_of k a) (fence_of k b)"
proof -
  have "fence_of k b = fence_of k a"
    by (rule fence_of_cong) (simp_all add: assms)
  then show ?thesis
    by (simp add: fence_step.stay)
qed

lemma refine_terminal:
  assumes ok: "adm_ok a" and "complete h a = Inr a' \<or> rollback h a = Inr a' \<or> abandon h a = Inr a'"
  shows "fence_step (fence_of k a) (fence_of k a')"
proof -
  let ?x = "handle_of a h"
  obtain t where t: "dispose h t a = Inr a'" "t \<notin> live_states"
    using assms(2) terminal_dispose by blast
  have x: "handle_ok a ?x" "ah_state ?x \<in> live_states"
    using adm_ok_handle [OF ok] dispose_in_range [OF adm_ok_table [OF ok] t(1)] dispose_fields(2) [OF t(1)]
    by blast+
  have "ah_reaped ?x" if promoted: "ah_state ?x = PROMOTED" and closed: "closed_at a (ah_target_key ?x) \<noteq> None"
  proof (rule ccontr)
    assume r: "\<not> ah_reaped ?x"
    have "ah_cancel ?x"
      using x closed unfolding handle_ok_def by blast
    obtain c where c: "closed_at a (ah_target_key ?x) = Some c"
      using closed by blast
    show False
      using assms(2) \<open>ah_cancel ?x\<close> r promoted c by (simp add: complete_def rollback_def abandon_def Let_def)
  qed
  then show ?thesis
    by (rule refine_dispose [OF ok t])
qed

lemma refine_call:
  assumes ok: "adm_ok a" and run: "run_call c a = Inr a'"
  shows "fence_step (fence_of k a) (fence_of k a')"
proof -
  have reg: "fence_step (fence_of k a) (fence_of k a')"
    if "c \<in> {Admit u k0 req now, Admit_recovery u k0 req now, Admit_ssh u k0 sreq now}" for u k0 req now sreq
    using run_call_register [OF that run] refine_register [OF ok] by blast
  show ?thesis
  proof (cases c)
    case (Admit u k0 req now)
    show ?thesis by (rule reg) (unfold Admit, rule insertI1)
  next
    case (Admit_recovery u k0 req now)
    show ?thesis by (rule reg) (unfold Admit_recovery, rule insertI2, rule insertI1)
  next
    case (Admit_ssh u k0 req now)
    show ?thesis by (rule reg) (unfold Admit_ssh, rule insertI2, rule insertI2, rule insertI1)
  next
    case (Note k0 gen)
    then show ?thesis
      using run by (intro refine_same) (auto simp: note_execution_transition_def Let_def)
  next
    case (Cancel_ssh k0 gen e)
    then have "fence_of k a' = fence_of k a"
      using run by (auto simp: cancel_ssh_tier_def Let_def fence_cancel_all [OF ok])
    then show ?thesis by (simp add: fence_step.stay)
  next
    case (Mark k0 gen)
    then show ?thesis
      using run by (intro refine_same) (auto simp: mark_recovery_required_def split: option.splits)
  next
    case (Clear k0 gen)
    then show ?thesis
      using run by (intro refine_same) (auto simp: clear_recovery_required_def)
  next
    case (Invalidate k0 gen cl)
    then have "a' = a \<or> a' = snd (close_admission k0 gen a)"
      using run by (auto simp: invalidate_close_def split: if_splits)
    then show ?thesis
      using refine_close [OF ok, of k k0 gen] fence_step.stay by auto
  next
    case (Close k0 gen)
    then have "a' = snd (close_admission k0 gen a)"
      using run by simp
    then show ?thesis
      using refine_close [OF ok, of k k0 gen] by simp
  next
    case (Publish k0 snap)
    then show ?thesis using run refine_publish by simp
  next
    case (Promote h)
    then show ?thesis using run refine_promote [OF ok] by simp
  next
    case (Confirm_reaped h)
    then show ?thesis using run refine_confirm_reaped [OF ok] by simp
  next
    case (Reopen k0)
    then show ?thesis using run refine_reopen by simp
  next
    case (Complete h)
    then show ?thesis using run refine_terminal [OF ok, of h] by simp
  next
    case (Rollback h)
    then show ?thesis using run refine_terminal [OF ok, of h] by simp
  next
    case (Abandon h)
    then show ?thesis using run refine_terminal [OF ok, of h] by simp
  qed
qed

lemma refine_after: "adm_ok a \<Longrightarrow> fence_step (fence_of k a) (fence_of k (after_call c a))"
  by (auto simp: after_call_def refine_call fence_step.stay split: sum.splits)

subsection \<open>Teardown before reopen\<close>

lemma fence_step_closed_held:
  assumes "fence_step f f'" and "f_closed f \<noteq> None" and "h \<in> f_held f" and "f_held f \<subseteq> f_live f"
  shows "f_closed f' \<noteq> None" and "h \<in> f_live f'"
  using assms by (induction rule: fence_step.induct) auto

lemma held_step:
  assumes ok: "adm_ok a" and "closed_at a k \<noteq> None" and h: "h \<in> held k a"
  shows "ah_reaped (handle_of (after_call c a) h)
     \<or> closed_at (after_call c a) k \<noteq> None \<and> h \<in> held k (after_call c a)"
proof -
  let ?b = "after_call c a"
  have f: "f_closed (fence_of k ?b) \<noteq> None" "h \<in> f_live (fence_of k ?b)"
    using fence_step_closed_held [OF refine_after [OF ok], of k h] assms(2) h fence_held_live [of k a]
    by (simp_all add: fence_of_def)
  have hb: "h \<in> set (bindings ?b k)" and cb: "closed_at ?b k \<noteq> None"
    using f by (simp_all add: fence_of_def)
  have "h < length (handles a)"
    by (rule bindings_range [OF ok, of h k]) (use h in \<open>simp add: held_def\<close>)
  then have "advances (ah_state (handle_of a h)) (ah_state (handle_of ?b h))"
    using adm_le_handle [OF adm_le_after] by (simp add: handle_le_def)
  moreover have "ah_state (handle_of ?b h) \<in> live_states"
    using hb table_mem [OF adm_ok_table [OF adm_ok_after [OF ok, of c]], of h k] by simp
  ultimately have "ah_state (handle_of ?b h) = PROMOTED"
    using h by (auto simp: held_def)
  then show ?thesis
    using hb cb by (simp add: held_def)
qed

lemma held_until_reaped:
  assumes "adm_ok a" and "closed_at a k \<noteq> None" and "h \<in> held k a"
    and "closed_at (run_calls cs a) k = None"
  shows "ah_reaped (handle_of (run_calls cs a) h)"
  using assms
proof (induction cs arbitrary: a)
  case Nil
  then show ?case by simp
next
  case (Cons c cs)
  let ?b = "after_call c a"
  show ?case
  proof (cases "ah_reaped (handle_of ?b h)")
    case True
    have "h < length (handles a)"
      by (rule bindings_range [OF Cons.prems(1), of h k]) (use Cons.prems(3) in \<open>simp add: held_def\<close>)
    then have "h < length (handles ?b)"
      using adm_le_handle [OF adm_le_after] by blast
    then show ?thesis
      using adm_le_handle [OF adm_le_run, of h ?b cs] True by (simp add: handle_le_def)
  next
    case False
    then have "closed_at ?b k \<noteq> None" "h \<in> held k ?b"
      using held_step [OF Cons.prems(1-3), of c] by simp_all
    then show ?thesis
      using Cons.IH [OF adm_ok_after [OF Cons.prems(1)]] Cons.prems(4) by simp
  qed
qed

subsection \<open>Halts\<close>

lemma note_effective:
  assumes "generation_current k gen a"
  shows "current_execution_epoch k (snd (note_execution_transition k gen a)) = current_execution_epoch k a + 1"
    and "fst (note_execution_transition k gen a) = current_execution_epoch k a + 1"
  using assms by (simp_all add: note_execution_transition_def Let_def current_execution_epoch_def)

lemma halt_epoch_later:
  assumes "generation_current k gen a"
  shows "current_execution_epoch k a < current_execution_epoch k (run_calls cs (snd (note_execution_transition k gen a)))"
  using adm_le_epoch [OF adm_le_run, of k "snd (note_execution_transition k gen a)" cs] note_effective [OF assms]
  by simp

lemma spanning_op_never_completes:
  fixes cs :: "adm_call list"
  assumes "adm_ok a" and h: "h < length (handles a)" and "ah_op (handle_of a h) = SSH_TIER"
    and k: "ah_target_key (handle_of a h) = k" and "generation_current k gen a"
  defines "b \<equiv> run_calls cs (snd (note_execution_transition k gen a))"
  shows "complete h b = Inl (if ah_cancel (handle_of b h) then Admission_cancelled else Execution_state_changed)"
proof -
  have "adm_le a b"
    unfolding b_def by (rule adm_le_trans [OF adm_le_note adm_le_run])
  then have x: "handle_le (handle_of a h) (handle_of b h)"
    using adm_le_handle [OF _ h] by blast
  have "ah_admit_epoch (handle_of a h) \<le> current_execution_epoch k a"
    using adm_ok_handle [OF assms(1) h] k by (simp add: handle_ok_def)
  also have "\<dots> < current_execution_epoch k b"
    unfolding b_def by (rule halt_epoch_later [OF assms(5)])
  finally have "epoch_stale_for_op h b"
    using x assms(3) k by (simp add: epoch_stale_for_op_def handle_le_def)
  then show ?thesis
    by (simp add: complete_def Let_def)
qed

lemma stale_proof_refused:
  fixes cs :: "adm_call list"
  assumes "generation_current k gen a" and "ep_epoch p \<le> current_execution_epoch k a"
  defines "b \<equiv> run_calls cs (snd (note_execution_transition k gen a))"
  assumes "store b k = Some snap" and "ss_state snap \<noteq> TS_READY" and "sr_execution_proof req = Some p"
  shows "isl (admit_ssh_tier u k req now b)"
proof -
  have "current_execution_epoch k a < current_execution_epoch k b"
    unfolding b_def by (rule halt_epoch_later [OF assms(1)])
  then have "ep_epoch p \<noteq> current_execution_epoch k b"
    using assms(2) by simp
  then have "admit_ssh_tier u k req now b \<noteq> Inr (h, b')" for h b'
    using assms(4-6) by (auto simp: admit_ssh_tier_Inr bind_snapshot_Inr require_executing_proof_Inr)
  then show ?thesis
    by (cases "admit_ssh_tier u k req now b") auto
qed

subsection \<open>Closing\<close>

lemma closed_refuses:
  assumes "closed_at a k \<noteq> None"
  shows "admit u k req now a = Inl (if req_target_key req = k then Admission_closed else Target_mismatch)"
    and "admit_recovery u k req now a = Inl (if req_target_key req = k then Admission_closed else Target_mismatch)"
    and "admit_ssh_tier u k sreq now a = Inl Admission_closed"
  using assms by (simp_all add: admit_def admit_recovery_def admit_ssh_tier_def validate_open_def bind_snapshot_def)

lemma close_effect:
  assumes "adm_ok a" and "\<not> is_stale_lifecycle_close k gen a"
  defines "b \<equiv> snd (close_admission k gen a)"
  shows "fst (close_admission k gen a) = bindings a k" and "bindings b = bindings a"
    and "closed_at b = (if closed_at a k = None then (closed_at a)(k \<mapsto> gen) else closed_at a)"
    and "h \<in> set (bindings a k) \<Longrightarrow> ah_cancel (handle_of b h)"
proof -
  have "closed_at b = (if closed_at a k = None then (closed_at a)(k \<mapsto> gen) else closed_at a) \<and> bindings b = bindings a
      \<and> fst (close_admission k gen a) = bindings a k"
    using assms(2) by (auto simp: b_def close_admission_def Let_def)
  then show f: "fst (close_admission k gen a) = bindings a k" "bindings b = bindings a"
    "closed_at b = (if closed_at a k = None then (closed_at a)(k \<mapsto> gen) else closed_at a)"
    by simp_all
  assume h: "h \<in> set (bindings a k)"
  have ok: "adm_ok b"
    unfolding b_def by (rule adm_ok_close [OF assms(1)])
  have hb: "h \<in> set (bindings b k)"
    using h f(2) by simp
  then have "ah_state (handle_of b h) \<in> live_states" "ah_target_key (handle_of b h) = k" "h < length (handles b)"
    using table_mem [OF adm_ok_table [OF ok], of h k] by simp_all
  then show "ah_cancel (handle_of b h)"
    using adm_ok_handle [OF ok] f(3) by (auto simp: handle_ok_def split: if_splits)
qed

lemma stale_close_noop: "is_stale_lifecycle_close k gen a \<Longrightarrow> close_admission k gen a = ([], a)"
  by (auto simp: close_admission_def is_stale_lifecycle_close_def split: if_splits)

lemma stale_invalidate_noop: "is_stale_lifecycle_close k gen a \<Longrightarrow> invalidate_close k gen cl a = (False, a)"
  by (simp add: invalidate_close_def)

subsection \<open>The drain always reopens\<close>

definition drain :: "target_key \<Rightarrow> admission \<Rightarrow> adm_call list" where
  "drain k a = concat (map (\<lambda>h. [Confirm_reaped h, Abandon h]) (bindings a k)) @ [Reopen k]"

lemma drain_one:
  assumes ok: "adm_ok a" and "closed_at a k \<noteq> None" and b: "bindings a k = h # hs"
  defines "b \<equiv> run_calls [Confirm_reaped h, Abandon h] a"
  shows "bindings b k = hs" and "closed_at b = closed_at a" and "store b = store a"
proof -
  let ?x = "handle_of a h"
  have x: "h < length (handles a)" "ah_state ?x \<in> live_states" "ah_target_key ?x = k" "h \<in> set (bindings a k)"
    using b table_mem [OF adm_ok_table [OF ok], of h k] by simp_all
  have c: "ah_cancel ?x"
    using adm_ok_handle [OF ok x(1)] x(2,3) assms(2) by (auto simp: handle_ok_def)
  let ?a1 = "upd_handle h (\<lambda>x. x\<lparr>ah_reaped := True\<rparr>) a"
  have a1: "after_call (Confirm_reaped h) a = ?a1"
    using x c assms(2) by (auto simp: after_call_def confirm_reaped_def Let_def)
  have y: "handle_of ?a1 h = ?x\<lparr>ah_reaped := True\<rparr>"
    by (simp add: upd_handle_nth x(1))
  have "run_call (Abandon h) ?a1 = dispose h ABANDONED ?a1"
    using x c assms(2) by (auto simp: abandon_def Let_def y)
  moreover have "dispose h ABANDONED ?a1 \<noteq> Inl e" for e
    using x by (auto simp: dispose_def Let_def y)
  moreover have "b = after_call (Abandon h) ?a1"
    by (simp add: b_def a1)
  ultimately have d: "dispose h ABANDONED ?a1 = Inr b"
    by (cases "dispose h ABANDONED ?a1") (auto simp: after_call_def)
  have "h < length (handles ?a1)"
    using x(1) by simp
  note f = dispose_fields [OF d this]
  show "bindings b k = hs"
    using f(3) x(3) y b by simp
  show "closed_at b = closed_at a" "store b = store a"
    using f(6,7) by simp_all
qed

lemma run_calls_append: "run_calls (cs @ ds) a = run_calls ds (run_calls cs a)"
  by (induction cs arbitrary: a) simp_all

lemma drain_reopens:
  assumes "adm_ok a" and "closed_at a k = Some g" and "store a k = Some snap" and "g < ss_generation snap"
  shows "closed_at (run_calls (drain k a) a) k = None"
proof -
  have "closed_at (run_calls (concat (map (\<lambda>h. [Confirm_reaped h, Abandon h]) hs) @ [Reopen k]) a) k = None"
    if "bindings a k = hs" for hs
    using assms that
  proof (induction hs arbitrary: a)
    case Nil
    then show ?case
      by (simp add: after_call_def reopen_def not_le)
  next
    case (Cons h hs)
    let ?b = "run_calls [Confirm_reaped h, Abandon h] a"
    have "adm_ok ?b"
      by (rule adm_ok_run [OF Cons.prems(1)])
    then show ?case
      using Cons.IH [of ?b] Cons.prems drain_one [of a k h hs] by simp
  qed
  then show ?thesis
    by (simp add: drain_def)
qed

end
