(* ===== verification/Lifecycle.thy ===== *)
theory Lifecycle
  imports Prelude Target
begin

text \<open>
  Models \<open>src/kdive/seams/lifecycle.py\<close>: the dispatcher that tears down the subscribers of a
  target, step 2 of a lifecycle transition. A subscriber is an instance identity (Python's
  \<open>id\<close>, a \<open>nat\<close>); what its \<open>invalidate\<close> and \<open>force_drop\<close> do to the world \<open>'w\<close> under the
  deadline is a parameter, with three outcomes: it returns, it raises, or it is still running at
  the deadline (\<open>Wedged\<close>). The workers of one phase are taken in the order they are started.
  \<open>emit\<close> is serialised per target by its lock.
\<close>

datatype lifecycle_kind = LK_RESETTING | LK_CRASHED | LK_BOOTING | LK_RELEASING | LK_LEASE_EXPIRED

record lifecycle_event =
  ev_target_key :: target_key
  ev_kind :: lifecycle_kind

datatype 'x worker_outcome = Finished | Raised 'x | Wedged

type_synonym ('w, 'x) worker = "nat \<Rightarrow> lifecycle_event \<Rightarrow> 'w \<Rightarrow> 'x worker_outcome \<times> 'w"

datatype 'x emit_error =
    Still_overdue
  | Invalidate_error 'x
  | Overdue_force_drop_invoked
  | Both_exceeded
  | Force_drop_error 'x

text \<open>
  \<open>lc_subscribers\<close> keeps the order of the \<open>dict\<close>; \<open>lc_overdue\<close> holds the keys of the wedged
  workers' table.
\<close>

type_synonym overdue_key = "target_key \<times> string \<times> nat"

record dispatcher =
  lc_subscribers :: "target_key \<Rightarrow> (string \<times> nat) list"
  lc_overdue :: "overdue_key list"

definition new_dispatcher :: dispatcher where
  "new_dispatcher = \<lparr>lc_subscribers = (\<lambda>_. []), lc_overdue = []\<rparr>"

text \<open>\<open>d[name] = sub\<close> on a Python \<open>dict\<close>: an existing key keeps its place.\<close>

fun dict_set :: "'a \<Rightarrow> 'b \<Rightarrow> ('a \<times> 'b) list \<Rightarrow> ('a \<times> 'b) list" where
  "dict_set n x [] = [(n, x)]"
| "dict_set n x ((m, y) # d) = (if m = n then (n, x) # d else (m, y) # dict_set n x d)"

definition dict_pop :: "'a \<Rightarrow> ('a \<times> 'b) list \<Rightarrow> ('a \<times> 'b) list" where
  "dict_pop n d = filter (\<lambda>(m, y). m \<noteq> n) d"

definition subscribe :: "target_key \<Rightarrow> string \<Rightarrow> nat \<Rightarrow> dispatcher \<Rightarrow> dispatcher" where
  "subscribe k name sub d =
     d\<lparr>lc_subscribers := (lc_subscribers d)(k := dict_set name sub (lc_subscribers d k))\<rparr>"

definition unsubscribe :: "target_key \<Rightarrow> string \<Rightarrow> dispatcher \<Rightarrow> dispatcher" where
  "unsubscribe k name d = d\<lparr>lc_subscribers := (lc_subscribers d)(k := dict_pop name (lc_subscribers d k))\<rparr>"

text \<open>\<open>alive\<close> says which wedged workers still run when the table is pruned.\<close>

definition prune_overdue :: "(overdue_key \<Rightarrow> bool) \<Rightarrow> dispatcher \<Rightarrow> dispatcher" where
  "prune_overdue alive d = d\<lparr>lc_overdue := filter alive (lc_overdue d)\<rparr>"

definition overdue_subscribers :: "(overdue_key \<Rightarrow> bool) \<Rightarrow> dispatcher \<Rightarrow> overdue_key set \<times> dispatcher" where
  "overdue_subscribers alive d = (let d' = prune_overdue alive d in (set (lc_overdue d'), d'))"

definition outstanding_overdue :: "(overdue_key \<Rightarrow> bool) \<Rightarrow> dispatcher \<Rightarrow> nat \<times> dispatcher" where
  "outstanding_overdue alive d = (let d' = prune_overdue alive d in (length (lc_overdue d'), d'))"

text \<open>\<open>_run_bounded\<close>: one worker per name, each outcome kept under the name.\<close>

fun run_bounded ::
  "('w, 'x) worker \<Rightarrow> lifecycle_event \<Rightarrow> (string \<times> nat) list \<Rightarrow> 'w \<Rightarrow> (string \<times> nat \<times> 'x worker_outcome) list \<times> 'w" where
  "run_bounded f ev [] w = ([], w)"
| "run_bounded f ev ((n, sub) # subs) w =
     (let (oc, w1) = f sub ev w; (rest, w2) = run_bounded f ev subs w1 in ((n, sub, oc) # rest, w2))"

definition wedged :: "(string \<times> nat \<times> 'x worker_outcome) list \<Rightarrow> (string \<times> nat) list" where
  "wedged rs = map (\<lambda>(n, sub, oc). (n, sub)) (filter (\<lambda>(n, sub, oc). oc = Wedged) rs)"

definition split_runnable_subscribers ::
  "target_key \<Rightarrow> (string \<times> nat) list \<Rightarrow> dispatcher \<Rightarrow> (string \<times> nat) list \<times> (string \<times> nat) list" where
  "split_runnable_subscribers k targeted d =
     (filter (\<lambda>(n, sub). (k, n, sub) \<in> set (lc_overdue d)) targeted,
      filter (\<lambda>(n, sub). (k, n, sub) \<notin> set (lc_overdue d)) targeted)"

definition invalidate_errors ::
  "(string \<times> nat \<times> 'x worker_outcome) list \<Rightarrow> (string \<rightharpoonup> 'x emit_error) \<Rightarrow> (string \<rightharpoonup> 'x emit_error)" where
  "invalidate_errors rs errs =
     foldl (\<lambda>m (n, sub, oc). case oc of Raised x \<Rightarrow> m(n \<mapsto> Invalidate_error x) | _ \<Rightarrow> m) errs rs"

fun force_drop_errors ::
  "(string \<times> nat \<times> 'x worker_outcome) list \<Rightarrow> (string \<rightharpoonup> 'x emit_error) \<Rightarrow> string list
     \<Rightarrow> (string \<rightharpoonup> 'x emit_error) \<times> string list" where
  "force_drop_errors [] errs dropped = (errs, dropped)"
| "force_drop_errors ((n, sub, oc) # rs) errs dropped =
     (case oc of
        Wedged \<Rightarrow> force_drop_errors rs (errs(n \<mapsto> Both_exceeded)) dropped
      | Raised x \<Rightarrow> force_drop_errors rs (errs(n \<mapsto> Force_drop_error x)) dropped
      | Finished \<Rightarrow> force_drop_errors rs errs (dropped @ [n]))"

definition force_drop_newly_overdue ::
  "('w, 'x) worker \<Rightarrow> lifecycle_event \<Rightarrow> (string \<times> nat) list \<Rightarrow> (string \<rightharpoonup> 'x emit_error) \<Rightarrow> 'w
     \<Rightarrow> string list \<times> (string \<rightharpoonup> 'x emit_error) \<times> 'w" where
  "force_drop_newly_overdue force_drop ev inv_alive errs w =
     (if inv_alive = [] then ([], errs, w)
      else let errs1 = foldl (\<lambda>m (n, sub). m(n \<mapsto> Overdue_force_drop_invoked)) errs inv_alive;
               (rs, w1) = run_bounded force_drop ev inv_alive w;
               (errs2, dropped) = force_drop_errors rs errs1 []
           in (dropped, errs2, w1))"

record 'x invalidation_result =
  ir_target_key :: target_key
  ir_kind :: lifecycle_kind
  ir_errors :: "string \<rightharpoonup> 'x emit_error"
  ir_overdue :: "string list"
  ir_force_dropped :: "string list"

text \<open>\<open>self._overdue[key] = worker\<close>, over the newly wedged workers.\<close>

definition record_overdue :: "target_key \<Rightarrow> (string \<times> nat) list \<Rightarrow> dispatcher \<Rightarrow> dispatcher" where
  "record_overdue k ws d =
     d\<lparr>lc_overdue := foldl (\<lambda>t (n, sub). List.insert (k, n, sub) t) (lc_overdue d) ws\<rparr>"

definition emit ::
  "(overdue_key \<Rightarrow> bool) \<Rightarrow> ('w, 'x) worker \<Rightarrow> ('w, 'x) worker \<Rightarrow> lifecycle_event
     \<Rightarrow> dispatcher \<Rightarrow> 'w \<Rightarrow> 'x invalidation_result \<times> dispatcher \<times> 'w" where
  "emit alive invalidate force_drop ev d w =
     (let k = ev_target_key ev;
          targeted = lc_subscribers d k;
          d1 = prune_overdue alive d;
          (already, runnable) = split_runnable_subscribers k targeted d1;
          errs0 = foldl (\<lambda>m (n, sub). m(n \<mapsto> Still_overdue)) Map.empty already;
          (rs, w1) = run_bounded invalidate ev runnable w;
          inv_alive = wedged rs;
          d2 = record_overdue k inv_alive d1;
          errs1 = invalidate_errors rs errs0;
          (dropped, errs2, w2) = force_drop_newly_overdue force_drop ev inv_alive errs1 w1
      in (\<lparr>ir_target_key = k, ir_kind = ev_kind ev, ir_errors = errs2,
           ir_overdue = map fst already @ map fst inv_alive, ir_force_dropped = dropped\<rparr>, d2, w2))"

subsection \<open>Lemmas\<close>

lemma dict_set_lookup: "map_of (dict_set n x d) = (map_of d)(n \<mapsto> x)"
  by (induction d) (auto simp: fun_eq_iff)

lemma dict_set_keys: "fst ` set (dict_set n x d) = insert n (fst ` set d)"
  by (simp add: dom_map_of_conv_image_fst [symmetric] dict_set_lookup)

lemma dict_set_distinct: "distinct (map fst d) \<Longrightarrow> distinct (map fst (dict_set n x d))"
  by (induction d) (auto simp: dict_set_keys)

lemma dict_pop_lookup: "map_of (dict_pop n d) = (map_of d)(n := None)"
  by (induction d) (auto simp: dict_pop_def fun_eq_iff)

lemma dict_pop_distinct: "distinct (map fst d) \<Longrightarrow> distinct (map fst (dict_pop n d))"
  by (induction d) (auto simp: dict_pop_def)

definition dispatcher_ok :: "dispatcher \<Rightarrow> bool" where
  "dispatcher_ok d \<longleftrightarrow> (\<forall>k. distinct (map fst (lc_subscribers d k))) \<and> distinct (lc_overdue d)"

lemma record_overdue_set:
  "set (lc_overdue (record_overdue k ws d)) = set (lc_overdue d) \<union> (\<lambda>(n, sub). (k, n, sub)) ` set ws"
proof -
  have "set (foldl (\<lambda>t (n, sub). List.insert (k, n, sub) t) t ws) = set t \<union> (\<lambda>(n, sub). (k, n, sub)) ` set ws" for t
    by (induction ws arbitrary: t) auto
  then show ?thesis
    by (simp add: record_overdue_def)
qed

lemma record_overdue_distinct:
  "distinct (lc_overdue d) \<Longrightarrow> distinct (lc_overdue (record_overdue k ws d))"
proof -
  have "distinct t \<Longrightarrow> distinct (foldl (\<lambda>t (n, sub). List.insert (k, n, sub) t) t ws)" for t
    by (induction ws arbitrary: t) auto
  then show "distinct (lc_overdue d) \<Longrightarrow> ?thesis"
    by (simp add: record_overdue_def)
qed

lemma emit_subscribers: "emit alive ivd fd ev d w = (r, d', w') \<Longrightarrow> lc_subscribers d' = lc_subscribers d"
  by (auto simp: emit_def Let_def split_beta record_overdue_def prune_overdue_def)

lemma dispatcher_ok_ops:
  assumes "dispatcher_ok d"
  shows "dispatcher_ok (subscribe k n s d)" and "dispatcher_ok (unsubscribe k n d)"
    and "dispatcher_ok (fst (snd (emit alive ivd fd ev d w)))"
  using assms
  by (auto simp: dispatcher_ok_def subscribe_def unsubscribe_def dict_set_distinct dict_pop_distinct
      emit_def Let_def split_beta prune_overdue_def record_overdue_distinct)
    (simp_all add: record_overdue_def)

lemma run_bounded_subs: "map (\<lambda>(n, sub, oc). (n, sub)) (fst (run_bounded f ev subs w)) = subs"
  by (induction subs arbitrary: w) (auto simp: Let_def split_beta)

lemma run_bounded_world: "snd (run_bounded f ev subs w) = foldl (\<lambda>w (n, sub). snd (f sub ev w)) w subs"
  by (induction subs arbitrary: w) (auto simp: Let_def split_beta)

text \<open>The subscribers \<open>emit\<close> calls: those of the target with no live wedged worker of the same instance.\<close>

definition runnable_subscribers :: "(overdue_key \<Rightarrow> bool) \<Rightarrow> target_key \<Rightarrow> dispatcher \<Rightarrow> (string \<times> nat) list" where
  "runnable_subscribers alive k d =
     filter (\<lambda>(n, sub). \<not> ((k, n, sub) \<in> set (lc_overdue d) \<and> alive (k, n, sub))) (lc_subscribers d k)"

lemma split_runnable_eq:
  "snd (split_runnable_subscribers k (lc_subscribers d k) (prune_overdue alive d)) = runnable_subscribers alive k d"
  by (auto simp: split_runnable_subscribers_def runnable_subscribers_def prune_overdue_def intro!: filter_cong)

definition newly_wedged ::
  "(overdue_key \<Rightarrow> bool) \<Rightarrow> ('w, 'x) worker \<Rightarrow> lifecycle_event \<Rightarrow> dispatcher \<Rightarrow> 'w \<Rightarrow> (string \<times> nat) list" where
  "newly_wedged alive ivd ev d w =
     wedged (fst (run_bounded ivd ev (runnable_subscribers alive (ev_target_key ev) d) w))"

lemma force_drop_world:
  "snd (snd (force_drop_newly_overdue fd ev ws errs w)) = foldl (\<lambda>w (n, sub). snd (fd sub ev w)) w ws"
  by (auto simp: force_drop_newly_overdue_def Let_def split_beta run_bounded_world)

lemma wedged_subset: "set (wedged (fst (run_bounded f ev subs w))) \<subseteq> set subs"
proof -
  have "set (wedged rs) \<subseteq> set (map (\<lambda>(n, sub, oc). (n, sub)) rs)" for rs :: "(string \<times> nat \<times> 'a worker_outcome) list"
    by (force simp: wedged_def)
  then show ?thesis
    by (metis run_bounded_subs)
qed

text \<open>What one \<open>emit\<close> calls, in order, and what it records as overdue.\<close>

lemma emit_world:
  assumes "emit alive ivd fd ev d w = (r, d', w')"
  shows "w' = foldl (\<lambda>w (n, sub). snd (fd sub ev w))
                (foldl (\<lambda>w (n, sub). snd (ivd sub ev w)) w (runnable_subscribers alive (ev_target_key ev) d))
                (newly_wedged alive ivd ev d w)"
proof -
  have "w' = snd (snd (emit alive ivd fd ev d w))"
    using assms by simp
  then show ?thesis
    by (simp add: emit_def Let_def split_beta force_drop_world run_bounded_world split_runnable_eq newly_wedged_def)
qed

lemma emit_overdue:
  assumes "emit alive ivd fd ev d w = (r, d', w')"
  shows "set (lc_overdue d') = {x \<in> set (lc_overdue d). alive x} \<union>
     (\<lambda>(n, sub). (ev_target_key ev, n, sub)) ` set (newly_wedged alive ivd ev d w)"
proof -
  have "d' = fst (snd (emit alive ivd fd ev d w))"
    using assms by simp
  moreover have "set (lc_overdue (prune_overdue alive d)) = {x \<in> set (lc_overdue d). alive x}"
    by (auto simp: prune_overdue_def)
  ultimately show ?thesis
    by (simp add: emit_def Let_def split_beta record_overdue_set split_runnable_eq newly_wedged_def)
qed

end
