(* ===== verification/Registry.thy ===== *)
theory Registry
  imports Lifecycle TransportState
begin

text \<open>
  Models \<open>src/kdive/coordination/registry.py\<close>. The directory holds one ownership record and at
  most one tombstone per target, in files named by the target's recovery key, which determines the
  target (\<open>recovery_payload_inj\<close>, up to a SHA-256 collision): they are two \<open>dict\<close>s keyed by the
  target, in the order \<open>glob\<close> lists them. A file is written by an atomic replace, so it holds the
  old content or the new one; what an outside hand left there may not parse (\<open>Malformed\<close>). A
  failing write or sync of the file system is a parameter of the operations of the transaction.
\<close>

datatype 'a disk_file = Parsed 'a | Malformed

record recovery_tombstone =
  rt_target_key :: target_key
  rt_generation :: int
  rt_reason :: string

record registry =
  owner_files :: "(target_key \<times> transport_session disk_file) list"
  tomb_files :: "(target_key \<times> recovery_tombstone disk_file) list"
  lock_held :: bool
  lifecycle_started :: bool
  has_callback :: bool

datatype registry_error = Malformed_record | Instance_lock_held | Rebind_too_late

definition new_registry :: "bool \<Rightarrow> registry" where
  "new_registry cb = \<lparr>owner_files = [], tomb_files = [], lock_held = False, lifecycle_started = False, has_callback = cb\<rparr>"

definition bind_orphan_reap_callback :: "registry \<Rightarrow> (registry_error, registry) result" where
  "bind_orphan_reap_callback r =
     (if lifecycle_started r then Inl Rebind_too_late else Inr (r\<lparr>has_callback := True\<rparr>))"

text \<open>The flock: \<open>held_elsewhere\<close> says whether another process has it.\<close>

definition acquire_instance_lock :: "bool \<Rightarrow> registry \<Rightarrow> (registry_error, registry) result" where
  "acquire_instance_lock held_elsewhere r =
     (if held_elsewhere then Inl Instance_lock_held
      else Inr (r\<lparr>lock_held := True, lifecycle_started := True\<rparr>))"

definition release_instance_lock :: "registry \<Rightarrow> registry" where
  "release_instance_lock r = r\<lparr>lock_held := False\<rparr>"

definition write_record :: "transport_session \<Rightarrow> registry \<Rightarrow> registry" where
  "write_record ses r = r\<lparr>owner_files := dict_set (ts_target_key ses) (Parsed ses) (owner_files r)\<rparr>"

definition read_record :: "target_key \<Rightarrow> registry \<Rightarrow> (registry_error, transport_session option) result" where
  "read_record k r =
     (case map_of (owner_files r) k of
        None \<Rightarrow> Inr None
      | Some Malformed \<Rightarrow> Inl Malformed_record
      | Some (Parsed ses) \<Rightarrow> Inr (Some ses))"

definition unlink_record :: "target_key \<Rightarrow> registry \<Rightarrow> registry" where
  "unlink_record k r = r\<lparr>owner_files := dict_pop k (owner_files r)\<rparr>"

definition delete_record :: "target_key \<Rightarrow> string option \<Rightarrow> registry \<Rightarrow> (registry_error, registry) result" where
  "delete_record k expected r =
     (case expected of
        None \<Rightarrow> Inr (unlink_record k r)
      | Some sid \<Rightarrow>
          rbind (read_record k r) (\<lambda>existing.
            case existing of
              None \<Rightarrow> Inr r
            | Some ses \<Rightarrow> (if session_id ses \<noteq> sid then Inr r else Inr (unlink_record k r))))"

fun parse_all :: "(target_key \<times> transport_session disk_file) list \<Rightarrow> (registry_error, transport_session list) result" where
  "parse_all [] = Inr []"
| "parse_all ((k, f) # fs) =
     (case f of
        Malformed \<Rightarrow> Inl Malformed_record
      | Parsed ses \<Rightarrow> rbind (parse_all fs) (\<lambda>rest. Inr (ses # rest)))"

definition list_records :: "registry \<Rightarrow> (registry_error, transport_session list) result" where
  "list_records r = parse_all (owner_files r)"

definition write_tombstone :: "recovery_tombstone \<Rightarrow> registry \<Rightarrow> registry" where
  "write_tombstone t r = r\<lparr>tomb_files := dict_set (rt_target_key t) (Parsed t) (tomb_files r)\<rparr>"

text \<open>A malformed marker reads as an absent one.\<close>

definition load_tombstone :: "recovery_tombstone disk_file \<Rightarrow> recovery_tombstone option" where
  "load_tombstone f = (case f of Malformed \<Rightarrow> None | Parsed t \<Rightarrow> Some t)"

definition read_tombstone :: "target_key \<Rightarrow> registry \<Rightarrow> recovery_tombstone option" where
  "read_tombstone k r = (case map_of (tomb_files r) k of None \<Rightarrow> None | Some f \<Rightarrow> load_tombstone f)"

definition clear_tombstone :: "target_key \<Rightarrow> int \<Rightarrow> registry \<Rightarrow> registry" where
  "clear_tombstone k expected r =
     (case read_tombstone k r of
        None \<Rightarrow> r
      | Some t \<Rightarrow> (if rt_generation t = expected then r\<lparr>tomb_files := dict_pop k (tomb_files r)\<rparr> else r))"

subsection \<open>Crash reconciliation\<close>

record orphan_reap =
  or_target_key :: target_key
  or_session_id :: string
  or_record :: transport_session
  or_reason :: string
  or_close_admission_required :: bool

record 'x orphan_reap_report =
  op_reaped :: "orphan_reap list"
  op_failures :: "(transport_session \<times> 'x) list"

definition reconciled_reason :: "execution_state \<Rightarrow> string" where
  "reconciled_reason st =
     (case st of HALTED \<Rightarrow> ''reconciled_halted'' | UNKNOWN \<Rightarrow> ''reconciled_unknown'' | EXECUTING \<Rightarrow> ''reconciled_executing'')"

text \<open>
  The collaborators, on a world \<open>'w\<close> beside the registry: \<open>stop_by_identity\<close> of the proxy,
  \<open>mark_recovery_required\<close> of admission, and the orphan-reap callback, which may raise.
\<close>

record ('w, 'x) reconcile_env =
  stop_by_identity :: "int \<Rightarrow> string option \<Rightarrow> 'w \<Rightarrow> bool \<times> 'w"
  mark_required :: "target_key \<Rightarrow> int \<Rightarrow> 'w \<Rightarrow> 'w"
  on_orphan_reaped :: "orphan_reap \<Rightarrow> 'w \<Rightarrow> ('x, unit) result \<times> 'w"

fun reassert_tombstones ::
  "('w, 'x) reconcile_env \<Rightarrow> (target_key \<times> recovery_tombstone disk_file) list \<Rightarrow> 'w \<Rightarrow> 'w" where
  "reassert_tombstones env [] w = w"
| "reassert_tombstones env ((k, f) # fs) w =
     (case load_tombstone f of
        None \<Rightarrow> reassert_tombstones env fs w
      | Some t \<Rightarrow> reassert_tombstones env fs (mark_required env (rt_target_key t) (rt_generation t) w))"

definition reap_one ::
  "('w, 'x) reconcile_env \<Rightarrow> transport_session \<Rightarrow> 'x orphan_reap_report \<Rightarrow> registry \<times> 'w
     \<Rightarrow> (registry_error, 'x orphan_reap_report) result \<times> (registry \<times> 'w)" where
  "reap_one env rec rep s =
     (let (r, w) = s;
          (killed, w1) = (case backend_pid rec of
                            None \<Rightarrow> (False, w)
                          | Some pid \<Rightarrow> stop_by_identity env pid (backend_start_time rec) w);
          (r1, w2) =
            (if execution_state rec \<in> {HALTED, UNKNOWN}
             then (write_tombstone \<lparr>rt_target_key = ts_target_key rec, rt_generation = ts_generation rec,
                                    rt_reason = reconciled_reason (execution_state rec)\<rparr> r,
                   mark_required env (ts_target_key rec) (ts_generation rec) w1)
             else (r, w1));
          reap = \<lparr>or_target_key = ts_target_key rec, or_session_id = session_id rec, or_record = rec,
                  or_reason = ''backend_died'', or_close_admission_required = killed\<rparr>;
          rep1 = rep\<lparr>op_reaped := op_reaped rep @ [reap]\<rparr>;
          (rep2, w3) =
            (if has_callback r
             then case on_orphan_reaped env reap w2 of
                    (Inl x, w') \<Rightarrow> (rep1\<lparr>op_failures := op_failures rep1 @ [(rec, x)]\<rparr>, w')
                  | (Inr u, w') \<Rightarrow> (rep1, w')
             else (rep1, w2))
      in case delete_record (ts_target_key rec) (Some (session_id rec)) r1 of
           Inl e \<Rightarrow> (Inl e, (r1, w3))
         | Inr r2 \<Rightarrow> (Inr rep2, (r2, w3)))"

fun reap_all ::
  "('w, 'x) reconcile_env \<Rightarrow> transport_session list \<Rightarrow> 'x orphan_reap_report \<Rightarrow> registry \<times> 'w
     \<Rightarrow> (registry_error, 'x orphan_reap_report) result \<times> (registry \<times> 'w)" where
  "reap_all env [] rep s = (Inr rep, s)"
| "reap_all env (rec # recs) rep s =
     (case reap_one env rec rep s of
        (Inl e, s') \<Rightarrow> (Inl e, s')
      | (Inr rep', s') \<Rightarrow> reap_all env recs rep' s')"

definition reconcile ::
  "('w, 'x) reconcile_env \<Rightarrow> registry \<times> 'w \<Rightarrow> (registry_error, 'x orphan_reap_report) result \<times> (registry \<times> 'w)" where
  "reconcile env s =
     (let r = (fst s)\<lparr>lifecycle_started := True\<rparr>;
          w1 = reassert_tombstones env (tomb_files r) (snd s)
      in case list_records r of
           Inl e \<Rightarrow> (Inl e, (r, w1))
         | Inr recs \<Rightarrow> reap_all env recs \<lparr>op_reaped = [], op_failures = []\<rparr> (r, w1))"

subsection \<open>Records\<close>

lemma map_of_dict_set [simp]: "map_of (dict_set k x d) = (map_of d)(k \<mapsto> x)"
  by (rule dict_set_lookup)

lemma map_of_dict_pop [simp]: "map_of (dict_pop k d) = (map_of d)(k := None)"
  by (rule dict_pop_lookup)

lemma read_write: "read_record (ts_target_key ses) (write_record ses r) = Inr (Some ses)"
  by (simp add: read_record_def write_record_def)

lemma read_write_other: "k \<noteq> ts_target_key ses \<Longrightarrow> read_record k (write_record ses r) = read_record k r"
  by (simp add: read_record_def write_record_def)

lemma read_unlink: "read_record k' (unlink_record k r) = (if k' = k then Inr None else read_record k' r)"
  by (simp add: read_record_def unlink_record_def)

lemma delete_own: "read_record k r = Inr (Some ses) \<Longrightarrow> delete_record k (Some (session_id ses)) r = Inr (unlink_record k r)"
  by (simp add: delete_record_def)

text \<open>A delete that names another session's id never erases the record.\<close>

lemma delete_fenced:
  "read_record k r = Inr (Some ses) \<Longrightarrow> session_id ses \<noteq> sid \<Longrightarrow> delete_record k (Some sid) r = Inr r"
  by (simp add: delete_record_def)

lemma delete_record_Inr:
  "delete_record k (Some sid) r = Inr r' \<longleftrightarrow>
     (\<exists>x. read_record k r = Inr x \<and>
        r' = (case x of Some ses \<Rightarrow> if session_id ses = sid then unlink_record k r else r | None \<Rightarrow> r))"
  by (cases "read_record k r") (auto simp: delete_record_def split: option.split)

lemma clear_tombstone_read:
  "read_tombstone k (clear_tombstone k g r) =
     (case read_tombstone k r of Some t \<Rightarrow> if rt_generation t = g then None else Some t | None \<Rightarrow> None)"
  by (auto simp: clear_tombstone_def read_tombstone_def split: option.splits)

lemma read_write_tombstone: "read_tombstone (rt_target_key t) (write_tombstone t r) = Some t"
  by (simp add: read_tombstone_def write_tombstone_def load_tombstone_def)

text \<open>The owner directory as the server writes it: one well-formed record per target, under its own key.\<close>

definition owners_ok :: "registry \<Rightarrow> bool" where
  "owners_ok r \<longleftrightarrow>
     distinct (map fst (owner_files r)) \<and>
     (\<forall>(k, f) \<in> set (owner_files r). \<exists>ses. f = Parsed ses \<and> ts_target_key ses = k)"

lemma dict_set_set: "set (dict_set k x d) \<subseteq> insert (k, x) (set d)"
  by (induction d) (auto split: if_splits)

lemma owners_ok_write: "owners_ok r \<Longrightarrow> owners_ok (write_record ses r)"
  using dict_set_set [of "ts_target_key ses" "Parsed ses" "owner_files r"]
  by (fastforce simp: owners_ok_def write_record_def dict_set_distinct)

lemma owners_ok_unlink: "owners_ok r \<Longrightarrow> owners_ok (unlink_record k r)"
  by (auto simp: owners_ok_def unlink_record_def dict_pop_distinct) (auto simp: dict_pop_def)

lemma owners_ok_delete: "owners_ok r \<Longrightarrow> delete_record k e r = Inr r' \<Longrightarrow> owners_ok r'"
  by (auto simp: delete_record_def owners_ok_unlink split: option.splits if_splits)

lemma owners_ok_list:
  assumes "owners_ok r"
  shows "\<exists>recs. list_records r = Inr recs \<and> owner_files r = map (\<lambda>s. (ts_target_key s, Parsed s)) recs"
proof -
  have "(\<forall>(k, f) \<in> set fs. \<exists>ses. f = Parsed ses \<and> ts_target_key ses = k) \<Longrightarrow>
      \<exists>recs. parse_all fs = Inr recs \<and> fs = map (\<lambda>s. (ts_target_key s, Parsed s)) recs"
    for fs :: "(target_key \<times> transport_session disk_file) list"
  proof (induction fs)
    case (Cons kf fs)
    then show ?case
      by (cases kf) (force intro: exI [of _ "_ # _"])
  qed simp
  then show ?thesis
    using assms by (simp add: owners_ok_def list_records_def)
qed

lemma list_records_malformed:
  assumes "(k, Malformed) \<in> set (owner_files r)"
  shows "list_records r = Inl Malformed_record"
proof -
  have "(k, Malformed) \<in> set fs \<Longrightarrow> parse_all fs = Inl Malformed_record" for fs
    by (induction fs) (auto split: disk_file.splits)
  then show ?thesis
    using assms by (simp add: list_records_def)
qed

subsection \<open>Reconciliation\<close>

text \<open>A record under its own key is always reaped, whatever the callback does.\<close>

lemma reap_one_deletes:
  assumes "owner_files r = (ts_target_key rec, Parsed rec) # fs" and "distinct (map fst (owner_files r))"
  shows "\<exists>rep' r' w'. reap_one env rec rep (r, w) = (Inr rep', (r', w'))
     \<and> owner_files r' = fs \<and> map or_record (op_reaped rep') = map or_record (op_reaped rep) @ [rec]
     \<and> has_callback r' = has_callback r
     \<and> tomb_files r' = (if execution_state rec \<in> {HALTED, UNKNOWN}
          then dict_set (ts_target_key rec) (Parsed \<lparr>rt_target_key = ts_target_key rec,
                 rt_generation = ts_generation rec, rt_reason = reconciled_reason (execution_state rec)\<rparr>) (tomb_files r)
          else tomb_files r)"
proof -
  have "dict_pop (ts_target_key rec) (owner_files r) = fs"
    using assms by (force simp: dict_pop_def intro!: filter_True)
  then have del: "delete_record (ts_target_key rec) (Some (session_id rec)) r1
      = Inr (r1\<lparr>owner_files := fs\<rparr>)" if "owner_files r1 = owner_files r" for r1
    using that assms(1) by (simp add: delete_record_def read_record_def unlink_record_def)
  then show ?thesis
    by (auto simp: reap_one_def Let_def split_beta write_tombstone_def split: sum.splits prod.splits)
qed

text \<open>The tombstones after the records have been reaped in order.\<close>

fun tombed :: "transport_session list \<Rightarrow> (target_key \<times> recovery_tombstone disk_file) list
    \<Rightarrow> (target_key \<times> recovery_tombstone disk_file) list" where
  "tombed [] ts = ts"
| "tombed (rec # recs) ts =
     tombed recs
       (if execution_state rec \<in> {HALTED, UNKNOWN}
        then dict_set (ts_target_key rec) (Parsed \<lparr>rt_target_key = ts_target_key rec,
               rt_generation = ts_generation rec, rt_reason = reconciled_reason (execution_state rec)\<rparr>) ts
        else ts)"

lemma reap_all_deletes:
  assumes "owner_files r = map (\<lambda>s. (ts_target_key s, Parsed s)) recs" and "distinct (map ts_target_key recs)"
  shows "\<exists>rep' r' w'. reap_all env recs rep (r, w) = (Inr rep', (r', w'))
     \<and> owner_files r' = [] \<and> map or_record (op_reaped rep') = map or_record (op_reaped rep) @ recs
     \<and> tomb_files r' = tombed recs (tomb_files r)"
  using assms
proof (induction recs arbitrary: r rep w)
  case Nil
  then show ?case by simp
next
  case (Cons rec recs)
  have p1: "owner_files r = (ts_target_key rec, Parsed rec) # map (\<lambda>s. (ts_target_key s, Parsed s)) recs"
    using Cons.prems(1) by simp
  have "map fst (owner_files r) = map ts_target_key (rec # recs)"
    by (simp add: p1 comp_def)
  then have p2: "distinct (map fst (owner_files r))"
    using Cons.prems(2) by metis
  obtain rep1 r1 w1 where one: "reap_one env rec rep (r, w) = (Inr rep1, (r1, w1))"
    and r1: "owner_files r1 = map (\<lambda>s. (ts_target_key s, Parsed s)) recs"
      "map or_record (op_reaped rep1) = map or_record (op_reaped rep) @ [rec]"
      "tomb_files r1 = (if execution_state rec \<in> {HALTED, UNKNOWN}
          then dict_set (ts_target_key rec) (Parsed \<lparr>rt_target_key = ts_target_key rec,
                 rt_generation = ts_generation rec, rt_reason = reconciled_reason (execution_state rec)\<rparr>) (tomb_files r)
          else tomb_files r)"
    using reap_one_deletes [OF p1 p2, of env rep w] by blast
  have "distinct (map ts_target_key recs)"
    using Cons.prems(2) by simp
  with r1(1) obtain rep2 r2 w2 where "reap_all env recs rep1 (r1, w1) = (Inr rep2, (r2, w2))"
      "owner_files r2 = []" "map or_record (op_reaped rep2) = map or_record (op_reaped rep1) @ recs"
      "tomb_files r2 = tombed recs (tomb_files r1)"
    using Cons.IH by blast
  then show ?case
    using one r1 by simp
qed

lemma reconcile_converges:
  assumes "owners_ok r"
  shows "\<exists>recs rep r' w'. list_records r = Inr recs \<and> reconcile env (r, w) = (Inr rep, (r', w'))
     \<and> owner_files r' = [] \<and> map or_record (op_reaped rep) = recs
     \<and> tomb_files r' = tombed recs (tomb_files r)"
proof -
  obtain recs where recs: "list_records r = Inr recs" "owner_files r = map (\<lambda>s. (ts_target_key s, Parsed s)) recs"
    using owners_ok_list [OF assms] by blast
  have dist: "distinct (map ts_target_key recs)"
    using assms recs(2) by (simp add: owners_ok_def comp_def)
  let ?r = "r\<lparr>lifecycle_started := True\<rparr>"
  have "list_records ?r = Inr recs"
    using recs(1) by (simp add: list_records_def)
  then show ?thesis
    using reap_all_deletes [of ?r recs env "\<lparr>op_reaped = [], op_failures = []\<rparr>"
        "reassert_tombstones env (tomb_files r) w"] recs dist
    by (auto simp: reconcile_def Let_def)
qed

text \<open>Every target whose record was not running ends with a tombstone of the record's generation.\<close>

lemma tombed_keeps: "ts_target_key ` set recs \<inter> {k} = {} \<Longrightarrow> map_of (tombed recs ts) k = map_of ts k"
  by (induction recs arbitrary: ts) auto

lemma tombed_marks:
  assumes "distinct (map ts_target_key recs)" and "rec \<in> set recs" and "execution_state rec \<in> {HALTED, UNKNOWN}"
  shows "map_of (tombed recs ts) (ts_target_key rec) = Some (Parsed \<lparr>rt_target_key = ts_target_key rec,
      rt_generation = ts_generation rec, rt_reason = reconciled_reason (execution_state rec)\<rparr>)"
  using assms
proof (induction recs arbitrary: ts)
  case (Cons r recs)
  show ?case
  proof (cases "r = rec")
    case True
    then have "ts_target_key ` set recs \<inter> {ts_target_key rec} = {}"
      using Cons.prems(1) by auto
    then show ?thesis
      using True Cons.prems(3) by (auto simp: tombed_keeps)
  next
    case False
    then show ?thesis
      using Cons by simp
  qed
qed simp

text \<open>A record that does not parse stops the reconciliation before anything is reaped.\<close>

lemma reconcile_malformed:
  assumes "(k, Malformed) \<in> set (owner_files r)"
  shows "\<exists>w'. reconcile env (r, w) = (Inl Malformed_record, (r\<lparr>lifecycle_started := True\<rparr>, w'))"
proof -
  have "list_records (r\<lparr>lifecycle_started := True\<rparr>) = Inl Malformed_record"
    using assms by (intro list_records_malformed) simp
  then show ?thesis
    by (simp add: reconcile_def Let_def)
qed

end
