(* ===== verification/ExecProbe.thy ===== *)
theory ExecProbe
  imports Admission Registry AdmissionFence
begin

text \<open>
  Models \<open>probe_execution_state\<close> of \<open>src/kdive/coordination/exec_probe.py\<close>: the proof the ssh
  tier gives to admission, read from the durable record. The RSP probe of the same file is in
  \<open>RspProbe\<close>.
\<close>

text \<open>\<open>ExecutionState\<close> is a string enumeration: its members are their values.\<close>

fun execution_state_value :: "execution_state \<Rightarrow> string" where
  "execution_state_value EXECUTING = ''executing''"
| "execution_state_value HALTED = ''halted''"
| "execution_state_value UNKNOWN = ''unknown''"

lemma execution_state_of_value [simp]: "execution_state_of (execution_state_value s) = Some s"
  by (cases s) (simp_all add: execution_state_of_def)

lemma executing_value [simp]: "execution_state_value s = ''executing'' \<longleftrightarrow> s = EXECUTING"
  by (cases s) simp_all

definition probe_execution_state ::
  "registry \<Rightarrow> admission \<Rightarrow> target_key \<Rightarrow> int \<Rightarrow> (registry_error, execution_proof) result" where
  "probe_execution_state r a k gen =
     rbind (read_record k r) (\<lambda>record.
       (let st = (case record of None \<Rightarrow> UNKNOWN | Some rec \<Rightarrow> execution_state rec)
        in Inr \<lparr>ep_generation = gen, ep_epoch = current_execution_epoch k a, ep_state = execution_state_value st\<rparr>))"

text \<open>
  The admission of an operation on a non-READY target through the probe's proof succeeds only when
  the durable record says that the target executes.
\<close>

lemma probed_admission_executing:
  assumes "probe_execution_state r a k (sr_generation req) = Inr p" and "sr_execution_proof req = Some p"
    and "admit_ssh_tier u k req now a = Inr (h, a')" and "store a k = Some snap" and "ss_state snap \<noteq> TS_READY"
  shows "\<exists>rec. read_record k r = Inr (Some rec) \<and> execution_state rec = EXECUTING"
  using assms
  by (cases "read_record k r"; cases "projr (read_record k r)")
    (auto simp: probe_execution_state_def Let_def admit_ssh_tier_Inr bind_snapshot_Inr require_executing_proof_Inr)

end
