(* ===== verification/Examples.thy ===== *)
theory Examples
  imports AdmissionInv
begin

text \<open>
  A concrete target, its channel and a run of the admission service, on which the properties of
  the other theories are applied.
\<close>

definition ex_key :: target_key where
  "ex_key = \<lparr>provisioner = ''local-qemu'', target_id = ''vm1''\<rparr>"

definition ex_platform :: platform_metadata where
  "ex_platform = \<lparr>console_kind = UART, console_count = 1, dedicated_debug_line = False,
     ssh_reachable = True, break_hints = [HINT_GDBSTUB_NATIVE]\<rparr>"

definition ex_ref :: transport_ref where
  "ex_ref = \<lparr>tr_provider = ''qemu-gdbstub'', tr_channel_id = ''gdb'', tr_line_role = RSP,
     tr_caps = [''provides_rsp''], tr_target_ref = FMap [(''port'', FInt 1234)], tr_opts = FMap [],
     tr_secret_refs = []\<rparr>"

definition ex_snapshot :: "int \<Rightarrow> target_state \<Rightarrow> target_snapshot" where
  "ex_snapshot gen st = \<lparr>ss_generation = gen, ss_transports = [ex_ref], ss_platform = ex_platform,
     ss_state = st, ss_lease = None\<rparr>"

definition ex_request :: "int \<Rightarrow> open_request" where
  "ex_request gen = \<lparr>req_target_key = ex_key, req_generation = gen, req_transport_ref = ex_ref,
     req_required_caps = [''provides_rsp''], req_platform = ex_platform, req_lease = None,
     req_min_lease_ttl = None\<rparr>"

definition ex_proof :: "int \<Rightarrow> int \<Rightarrow> string \<Rightarrow> execution_proof" where
  "ex_proof gen epoch st = \<lparr>ep_generation = gen, ep_epoch = epoch, ep_state = st\<rparr>"

definition ex_ssh :: "int \<Rightarrow> execution_proof option \<Rightarrow> ssh_request" where
  "ex_ssh gen p = \<lparr>sr_generation = gen, sr_platform = ex_platform, sr_lease = None,
     sr_min_lease_ttl = None, sr_execution_proof = p\<rparr>"

text \<open>The target is published and a transport is open: binding 0.\<close>

definition ex_opened :: admission where
  "ex_opened = run_calls
     [Publish ex_key (ex_snapshot 1 TS_READY), Admit ''h0'' ex_key (ex_request 1) 0, Promote 0] (new_admission 300)"

text \<open>A debug session halts the target, which ran an ssh operation: binding 1.\<close>

definition ex_debugging :: admission where
  "ex_debugging = run_calls
     [Publish ex_key (ex_snapshot 1 DEBUGGING),
      Admit_ssh ''h1'' ex_key (ex_ssh 1 (Some (ex_proof 1 0 ''executing''))) 0] ex_opened"

text \<open>The target is closed at its generation and published again at the next.\<close>

definition ex_closed :: admission where
  "ex_closed = run_calls [Close ex_key 1, Publish ex_key (ex_snapshot 2 TS_READY)] ex_debugging"

lemmas ex_defs = ex_key_def ex_platform_def ex_ref_def ex_snapshot_def ex_request_def ex_proof_def ex_ssh_def

lemma ex_reachable: "reachable ex_opened" "reachable ex_debugging" "reachable ex_closed"
  by (auto simp: ex_opened_def ex_debugging_def ex_closed_def simp del: run_calls.simps
      intro!: reachable_run reachable.start)

end
