(* ===== verification/AdmissionProps.thy ===== *)
theory AdmissionProps
  imports AdmissionFence ExecProbe Examples
begin

text \<open>
  The properties of the admission service, each applied to the run of \<open>Examples\<close>.
\<close>

subsection \<open>Invariant, fence, monotonicity\<close>

text \<open>C6: In every state the service can reach, the binding table of a target holds, once each,
  exactly its live handles; a live handle of a closed target is cancelled; a reclaimed handle is
  cancelled; and no handle was admitted at a later execution epoch than the current one.\<close>

theorem admission_table_invariant:
  assumes "reachable a"
  shows "distinct (bindings a k)
    \<and> (h \<in> set (bindings a k) \<longleftrightarrow> h < length (handles a) \<and> ah_state (handle_of a h) \<in> {PENDING, PROMOTED}
          \<and> ah_target_key (handle_of a h) = k)
    \<and> (h \<in> set (bindings a k) \<and> closed_at a k \<noteq> None \<longrightarrow> ah_cancel (handle_of a h))
    \<and> (h < length (handles a) \<longrightarrow> (ah_reaped (handle_of a h) \<longrightarrow> ah_cancel (handle_of a h))
          \<and> ah_admit_epoch (handle_of a h) \<le> current_execution_epoch (ah_target_key (handle_of a h)) a)"
proof -
  note ok = reachable_ok [OF assms]
  have "distinct (bindings a k)"
    using adm_ok_table [OF ok] by (simp add: table_ok_def)
  moreover note table_mem [OF adm_ok_table [OF ok], of h k] adm_ok_handle [OF ok, of h]
  ultimately show ?thesis
    by (auto simp: handle_ok_def)
qed

theorem admission_table_invariant_witness:
  "distinct (bindings ex_closed ex_key) \<and> bindings ex_closed ex_key = [0, 1] \<and> ah_cancel (handle_of ex_closed 1)"
proof -
  have "bindings ex_closed ex_key = [0, 1]" "closed_at ex_closed ex_key \<noteq> None"
    by code_simp+
  then show ?thesis
    using admission_table_invariant [OF ex_reachable(3), of ex_key 1] by simp
qed

text \<open>C1: A closed target reopens only after its teardown: if a binding held resources (it was
  PROMOTED) while the target was closed, and some later sequence of calls leaves the target open,
  then the reclamation of that binding was confirmed in between, whatever the calls were.\<close>

theorem teardown_before_reopen:
  assumes "reachable a" and "closed_at a k \<noteq> None" and "h \<in> set (bindings a k)"
    and "ah_state (handle_of a h) = PROMOTED" and "closed_at (run_calls cs a) k = None"
  shows "ah_reaped (handle_of (run_calls cs a) h)"
proof (cases "ah_reaped (handle_of a h)")
  case True
  have "h < length (handles a)"
    by (rule bindings_range [OF reachable_ok [OF assms(1)] assms(3)])
  then show ?thesis
    using adm_le_handle [OF adm_le_run, of h a cs] True by (simp add: handle_le_def)
next
  case False
  then have "h \<in> held k a"
    using assms(3,4) by (simp add: held_def)
  then show ?thesis
    by (rule held_until_reaped [OF reachable_ok [OF assms(1)] assms(2) _ assms(5)])
qed

theorem teardown_before_reopen_witness:
  "ah_reaped (handle_of (run_calls [Confirm_reaped 0, Abandon 0, Confirm_reaped 1, Abandon 1, Reopen ex_key] ex_closed) 0)"
  by (rule teardown_before_reopen [OF ex_reachable(3), where k = ex_key]) (code_simp+)

text \<open>C2: Seen from any one target, every call of the service, failing ones included, is a step of
  the abstract fence: a generation that only grows, admissions and promotions only while open,
  disposal of what holds resources only while open or after its reclamation, and reopening only
  with no live binding and a generation newer than the closure's.\<close>

theorem admission_refines_fence:
  assumes "reachable a"
  shows "fence_step (fence_of k a) (fence_of k (after_call c a))"
  by (rule refine_after [OF reachable_ok [OF assms]])

theorem admission_refines_fence_witness:
  "fence_step (fence_of ex_key ex_debugging) (fence_of ex_key (after_call (Close ex_key 1) ex_debugging))
     \<and> f_closed (fence_of ex_key ex_debugging) = None
     \<and> f_closed (fence_of ex_key (after_call (Close ex_key 1) ex_debugging)) = Some 1"
  using admission_refines_fence [OF ex_reachable(2), of ex_key "Close ex_key 1"]
  by (intro conjI) (assumption, code_simp, code_simp)

text \<open>C7: No sequence of calls undoes a handle's progress: its identity, op, channel and admission
  epoch never change, a cancellation or a confirmed reclamation is never taken back, a handle that
  was completed, rolled back or abandoned keeps that state, and neither the execution epoch nor the
  published generation of a target ever decreases.\<close>

theorem handles_only_advance:
  fixes cs :: "adm_call list"
  assumes "h < length (handles a)"
  defines "b \<equiv> run_calls cs a"
  shows "ah_target_key (handle_of b h) = ah_target_key (handle_of a h) \<and> ah_op (handle_of b h) = ah_op (handle_of a h)
    \<and> ah_channel (handle_of b h) = ah_channel (handle_of a h)
    \<and> ah_admit_epoch (handle_of b h) = ah_admit_epoch (handle_of a h)
    \<and> (ah_cancel (handle_of a h) \<longrightarrow> ah_cancel (handle_of b h))
    \<and> (ah_reaped (handle_of a h) \<longrightarrow> ah_reaped (handle_of b h))
    \<and> (ah_state (handle_of a h) \<notin> {PENDING, PROMOTED} \<longrightarrow> ah_state (handle_of b h) = ah_state (handle_of a h))
    \<and> current_execution_epoch k a \<le> current_execution_epoch k b
    \<and> (\<forall>snap. store a k = Some snap \<longrightarrow> (\<exists>snap'. store b k = Some snap' \<and> ss_generation snap \<le> ss_generation snap'))"
proof -
  have le: "adm_le a b"
    unfolding b_def by (rule adm_le_run)
  then have "handle_le (handle_of a h) (handle_of b h)"
    using adm_le_handle assms(1) by blast
  moreover have "advances s t \<Longrightarrow> s \<notin> {PENDING, PROMOTED} \<Longrightarrow> t = s" for s t
    by (cases s) simp_all
  ultimately show ?thesis
    using le by (auto simp: handle_le_def adm_le_def)
qed

theorem handles_only_advance_witness:
  "ah_cancel (handle_of (run_calls [Reopen ex_key, Promote 1] ex_closed) 0)"
proof -
  have "0 < length (handles ex_closed)" "ah_cancel (handle_of ex_closed 0)"
    by code_simp+
  then show ?thesis
    using handles_only_advance [of 0 ex_closed "[Reopen ex_key, Promote 1]"] by blast
qed

subsection \<open>When an operation is admitted\<close>

text \<open>What a lease bound to the snapshot asks of a request.\<close>

definition lease_satisfied :: "admission \<Rightarrow> target_snapshot \<Rightarrow> lease_info option \<Rightarrow> int option \<Rightarrow> int \<Rightarrow> bool" where
  "lease_satisfied a snap lease ttl now \<longleftrightarrow>
     (case ss_lease snap of
        None \<Rightarrow> True
      | Some l \<Rightarrow> map_option lease_id lease = Some (lease_id l)
          \<and> (case expires_at l of None \<Rightarrow> True
             | Some t \<Rightarrow> now + (case ttl of None \<Rightarrow> default_min_lease_ttl a | Some n \<Rightarrow> n) * 1000000 < t))"

lemma lease_satisfied_checks:
  "lease_satisfied a snap lease ttl now \<longleftrightarrow>
     check_lease_identity snap lease = Inr () \<and> check_lease_ttl a snap ttl now = Inr ()"
  by (auto simp: lease_satisfied_def check_lease_identity_Inr check_lease_ttl_Inr split: option.splits)

text \<open>The recovery gate: no tombstone of this generation or a newer one.\<close>

definition no_recovery_pending :: "admission \<Rightarrow> target_key \<Rightarrow> int \<Rightarrow> bool" where
  "no_recovery_pending a k gen \<longleftrightarrow> (case recovery_required a k of None \<Rightarrow> True | Some tomb \<Rightarrow> tomb < gen)"

lemma bind_snapshot_gate:
  "bind_snapshot k gen False a = Inr snap \<longleftrightarrow>
     closed_at a k = None \<and> store a k = Some snap \<and> gen = ss_generation snap \<and> no_recovery_pending a k gen"
  by (auto simp: bind_snapshot_Inr no_recovery_pending_def split: option.splits)

lemma rebind_find:
  "rebind ref snap = Inr ch \<longleftrightarrow>
     List.find (\<lambda>c. tr_provider c = tr_provider ref \<and> tr_channel_id c = tr_channel_id ref) (ss_transports snap) = Some ch
     \<and> py_eq (tr_target_ref ch) (tr_target_ref ref) \<and> tr_line_role ch = tr_line_role ref \<and> tr_caps ch = tr_caps ref"
proof -
  have "rebind_loop ref cs = Inr ch \<longleftrightarrow>
     List.find (\<lambda>c. tr_provider c = tr_provider ref \<and> tr_channel_id c = tr_channel_id ref) cs = Some ch
     \<and> py_eq (tr_target_ref ch) (tr_target_ref ref) \<and> tr_line_role ch = tr_line_role ref \<and> tr_caps ch = tr_caps ref" for cs
    by (induction cs) auto
  then show ?thesis
    by (simp add: rebind_def)
qed

text \<open>C3: An ssh-tier operation is admitted exactly when the target is open, the request names the
  published generation and platform, no recovery is pending, the lease is the snapshot's and lives
  long enough, and the target is READY or is DEBUGGING with a proof, of this generation and of the
  current execution epoch, that it executes.\<close>

theorem ssh_admitted_iff:
  "\<not> isl (admit_ssh_tier u k req now a) \<longleftrightarrow>
     closed_at a k = None \<and> no_recovery_pending a k (sr_generation req)
     \<and> (\<exists>snap. store a k = Some snap \<and> sr_generation req = ss_generation snap \<and> sr_platform req = ss_platform snap
          \<and> lease_satisfied a snap (sr_lease req) (sr_min_lease_ttl req) now
          \<and> (ss_state snap = TS_READY
             \<or> ss_state snap = DEBUGGING
               \<and> (\<exists>p. sr_execution_proof req = Some p \<and> ep_state p = ''executing''
                    \<and> ep_generation p = ss_generation snap \<and> ep_epoch p = current_execution_epoch k a)))"
  (is "?l \<longleftrightarrow> ?r")
proof -
  have "?l \<longleftrightarrow> (\<exists>h a'. admit_ssh_tier u k req now a = Inr (h, a'))"
    by (cases "admit_ssh_tier u k req now a") auto
  also have "\<dots> \<longleftrightarrow> ?r"
    by (simp only: admit_ssh_tier_Inr require_executing_proof_Inr bind_snapshot_gate)
      (auto simp: lease_satisfied_checks register_def Let_def)
  finally show ?thesis .
qed

text \<open>A transport open is admitted exactly when the request is for this target and generation,
  the first published channel with the request's provider and channel id agrees with it in routing
  data, line role and capabilities and has every required capability, platform and lease match, no
  recovery is pending and the target is READY; the handle then carries the published channel.\<close>

theorem open_admitted_iff:
  "\<not> isl (admit u k req now a) \<longleftrightarrow>
     req_target_key req = k \<and> closed_at a k = None \<and> no_recovery_pending a k (req_generation req)
     \<and> (\<exists>snap ch. store a k = Some snap \<and> req_generation req = ss_generation snap \<and> ss_state snap = TS_READY
          \<and> List.find (\<lambda>c. tr_provider c = tr_provider (req_transport_ref req)
                        \<and> tr_channel_id c = tr_channel_id (req_transport_ref req)) (ss_transports snap) = Some ch
          \<and> py_eq (tr_target_ref ch) (tr_target_ref (req_transport_ref req))
          \<and> tr_line_role ch = tr_line_role (req_transport_ref req) \<and> tr_caps ch = tr_caps (req_transport_ref req)
          \<and> set (req_required_caps req) \<subseteq> set (tr_caps ch) \<and> req_platform req = ss_platform snap
          \<and> lease_satisfied a snap (req_lease req) (req_min_lease_ttl req) now)"
  (is "?l \<longleftrightarrow> ?r")
proof -
  have "?l \<longleftrightarrow> (\<exists>h a'. admit u k req now a = Inr (h, a'))"
    by (cases "admit u k req now a") auto
  also have "\<dots> \<longleftrightarrow> ?r"
    by (simp only: admit_Inr validate_open_Inr bind_snapshot_gate rebind_find)
      (auto simp: lease_satisfied_checks register_def Let_def)
  finally show ?thesis .
qed

text \<open>A recovery open bypasses the recovery gate but only under the tombstone of exactly the
  published generation, and only on an open target.\<close>

theorem recovery_open_tombstoned:
  assumes "admit_recovery u k req now a = Inr (h, a')"
  shows "closed_at a k = None \<and> recovery_required a k = Some (req_generation req) \<and> req_target_key req = k
    \<and> (\<exists>snap. store a k = Some snap \<and> ss_generation snap = req_generation req \<and> ss_state snap \<in> {TS_READY, DEBUGGING})
    \<and> ah_recovery (handle_of a' h) \<and> ah_state (handle_of a' h) = PENDING \<and> bindings a' k = bindings a k @ [h]"
  using assms
  by (auto simp: admit_recovery_Inr validate_open_Inr bind_snapshot_Inr register_def Let_def)

theorem recovery_open_tombstoned_witness:
  "closed_at (run_calls [Mark ex_key 1] ex_opened) ex_key = None
   \<and> isl (admit ''h9'' ex_key (ex_request 1) 0 (run_calls [Mark ex_key 1] ex_opened))"
proof -
  have "\<not> isl (admit_recovery ''h9'' ex_key (ex_request 1) 0 (run_calls [Mark ex_key 1] ex_opened))"
    "isl (admit ''h9'' ex_key (ex_request 1) 0 (run_calls [Mark ex_key 1] ex_opened))"
    by code_simp+
  then show ?thesis
    using recovery_open_tombstoned [of "''h9''" ex_key "ex_request 1" 0 "run_calls [Mark ex_key 1] ex_opened"]
    by (cases "admit_recovery ''h9'' ex_key (ex_request 1) 0 (run_calls [Mark ex_key 1] ex_opened)") auto
qed

subsection \<open>Halts\<close>

text \<open>C4: An ssh-tier operation that was running when the target's execution changed never completes:
  after the transition is noted, and whatever calls follow, \<open>complete\<close> refuses its handle, because
  it was cancelled or because its epoch is stale.\<close>

theorem op_spanning_halt_never_completes:
  assumes "reachable a" and "h < length (handles a)" and "ah_op (handle_of a h) = SSH_TIER"
    and "generation_current (ah_target_key (handle_of a h)) gen a"
  shows "complete h (run_calls (Note (ah_target_key (handle_of a h)) gen # cs) a)
     \<in> {Inl Admission_cancelled, Inl Execution_state_changed}"
proof -
  let ?k = "ah_target_key (handle_of a h)"
  have "run_calls (Note ?k gen # cs) a = run_calls cs (snd (note_execution_transition ?k gen a))"
    by (simp add: after_call_def)
  then show ?thesis
    using spanning_op_never_completes [OF reachable_ok [OF assms(1)] assms(2,3) refl assms(4), of cs]
    by (simp split: if_split_asm)
qed

theorem op_spanning_halt_never_completes_witness:
  "complete 1 (run_calls [Note ex_key 1, Publish ex_key (ex_snapshot 1 TS_READY)] ex_debugging) = Inl Execution_state_changed"
proof -
  have h: "1 < length (handles ex_debugging)" "ah_op (handle_of ex_debugging 1) = SSH_TIER"
    "ah_target_key (handle_of ex_debugging 1) = ex_key"
    by code_simp+
  have g: "generation_current ex_key 1 ex_debugging"
    by code_simp
  have "\<not> ah_cancel (handle_of (run_calls [Note ex_key 1, Publish ex_key (ex_snapshot 1 TS_READY)] ex_debugging) 1)"
    by code_simp
  then have "complete 1 (run_calls [Note ex_key 1, Publish ex_key (ex_snapshot 1 TS_READY)] ex_debugging) \<noteq> Inl Admission_cancelled"
    by (simp add: complete_def Let_def dispose_def del: run_calls.simps)
  then show ?thesis
    using op_spanning_halt_never_completes [OF ex_reachable(2) h(1,2), unfolded h(3), OF g, of "[Publish ex_key (ex_snapshot 1 TS_READY)]"]
    by blast
qed

text \<open>A proof of execution taken before a halt is worthless after it: once the transition is
  noted, no later sequence of calls makes an ssh-tier admission that offers the proof succeed while
  the target is not READY.\<close>

theorem stale_proof_never_admits:
  assumes "generation_current k gen a" and "ep_epoch p \<le> current_execution_epoch k a"
    and "sr_execution_proof req = Some p"
    and "store (run_calls (Note k gen # cs) a) k = Some snap" and "ss_state snap \<noteq> TS_READY"
  shows "isl (admit_ssh_tier u k req now (run_calls (Note k gen # cs) a))"
proof -
  have "run_calls (Note k gen # cs) a = run_calls cs (snd (note_execution_transition k gen a))"
    by (simp add: after_call_def)
  then show ?thesis
    using stale_proof_refused [OF assms(1,2), of cs snap req u now] assms(3-5) by simp
qed

theorem stale_proof_never_admits_witness:
  "isl (admit_ssh_tier ''h2'' ex_key (ex_ssh 1 (Some (ex_proof 1 0 ''executing''))) 0 (run_calls [Note ex_key 1] ex_debugging))
   \<and> \<not> isl (admit_ssh_tier ''h2'' ex_key (ex_ssh 1 (Some (ex_proof 1 0 ''executing''))) 0 ex_debugging)"
proof
  show "isl (admit_ssh_tier ''h2'' ex_key (ex_ssh 1 (Some (ex_proof 1 0 ''executing''))) 0 (run_calls [Note ex_key 1] ex_debugging))"
    by (rule stale_proof_never_admits [where p = "ex_proof 1 0 ''executing''" and snap = "ex_snapshot 1 DEBUGGING"])
      (code_simp+)
  show "\<not> isl (admit_ssh_tier ''h2'' ex_key (ex_ssh 1 (Some (ex_proof 1 0 ''executing''))) 0 ex_debugging)"
    by code_simp
qed

text \<open>The proof that \<open>probe_execution_state\<close> makes admits an ssh-tier operation on a target that is
  not READY only if the durable record is there and says EXECUTING: an absent record, or a HALTED
  or UNKNOWN one, is refused.\<close>

theorem probe_admits_executing_only:
  assumes "probe_execution_state r a k (sr_generation req) = Inr p" and "sr_execution_proof req = Some p"
    and "\<not> isl (admit_ssh_tier u k req now a)" and "store a k = Some snap" and "ss_state snap \<noteq> TS_READY"
  shows "\<exists>rec. read_record k r = Inr (Some rec) \<and> execution_state rec = EXECUTING"
  using probed_admission_executing [OF assms(1,2) _ assms(4,5), of u now] assms(3)
  by (cases "admit_ssh_tier u k req now a") auto

definition ex_session :: "string \<Rightarrow> int \<Rightarrow> execution_state \<Rightarrow> transport_session" where
  "ex_session sid gen st =
     \<lparr>session_id = sid, ts_target_key = ex_key, ts_generation = gen, ts_provider = ''qemu-gdbstub'',
      ts_channel_id = ''gdb'', console_endpoint = None, rsp_endpoint = Some (TcpEndpoint ''127.0.0.1'' 1234),
      record_state = RS_READY, console_lease_token = None, stop_guard_token = None, attach_epoch = 0,
      ts_break_plan = None, execution_state = st, backend_pid = Some 4711, backend_start_time = None,
      created_at = 0, ended_at = None, ts_artifacts = []\<rparr>"

theorem probe_admits_executing_only_witness:
  "\<exists>rec. read_record ex_key (write_record (ex_session ''s'' 1 EXECUTING) (new_registry False)) = Inr (Some rec) \<and> execution_state rec = EXECUTING"
  by (rule probe_admits_executing_only [where a = ex_debugging and req = "ex_ssh 1 (Some (ex_proof 1 0 ''executing''))"
        and p = "ex_proof 1 0 ''executing''" and snap = "ex_snapshot 1 DEBUGGING" and u = "''h2''" and now = 0])
    (code_simp+)

subsection \<open>Closing and draining\<close>

text \<open>Closing a target, unless the event is older than the published generation, returns and
  cancels every live binding, and from then on refuses opens, recovery opens and ssh-tier
  operations alike.\<close>

theorem close_cancels_and_fences:
  assumes "reachable a" and "\<not> is_stale_lifecycle_close k gen a" and "close_admission k gen a = (hs, b)"
  shows "hs = bindings a k \<and> bindings b = bindings a \<and> (\<forall>h \<in> set hs. ah_cancel (handle_of b h))
    \<and> closed_at b k = Some (case closed_at a k of None \<Rightarrow> gen | Some g \<Rightarrow> g)
    \<and> isl (admit u k req now b) \<and> isl (admit_recovery u k req now b) \<and> isl (admit_ssh_tier u k sreq now b)"
proof -
  note e = close_effect [OF reachable_ok [OF assms(1)] assms(2)]
  have c: "closed_at b k \<noteq> None"
    using e(3) assms(3) by (auto split: if_splits)
  show ?thesis
    using e assms(3) closed_refuses [OF c] by (auto split: option.splits)
qed

theorem close_cancels_and_fences_witness:
  "ah_cancel (handle_of (snd (close_admission ex_key 1 ex_debugging)) 0) \<and> ah_cancel (handle_of (snd (close_admission ex_key 1 ex_debugging)) 1)"
proof -
  have "\<not> is_stale_lifecycle_close ex_key 1 ex_debugging" "bindings ex_debugging ex_key = [0, 1]"
    by code_simp+
  then show ?thesis
    using close_cancels_and_fences [OF ex_reachable(2) _ prod.collapse [symmetric], of ex_key 1] by auto
qed

text \<open>C5: A closed target whose next generation is published can always be reopened: confirming and
  abandoning each live binding, in table order, and then calling \<open>reopen\<close>, leaves it open with an
  empty table.\<close>

theorem drain_always_reopens:
  assumes "reachable a" and "closed_at a k = Some g" and "store a k = Some snap" and "g < ss_generation snap"
  shows "closed_at (run_calls (drain k a) a) k = None"
  by (rule drain_reopens [OF reachable_ok [OF assms(1)] assms(2-4)])

theorem drain_always_reopens_witness:
  "closed_at (run_calls (drain ex_key ex_closed) ex_closed) ex_key = None \<and> length (drain ex_key ex_closed) = 5"
proof
  show "closed_at (run_calls (drain ex_key ex_closed) ex_closed) ex_key = None"
    by (rule drain_always_reopens [OF ex_reachable(3), where g = 1 and snap = "ex_snapshot 2 TS_READY"]) (code_simp+)
qed code_simp

end
