(* ===== verification/Authority.thy ===== *)
theory Authority
  imports Prelude
begin

text \<open>
  The contract shared by the console lease manager (\<open>coordination/lease.py\<close>) and the
  stop-capable guard (\<open>seams/guard.py\<close>): a single holder per key, named by a token;
  only the current token releases; a token that has lost its key never gets it back.
  \<open>admissible\<close> says which inputs of \<open>acquire\<close> the environment may supply (a UUID not
  drawn before, an owner that is not \<open>FREE\<close>); \<open>retired t s\<close> says that \<open>t\<close> was issued
  before \<open>s\<close>.
\<close>

datatype ('k, 'i, 't) authority_op = Acquire 'k 'i | Release 'k 't | Revoke 'k

fun authority_step ::
  "('k \<Rightarrow> 'i \<Rightarrow> 's \<Rightarrow> ('e, 't) result \<times> 's) \<Rightarrow> ('k \<Rightarrow> 't \<Rightarrow> 's \<Rightarrow> bool \<times> 's) \<Rightarrow> ('k \<Rightarrow> 's \<Rightarrow> 's)
     \<Rightarrow> ('k, 'i, 't) authority_op \<Rightarrow> 's \<Rightarrow> 's" where
  "authority_step acq rel rvk (Acquire k i) s = snd (acq k i s)"
| "authority_step acq rel rvk (Release k t) s = snd (rel k t s)"
| "authority_step acq rel rvk (Revoke k) s = rvk k s"

fun authority_run ::
  "('k \<Rightarrow> 'i \<Rightarrow> 's \<Rightarrow> ('e, 't) result \<times> 's) \<Rightarrow> ('k \<Rightarrow> 't \<Rightarrow> 's \<Rightarrow> bool \<times> 's) \<Rightarrow> ('k \<Rightarrow> 's \<Rightarrow> 's)
     \<Rightarrow> ('k, 'i, 't) authority_op list \<Rightarrow> 's \<Rightarrow> 's" where
  "authority_run acq rel rvk [] s = s"
| "authority_run acq rel rvk (x # xs) s = authority_run acq rel rvk xs (authority_step acq rel rvk x s)"

text \<open>Every acquisition of the run gets an input the environment may supply at that point.\<close>

fun authority_fed ::
  "('i \<Rightarrow> 's \<Rightarrow> bool) \<Rightarrow> ('k \<Rightarrow> 'i \<Rightarrow> 's \<Rightarrow> ('e, 't) result \<times> 's) \<Rightarrow> ('k \<Rightarrow> 't \<Rightarrow> 's \<Rightarrow> bool \<times> 's)
     \<Rightarrow> ('k \<Rightarrow> 's \<Rightarrow> 's) \<Rightarrow> ('k, 'i, 't) authority_op list \<Rightarrow> 's \<Rightarrow> bool" where
  "authority_fed adm acq rel rvk [] s = True"
| "authority_fed adm acq rel rvk (x # xs) s =
     ((case x of Acquire k i \<Rightarrow> adm i s | _ \<Rightarrow> True)
      \<and> authority_fed adm acq rel rvk xs (authority_step acq rel rvk x s))"

locale keyed_authority =
  fixes holder :: "'s \<Rightarrow> 'k \<Rightarrow> 't option"
    and acquire :: "'k \<Rightarrow> 'i \<Rightarrow> 's \<Rightarrow> ('e, 't) result \<times> 's"
    and release :: "'k \<Rightarrow> 't \<Rightarrow> 's \<Rightarrow> bool \<times> 's"
    and revoke :: "'k \<Rightarrow> 's \<Rightarrow> 's"
    and retired :: "'t \<Rightarrow> 's \<Rightarrow> bool"
    and admissible :: "'i \<Rightarrow> 's \<Rightarrow> bool"
    and invar :: "'s \<Rightarrow> bool"
  assumes acquire_free: "invar s \<Longrightarrow> admissible i s \<Longrightarrow> holder s k = None \<Longrightarrow>
        \<exists>t s'. acquire k i s = (Inr t, s') \<and> holder s' = (holder s)(k \<mapsto> t)"
    and acquire_refused: "acquire k i s = (Inl e, s') \<Longrightarrow> holder s' = holder s"
    and acquire_held: "invar s \<Longrightarrow> holder s k \<noteq> None \<Longrightarrow> \<exists>e s'. acquire k i s = (Inl e, s')"
    and acquired: "invar s \<Longrightarrow> acquire k i s = (Inr t, s') \<Longrightarrow> holder s' = (holder s)(k \<mapsto> t)"
    and release_current: "invar s \<Longrightarrow> holder s k = Some t \<Longrightarrow>
        fst (release k t s) \<and> holder (snd (release k t s)) = (holder s)(k := None)"
    and release_stale: "invar s \<Longrightarrow> holder s k \<noteq> Some t \<Longrightarrow>
        \<not> fst (release k t s) \<and> holder (snd (release k t s)) = holder s"
    and revoke_frees: "holder (revoke k s) = (holder s)(k := None)"
    and issue_new: "invar s \<Longrightarrow> admissible i s \<Longrightarrow> acquire k i s = (Inr t, s') \<Longrightarrow> \<not> retired t s"
    and holder_retired: "invar s \<Longrightarrow> holder s k = Some t \<Longrightarrow> retired t s"
    and retired_acquire: "retired t s \<Longrightarrow> retired t (snd (acquire k i s))"
    and retired_release: "retired t s \<Longrightarrow> retired t (snd (release k u s))"
    and retired_revoke: "retired t s \<Longrightarrow> retired t (revoke k s)"
    and invar_acquire: "invar s \<Longrightarrow> invar (snd (acquire k i s))"
    and invar_release: "invar s \<Longrightarrow> invar (snd (release k u s))"
    and invar_revoke: "invar s \<Longrightarrow> invar (revoke k s)"
begin

lemma step_invar: "invar s \<Longrightarrow> invar (authority_step acquire release revoke x s)"
  by (cases x) (simp_all add: invar_acquire invar_release invar_revoke)

lemma step_retired: "retired t s \<Longrightarrow> retired t (authority_step acquire release revoke x s)"
  by (cases x) (simp_all add: retired_acquire retired_release retired_revoke)

lemma run_invar: "invar s \<Longrightarrow> invar (authority_run acquire release revoke xs s)"
  by (induction xs arbitrary: s) (simp_all add: step_invar)

text \<open>A step gives a key only to a token it has just issued.\<close>

lemma step_holder:
  assumes "invar s" and "(case x of Acquire k' i \<Rightarrow> admissible i s | _ \<Rightarrow> True)"
    and "holder (authority_step acquire release revoke x s) k = Some t"
  shows "holder s k = Some t \<or> \<not> retired t s"
proof (cases x)
  case (Acquire k' i)
  show ?thesis
  proof (cases "acquire k' i s")
    case (Pair r s')
    then show ?thesis
      using Acquire assms acquired [OF assms(1)] acquire_refused issue_new
      by (cases r) (fastforce split: if_splits)+
  qed
next
  case (Release k' u)
  then show ?thesis
    using assms release_current [OF assms(1), of k' u] release_stale [OF assms(1), of k' u]
    by (cases "holder s k' = Some u") (auto split: if_splits)
next
  case (Revoke k')
  then show ?thesis
    using assms by (auto simp: revoke_frees split: if_splits)
qed

text \<open>A token that no longer holds its key is dead: no run revives it.\<close>

lemma dead_forever:
  assumes "invar s" and "retired t s" and "holder s k \<noteq> Some t"
    and "authority_fed admissible acquire release revoke xs s"
  shows "holder (authority_run acquire release revoke xs s) k \<noteq> Some t"
  using assms
proof (induction xs arbitrary: s)
  case Nil
  then show ?case by simp
next
  case (Cons x xs)
  let ?s = "authority_step acquire release revoke x s"
  have "holder ?s k \<noteq> Some t"
    using Cons.prems step_holder [of s x k t] by auto
  moreover have "invar ?s" "retired t ?s"
    using Cons.prems by (simp_all add: step_invar step_retired)
  ultimately show ?case
    using Cons.IH [of ?s] Cons.prems(4) by simp
qed

lemma dead_release_noop:
  assumes "invar s" and "retired t s" and "holder s k \<noteq> Some t"
    and "authority_fed admissible acquire release revoke xs s"
  shows "let s' = authority_run acquire release revoke xs s in
           \<not> fst (release k t s') \<and> holder (snd (release k t s')) = holder s'"
  unfolding Let_def
  by (rule release_stale [OF run_invar [OF assms(1)] dead_forever [OF assms]])

text \<open>Between an acquisition and the next change of its holder nobody else acquires.\<close>

lemma exclusive:
  assumes "invar s" and "acquire k i s = (Inr t, s')"
  shows "holder s k = None" and "holder s' k = Some t" and "\<exists>e s''. acquire k j s' = (Inl e, s'')"
proof -
  show "holder s k = None"
    using acquire_held [OF assms(1)] assms(2) by (metis Inl_Inr_False fst_conv)
  show held: "holder s' k = Some t"
    using acquired [OF assms] by simp
  have "invar s'"
    using invar_acquire [OF assms(1), of k i] assms(2) by simp
  then show "\<exists>e s''. acquire k j s' = (Inl e, s'')"
    using acquire_held held by blast
qed

lemma release_idempotent:
  assumes "invar s"
  shows "let s' = snd (release k t s) in \<not> fst (release k t s') \<and> holder (snd (release k t s')) = holder s'"
proof -
  have "holder (snd (release k t s)) k \<noteq> Some t"
    using release_current [OF assms] release_stale [OF assms] by (cases "holder s k = Some t") auto
  then show ?thesis
    unfolding Let_def by (rule release_stale [OF invar_release [OF assms]])
qed

end

end
