(* ===== verification/StopGuard.thy ===== *)
theory StopGuard
  imports Authority Target
begin

text \<open>
  Models \<open>InProcessStopCapableGuard\<close> of \<open>src/kdive/seams/guard.py\<close>: one stop-capable
  holder per target, tokens fenced by a counter of the whole guard. Every operation runs under
  the guard's lock. The token's secret, \<open>uuid.uuid4().hex\<close>, is an argument.
\<close>

record guard_token =
  gt_target_key :: target_key
  gt_fence :: int
  gt_secret :: string

datatype guard_error = Guard_conflict

record stop_guard =
  sg_holders :: "target_key \<rightharpoonup> guard_token"
  sg_fence :: int

definition new_stop_guard :: stop_guard where
  "new_stop_guard = \<lparr>sg_holders = Map.empty, sg_fence = 0\<rparr>"

definition guard_acquire ::
  "target_key \<Rightarrow> string \<Rightarrow> stop_guard \<Rightarrow> (guard_error, guard_token) result \<times> stop_guard" where
  "guard_acquire k secret g =
     (if sg_holders g k \<noteq> None then (Inl Guard_conflict, g)
      else let fence = sg_fence g + 1;
               token = \<lparr>gt_target_key = k, gt_fence = fence, gt_secret = secret\<rparr>
           in (Inr token, g\<lparr>sg_fence := fence, sg_holders := (sg_holders g)(k \<mapsto> token)\<rparr>))"

definition guard_release :: "target_key \<Rightarrow> guard_token \<Rightarrow> stop_guard \<Rightarrow> bool \<times> stop_guard" where
  "guard_release k token g =
     (if gt_target_key token \<noteq> k then (False, g)
      else case sg_holders g k of
        None \<Rightarrow> (False, g)
      | Some current \<Rightarrow>
          (if current \<noteq> token then (False, g)
           else (True, g\<lparr>sg_holders := (sg_holders g)(k := None)\<rparr>)))"

definition guard_revoke :: "target_key \<Rightarrow> stop_guard \<Rightarrow> stop_guard" where
  "guard_revoke k g = g\<lparr>sg_holders := (sg_holders g)(k := None)\<rparr>"

text \<open>A holder's token names its own target and was fenced by the counter.\<close>

definition guard_ok :: "stop_guard \<Rightarrow> bool" where
  "guard_ok g \<longleftrightarrow>
     (\<forall>k t. sg_holders g k = Some t \<longrightarrow> gt_target_key t = k \<and> gt_fence t \<le> sg_fence g)"

lemmas guard_defs = guard_acquire_def guard_release_def guard_revoke_def

lemma guard_ok_new [simp]: "guard_ok new_stop_guard"
  by (simp add: guard_ok_def new_stop_guard_def)

lemma guard_ok_acquire [intro]: "guard_ok g \<Longrightarrow> guard_ok (snd (guard_acquire k u g))"
  by (fastforce simp: guard_ok_def guard_acquire_def Let_def)

lemma guard_ok_release [intro]: "guard_ok g \<Longrightarrow> guard_ok (snd (guard_release k t g))"
  by (auto simp: guard_ok_def guard_release_def split: option.splits)

lemma guard_ok_revoke [intro]: "guard_ok g \<Longrightarrow> guard_ok (guard_revoke k g)"
  by (simp add: guard_ok_def guard_revoke_def)

lemma guard_release_eq:
  assumes "guard_ok g"
  shows "guard_release k t g =
     (if sg_holders g k = Some t then (True, g\<lparr>sg_holders := (sg_holders g)(k := None)\<rparr>) else (False, g))"
  using assms by (auto simp: guard_release_def guard_ok_def split: option.splits)

lemma guard_release_other:
  "k' \<noteq> k \<Longrightarrow> sg_holders (snd (guard_release k t g)) k' = sg_holders g k'"
  by (auto simp: guard_release_def split: option.splits)

lemma guard_fence_mono:
  "sg_fence g \<le> sg_fence (snd (guard_acquire k u g))"
  "sg_fence (snd (guard_release k t g)) = sg_fence g"
  "sg_fence (guard_revoke k g) = sg_fence g"
  by (auto simp: guard_defs Let_def split: option.splits)

text \<open>
  The fence alone separates the tokens: no hypothesis on the secrets is needed.
\<close>

interpretation guard: keyed_authority
  sg_holders guard_acquire guard_release guard_revoke
  "\<lambda>t g. gt_fence t \<le> sg_fence g" "\<lambda>_ _. True" guard_ok
proof
  fix g :: stop_guard and k u t e g'
  show "sg_holders g k = None \<Longrightarrow>
        \<exists>t g'. guard_acquire k u g = (Inr t, g') \<and> sg_holders g' = (sg_holders g)(k \<mapsto> t)"
    by (simp add: guard_acquire_def Let_def)
  show "guard_acquire k u g = (Inl e, g') \<Longrightarrow> sg_holders g' = sg_holders g"
    by (auto simp: guard_acquire_def Let_def split: if_splits)
  show "sg_holders g k \<noteq> None \<Longrightarrow> \<exists>e g'. guard_acquire k u g = (Inl e, g')"
    by (simp add: guard_acquire_def)
  show "guard_acquire k u g = (Inr t, g') \<Longrightarrow> sg_holders g' = (sg_holders g)(k \<mapsto> t)"
    by (auto simp: guard_acquire_def Let_def split: if_splits)
  show "guard_ok g \<Longrightarrow> sg_holders g k = Some t \<Longrightarrow>
        fst (guard_release k t g) \<and> sg_holders (snd (guard_release k t g)) = (sg_holders g)(k := None)"
    by (simp add: guard_release_eq)
  show "guard_ok g \<Longrightarrow> sg_holders g k \<noteq> Some t \<Longrightarrow>
        \<not> fst (guard_release k t g) \<and> sg_holders (snd (guard_release k t g)) = sg_holders g"
    by (simp add: guard_release_eq)
  show "sg_holders (guard_revoke k g) = (sg_holders g)(k := None)"
    by (simp add: guard_revoke_def)
  show "guard_acquire k u g = (Inr t, g') \<Longrightarrow> \<not> gt_fence t \<le> sg_fence g"
    by (auto simp: guard_acquire_def Let_def split: if_splits)
  show "guard_ok g \<Longrightarrow> sg_holders g k = Some t \<Longrightarrow> gt_fence t \<le> sg_fence g"
    by (simp add: guard_ok_def)
qed (auto intro: order_trans simp: guard_fence_mono)

end
