(* ===== verification/Lease.thy ===== *)
theory Lease
  imports Authority Target
begin

text \<open>
  Models \<open>src/kdive/coordination/lease.py\<close>. Each operation of \<open>ConsoleLease\<close> runs
  under the lease's lock, so it is one step. The token \<open>uuid.uuid4().hex\<close> is an argument.
\<close>

datatype lease_owner = FREE | PROVISIONER | TRANSPORT

datatype lease_error = Owner_free | Lease_conflict

record console_lease =
  cl_target :: target_key
  cl_owner :: lease_owner
  cl_token :: "string option"
  cl_generation :: int

definition new_console_lease :: "target_key \<Rightarrow> console_lease" where
  "new_console_lease k = \<lparr>cl_target = k, cl_owner = FREE, cl_token = None, cl_generation = 0\<rparr>"

definition lease_snapshot :: "console_lease \<Rightarrow> lease_owner \<times> string option \<times> int" where
  "lease_snapshot l = (cl_owner l, cl_token l, cl_generation l)"

definition lease_acquire ::
  "string \<Rightarrow> lease_owner \<Rightarrow> console_lease \<Rightarrow> (lease_error, string) result \<times> console_lease" where
  "lease_acquire uuid own l =
     (if own = FREE then (Inl Owner_free, l)
      else if cl_owner l \<noteq> FREE then (Inl Lease_conflict, l)
      else (Inr uuid, l\<lparr>cl_owner := own, cl_generation := cl_generation l + 1, cl_token := Some uuid\<rparr>))"

definition lease_release :: "string \<Rightarrow> console_lease \<Rightarrow> bool \<times> console_lease" where
  "lease_release token l =
     (if cl_token l = None \<or> Some token \<noteq> cl_token l then (False, l)
      else (True, l\<lparr>cl_owner := FREE, cl_token := None\<rparr>))"

definition lease_revoke :: "console_lease \<Rightarrow> console_lease" where
  "lease_revoke l = l\<lparr>cl_owner := FREE, cl_token := None, cl_generation := cl_generation l + 1\<rparr>"

text \<open>The owner and the token agree: the lease is free exactly when there is no token.\<close>

definition lease_ok :: "console_lease \<Rightarrow> bool" where
  "lease_ok l \<longleftrightarrow> (cl_owner l = FREE) = (cl_token l = None)"

subsection \<open>The manager\<close>

type_synonym lease_manager = "target_key \<rightharpoonup> console_lease"

text \<open>\<open>_lease_for\<close> creates the target's lease on first use.\<close>

definition lease_for :: "target_key \<Rightarrow> lease_manager \<Rightarrow> console_lease \<times> lease_manager" where
  "lease_for k m =
     (case m k of
        Some l \<Rightarrow> (l, m)
      | None \<Rightarrow> (new_console_lease k, m(k \<mapsto> new_console_lease k)))"

definition mgr_acquire ::
  "target_key \<Rightarrow> string \<times> lease_owner \<Rightarrow> lease_manager \<Rightarrow> (lease_error, string) result \<times> lease_manager" where
  "mgr_acquire k i m =
     (let (l, m1) = lease_for k m; (r, l') = lease_acquire (fst i) (snd i) l in (r, m1(k \<mapsto> l')))"

definition mgr_release :: "target_key \<Rightarrow> string \<Rightarrow> lease_manager \<Rightarrow> bool \<times> lease_manager" where
  "mgr_release k token m =
     (let (l, m1) = lease_for k m; (b, l') = lease_release token l in (b, m1(k \<mapsto> l')))"

definition mgr_revoke :: "target_key \<Rightarrow> lease_manager \<Rightarrow> lease_manager" where
  "mgr_revoke k m = (let (l, m1) = lease_for k m in m1(k \<mapsto> lease_revoke l))"

definition mgr_snapshot :: "target_key \<Rightarrow> lease_manager \<Rightarrow> (lease_owner \<times> string option \<times> int) \<times> lease_manager" where
  "mgr_snapshot k m = (let (l, m1) = lease_for k m in (lease_snapshot l, m1))"

definition lease_holder_of :: "lease_manager \<Rightarrow> target_key \<Rightarrow> string option" where
  "lease_holder_of m k = (case m k of None \<Rightarrow> None | Some l \<Rightarrow> cl_token l)"

definition leases_ok :: "lease_manager \<Rightarrow> bool" where
  "leases_ok m \<longleftrightarrow> (\<forall>k l. m k = Some l \<longrightarrow> lease_ok l)"

lemmas lease_defs = lease_acquire_def lease_release_def lease_revoke_def
lemmas mgr_defs = mgr_acquire_def mgr_release_def mgr_revoke_def lease_for_def

lemma lease_ok_new [simp]: "lease_ok (new_console_lease k)"
  by (simp add: lease_ok_def new_console_lease_def)

lemma lease_ok_ops:
  assumes "lease_ok l"
  shows "lease_ok (snd (lease_acquire u own l))" and "lease_ok (snd (lease_release t l))"
    and "lease_ok (lease_revoke l)"
  using assms by (auto simp: lease_ok_def lease_defs)

lemma lease_generation_mono:
  "cl_generation l \<le> cl_generation (snd (lease_acquire u own l))"
  "cl_generation (snd (lease_release t l)) = cl_generation l"
  "cl_generation l < cl_generation (lease_revoke l)"
  by (auto simp: lease_defs)

lemma holder_upd: "lease_holder_of (m(k \<mapsto> l)) = (lease_holder_of m)(k := cl_token l)"
  by (auto simp: lease_holder_of_def fun_eq_iff)

lemma lease_for_split:
  obtains l where "lease_for k m = (l, m(k \<mapsto> l))" and "cl_token l = lease_holder_of m k"
    and "leases_ok m \<Longrightarrow> lease_ok l"
  by (cases "m k") (auto simp: lease_for_def lease_holder_of_def leases_ok_def new_console_lease_def
      lease_ok_def fun_upd_triv map_upd_triv)

lemma leases_ok_upd: "leases_ok m \<Longrightarrow> lease_ok l \<Longrightarrow> leases_ok (m(k \<mapsto> l))"
  by (simp add: leases_ok_def)

subsection \<open>The manager is a keyed authority\<close>

text \<open>
  UUIDs are never drawn twice: the second component of the lifted state is the set of
  those drawn so far.
\<close>

definition uuid_acquire ::
  "target_key \<Rightarrow> string \<times> lease_owner \<Rightarrow> lease_manager \<times> string set
     \<Rightarrow> (lease_error, string) result \<times> (lease_manager \<times> string set)" where
  "uuid_acquire k i s = (case mgr_acquire k i (fst s) of (r, m) \<Rightarrow> (r, (m, insert (fst i) (snd s))))"

definition uuid_release :: "target_key \<Rightarrow> string \<Rightarrow> lease_manager \<times> string set \<Rightarrow> bool \<times> (lease_manager \<times> string set)" where
  "uuid_release k t s = (case mgr_release k t (fst s) of (b, m) \<Rightarrow> (b, (m, snd s)))"

definition uuid_revoke :: "target_key \<Rightarrow> lease_manager \<times> string set \<Rightarrow> lease_manager \<times> string set" where
  "uuid_revoke k s = (mgr_revoke k (fst s), snd s)"

definition uuid_ok :: "lease_manager \<times> string set \<Rightarrow> bool" where
  "uuid_ok s \<longleftrightarrow> leases_ok (fst s) \<and> (\<forall>k t. lease_holder_of (fst s) k = Some t \<longrightarrow> t \<in> snd s)"

lemma mgr_acquire_eq:
  assumes "leases_ok m"
  shows "mgr_acquire k (u, own) m =
     (if own = FREE then (Inl Owner_free, snd (lease_for k m))
      else if lease_holder_of m k \<noteq> None then (Inl Lease_conflict, snd (lease_for k m))
      else (Inr u, m(k \<mapsto> (fst (lease_for k m))\<lparr>cl_owner := own,
             cl_generation := cl_generation (fst (lease_for k m)) + 1, cl_token := Some u\<rparr>)))"
proof -
  obtain l where l: "lease_for k m = (l, m(k \<mapsto> l))" "cl_token l = lease_holder_of m k" "lease_ok l"
    using lease_for_split [of k m] assms by blast
  then show ?thesis
    by (simp add: mgr_acquire_def lease_acquire_def lease_ok_def)
qed

lemma mgr_release_eq:
  "mgr_release k t m =
     (if lease_holder_of m k = Some t
      then (True, m(k \<mapsto> (fst (lease_for k m))\<lparr>cl_owner := FREE, cl_token := None\<rparr>))
      else (False, snd (lease_for k m)))"
proof -
  obtain l where l: "lease_for k m = (l, m(k \<mapsto> l))" "cl_token l = lease_holder_of m k"
    by (rule lease_for_split [of k m])
  then show ?thesis
    by (simp add: mgr_release_def lease_release_def)
qed

lemma lease_for_holder [simp]: "lease_holder_of (snd (lease_for k m)) = lease_holder_of m"
  by (rule lease_for_split [of k m]) (simp add: holder_upd fun_upd_triv)

lemma mgr_revoke_holder [simp]: "lease_holder_of (mgr_revoke k m) = (lease_holder_of m)(k := None)"
  by (rule lease_for_split [of k m]) (simp add: mgr_revoke_def holder_upd lease_revoke_def)

lemma mgr_ok:
  assumes "leases_ok m"
  shows "leases_ok (snd (mgr_acquire k i m))" and "leases_ok (snd (mgr_release k t m))"
    and "leases_ok (mgr_revoke k m)" and "leases_ok (snd (lease_for k m))"
proof -
  obtain l where l: "lease_for k m = (l, m(k \<mapsto> l))" "lease_ok l"
    using lease_for_split [of k m] assms by blast
  show "leases_ok (snd (mgr_acquire k i m))" "leases_ok (snd (mgr_release k t m))"
    "leases_ok (mgr_revoke k m)" "leases_ok (snd (lease_for k m))"
    using l assms lease_ok_ops [OF l(2)]
    by (simp_all add: mgr_acquire_def mgr_release_def mgr_revoke_def split_beta leases_ok_upd)
qed

interpretation leases: keyed_authority
  "\<lambda>s. lease_holder_of (fst s)" uuid_acquire uuid_release uuid_revoke
  "\<lambda>t s. t \<in> snd s" "\<lambda>i s. fst i \<notin> snd s \<and> snd i \<noteq> FREE" uuid_ok
proof
  fix s :: "lease_manager \<times> string set" and k i j t u e s'
  show "uuid_ok s \<Longrightarrow> fst i \<notin> snd s \<and> snd i \<noteq> FREE \<Longrightarrow> lease_holder_of (fst s) k = None \<Longrightarrow>
        \<exists>t s'. uuid_acquire k i s = (Inr t, s') \<and> lease_holder_of (fst s') = (lease_holder_of (fst s))(k \<mapsto> t)"
    by (cases i) (simp add: uuid_ok_def uuid_acquire_def mgr_acquire_eq holder_upd)
  show "uuid_acquire k i s = (Inl e, s') \<Longrightarrow> lease_holder_of (fst s') = lease_holder_of (fst s)"
    by (rule lease_for_split [of k "fst s"])
      (auto simp: uuid_acquire_def mgr_acquire_def lease_acquire_def holder_upd fun_upd_triv split: if_splits)
  show "uuid_ok s \<Longrightarrow> lease_holder_of (fst s) k \<noteq> None \<Longrightarrow> \<exists>e s'. uuid_acquire k i s = (Inl e, s')"
    by (cases i) (simp add: uuid_ok_def uuid_acquire_def mgr_acquire_eq)
  show "uuid_ok s \<Longrightarrow> uuid_acquire k i s = (Inr t, s') \<Longrightarrow>
        lease_holder_of (fst s') = (lease_holder_of (fst s))(k \<mapsto> t)"
    by (cases i) (auto simp: uuid_ok_def uuid_acquire_def mgr_acquire_eq holder_upd split: if_splits)
  show "lease_holder_of (fst s) k = Some t \<Longrightarrow> fst (uuid_release k t s) \<and>
        lease_holder_of (fst (snd (uuid_release k t s))) = (lease_holder_of (fst s))(k := None)"
    by (simp add: uuid_release_def mgr_release_eq holder_upd)
  show "lease_holder_of (fst s) k \<noteq> Some t \<Longrightarrow> \<not> fst (uuid_release k t s) \<and>
        lease_holder_of (fst (snd (uuid_release k t s))) = lease_holder_of (fst s)"
    by (simp add: uuid_release_def mgr_release_eq)
  show "lease_holder_of (fst (uuid_revoke k s)) = (lease_holder_of (fst s))(k := None)"
    by (simp add: uuid_revoke_def)
  show "uuid_ok s \<Longrightarrow> fst i \<notin> snd s \<and> snd i \<noteq> FREE \<Longrightarrow> uuid_acquire k i s = (Inr t, s') \<Longrightarrow> t \<notin> snd s"
    by (cases i) (auto simp: uuid_ok_def uuid_acquire_def mgr_acquire_eq split: if_splits)
  show "uuid_ok s \<Longrightarrow> lease_holder_of (fst s) k = Some t \<Longrightarrow> t \<in> snd s"
    by (simp add: uuid_ok_def)
  show "t \<in> snd s \<Longrightarrow> t \<in> snd (snd (uuid_acquire k i s))"
    by (simp add: uuid_acquire_def split_beta)
  show "t \<in> snd s \<Longrightarrow> t \<in> snd (snd (uuid_release k u s))"
    by (simp add: uuid_release_def split_beta)
  show "t \<in> snd s \<Longrightarrow> t \<in> snd (uuid_revoke k s)"
    by (simp add: uuid_revoke_def)
  show "uuid_ok s \<Longrightarrow> uuid_ok (snd (uuid_acquire k i s))"
    by (cases i) (auto simp: uuid_ok_def uuid_acquire_def split_beta mgr_ok, auto simp: mgr_acquire_eq holder_upd split: if_splits)
  show "uuid_ok s \<Longrightarrow> uuid_ok (snd (uuid_release k u s))"
    by (auto simp: uuid_ok_def uuid_release_def split_beta mgr_ok, auto simp: mgr_release_eq holder_upd split: if_splits)
  show "uuid_ok s \<Longrightarrow> uuid_ok (uuid_revoke k s)"
    by (auto simp: uuid_ok_def uuid_revoke_def mgr_ok split: if_splits)
qed

end
