(* ===== verification/BreakPolicy.thy ===== *)
theory BreakPolicy
  imports TransportState
begin

text \<open>
  Models \<open>src/kdive/seams/break_policy.py\<close>. A break policy maps a channel and the
  platform facts to a break plan, given the methods a probe has disproved. The locale
  \<open>break_policy\<close> is the contract the channel selection relies on;
  \<open>ReferenceBreakPolicy.plan\<close> is the implementation the code has, and interprets it.
\<close>

datatype break_plan_code = No_break_plan | Break_disproved

locale break_policy =
  fixes plan :: "transport_ref \<Rightarrow> platform_metadata \<Rightarrow> break_method set \<Rightarrow> (break_plan_code, break_plan) result"
  assumes plan_channel: "plan c pf d = Inr p \<Longrightarrow> bp_channel_id p = tr_channel_id c"
    and plan_not_disproved: "plan c pf d = Inr p \<Longrightarrow> bp_method p \<notin> d"
    and plan_antimono: "plan c pf d = Inr p \<Longrightarrow> d' \<subseteq> d \<Longrightarrow> \<exists>q. plan c pf d' = Inr q"
    and plan_disproved: "plan c pf d = Inl Break_disproved \<Longrightarrow> \<exists>q. plan c pf {} = Inr q"
    and plan_none: "plan c pf d = Inl No_break_plan \<Longrightarrow> plan c pf d' = Inl No_break_plan"
begin

lemma plan_total_code:
  "plan c pf d = Inl e \<Longrightarrow> e = (if \<exists>q. plan c pf {} = Inr q then Break_disproved else No_break_plan)"
  by (cases e) (auto dest: plan_disproved plan_none [where d' = "{}"])

end

subsection \<open>The reference policy\<close>

definition supports_uart_break :: string where
  "supports_uart_break = ''supports_uart_break''"

definition provides_rsp_cap :: string where
  "provides_rsp_cap = ''provides_rsp''"

fun rationale :: "break_method \<Rightarrow> string" where
  "rationale GDBSTUB_NATIVE = ''rsp channel: gdb interrupts directly''"
| "rationale UART_BREAK = ''dedicated debug line with UART break''"
| "rationale AGENT_PROXY_BREAK = ''shared console with UART break via agent-proxy''"
| "rationale SYSRQ_G = ''sysrq-g over ssh''"

text \<open>\<open>ReferenceBreakPolicy._candidates\<close>: the order is the order of preference.\<close>

definition candidates :: "transport_ref \<Rightarrow> platform_metadata \<Rightarrow> break_method list" where
  "candidates c pf =
     (let shared_console_uart_break =
            (tr_line_role c = SHARED_CONSOLE \<and> supports_uart_break \<in> set (tr_caps c));
          prefer_agent_proxy = (shared_console_uart_break \<and> console_kind pf = UART)
      in (if tr_line_role c = RSP \<and> provides_rsp_cap \<in> set (tr_caps c) then [GDBSTUB_NATIVE] else [])
       @ (if tr_line_role c = DEDICATED_DEBUG \<and> supports_uart_break \<in> set (tr_caps c) then [UART_BREAK] else [])
       @ (if prefer_agent_proxy then [AGENT_PROXY_BREAK] else [])
       @ (if ssh_reachable pf then [SYSRQ_G] else [])
       @ (if shared_console_uart_break \<and> \<not> prefer_agent_proxy then [AGENT_PROXY_BREAK] else []))"

definition plan :: "transport_ref \<Rightarrow> platform_metadata \<Rightarrow> break_method set \<Rightarrow> (break_plan_code, break_plan) result" where
  "plan c pf disproved =
     (if candidates c pf = [] then Inl No_break_plan
      else (case filter (\<lambda>m. m \<notin> disproved) (candidates c pf) of
              [] \<Rightarrow> Inl Break_disproved
            | m # _ \<Rightarrow> Inr \<lparr>bp_method = m, bp_channel_id = tr_channel_id c, bp_rationale = rationale m\<rparr>))"

lemma plan_eq_InrD:
  "plan c pf d = Inr p \<Longrightarrow> bp_method p \<in> set (candidates c pf) \<and> bp_method p \<notin> d
     \<and> bp_channel_id p = tr_channel_id c \<and> bp_rationale p = rationale (bp_method p)"
  by (auto simp: plan_def split: if_splits list.splits dest: filter_ConsD)

lemma plan_defined: "(\<exists>p. plan c pf d = Inr p) \<longleftrightarrow> (\<exists>m \<in> set (candidates c pf). m \<notin> d)"
  by (auto simp: plan_def filter_empty_conv split: list.splits dest!: filter_ConsD)

lemma plan_no_break_plan: "plan c pf d = Inl No_break_plan \<longleftrightarrow> candidates c pf = []"
  by (auto simp: plan_def split: list.splits)

lemma plan_break_disproved:
  "plan c pf d = Inl Break_disproved \<longleftrightarrow> candidates c pf \<noteq> [] \<and> set (candidates c pf) \<subseteq> d"
  by (auto simp: plan_def filter_empty_conv split: list.splits dest!: filter_ConsD)

interpretation reference: break_policy plan
proof
  fix c pf d p
  assume p: "plan c pf d = Inr p"
  then show "bp_channel_id p = tr_channel_id c" and "bp_method p \<notin> d"
    by (simp_all add: plan_eq_InrD)
  fix d' assume "d' \<subseteq> d"
  with p show "\<exists>q. plan c pf d' = Inr q"
    by (meson plan_defined subsetD)
next
  fix c pf d
  assume "plan c pf d = Inl Break_disproved"
  then show "\<exists>q. plan c pf {} = Inr q"
    by (cases "candidates c pf") (auto simp: plan_break_disproved plan_defined)
next
  fix c pf d d'
  assume "plan c pf d = Inl No_break_plan"
  then show "plan c pf d' = Inl No_break_plan"
    by (simp add: plan_no_break_plan)
qed

text \<open>A plan's method is allowed by the line it is planned for.\<close>

lemma candidates_line_role:
  "GDBSTUB_NATIVE \<in> set (candidates c pf) \<longleftrightarrow> tr_line_role c = RSP \<and> provides_rsp_cap \<in> set (tr_caps c)"
  "UART_BREAK \<in> set (candidates c pf) \<longleftrightarrow> tr_line_role c = DEDICATED_DEBUG \<and> supports_uart_break \<in> set (tr_caps c)"
  "AGENT_PROXY_BREAK \<in> set (candidates c pf) \<longleftrightarrow> tr_line_role c = SHARED_CONSOLE \<and> supports_uart_break \<in> set (tr_caps c)"
  "SYSRQ_G \<in> set (candidates c pf) \<longleftrightarrow> ssh_reachable pf"
  by (auto simp: candidates_def Let_def)

lemma candidates_distinct: "distinct (candidates c pf)"
  by (auto simp: candidates_def Let_def)

end
