(* ===== verification/Selection.thy ===== *)
theory Selection
  imports BreakPolicy
begin

text \<open>
  Models \<open>src/kdive/coordination/selection.py\<close>: the choice of a stop-capable channel
  among a target's transports, over any break policy.
\<close>

datatype selection_code = No_capable_channel | Sel_no_break_plan | Sel_break_disproved

definition target_wide_break_methods :: "break_method set" where
  "target_wide_break_methods = {SYSRQ_G}"

record break_disproof =
  dp_target_key :: target_key
  dp_method :: break_method
  dp_provider :: "string option"
  dp_channel_id :: "string option"

datatype disproof_error = Target_wide_with_channel | Line_bound_without_channel

text \<open>The dataclass constructor with its \<open>__post_init__\<close> check.\<close>

definition make_disproof ::
  "target_key \<Rightarrow> break_method \<Rightarrow> string option \<Rightarrow> string option \<Rightarrow> (disproof_error, break_disproof) result" where
  "make_disproof k m prov ch =
     (let target_wide = m \<in> target_wide_break_methods in
      rthen (require (\<not> (target_wide \<and> (prov \<noteq> None \<or> ch \<noteq> None))) Target_wide_with_channel)
       (rthen (require (\<not> (\<not> target_wide \<and> (prov = None \<or> ch = None))) Line_bound_without_channel)
         (Inr \<lparr>dp_target_key = k, dp_method = m, dp_provider = prov, dp_channel_id = ch\<rparr>)))"

definition applies_to :: "break_disproof \<Rightarrow> target_key \<Rightarrow> transport_ref \<Rightarrow> bool" where
  "applies_to d k c =
     (if dp_target_key d \<noteq> k then False
      else if dp_method d \<in> target_wide_break_methods then True
      else dp_provider d = Some (tr_provider c) \<and> dp_channel_id d = Some (tr_channel_id c))"

record selection =
  sel_channel :: transport_ref
  sel_break_plan :: break_plan

type_synonym policy =
  "transport_ref \<Rightarrow> platform_metadata \<Rightarrow> break_method set \<Rightarrow> (break_plan_code, break_plan) result"

definition channel_disproved :: "target_key \<Rightarrow> break_disproof set \<Rightarrow> transport_ref \<Rightarrow> break_method set" where
  "channel_disproved k disproved c = dp_method ` {d \<in> disproved. applies_to d k c}"

definition capable :: "string list \<Rightarrow> transport_ref \<Rightarrow> bool" where
  "capable required c \<longleftrightarrow> set required \<subseteq> set (tr_caps c)"

fun select_loop ::
  "policy \<Rightarrow> target_key \<Rightarrow> platform_metadata \<Rightarrow> break_disproof set \<Rightarrow> bool \<Rightarrow> transport_ref list
     \<Rightarrow> (selection_code, selection) result" where
  "select_loop pol k pf disproved saw [] = Inl (if saw then Sel_break_disproved else Sel_no_break_plan)"
| "select_loop pol k pf disproved saw (c # cs) =
     (case pol c pf (channel_disproved k disproved c) of
        Inr p \<Rightarrow> Inr \<lparr>sel_channel = c, sel_break_plan = p\<rparr>
      | Inl e \<Rightarrow> select_loop pol k pf disproved (saw \<or> e = Break_disproved) cs)"

definition select_stop_capable_channel ::
  "policy \<Rightarrow> target_key \<Rightarrow> transport_ref list \<Rightarrow> string list \<Rightarrow> platform_metadata \<Rightarrow> break_disproof set
     \<Rightarrow> (selection_code, selection) result" where
  "select_stop_capable_channel pol k transports required pf disproved =
     (let cap = filter (capable required) transports in
      if cap = [] then Inl No_capable_channel
      else select_loop pol k pf disproved False cap)"

subsection \<open>What the loop returns\<close>

lemma select_loop_Inr:
  "select_loop pol k pf dis saw cs = Inr s \<longleftrightarrow>
     (\<exists>pre suf. cs = pre @ sel_channel s # suf
        \<and> (\<forall>c \<in> set pre. \<forall>p. pol c pf (channel_disproved k dis c) \<noteq> Inr p))
     \<and> pol (sel_channel s) pf (channel_disproved k dis (sel_channel s)) = Inr (sel_break_plan s)"
proof (induction cs arbitrary: saw)
  case Nil
  then show ?case by simp
next
  case (Cons c cs)
  show ?case
  proof (cases "pol c pf (channel_disproved k dis c)")
    case (Inl e)
    then show ?thesis
      unfolding ex_prefix_Cons by (auto simp: Cons.IH)
  next
    case (Inr p)
    then show ?thesis
      unfolding ex_prefix_Cons by (cases s) auto
  qed
qed

lemma select_loop_Inl:
  "select_loop pol k pf dis saw cs = Inl e \<longleftrightarrow>
     (\<forall>c \<in> set cs. \<forall>p. pol c pf (channel_disproved k dis c) \<noteq> Inr p)
     \<and> e = (if saw \<or> (\<exists>c \<in> set cs. pol c pf (channel_disproved k dis c) = Inl Break_disproved)
            then Sel_break_disproved else Sel_no_break_plan)"
  by (induction cs arbitrary: saw) (auto split: sum.splits)

context break_policy
begin

text \<open>Over any lawful policy a selected plan is for the selected channel and not disproved.\<close>

lemma selected_plan_ok:
  assumes "select_stop_capable_channel plan k ts req pf dis = Inr s"
  shows "sel_channel s \<in> set ts" and "capable req (sel_channel s)"
    and "bp_channel_id (sel_break_plan s) = tr_channel_id (sel_channel s)"
    and "bp_method (sel_break_plan s) \<notin> channel_disproved k dis (sel_channel s)"
proof -
  have loop: "select_loop plan k pf dis False (filter (capable req) ts) = Inr s"
    using assms by (auto simp: select_stop_capable_channel_def Let_def split: if_splits)
  then obtain pre suf where split: "filter (capable req) ts = pre @ sel_channel s # suf"
    and pl: "plan (sel_channel s) pf (channel_disproved k dis (sel_channel s)) = Inr (sel_break_plan s)"
    unfolding select_loop_Inr by blast
  have "sel_channel s \<in> set (filter (capable req) ts)"
    unfolding split by simp
  then show "sel_channel s \<in> set ts" and "capable req (sel_channel s)"
    by simp_all
  show "bp_channel_id (sel_break_plan s) = tr_channel_id (sel_channel s)"
    using pl by (rule plan_channel)
  show "bp_method (sel_break_plan s) \<notin> channel_disproved k dis (sel_channel s)"
    using pl by (rule plan_not_disproved)
qed

text \<open>A target-wide disproof prunes its method on every channel of the target.\<close>

lemma target_wide_never_selected:
  assumes "select_stop_capable_channel plan k ts req pf dis = Inr s"
    and "d \<in> dis" and "dp_target_key d = k" and "dp_method d \<in> target_wide_break_methods"
  shows "bp_method (sel_break_plan s) \<noteq> dp_method d"
  using selected_plan_ok(4) [OF assms(1)] assms(2-4)
  by (auto simp: channel_disproved_def applies_to_def)

text \<open>A disproof of another target has no effect.\<close>

lemma foreign_disproof_ignored:
  assumes "dp_target_key d \<noteq> k"
  shows "select_stop_capable_channel plan k ts req pf (insert d dis)
       = select_stop_capable_channel plan k ts req pf dis"
proof -
  have "channel_disproved k (insert d dis) = channel_disproved k dis"
    using assms by (force simp: channel_disproved_def applies_to_def fun_eq_iff)
  then have "select_loop plan k pf (insert d dis) saw cs = select_loop plan k pf dis saw cs" for saw cs
    by (induction cs arbitrary: saw) (simp_all split: sum.splits)
  then show ?thesis
    by (simp add: select_stop_capable_channel_def Let_def)
qed

end

end
