(* ===== verification/TransportCore.thy ===== *)
theory TransportCore
  imports Target TransportState
begin

text \<open>
  Models the trusted metadata of \<open>src/kdive/transport/core/base.py\<close> (\<open>TransportCapability\<close> and
  its validators, \<open>TransportRegistry\<close>), the endpoint gates of
  \<open>src/kdive/coordination/endpoint_safety.py\<close> and the break injection of
  \<open>src/kdive/transport/core/break_inject.py\<close>.
\<close>

subsection \<open>Capabilities\<close>

record transport_capability =
  cp_provider_name :: string
  cp_locality :: transport_locality
  cp_architectures :: "arch list"
  cp_provides_console :: bool
  cp_provides_rsp :: bool
  cp_supports_uart_break :: bool
  cp_endpoint_exposure :: endpoint_exposure
  cp_operations :: "string list"

definition transport_operations :: "string list" where
  "transport_operations =
     [''transport.open'', ''transport.status'', ''transport.health'', ''transport.inject_break'', ''transport.close'']"

datatype capability_error =
    Unsupported_operation string | Remote_loopback_local | Already_registered | Not_allowlisted | Unknown_provider

definition validate_transport_operation :: "string \<Rightarrow> (capability_error, string) result" where
  "validate_transport_operation op = (if op \<notin> set transport_operations then Inl (Unsupported_operation op) else Inr op)"

text \<open>The field validator of \<open>operations\<close>, then the model validator.\<close>

fun operations_are_allowlisted :: "string list \<Rightarrow> (capability_error, unit) result" where
  "operations_are_allowlisted [] = Inr ()"
| "operations_are_allowlisted (op # ops) =
     rthen (validate_transport_operation op) (operations_are_allowlisted ops)"

definition remote_must_be_brokered :: "transport_capability \<Rightarrow> (capability_error, unit) result" where
  "remote_must_be_brokered c =
     require (\<not> (cp_locality c = REMOTE \<and> cp_endpoint_exposure c = LOOPBACK_LOCAL)) Remote_loopback_local"

definition make_capability :: "transport_capability \<Rightarrow> (capability_error, transport_capability) result" where
  "make_capability c =
     rthen (operations_are_allowlisted (cp_operations c)) (rthen (remote_must_be_brokered c) (Inr c))"

definition local_transport_providers :: "string set" where
  "local_transport_providers = {''qemu-gdbstub'', ''serial-local''}"

text \<open>The registry's \<open>dict\<close>, in insertion order.\<close>

type_synonym transport_registry = "(string \<times> transport_capability) list"

definition register_transport :: "transport_capability \<Rightarrow> transport_registry \<Rightarrow> (capability_error, transport_registry) result" where
  "register_transport c reg =
     (if map_of reg (cp_provider_name c) \<noteq> None then Inl Already_registered
      else if cp_endpoint_exposure c = LOOPBACK_LOCAL \<and> cp_provider_name c \<notin> local_transport_providers
      then Inl Not_allowlisted
      else Inr (reg @ [(cp_provider_name c, c)]))"

definition get_capability :: "string \<Rightarrow> transport_registry \<Rightarrow> transport_capability option" where
  "get_capability n reg = map_of reg n"

definition require_capability :: "string \<Rightarrow> transport_registry \<Rightarrow> (capability_error, transport_capability) result" where
  "require_capability n reg = (case map_of reg n of None \<Rightarrow> Inl Unknown_provider | Some c \<Rightarrow> Inr c)"

definition registered_exposure :: "string \<Rightarrow> transport_registry \<Rightarrow> (capability_error, endpoint_exposure) result" where
  "registered_exposure n reg = rbind (require_capability n reg) (\<lambda>c. Inr (cp_endpoint_exposure c))"

definition list_capabilities :: "transport_registry \<Rightarrow> transport_capability list" where
  "list_capabilities reg = map snd reg"

subsection \<open>The endpoint gates\<close>

datatype endpoint_safety_error = Endpoint_unsafe | Endpoint_value_error

definition endpoint_returning_ops :: "string set" where
  "endpoint_returning_ops = {''transport.open'', ''transport.inject_break''}"

definition refuse_unsafe_exposure :: "transport_capability \<Rightarrow> string \<Rightarrow> (endpoint_safety_error, unit) result" where
  "refuse_unsafe_exposure c op =
     require (\<not> (op \<in> endpoint_returning_ops \<and> cp_endpoint_exposure c = BROKERED_REQUIRED)) Endpoint_unsafe"

text \<open>\<open>ipaddress.ip_address\<close> raises a \<open>ValueError\<close> on what is no address.\<close>

fun assert_loopback_endpoint :: "bool \<Rightarrow> endpoint \<Rightarrow> (endpoint_safety_error, unit) result" where
  "assert_loopback_endpoint m (TcpEndpoint host port) =
     (case ip_address host of
        None \<Rightarrow> Inl Endpoint_value_error
      | Some a \<Rightarrow> require (is_loopback m a) Endpoint_unsafe)"
| "assert_loopback_endpoint m (UnixSocketEndpoint p v) = Inr ()"

subsection \<open>Break injection\<close>

datatype inject_error =
    Gdbstub_needs_none | Unknown_break_method | Unsupported_method | Not_the_admitted_method
  | Break_inject_unavailable | Sysrq_g_write_failed

text \<open>\<open>"auto"\<close> or a method by its value.\<close>

definition break_method_of :: "string \<Rightarrow> break_method option" where
  "break_method_of s =
     (if s = ''gdbstub_native'' then Some GDBSTUB_NATIVE
      else if s = ''uart_break'' then Some UART_BREAK
      else if s = ''agent_proxy_break'' then Some AGENT_PROXY_BREAK
      else if s = ''sysrq_g'' then Some SYSRQ_G
      else None)"

definition requestable :: "break_method set" where
  "requestable = {UART_BREAK, AGENT_PROXY_BREAK, SYSRQ_G}"

record ssh_result =
  exit_status :: int
  timed_out :: bool
  cancelled :: bool
  stdin_failed :: bool
  oversized_output :: bool

definition sysrq_g_failed :: "ssh_result \<Rightarrow> bool" where
  "sysrq_g_failed r \<longleftrightarrow>
     exit_status r \<noteq> 0 \<or> timed_out r \<or> cancelled r \<or> stdin_failed r \<or> oversized_output r"

text \<open>The argument vector handed to the ssh runner: the trigger is a token of its own.\<close>

definition sysrq_argv :: "string list \<Rightarrow> string list" where
  "sysrq_argv prefix =
     prefix @ [''sh'', ''-c'', ''echo \"$1\" > /proc/sysrq-trigger'', ''sysrq-g'', ''g'']"

text \<open>
  What the transport wires: the proxy's \<open>send_break\<close> on its handle and the ssh runner, effects on
  the world that may raise; an exception of theirs is let through.
\<close>

datatype 'x inject_raise = Inject_break_error inject_error | Other_raise 'x

record ('w, 'x) break_resources =
  br_proxy :: "('w \<Rightarrow> ('x, unit) result \<times> 'w) option"
  br_ssh_runner :: "(string list \<Rightarrow> 'w \<Rightarrow> ('x, ssh_result) result \<times> 'w) option"
  br_ssh_argv_prefix :: "string list"

definition resolve_break_method :: "string \<Rightarrow> break_plan \<Rightarrow> (inject_error, break_method) result" where
  "resolve_break_method req bp =
     (if req = ''gdbstub_native'' \<or> bp_method bp = GDBSTUB_NATIVE then Inl Gdbstub_needs_none
      else rbind (if req = ''auto'' then Inr (bp_method bp)
                  else case break_method_of req of None \<Rightarrow> Inl Unknown_break_method | Some m \<Rightarrow> Inr m) (\<lambda>resolved.
        rthen (require (resolved \<in> requestable) Unsupported_method)
       (rthen (require (resolved = bp_method bp) Not_the_admitted_method)
              (Inr resolved))))"

definition inject_break ::
  "string \<Rightarrow> break_plan \<Rightarrow> ('w, 'x) break_resources \<Rightarrow> 'w \<Rightarrow> ('x inject_raise, unit) result \<times> 'w" where
  "inject_break req bp res w =
     (case resolve_break_method req bp of
        Inl e \<Rightarrow> (Inl (Inject_break_error e), w)
      | Inr resolved \<Rightarrow>
          (if resolved \<in> {UART_BREAK, AGENT_PROXY_BREAK}
           then case br_proxy res of
                  None \<Rightarrow> (Inl (Inject_break_error Break_inject_unavailable), w)
                | Some send \<Rightarrow> (case send w of (Inl x, w') \<Rightarrow> (Inl (Other_raise x), w') | (Inr u, w') \<Rightarrow> (Inr (), w'))
           else case br_ssh_runner res of
                  None \<Rightarrow> (Inl (Inject_break_error Break_inject_unavailable), w)
                | Some run \<Rightarrow>
                    (case run (sysrq_argv (br_ssh_argv_prefix res)) w of
                       (Inl x, w') \<Rightarrow> (Inl (Other_raise x), w')
                     | (Inr r, w') \<Rightarrow>
                         (if sysrq_g_failed r then (Inl (Inject_break_error Sysrq_g_write_failed), w') else (Inr (), w')))))"

subsection \<open>Lemmas\<close>

lemma operations_allowlisted_iff: "operations_are_allowlisted ops = Inr () \<longleftrightarrow> set ops \<subseteq> set transport_operations"
  by (induction ops) (auto simp: validate_transport_operation_def)

lemma make_capability_Inr:
  "make_capability c = Inr c' \<longleftrightarrow>
     c' = c \<and> set (cp_operations c) \<subseteq> set transport_operations
     \<and> \<not> (cp_locality c = REMOTE \<and> cp_endpoint_exposure c = LOOPBACK_LOCAL)"
  by (auto simp: make_capability_def remote_must_be_brokered_def operations_allowlisted_iff)

text \<open>The registry built by any sequence of registrations, failed ones ignored.\<close>

fun register_all :: "transport_capability list \<Rightarrow> transport_registry \<Rightarrow> transport_registry" where
  "register_all [] reg = reg"
| "register_all (c # cs) reg =
     register_all cs (case rbind (make_capability c) (\<lambda>c. register_transport c reg) of Inl e \<Rightarrow> reg | Inr reg' \<Rightarrow> reg')"

definition registry_ok :: "transport_registry \<Rightarrow> bool" where
  "registry_ok reg \<longleftrightarrow>
     distinct (map fst reg) \<and>
     (\<forall>(n, c) \<in> set reg. n = cp_provider_name c
        \<and> (cp_endpoint_exposure c = LOOPBACK_LOCAL \<longrightarrow> n \<in> local_transport_providers \<and> cp_locality c = LOCAL))"

lemma registry_ok_register:
  assumes "registry_ok reg" and "make_capability c = Inr c" and "register_transport c reg = Inr reg'"
  shows "registry_ok reg'"
proof -
  have "cp_locality c = LOCAL" if "cp_endpoint_exposure c = LOOPBACK_LOCAL"
    using assms(2) that by (cases "cp_locality c") (auto simp: make_capability_Inr)
  then show ?thesis
    using assms(1,3) by (auto simp: registry_ok_def register_transport_def map_of_eq_None_iff split: if_splits)
qed

lemma registry_ok_all: "registry_ok reg \<Longrightarrow> registry_ok (register_all cs reg)"
proof (induction cs arbitrary: reg)
  case (Cons c cs)
  have "registry_ok reg'" if run: "rbind (make_capability c) (\<lambda>c. register_transport c reg) = Inr reg'" for reg'
  proof -
    obtain c' where c': "make_capability c = Inr c'" "register_transport c' reg = Inr reg'"
      using run by auto
    then have "c' = c"
      by (simp add: make_capability_Inr)
    with c' show ?thesis
      using registry_ok_register [OF Cons.prems, of c reg'] by simp
  qed
  then have "registry_ok (case rbind (make_capability c) (\<lambda>c. register_transport c reg) of Inl e \<Rightarrow> reg | Inr reg' \<Rightarrow> reg')"
    using Cons.prems by (simp split: sum.split)
  then show ?case
    using Cons.IH by simp
qed simp

lemma break_method_of_native: "break_method_of req = Some GDBSTUB_NATIVE \<longleftrightarrow> req = ''gdbstub_native''"
  by (simp add: break_method_of_def)

lemma break_method_of_auto [simp]: "break_method_of ''auto'' = None"
  by (simp add: break_method_of_def)

lemma requestable_iff: "m \<in> requestable \<longleftrightarrow> m \<noteq> GDBSTUB_NATIVE"
  by (cases m) (simp_all add: requestable_def)

lemma resolve_break_method_Inr:
  "resolve_break_method req bp = Inr m \<longleftrightarrow>
     m = bp_method bp \<and> m \<noteq> GDBSTUB_NATIVE \<and> (req = ''auto'' \<or> break_method_of req = Some m)"
proof (cases "break_method_of req")
  case None
  then have "req \<noteq> ''gdbstub_native''"
    using break_method_of_native [of req] by auto
  with None show ?thesis
    by (auto simp: resolve_break_method_def requestable_iff)
next
  case (Some m')
  then have "req \<noteq> ''auto''" and "req = ''gdbstub_native'' \<longleftrightarrow> m' = GDBSTUB_NATIVE"
    using break_method_of_native [of req] by auto
  with Some show ?thesis
    by (auto simp: resolve_break_method_def requestable_iff)
qed

end
