(* ===== verification/Secrets.thy ===== *)
theory Secrets
  imports Lifecycle PyText
begin

text \<open>
  Models \<open>src/kdive/safety/secret_registry.py\<close>, the reference-counted set of the secret values
  to mask, and \<open>src/kdive/seams/secrets.py\<close>, the resolution of opaque references over the
  configured backends. A scope is an object known by its equality, here a string; the registry
  keeps the global one under a string of its own.
\<close>

subsection \<open>The registry of values\<close>

record secret_registry =
  refcount :: "string \<rightharpoonup> int"
  by_scope :: "(string \<times> string list) list"
  sr_version :: nat

definition new_secret_registry :: secret_registry where
  "new_secret_registry = \<lparr>refcount = Map.empty, by_scope = [], sr_version = 0\<rparr>"

definition global_scope :: string where
  "global_scope = ''__global__''"

text \<open>\<open>d.setdefault(key, []).append(value)\<close>.\<close>

fun scope_append :: "string \<Rightarrow> string \<Rightarrow> (string \<times> string list) list \<Rightarrow> (string \<times> string list) list" where
  "scope_append k v [] = [(k, [v])]"
| "scope_append k v ((j, vs) # d) = (if j = k then (j, vs @ [v]) # d else (j, vs) # scope_append k v d)"

definition register_secret :: "string option \<Rightarrow> string option \<Rightarrow> secret_registry \<Rightarrow> secret_registry" where
  "register_secret value scope r =
     (case value of
        None \<Rightarrow> r
      | Some v \<Rightarrow>
          (if v = [] then r
           else let key = (case scope of None \<Rightarrow> global_scope | Some s \<Rightarrow> s) in
                r\<lparr>by_scope := scope_append key v (by_scope r),
                  refcount := (refcount r)(v \<mapsto> (case refcount r v of None \<Rightarrow> 0 | Some n \<Rightarrow> n) + 1),
                  sr_version := sr_version r + 1\<rparr>))"

fun drop_values :: "string list \<Rightarrow> (string \<rightharpoonup> int) \<Rightarrow> (string \<rightharpoonup> int)" where
  "drop_values [] m = m"
| "drop_values (v # vs) m =
     (let remaining = (case m v of None \<Rightarrow> 0 | Some n \<Rightarrow> n) - 1
      in drop_values vs (if remaining \<le> 0 then m(v := None) else m(v \<mapsto> remaining)))"

definition release_scope :: "string option \<Rightarrow> secret_registry \<Rightarrow> secret_registry" where
  "release_scope scope r =
     (case scope of
        None \<Rightarrow> r
      | Some s \<Rightarrow>
          (let values = (case map_of (by_scope r) s of None \<Rightarrow> [] | Some vs \<Rightarrow> vs);
               r1 = r\<lparr>by_scope := dict_pop s (by_scope r)\<rparr>
           in if values = [] then r1
              else r1\<lparr>refcount := drop_values values (refcount r1), sr_version := sr_version r1 + 1\<rparr>))"

definition snapshot :: "secret_registry \<Rightarrow> string set" where
  "snapshot r = dom (refcount r)"

subsection \<open>The counts are right\<close>

definition registered :: "secret_registry \<Rightarrow> string list" where
  "registered r = concat (map snd (by_scope r))"

definition secrets_ok :: "secret_registry \<Rightarrow> bool" where
  "secrets_ok r \<longleftrightarrow>
     distinct (map fst (by_scope r)) \<and>
     (\<forall>v. refcount r v = (let n = count_list (registered r) v in if n = 0 then None else Some (int n))) \<and>
     [] \<notin> set (registered r)"

lemma scope_append_keys: "map fst (scope_append k v d) = (if k \<in> fst ` set d then map fst d else map fst d @ [k])"
proof (induction d)
  case (Cons kv d)
  then show ?case
    by (cases kv, cases "fst kv = k") simp_all
qed simp

lemma scope_append_distinct: "distinct (map fst d) \<Longrightarrow> distinct (map fst (scope_append k v d))"
  by (simp add: scope_append_keys)

lemma scope_append_count:
  "count_list (concat (map snd (scope_append k v d))) x = count_list (concat (map snd d)) x + (if x = v then 1 else 0)"
  by (induction d) auto

lemma mem_count: "x \<in> set xs \<longleftrightarrow> count_list xs x \<noteq> 0"
  by (simp add: count_list_0_iff)

lemma scope_append_mem:
  "x \<in> set (concat (map snd (scope_append k v d))) \<longleftrightarrow> x = v \<or> x \<in> set (concat (map snd d))"
  unfolding mem_count scope_append_count by simp

lemma secrets_ok_new: "secrets_ok new_secret_registry"
  by (simp add: secrets_ok_def new_secret_registry_def registered_def)

lemma secrets_ok_register:
  assumes "secrets_ok r"
  shows "secrets_ok (register_secret value scope r)"
proof (cases "value = None \<or> value = Some []")
  case True
  then show ?thesis
    using assms by (auto simp: register_secret_def)
next
  case False
  then obtain v where v: "value = Some v" "v \<noteq> []"
    by auto
  let ?key = "case scope of None \<Rightarrow> global_scope | Some s \<Rightarrow> s"
  have r: "register_secret value scope r = r\<lparr>by_scope := scope_append ?key v (by_scope r),
      refcount := (refcount r)(v \<mapsto> (case refcount r v of None \<Rightarrow> 0 | Some n \<Rightarrow> n) + 1), sr_version := sr_version r + 1\<rparr>"
    using v by (simp add: register_secret_def Let_def)
  have "[] \<notin> set (registered (register_secret value scope r))"
    using v(2) assms scope_append_mem [of "[]" ?key v "by_scope r"]
    by (simp add: r registered_def secrets_ok_def)
  moreover have "count_list (registered (register_secret value scope r)) x = count_list (registered r) x + (if x = v then 1 else 0)" for x
    by (simp add: r registered_def scope_append_count)
  ultimately show ?thesis
    using assms by (auto simp: secrets_ok_def Let_def r scope_append_distinct)
qed

lemma drop_values_count:
  assumes "\<And>v. m v = (if f v = (0::nat) then None else Some (int (f v)))" and "\<And>v. count_list vs v \<le> f v"
  shows "drop_values vs m v = (if f v = count_list vs v then None else Some (int (f v - count_list vs v)))"
  using assms
proof (induction vs arbitrary: m f v)
  case Nil
  then show ?case by simp
next
  case (Cons x vs)
  let ?f = "f(x := f x - 1)"
  have fx: "0 < f x"
    using Cons.prems(2) [of x] by simp
  let ?m = "if (case m x of None \<Rightarrow> 0 | Some n \<Rightarrow> n) - 1 \<le> 0 then m(x := None)
            else m(x \<mapsto> (case m x of None \<Rightarrow> 0 | Some n \<Rightarrow> n) - 1)"
  have "?m v = (if ?f v = 0 then None else Some (int (?f v)))" for v
    using fx Cons.prems(1) by (auto simp: of_nat_diff)
  moreover have "count_list vs v \<le> ?f v" for v
    using Cons.prems(2) [of v] by (auto split: if_splits)
  ultimately have "drop_values vs ?m v =
      (if ?f v = count_list vs v then None else Some (int (?f v - count_list vs v)))"
    by (rule Cons.IH)
  then show ?case
    using fx by (auto simp: Let_def)
qed

lemma count_dict_pop:
  assumes "distinct (map fst d)"
  shows "count_list (concat (map snd d)) x =
     count_list (concat (map snd (dict_pop s d))) x + count_list (case map_of d s of None \<Rightarrow> [] | Some vs \<Rightarrow> vs) x"
  using assms
proof (induction d)
  case (Cons kv d)
  obtain k vs where kv: "kv = (k, vs)"
    by (cases kv)
  show ?case
  proof (cases "k = s")
    case True
    then have "map_of d s = None"
      using Cons.prems kv by (simp add: map_of_eq_None_iff)
    then show ?thesis
      using Cons True kv by (simp add: dict_pop_def)
  next
    case False
    then show ?thesis
      using Cons kv by (simp add: dict_pop_def)
  qed
qed (simp add: dict_pop_def)

lemma dict_pop_values: "set (concat (map snd (dict_pop s d))) \<subseteq> set (concat (map snd d))"
  by (auto simp: dict_pop_def)

lemma secrets_ok_release:
  assumes "secrets_ok r"
  shows "secrets_ok (release_scope scope r)"
proof (cases scope)
  case None
  then show ?thesis
    using assms by (simp add: release_scope_def)
next
  case (Some s)
  let ?vs = "case map_of (by_scope r) s of None \<Rightarrow> [] | Some vs \<Rightarrow> vs"
  have dist: "distinct (map fst (by_scope r))" and ne: "[] \<notin> set (registered r)"
    and cnt: "\<And>v. refcount r v = (if count_list (registered r) v = 0 then None else Some (int (count_list (registered r) v)))"
    using assms by (simp_all add: secrets_ok_def Let_def)
  have split: "count_list (registered r) x = count_list (concat (map snd (dict_pop s (by_scope r)))) x + count_list ?vs x" for x
    unfolding registered_def by (rule count_dict_pop [OF dist])
  have "drop_values ?vs (refcount r) v = (if count_list (registered r) v = count_list ?vs v then None
      else Some (int (count_list (registered r) v - count_list ?vs v)))" for v
    by (rule drop_values_count [OF cnt]) (simp add: split)
  moreover have "[] \<notin> set (concat (map snd (dict_pop s (by_scope r))))"
    using ne dict_pop_values [of s "by_scope r"] by (auto simp: registered_def)
  ultimately show ?thesis
    using Some dist cnt split
    by (simp add: secrets_ok_def release_scope_def Let_def registered_def dict_pop_distinct)
qed

text \<open>What is masked is what some scope still holds.\<close>

lemma snapshot_eq: "secrets_ok r \<Longrightarrow> snapshot r = set (registered r)"
  by (auto simp: snapshot_def secrets_ok_def Let_def dom_def count_list_0_iff split: if_splits)

subsection \<open>Resolution\<close>

datatype reference_kind = KIND_FILE | KIND_ENV | KIND_EXTERNAL | KIND_KEYRING

record secret_reference =
  sf_kind :: reference_kind
  sf_label :: string
  sf_reference :: string
  sf_required :: bool

datatype resolution_error =
    Unknown_reference | File_unsupported | Backend_not_enabled | Required_not_set
  | Duplicate_reference | Keyring_malformed | Keyring_failed | External_timeout | External_failed

text \<open>\<open>get\<close> of the three backends, over the environment, the keyring and the resolver command.\<close>

definition env_get :: "(string \<rightharpoonup> string) \<Rightarrow> secret_reference \<Rightarrow> (resolution_error, string option) result" where
  "env_get environ ref = Inr (environ (sf_reference ref))"

definition keyring_get ::
  "(string \<Rightarrow> string \<Rightarrow> ('x, string option) result) \<Rightarrow> secret_reference \<Rightarrow> (resolution_error, string option) result" where
  "keyring_get get_password ref =
     (case find_char (CHR ''/'') (sf_reference ref) of
        None \<Rightarrow> Inl Keyring_malformed
      | Some i \<Rightarrow>
          (let service = take i (sf_reference ref); username = drop (i + 1) (sf_reference ref) in
           if service = [] \<or> username = [] then Inl Keyring_malformed
           else case get_password service username of Inl x \<Rightarrow> Inl Keyring_failed | Inr v \<Rightarrow> Inr v))"

definition strip_newlines :: "string \<Rightarrow> string" where
  "strip_newlines s = rev (dropWhile (\<lambda>c. c = char_of (10::nat)) (rev (dropWhile (\<lambda>c. c = char_of (10::nat)) s)))"

text \<open>The runner times out (\<open>Inl ()\<close>) or gives the exit status and the standard output.\<close>

definition external_get ::
  "string list \<Rightarrow> (string list \<Rightarrow> (unit, int \<times> string) result) \<Rightarrow> secret_reference
     \<Rightarrow> (resolution_error, string option) result" where
  "external_get command runner ref =
     (case runner (command @ [sf_reference ref]) of
        Inl u \<Rightarrow> Inl External_timeout
      | Inr (code, out) \<Rightarrow>
          (if code \<noteq> 0 then Inl External_failed
           else let v = strip_newlines out in Inr (if v = [] then None else Some v)))"

text \<open>The store's constructor: a reference may be defined once.\<close>

fun make_store :: "secret_reference list \<Rightarrow> (string \<rightharpoonup> secret_reference)
    \<Rightarrow> (resolution_error, string \<rightharpoonup> secret_reference) result" where
  "make_store [] m = Inr m"
| "make_store (d # ds) m =
     (if m (sf_reference d) \<noteq> None then Inl Duplicate_reference
      else make_store ds (m(sf_reference d \<mapsto> d)))"

type_synonym backends = "reference_kind \<rightharpoonup> (secret_reference \<Rightarrow> (resolution_error, string option) result)"

fun resolve_loop ::
  "(string \<rightharpoonup> secret_reference) \<Rightarrow> backends \<Rightarrow> string option \<Rightarrow> string list \<Rightarrow> (string \<rightharpoonup> string)
     \<Rightarrow> secret_registry \<Rightarrow> (resolution_error, string \<rightharpoonup> string) result \<times> secret_registry" where
  "resolve_loop defs bes scope [] resolved r = (Inr resolved, r)"
| "resolve_loop defs bes scope (ref # refs) resolved r =
     (case defs ref of
        None \<Rightarrow> (Inl Unknown_reference, r)
      | Some d \<Rightarrow>
          (if sf_kind d = KIND_FILE then (Inl File_unsupported, r)
           else case bes (sf_kind d) of
             None \<Rightarrow> (Inl Backend_not_enabled, r)
           | Some get \<Rightarrow>
               (case get d of
                  Inl e \<Rightarrow> (Inl e, r)
                | Inr v \<Rightarrow>
                    (if v = None \<or> v = Some [] then
                       (if sf_required d then (Inl Required_not_set, r)
                        else resolve_loop defs bes scope refs resolved r)
                     else resolve_loop defs bes scope refs (resolved(ref := v)) (register_secret v scope r)))))"

definition resolve ::
  "(string \<rightharpoonup> secret_reference) \<Rightarrow> backends \<Rightarrow> string option \<Rightarrow> string list \<Rightarrow> secret_registry
     \<Rightarrow> (resolution_error, string \<rightharpoonup> string) result \<times> secret_registry" where
  "resolve defs bes scope refs r = resolve_loop defs bes scope refs Map.empty r"

lemma register_snapshot:
  "secrets_ok r \<Longrightarrow> snapshot (register_secret (Some v) scope r) = (if v = [] then snapshot r else insert v (snapshot r))"
  by (auto simp: register_secret_def Let_def snapshot_def)

text \<open>Every value handed out is masked by then, and nothing is unmasked on the way.\<close>

lemma resolve_loop_masked:
  assumes "secrets_ok r" and "resolve_loop defs bes scope refs resolved r = (res, r')"
    and "ran resolved \<subseteq> snapshot r"
  shows "secrets_ok r' \<and> snapshot r \<subseteq> snapshot r' \<and> (\<forall>m. res = Inr m \<longrightarrow> ran m \<subseteq> snapshot r')"
  using assms
proof (induction refs arbitrary: resolved r)
  case Nil
  then show ?case by auto
next
  case (Cons ref refs)
  consider (err) e where "res = Inl e" "r' = r"
    | (skip) "resolve_loop defs bes scope refs resolved r = (res, r')"
    | (got) v where "v \<noteq> []"
        "resolve_loop defs bes scope refs (resolved(ref \<mapsto> v)) (register_secret (Some v) scope r) = (res, r')"
    using Cons.prems(2) by (auto split: option.splits if_splits sum.splits)
  then show ?case
  proof cases
    case err
    then show ?thesis using Cons.prems(1) by simp
  next
    case skip
    then show ?thesis using Cons by blast
  next
    case got
    have ok: "secrets_ok (register_secret (Some v) scope r)"
      by (rule secrets_ok_register [OF Cons.prems(1)])
    have sn: "snapshot (register_secret (Some v) scope r) = insert v (snapshot r)"
      using got(1) Cons.prems(1) by (simp add: register_snapshot)
    have "ran (resolved(ref \<mapsto> v)) \<subseteq> insert v (ran resolved)"
      by (auto simp: ran_def)
    then have "ran (resolved(ref \<mapsto> v)) \<subseteq> snapshot (register_secret (Some v) scope r)"
      using sn Cons.prems(3) by auto
    from Cons.IH [OF ok got(2) this] show ?thesis
      using sn by auto
  qed
qed

lemma make_store_Inr:
  "make_store ds m = Inr m' \<Longrightarrow> distinct (map sf_reference ds) \<and> (\<forall>d \<in> set ds. m (sf_reference d) = None)"
proof (induction ds arbitrary: m)
  case (Cons d ds)
  then have "m (sf_reference d) = None" "make_store ds (m(sf_reference d \<mapsto> d)) = Inr m'"
    by (auto split: if_splits)
  with Cons.IH [OF this(2)] show ?case
    by (auto split: if_splits)
qed simp

end
