(* ===== verification/Transaction.thy ===== *)
theory Transaction
  imports Admission Registry StopGuard Lease Selection TransportCore Secrets
begin

text \<open>
  Models \<open>src/kdive/coordination/transaction.py\<close>: the write-ahead open of a transport session,
  its rollback, and the three ways a session ends (\<open>close\<close>, \<open>force_release\<close>, the lifecycle
  subscriber). The state is that of the services the transaction composes, as their own theories
  model it, with the transaction's two tables.

  An exception leaves the changes made before it, so an operation returns the state in both cases.
  What the code does not decide is in \<open>open_env\<close> and \<open>transport\<close>: clocks, uuids, whether a durable
  operation raises an \<open>OSError\<close> (before its atomic replace or unlink), what the provider's
  \<open>attach\<close>, \<open>close\<close> and \<open>reap_backend\<close> do, and what other threads do to the services between the
  steps of an open, at the labelled points (\<open>oe_during\<close>).
\<close>

subsection \<open>State\<close>

record open_state =
  os_guard_token :: "guard_token option"
  os_lease_token :: "string option"
  os_session_id :: "string option"
  os_backend_pid :: "int option"
  os_backend_start :: "string option"
  os_admission_handle :: "href option"

definition empty_open_state :: open_state where
  "empty_open_state =
     \<lparr>os_guard_token = None, os_lease_token = None, os_session_id = None, os_backend_pid = None,
      os_backend_start = None, os_admission_handle = None\<rparr>"

text \<open>A subscriber object: \<open>sb_killed\<close> is its event.\<close>

record session_subscriber =
  sb_session :: transport_session
  sb_state :: open_state
  sb_killed :: bool

record sys =
  sy_admission :: admission
  sy_registry :: registry
  sy_guard :: stop_guard
  sy_leases :: lease_manager
  sy_secrets :: secret_registry
  sy_tokens :: "string \<rightharpoonup> guard_token"
  sy_handles :: "string \<rightharpoonup> href"
  sy_dispatcher :: "dispatcher option"
  sy_subscribers :: "session_subscriber list"
  sy_reaped :: "(int \<times> string option) list"

datatype open_label = L_selected | L_guard | L_lease | L_record_written | L_attach | L_ready

datatype fs_op =
    W_opening | W_partial nat | W_ready | D_tombstone | D_rollback
  | W_closing | W_tombstone | D_close | D_force | D_subscriber

record backend_attachment =
  ba_console_endpoint :: "endpoint option"
  ba_rsp_endpoint :: "endpoint option"
  ba_backend_pid :: "int option"
  ba_backend_start_time :: "string option"
  ba_console_artifact :: "artifact_ref option"

text \<open>
  A provider: the partial results \<open>attach\<close> reports, in order, and its outcome; \<open>close\<close> and
  \<open>reap_backend\<close> return or raise.
\<close>

record 'x transport =
  tp_capability :: transport_capability
  tp_partials :: "open_request \<Rightarrow> (string \<times> raw) list"
  tp_attach :: "open_request \<Rightarrow> (string \<rightharpoonup> string) \<Rightarrow> ('x, backend_attachment) result"
  tp_close :: "transport_session \<Rightarrow> 'x option"

record open_env =
  oe_now :: int
  oe_handle_uuid :: string
  oe_guard_secret :: string
  oe_lease_uuid :: string
  oe_session_id :: string
  oe_created_at :: int
  oe_mapped_aware :: bool
  oe_policy :: policy
  oe_secret_defs :: "string \<rightharpoonup> secret_reference"
  oe_secret_backends :: backends
  oe_fs_ok :: "fs_op \<Rightarrow> bool"
  oe_crash_after :: "open_label set"
  oe_during :: "open_label \<Rightarrow> sys \<Rightarrow> sys"

datatype 'x open_error =
    Unknown_transport
  | Unsafe endpoint_safety_error
  | Refused adm_code
  | No_channel
  | Not_selected selection_code
  | Guard_held guard_error
  | Lease_refused lease_error
  | Secrets_failed resolution_error
  | Os_error fs_op
  | Bad_record registry_error
  | Attach_failed 'x
  | Simulated_crash open_label

subsection \<open>Shared steps\<close>

definition fs_write :: "(fs_op \<Rightarrow> bool) \<Rightarrow> fs_op \<Rightarrow> transport_session \<Rightarrow> sys \<Rightarrow> ('x open_error, unit) result \<times> sys" where
  "fs_write ok op rec s =
     (if ok op then (Inr (), s\<lparr>sy_registry := write_record rec (sy_registry s)\<rparr>) else (Inl (Os_error op), s))"

definition fs_delete :: "(fs_op \<Rightarrow> bool) \<Rightarrow> fs_op \<Rightarrow> target_key \<Rightarrow> string \<Rightarrow> sys \<Rightarrow> ('x open_error, unit) result \<times> sys" where
  "fs_delete ok op k sid s =
     (case delete_record k (Some sid) (sy_registry s) of
        Inl e \<Rightarrow> (Inl (Bad_record e), s)
      | Inr r \<Rightarrow>
          (if r = sy_registry s then (Inr (), s)
           else if ok op then (Inr (), s\<lparr>sy_registry := r\<rparr>)
           else (Inl (Os_error op), s)))"

definition release_lease :: "target_key \<Rightarrow> string option \<Rightarrow> sys \<Rightarrow> sys" where
  "release_lease k tok s =
     (case tok of None \<Rightarrow> s | Some t \<Rightarrow> s\<lparr>sy_leases := snd (mgr_release k t (sy_leases s))\<rparr>)"

definition release_guard :: "target_key \<Rightarrow> guard_token option \<Rightarrow> sys \<Rightarrow> sys" where
  "release_guard k tok s =
     (case tok of None \<Rightarrow> s | Some t \<Rightarrow> s\<lparr>sy_guard := snd (guard_release k t (sy_guard s))\<rparr>)"

definition unsubscribe_session :: "target_key \<Rightarrow> string \<Rightarrow> sys \<Rightarrow> sys" where
  "unsubscribe_session k sid s = s\<lparr>sy_dispatcher := map_option (unsubscribe k sid) (sy_dispatcher s)\<rparr>"

text \<open>An operation of admission whose error the caller suppresses or reports.\<close>

definition on_admission :: "(admission \<Rightarrow> (adm_code, admission) result) \<Rightarrow> sys \<Rightarrow> (adm_code, unit) result \<times> sys" where
  "on_admission f s =
     (case f (sy_admission s) of Inl e \<Rightarrow> (Inl e, s) | Inr a \<Rightarrow> (Inr (), s\<lparr>sy_admission := a\<rparr>))"

definition best_effort_reap :: "open_state \<Rightarrow> sys \<Rightarrow> sys" where
  "best_effort_reap st s =
     (case os_backend_pid st of
        None \<Rightarrow> s
      | Some pid \<Rightarrow> s\<lparr>sy_reaped := sy_reaped s @ [(pid, os_backend_start st)]\<rparr>)"

subsection \<open>Opening\<close>

text \<open>\<open>_write_backend_partial\<close>: the well-formed identity of the reported resource.\<close>

definition raw_get :: "string \<Rightarrow> (raw_key \<times> raw) list \<Rightarrow> raw" where
  "raw_get n items = (case map_of items (KStr n) of None \<Rightarrow> RawNone | Some v \<Rightarrow> v)"

definition backend_identity :: "raw \<Rightarrow> (int \<times> string option) option" where
  "backend_identity resource =
     (case resource of
        RawMap items \<Rightarrow>
          (case (case raw_get ''pid'' items of
                   RawInt i \<Rightarrow> Some i | RawBool b \<Rightarrow> Some (if b then 1 else 0) | _ \<Rightarrow> None) of
             None \<Rightarrow> None
           | Some pid \<Rightarrow>
               (case raw_get ''start_time'' items of
                  RawNone \<Rightarrow> Some (pid, None)
                | RawStr t \<Rightarrow> Some (pid, Some t)
                | _ \<Rightarrow> None))
      | _ \<Rightarrow> None)"

definition with_backend :: "int option \<Rightarrow> string option \<Rightarrow> transport_session \<Rightarrow> transport_session" where
  "with_backend pid start rec = rec\<lparr>backend_pid := pid, backend_start_time := start\<rparr>"

text \<open>
  The \<open>on_partial\<close> calls of an attach; a durable write that raises, raises out of the attach.
  The pair carried along is \<open>backend_pid\<close> and \<open>backend_start\<close> of the enclosing function.
\<close>

fun run_partials ::
  "open_env \<Rightarrow> transport_session \<Rightarrow> nat \<Rightarrow> (string \<times> raw) list \<Rightarrow> int option \<times> string option \<Rightarrow> open_state \<Rightarrow> sys
     \<Rightarrow> ('x open_error, int option \<times> string option) result \<times> open_state \<times> sys" where
  "run_partials env rec n [] b st s = (Inr b, st, s)"
| "run_partials env rec n ((label, resource) # ps) b st s =
     (if label \<noteq> ''backend_process'' then run_partials env rec (n + 1) ps b st s
      else case backend_identity resource of
        None \<Rightarrow> run_partials env rec (n + 1) ps b st s
      | Some (pid, start) \<Rightarrow>
          (case fs_write (oe_fs_ok env) (W_partial n) (with_backend (Some pid) start rec) s of
             (Inl e, s') \<Rightarrow> (Inl e, st, s')
           | (Inr u, s') \<Rightarrow>
               run_partials env rec (n + 1) ps (Some pid, start)
                 (st\<lparr>os_backend_pid := Some pid, os_backend_start := start\<rparr>) s'))"

definition write_opening_record ::
  "open_env \<Rightarrow> open_request \<Rightarrow> href \<Rightarrow> selection \<Rightarrow> string \<Rightarrow> guard_token \<Rightarrow> string option \<Rightarrow> open_state \<Rightarrow> sys
     \<Rightarrow> ('x open_error, transport_session) result \<times> open_state \<times> sys" where
  "write_opening_record env req h sel provider_name token lease_token st s =
     (let sid = oe_session_id env;
          s1 = s\<lparr>sy_tokens := (sy_tokens s)(sid \<mapsto> token)\<rparr>;
          rec = \<lparr>session_id = sid, ts_target_key = req_target_key req, ts_generation = req_generation req,
                 ts_provider = provider_name, ts_channel_id = tr_channel_id (sel_channel sel),
                 console_endpoint = None, rsp_endpoint = None, record_state = OPENING,
                 console_lease_token = lease_token, stop_guard_token = Some (gt_secret token),
                 attach_epoch = ah_admit_epoch (handle_of (sy_admission s) h),
                 ts_break_plan = Some (sel_break_plan sel), execution_state = EXECUTING,
                 backend_pid = None, backend_start_time = None, created_at = oe_created_at env,
                 ended_at = None, ts_artifacts = []\<rparr>
      in case fs_write (oe_fs_ok env) W_opening rec s1 of
           (Inl e, s2) \<Rightarrow> (Inl e, st, s2)
         | (Inr u, s2) \<Rightarrow> (Inr rec, st\<lparr>os_session_id := Some sid\<rparr>, s2))"

definition attach_open_backend ::
  "open_env \<Rightarrow> 'x transport \<Rightarrow> open_request \<Rightarrow> transport_session \<Rightarrow> (string \<rightharpoonup> string) \<Rightarrow> open_state \<Rightarrow> sys
     \<Rightarrow> ('x open_error, backend_attachment \<times> int option \<times> string option) result \<times> open_state \<times> sys" where
  "attach_open_backend env tp req rec secrets st s =
     (case run_partials env rec 0 (tp_partials tp req) (None, None) st s of
        (Inl e, st1, s1) \<Rightarrow> (Inl e, st1, s1)
      | (Inr (pid, start), st1, s1) \<Rightarrow>
          (let s2 = oe_during env L_attach s1 in
           case tp_attach tp req secrets of
             Inl x \<Rightarrow> (Inl (Attach_failed x), st1, s2)
           | Inr att \<Rightarrow>
               (case ba_backend_pid att of
                  None \<Rightarrow> (Inr (att, pid, start), st1, s2)
                | Some p \<Rightarrow>
                    (Inr (att, Some p, ba_backend_start_time att),
                     st1\<lparr>os_backend_pid := Some p, os_backend_start := ba_backend_start_time att\<rparr>, s2))))"

definition subscribe_session :: "transport_session \<Rightarrow> open_state \<Rightarrow> sys \<Rightarrow> sys" where
  "subscribe_session ses st s =
     (case sy_dispatcher s of
        None \<Rightarrow> s
      | Some d \<Rightarrow>
          s\<lparr>sy_subscribers := sy_subscribers s @ [\<lparr>sb_session = ses, sb_state = st, sb_killed = (os_backend_pid st = None)\<rparr>],
            sy_dispatcher := Some (subscribe (ts_target_key ses) (session_id ses) (length (sy_subscribers s)) d)\<rparr>)"

definition clear_recovery_durable ::
  "(fs_op \<Rightarrow> bool) \<Rightarrow> target_key \<Rightarrow> int \<Rightarrow> sys \<Rightarrow> ('x open_error, unit) result \<times> sys" where
  "clear_recovery_durable ok k gen s =
     (let r = clear_tombstone k gen (sy_registry s) in
      if r = sy_registry s then (Inr (), s)
      else if ok D_tombstone then (Inr (), s\<lparr>sy_registry := r\<rparr>)
      else (Inl (Os_error D_tombstone), s))"

definition clear_recovery_cache :: "target_key \<Rightarrow> int \<Rightarrow> sys \<Rightarrow> sys" where
  "clear_recovery_cache k gen s = s\<lparr>sy_admission := clear_recovery_required k gen (sy_admission s)\<rparr>"

definition commit_open_session ::
  "open_env \<Rightarrow> open_request \<Rightarrow> href \<Rightarrow> transport_session \<Rightarrow> bool \<Rightarrow> open_state \<Rightarrow> sys
     \<Rightarrow> ('x open_error, unit) result \<times> open_state \<times> sys" where
  "commit_open_session env req h ses recovery st s =
     (case on_admission (promote h) s of
        (Inl e, s1) \<Rightarrow> (Inl (Refused e), st, s1)
      | (Inr u, s1) \<Rightarrow>
          (let s2 = s1\<lparr>sy_handles := (sy_handles s1)(session_id ses \<mapsto> h)\<rparr>;
               st2 = st\<lparr>os_admission_handle := Some h\<rparr>;
               s3 = subscribe_session ses st2 s2
           in if \<not> recovery then (Inr (), st2, s3)
              else case clear_recovery_durable (oe_fs_ok env) (req_target_key req) (req_generation req) s3 of
                     (Inl e, s4) \<Rightarrow> (Inl e, st2, s4)
                   | (Inr v, s4) \<Rightarrow> (Inr (), st2, clear_recovery_cache (req_target_key req) (req_generation req) s4)))"

definition rollback_open :: "open_env \<Rightarrow> target_key \<Rightarrow> open_state \<Rightarrow> href \<Rightarrow> sys \<Rightarrow> sys" where
  "rollback_open env k st h s =
     (let s1 = best_effort_reap st s;
          s2 = (case os_session_id st of
                  None \<Rightarrow> s1
                | Some sid \<Rightarrow>
                    (let t1 = s1\<lparr>sy_tokens := (sy_tokens s1)(sid := None), sy_handles := (sy_handles s1)(sid := None)\<rparr>;
                         t2 = snd (fs_delete (oe_fs_ok env) D_rollback k sid t1 :: (unit open_error, unit) result \<times> sys)
                     in unsubscribe_session k sid t2));
          s3 = release_lease k (os_lease_token st) s2;
          s4 = release_guard k (os_guard_token st) s3
      in snd (on_admission (rollback h) s4))"

text \<open>A labelled point: other threads, then the crash seam.\<close>

definition checkpoint :: "open_env \<Rightarrow> open_label \<Rightarrow> sys \<Rightarrow> ('x open_error, unit) result \<times> sys" where
  "checkpoint env l s =
     (let s' = oe_during env l s in
      if l \<in> oe_crash_after env then (Inl (Simulated_crash l), s') else (Inr (), s'))"

definition acquire_lease ::
  "open_env \<Rightarrow> transport_capability \<Rightarrow> target_key \<Rightarrow> open_state \<Rightarrow> sys
     \<Rightarrow> ('x open_error, string option) result \<times> open_state \<times> sys" where
  "acquire_lease env cap k st s =
     (if \<not> cp_provides_console cap then (Inr None, st, s)
      else case mgr_acquire k (oe_lease_uuid env, TRANSPORT) (sy_leases s) of
             (Inl e, m) \<Rightarrow> (Inl (Lease_refused e), st, s\<lparr>sy_leases := m\<rparr>)
           | (Inr t, m) \<Rightarrow> (Inr (Some t), st\<lparr>os_lease_token := Some t\<rparr>, s\<lparr>sy_leases := m\<rparr>))"

definition acquire_guard ::
  "open_env \<Rightarrow> target_key \<Rightarrow> open_state \<Rightarrow> sys \<Rightarrow> ('x open_error, guard_token) result \<times> open_state \<times> sys" where
  "acquire_guard env k st s =
     (case guard_acquire k (oe_guard_secret env) (sy_guard s) of
        (Inl e, g) \<Rightarrow> (Inl (Guard_held e), st, s\<lparr>sy_guard := g\<rparr>)
      | (Inr t, g) \<Rightarrow> (Inr t, st\<lparr>os_guard_token := Some t\<rparr>, s\<lparr>sy_guard := g\<rparr>))"

fun assert_endpoints :: "bool \<Rightarrow> endpoint option list \<Rightarrow> ('x open_error, unit) result" where
  "assert_endpoints m [] = Inr ()"
| "assert_endpoints m (None # es) = assert_endpoints m es"
| "assert_endpoints m (Some e # es) =
     (case assert_loopback_endpoint m e of Inl x \<Rightarrow> Inl (Unsafe x) | Inr u \<Rightarrow> assert_endpoints m es)"

definition ready_session ::
  "transport_session \<Rightarrow> backend_attachment \<Rightarrow> int option \<Rightarrow> string option \<Rightarrow> transport_session" where
  "ready_session rec att pid start =
     rec\<lparr>record_state := RS_READY, console_endpoint := ba_console_endpoint att,
         rsp_endpoint := ba_rsp_endpoint att, backend_pid := pid, backend_start_time := start,
         ts_artifacts := (case ba_console_artifact att of None \<Rightarrow> [] | Some a \<Rightarrow> [a])\<rparr>"

text \<open>A step of the open: it may raise, and returns the unwind state and the system in both cases.\<close>

type_synonym ('x, 'a) step = "open_state \<Rightarrow> sys \<Rightarrow> ('x open_error, 'a) result \<times> open_state \<times> sys"

definition tbind :: "('x, 'a) step \<Rightarrow> ('a \<Rightarrow> ('x, 'b) step) \<Rightarrow> ('x, 'b) step" where
  "tbind m f st s = (case m st s of (Inl e, st', s') \<Rightarrow> (Inl e, st', s') | (Inr v, st', s') \<Rightarrow> f v st' s')"

definition tpure :: "('x open_error, 'a) result \<Rightarrow> ('x, 'a) step" where
  "tpure r st s = (r, st, s)"

definition tlift :: "(sys \<Rightarrow> ('x open_error, 'a) result \<times> sys) \<Rightarrow> ('x, 'a) step" where
  "tlift f st s = (case f s of (r, s') \<Rightarrow> (r, st, s'))"

definition resolve_secrets :: "open_env \<Rightarrow> string list \<Rightarrow> sys \<Rightarrow> ('x open_error, string \<rightharpoonup> string) result \<times> sys" where
  "resolve_secrets env refs s =
     (case resolve (oe_secret_defs env) (oe_secret_backends env) None refs (sy_secrets s) of
        (Inl e, r) \<Rightarrow> (Inl (Secrets_failed e), s\<lparr>sy_secrets := r\<rparr>)
      | (Inr m, r) \<Rightarrow> (Inr m, s\<lparr>sy_secrets := r\<rparr>))"

definition handle_channel :: "href \<Rightarrow> sys \<Rightarrow> ('x open_error, transport_ref) result \<times> sys" where
  "handle_channel h s =
     (case ah_channel (handle_of (sy_admission s) h) of None \<Rightarrow> (Inl No_channel, s) | Some c \<Rightarrow> (Inr c, s))"

definition select_channel ::
  "open_env \<Rightarrow> open_request \<Rightarrow> href \<Rightarrow> transport_ref \<Rightarrow> sys \<Rightarrow> ('x open_error, selection) result \<times> sys" where
  "select_channel env req h ch s =
     (case select_stop_capable_channel (oe_policy env) (req_target_key req) [ch] (req_required_caps req)
             (ah_platform (handle_of (sy_admission s) h)) {} of
        Inl e \<Rightarrow> (Inl (Not_selected e), s)
      | Inr sel \<Rightarrow> (Inr sel, s))"

text \<open>The body of the \<open>try\<close> block.\<close>

definition open_body ::
  "open_env \<Rightarrow> 'x transport \<Rightarrow> open_request \<Rightarrow> bool \<Rightarrow> href \<Rightarrow> ('x, transport_session) step" where
  "open_body env tp req recovery h =
     tbind (tlift (handle_channel h)) (\<lambda>channel.
     tbind (tlift (select_channel env req h channel)) (\<lambda>sel.
     tbind (tlift (checkpoint env L_selected)) (\<lambda>_.
     tbind (acquire_guard env (req_target_key req)) (\<lambda>token.
     tbind (tlift (checkpoint env L_guard)) (\<lambda>_.
     tbind (acquire_lease env (tp_capability tp) (req_target_key req)) (\<lambda>lease_token.
     tbind (tlift (checkpoint env L_lease)) (\<lambda>_.
     tbind (tlift (resolve_secrets env (tr_secret_refs channel))) (\<lambda>secrets.
     tbind (write_opening_record env req h sel (cp_provider_name (tp_capability tp)) token lease_token) (\<lambda>rec.
     tbind (tlift (checkpoint env L_record_written)) (\<lambda>_.
     tbind (attach_open_backend env tp req rec secrets) (\<lambda>(att, pid, start).
     tbind (tpure (assert_endpoints (oe_mapped_aware env) [ba_console_endpoint att, ba_rsp_endpoint att])) (\<lambda>_.
     tbind (tlift (fs_write (oe_fs_ok env) W_ready (ready_session rec att pid start))) (\<lambda>_.
     tbind (tlift (checkpoint env L_ready)) (\<lambda>_.
     tbind (commit_open_session env req h (ready_session rec att pid start) recovery) (\<lambda>_.
     tpure (Inr (ready_session rec att pid start)))))))))))))))))"

definition open_session ::
  "(string \<rightharpoonup> 'x transport) \<Rightarrow> open_env \<Rightarrow> open_request \<Rightarrow> bool \<Rightarrow> sys
     \<Rightarrow> ('x open_error, transport_session) result \<times> sys" where
  "open_session transports env req recovery s =
     (case transports (tr_provider (req_transport_ref req)) of
        None \<Rightarrow> (Inl Unknown_transport, s)
      | Some tp \<Rightarrow>
          (case refuse_unsafe_exposure (tp_capability tp) ''transport.open'' of
             Inl e \<Rightarrow> (Inl (Unsafe e), s)
           | Inr u \<Rightarrow>
               (case (if recovery then admit_recovery else admit)
                       (oe_handle_uuid env) (req_target_key req) req (oe_now env) (sy_admission s) of
                  Inl e \<Rightarrow> (Inl (Refused e), s)
                | Inr (h, a) \<Rightarrow>
                    (case open_body env tp req recovery h empty_open_state (s\<lparr>sy_admission := a\<rparr>) of
                       (Inr ses, st, s') \<Rightarrow> (Inr ses, s')
                     | (Inl e, st, s') \<Rightarrow> (Inl e, rollback_open env (req_target_key req) st h s')))))"

subsection \<open>Closing\<close>

text \<open>What \<open>close\<close> raises: the provider's error, the errors of the cleanup steps, or both.\<close>

datatype 'x close_error =
    Close_failed "'x option" "'x open_error list"
  | Close_error "'x open_error"

definition raise_close_failures :: "'x option \<Rightarrow> 'x open_error list \<Rightarrow> ('x close_error, unit) result" where
  "raise_close_failures ce errs = (if ce = None \<and> errs = [] then Inr () else Inl (Close_failed ce errs))"

definition record_by_session_id :: "string \<Rightarrow> sys \<Rightarrow> (registry_error, transport_session option) result" where
  "record_by_session_id sid s =
     rbind (list_records (sy_registry s)) (\<lambda>recs. Inr (List.find (\<lambda>r. session_id r = sid) recs))"

text \<open>A cleanup step whose error is added to the list.\<close>

definition collect :: "'x open_error list \<times> sys \<Rightarrow> (sys \<Rightarrow> ('x open_error, unit) result \<times> sys) \<Rightarrow> 'x open_error list \<times> sys" where
  "collect es f = (case f (snd es) of (Inl e, s') \<Rightarrow> (fst es @ [e], s') | (Inr u, s') \<Rightarrow> (fst es, s'))"

definition mark_recovery ::
  "(fs_op \<Rightarrow> bool) \<Rightarrow> target_key \<Rightarrow> int \<Rightarrow> string \<Rightarrow> sys \<Rightarrow> ('x open_error, unit) result \<times> sys" where
  "mark_recovery ok k gen reason s =
     (if ok W_tombstone
      then (Inr (), s\<lparr>sy_registry := write_tombstone \<lparr>rt_target_key = k, rt_generation = gen, rt_reason = reason\<rparr> (sy_registry s),
                     sy_admission := mark_recovery_required k gen (sy_admission s)\<rparr>)
      else (Inl (Os_error W_tombstone), s))"

text \<open>\<open>_handles.pop\<close>, then \<open>complete\<close> on the binding it held.\<close>

definition complete_handle :: "string \<Rightarrow> sys \<Rightarrow> ('x open_error, unit) result \<times> sys" where
  "complete_handle sid s =
     (case sy_handles s sid of
        None \<Rightarrow> (Inr (), s)
      | Some h \<Rightarrow>
          (case on_admission (complete h) (s\<lparr>sy_handles := (sy_handles s)(sid := None)\<rparr>) of
             (Inl e, s') \<Rightarrow> (Inl (Refused e), s')
           | (Inr u, s') \<Rightarrow> (Inr (), s')))"

definition pop_token :: "target_key \<Rightarrow> string \<Rightarrow> sys \<Rightarrow> sys" where
  "pop_token k sid s = release_guard k (sy_tokens s sid) (s\<lparr>sy_tokens := (sy_tokens s)(sid := None)\<rparr>)"

definition close_session ::
  "(string \<rightharpoonup> 'x transport) \<Rightarrow> (fs_op \<Rightarrow> bool) \<Rightarrow> string \<Rightarrow> bool \<Rightarrow> sys \<Rightarrow> ('x close_error, unit) result \<times> sys" where
  "close_session transports ok sid force s =
     (case record_by_session_id sid s of
        Inl e \<Rightarrow> (Inl (Close_error (Bad_record e)), s)
      | Inr None \<Rightarrow> (Inr (), s)
      | Inr (Some rec) \<Rightarrow>
          (case transports (ts_provider rec) of
             None \<Rightarrow> (Inl (Close_error Unknown_transport), s)
           | Some tp \<Rightarrow>
               (let k = ts_target_key rec; closing = rec\<lparr>record_state := CLOSING\<rparr> in
                case fs_write ok W_closing closing s of
                  (Inl e, s1) \<Rightarrow> (Inl (Close_error e), s1)
                | (Inr u, s1) \<Rightarrow>
                    (let ce = tp_close tp closing;
                         s2 = release_lease k (console_lease_token rec) s1;
                         s3 = pop_token k sid s2;
                         c1 = collect ([], s3) (complete_handle sid);
                         c2 = (if execution_state rec \<in> {HALTED, UNKNOWN} \<and> \<not> force
                               then collect c1 (mark_recovery ok k (ts_generation rec) ''closed_while_halted'')
                               else c1);
                         c3 = collect c2 (fs_delete ok D_close k (session_id rec));
                         s4 = unsubscribe_session k sid (snd c3)
                     in (raise_close_failures ce (fst c3), s4)))))"

text \<open>\<open>confirm_reaped\<close> then \<open>abandon\<close>, the first failure suppressed with what follows it.\<close>

definition confirm_and_abandon :: "href \<Rightarrow> sys \<Rightarrow> sys" where
  "confirm_and_abandon h s =
     (case on_admission (confirm_reaped h) s of
        (Inl e, s1) \<Rightarrow> s1
      | (Inr u, s1) \<Rightarrow> snd (on_admission (abandon h) s1))"

definition force_release :: "(fs_op \<Rightarrow> bool) \<Rightarrow> string \<Rightarrow> sys \<Rightarrow> ('x open_error, unit) result \<times> sys" where
  "force_release ok sid s =
     (case record_by_session_id sid s of
        Inl e \<Rightarrow> (Inl (Bad_record e), s)
      | Inr None \<Rightarrow> (Inr (), s\<lparr>sy_tokens := (sy_tokens s)(sid := None), sy_handles := (sy_handles s)(sid := None)\<rparr>)
      | Inr (Some rec) \<Rightarrow>
          (let k = ts_target_key rec;
               s1 = release_lease k (console_lease_token rec) s;
               s2 = pop_token k sid s1;
               s3 = (case sy_handles s2 sid of
                       None \<Rightarrow> s2
                     | Some h \<Rightarrow> confirm_and_abandon h (s2\<lparr>sy_handles := (sy_handles s2)(sid := None)\<rparr>))
           in case fs_delete ok D_force k (session_id rec) s3 of
                (Inl e, s4) \<Rightarrow> (Inl e, s4)
              | (Inr u, s4) \<Rightarrow> (Inr (), unsubscribe_session k sid s4)))"

subsection \<open>The lifecycle subscriber\<close>

definition subscriber_force_drop :: "(fs_op \<Rightarrow> bool) \<Rightarrow> nat \<Rightarrow> sys \<Rightarrow> ('x open_error, unit) result \<times> sys" where
  "subscriber_force_drop ok i s =
     (let sb = sy_subscribers s ! i; ses = sb_session sb; st = sb_state sb;
          k = ts_target_key ses; sid = session_id ses;
          s1 = release_lease k (os_lease_token st) s;
          s2 = release_guard k (os_guard_token st) s1;
          s3 = s2\<lparr>sy_tokens := (sy_tokens s2)(sid := None)\<rparr>;
          s4 = (case os_admission_handle st of None \<Rightarrow> s3 | Some h \<Rightarrow> confirm_and_abandon h s3);
          s5 = s4\<lparr>sy_handles := (sy_handles s4)(sid := None)\<rparr>
      in if \<not> sb_killed sb then (Inr (), unsubscribe_session k sid s5)
         else case fs_delete ok D_subscriber k sid s5 of
                (Inl e, s6) \<Rightarrow> (Inl e, s6)
              | (Inr u, s6) \<Rightarrow> (Inr (), unsubscribe_session k sid s6))"

definition subscriber_invalidate ::
  "(string \<rightharpoonup> 'x transport) \<Rightarrow> (fs_op \<Rightarrow> bool) \<Rightarrow> nat \<Rightarrow> sys \<Rightarrow> ('x open_error, unit) result \<times> sys" where
  "subscriber_invalidate transports ok i s =
     (let sb = sy_subscribers s ! i in
      case transports (ts_provider (sb_session sb)) of
        None \<Rightarrow> (Inl Unknown_transport, s)
      | Some tp \<Rightarrow>
          (let s1 = best_effort_reap (sb_state sb) s;
               s2 = s1\<lparr>sy_subscribers := (sy_subscribers s1)[i := sb\<lparr>sb_killed := True\<rparr>]\<rparr>
           in subscriber_force_drop ok i s2))"

subsection \<open>Break injection for a session\<close>

definition inject_break_for_session ::
  "(string \<rightharpoonup> (transport_session \<Rightarrow> ('w, 'x) break_resources option)) \<Rightarrow> string \<Rightarrow> string \<Rightarrow> sys \<Rightarrow> 'w
     \<Rightarrow> ((registry_error + 'x inject_raise), unit) result \<times> 'w" where
  "inject_break_for_session resources_of sid requested s w =
     (case record_by_session_id sid s of
        Inl e \<Rightarrow> (Inl (Inl e), w)
      | Inr None \<Rightarrow> (Inl (Inr (Inject_break_error Break_inject_unavailable)), w)
      | Inr (Some rec) \<Rightarrow>
          (case ts_break_plan rec of
             None \<Rightarrow> (Inl (Inr (Inject_break_error Break_inject_unavailable)), w)
           | Some bp \<Rightarrow>
               (case Option.bind (resources_of (ts_provider rec)) (\<lambda>f. f rec) of
                  None \<Rightarrow> (Inl (Inr (Inject_break_error Break_inject_unavailable)), w)
                | Some res \<Rightarrow>
                    (case inject_break requested bp res w of
                       (Inl e, w') \<Rightarrow> (Inl (Inr e), w')
                     | (Inr u, w') \<Rightarrow> (Inr (), w')))))"

end
