(* ===== verification/TransactionOpen.thy ===== *)
theory TransactionOpen
  imports Transaction AdmissionFence
begin

text \<open>
  What a failing open leaves behind. Triples over the steps of an open carry the relation between
  the unwind state and what the system holds; the rollback undoes what the unwind state records.
\<close>

subsection \<open>Triples\<close>

definition triple ::
  "(open_state \<Rightarrow> sys \<Rightarrow> bool) \<Rightarrow> ('x, 'a) step \<Rightarrow> ('a \<Rightarrow> open_state \<Rightarrow> sys \<Rightarrow> bool)
     \<Rightarrow> (open_state \<Rightarrow> sys \<Rightarrow> bool) \<Rightarrow> bool" where
  "triple P m Q E \<longleftrightarrow>
     (\<forall>st s. P st s \<longrightarrow> (case m st s of (Inl e, st', s') \<Rightarrow> E st' s' | (Inr v, st', s') \<Rightarrow> Q v st' s'))"

lemma tripleI:
  "(\<And>st s e st' s'. P st s \<Longrightarrow> m st s = (Inl e, st', s') \<Longrightarrow> E st' s') \<Longrightarrow>
   (\<And>st s v st' s'. P st s \<Longrightarrow> m st s = (Inr v, st', s') \<Longrightarrow> Q v st' s') \<Longrightarrow> triple P m Q E"
  unfolding triple_def by (auto split: prod.split sum.split)

lemma tripleD:
  assumes "triple P m Q E" and "P st s"
  shows "m st s = (Inl e, st', s') \<Longrightarrow> E st' s'" and "m st s = (Inr v, st', s') \<Longrightarrow> Q v st' s'"
  using assms unfolding triple_def by fastforce+

lemma triple_bind:
  assumes "triple P m Q E" and "\<And>v. triple (Q v) (f v) R E"
  shows "triple P (tbind m f) R E"
proof (rule tripleI)
  fix st s e st' s' assume "P st s" and run: "tbind m f st s = (Inl e, st', s')"
  obtain r st1 s1 where m: "m st s = (r, st1, s1)"
    by (cases "m st s")
  show "E st' s'"
  proof (cases r)
    case (Inl a)
    then show ?thesis
      using run m tripleD(1) [OF assms(1) \<open>P st s\<close>] by (simp add: tbind_def)
  next
    case (Inr v)
    then have "Q v st1 s1" and "f v st1 s1 = (Inl e, st', s')"
      using run m tripleD(2) [OF assms(1) \<open>P st s\<close>] by (simp_all add: tbind_def)
    then show ?thesis
      using tripleD(1) [OF assms(2)] by blast
  qed
next
  fix st s w st' s' assume "P st s" and run: "tbind m f st s = (Inr w, st', s')"
  obtain r st1 s1 where m: "m st s = (r, st1, s1)"
    by (cases "m st s")
  then obtain v where v: "r = Inr v"
    using run by (cases r) (auto simp: tbind_def)
  then have "Q v st1 s1" and "f v st1 s1 = (Inr w, st', s')"
    using run m tripleD(2) [OF assms(1) \<open>P st s\<close>] by (simp_all add: tbind_def)
  then show "R w st' s'"
    using tripleD(2) [OF assms(2)] by blast
qed

lemma triple_pure: "(\<And>st s. P st s \<Longrightarrow> E st s) \<Longrightarrow> triple P (tpure r) (\<lambda>v st s. P st s \<and> r = Inr v) E"
  by (rule tripleI) (auto simp: tpure_def)

lemma triple_lift:
  assumes "\<And>st s r s'. P st s \<Longrightarrow> f s = (r, s') \<Longrightarrow> P st s'" and "\<And>st s. P st s \<Longrightarrow> E st s"
  shows "triple P (tlift f) (\<lambda>_. P) E"
proof (rule tripleI)
  fix st s e st' s' assume "P st s" and "tlift f st s = (Inl e, st', s')"
  then show "E st' s'"
    using assms by (cases "f s") (auto simp: tlift_def)
next
  fix st s v st' s' assume "P st s" and "tlift f st s = (Inr v, st', s')"
  then show "P st' s'"
    using assms by (cases "f s") (auto simp: tlift_def)
qed

subsection \<open>What an open in progress holds\<close>

text \<open>
  \<open>s0\<close> is the system just after admission, \<open>k\<close> the target, \<open>h\<close> the handle, \<open>sid\<close> the session's
  id: everything that differs from \<open>s0\<close> is recorded in the unwind state.
\<close>

fun guard_part :: "stop_guard \<Rightarrow> target_key \<Rightarrow> guard_token option \<Rightarrow> stop_guard \<Rightarrow> bool" where
  "guard_part g0 k None g = (guard_ok g \<and> sg_holders g = sg_holders g0)"
| "guard_part g0 k (Some t) g = (guard_ok g \<and> sg_holders g0 k = None \<and> sg_holders g = (sg_holders g0)(k \<mapsto> t))"

fun lease_part :: "lease_manager \<Rightarrow> target_key \<Rightarrow> string option \<Rightarrow> lease_manager \<Rightarrow> bool" where
  "lease_part m0 k None m = (leases_ok m \<and> lease_holder_of m = lease_holder_of m0)"
| "lease_part m0 k (Some t) m =
     (leases_ok m \<and> lease_holder_of m0 k = None \<and> lease_holder_of m = (lease_holder_of m0)(k \<mapsto> t))"

type_synonym session_tables =
  "(string \<rightharpoonup> guard_token) \<times> (string \<rightharpoonup> href) \<times> (target_key \<rightharpoonup> transport_session disk_file)"

definition tables :: "sys \<Rightarrow> session_tables" where
  "tables s = (sy_tokens s, sy_handles s, map_of (owner_files (sy_registry s)))"

fun session_part :: "session_tables \<Rightarrow> target_key \<Rightarrow> string \<Rightarrow> string option \<Rightarrow> session_tables \<Rightarrow> bool" where
  "session_part (t0, h0, o0) k sid None (t, h, own) = (t = t0 \<and> h = h0 \<and> own = o0)"
| "session_part (t0, h0, o0) k sid (Some i) (t, h, own) =
     (i = sid \<and> (\<forall>j. j \<noteq> sid \<longrightarrow> t j = t0 j \<and> h j = h0 j)
      \<and> (\<exists>rec. session_id rec = sid \<and> own = o0(k \<mapsto> Parsed rec)))"

fun handle_part :: "admission \<Rightarrow> href \<Rightarrow> href option \<Rightarrow> admission \<Rightarrow> bool" where
  "handle_part a0 h None a = (a = a0)"
| "handle_part a0 h (Some h') a = (a = upd_handle h (\<lambda>x. x\<lparr>ah_state := PROMOTED\<rparr>) a0)"

definition unwindable :: "sys \<Rightarrow> target_key \<Rightarrow> href \<Rightarrow> string \<Rightarrow> open_state \<Rightarrow> sys \<Rightarrow> bool" where
  "unwindable s0 k h sid st s \<longleftrightarrow>
     guard_part (sy_guard s0) k (os_guard_token st) (sy_guard s)
     \<and> lease_part (sy_leases s0) k (os_lease_token st) (sy_leases s)
     \<and> session_part (tables s0) k sid (os_session_id st) (tables s)
     \<and> handle_part (sy_admission s0) h (os_admission_handle st) (sy_admission s)
     \<and> tomb_files (sy_registry s) = tomb_files (sy_registry s0)
     \<and> sy_reaped s = sy_reaped s0"

lemma unwindable_start:
  "guard_ok (sy_guard s0) \<Longrightarrow> leases_ok (sy_leases s0) \<Longrightarrow> unwindable s0 k h sid empty_open_state s0"
  by (simp add: unwindable_def empty_open_state_def tables_def)

text \<open>Steps that touch nothing of it.\<close>

lemma unwindable_cong:
  assumes "unwindable s0 k h sid st s" and "sy_guard s' = sy_guard s" and "sy_leases s' = sy_leases s"
    and "sy_registry s' = sy_registry s" and "sy_tokens s' = sy_tokens s" and "sy_handles s' = sy_handles s"
    and "sy_admission s' = sy_admission s" and "sy_reaped s' = sy_reaped s"
    and "os_guard_token st' = os_guard_token st" and "os_lease_token st' = os_lease_token st"
    and "os_session_id st' = os_session_id st" and "os_admission_handle st' = os_admission_handle st"
  shows "unwindable s0 k h sid st' s'"
  using assms by (simp add: unwindable_def tables_def)

text \<open>The phases of an open: what has been recorded so far.\<close>

definition phase :: "guard_token option \<Rightarrow> bool \<Rightarrow> string option \<Rightarrow> open_state \<Rightarrow> bool" where
  "phase g l i st \<longleftrightarrow> os_guard_token st = g \<and> (os_lease_token st = None \<or> l)
     \<and> os_session_id st = i \<and> os_admission_handle st = None"

abbreviation quiet :: "open_env \<Rightarrow> bool" where
  "quiet env \<equiv> \<forall>l s. oe_during env l s = s"

lemma triple_checkpoint:
  assumes "quiet env" and "\<And>st s. P st s \<Longrightarrow> E st s"
  shows "triple P (tlift (checkpoint env l)) (\<lambda>_. P) E"
  by (rule triple_lift [OF _ assms(2)]) (use assms(1) in \<open>auto simp: checkpoint_def Let_def split: if_splits\<close>)

lemma triple_acquire_guard:
  "triple (\<lambda>st s. unwindable s0 k h sid st s \<and> phase None False None st)
     (acquire_guard env k)
     (\<lambda>t st s. unwindable s0 k h sid st s \<and> phase (Some t) False None st)
     (unwindable s0 k h sid)"
proof (rule tripleI)
  fix st s e st' s'
  assume u: "unwindable s0 k h sid st s \<and> phase None False None st"
    and run: "acquire_guard env k st s = (Inl e, st', s')"
  then show "unwindable s0 k h sid st' s'"
    by (auto simp: acquire_guard_def guard_acquire_def Let_def split: if_splits elim!: unwindable_cong)
next
  fix st s t st' s'
  assume u: "unwindable s0 k h sid st s \<and> phase None False None st"
    and run: "acquire_guard env k st s = (Inr t, st', s')"
  obtain g where g: "guard_acquire k (oe_guard_secret env) (sy_guard s) = (Inr t, g)"
      "st' = st\<lparr>os_guard_token := Some t\<rparr>" "s' = s\<lparr>sy_guard := g\<rparr>"
    using run by (auto simp: acquire_guard_def split: prod.splits sum.splits)
  have ok: "guard_ok (sy_guard s)" and h0: "sg_holders (sy_guard s) = sg_holders (sy_guard s0)"
    using u by (auto simp: unwindable_def phase_def)
  have "sg_holders (sy_guard s) k = None" "sg_holders g = (sg_holders (sy_guard s))(k \<mapsto> t)" "guard_ok g"
    using guard.exclusive(1) [OF ok g(1)] guard.acquired [OF ok g(1)]
      guard.invar_acquire [OF ok, of k "oe_guard_secret env"] g(1) by simp_all
  then have "guard_part (sy_guard s0) k (Some t) g"
    by (simp add: h0)
  then show "unwindable s0 k h sid st' s' \<and> phase (Some t) False None st'"
    using u by (auto simp: unwindable_def phase_def g(2,3) tables_def)
qed

lemma mgr_acquire_cases:
  assumes "leases_ok m"
  shows "mgr_acquire k (u, own) m = (Inl e, m') \<Longrightarrow> lease_holder_of m' = lease_holder_of m \<and> leases_ok m'"
    and "mgr_acquire k (u, own) m = (Inr t, m') \<Longrightarrow>
           lease_holder_of m k = None \<and> lease_holder_of m' = (lease_holder_of m)(k \<mapsto> t) \<and> leases_ok m'"
  using mgr_ok(1) [OF assms, of k "(u, own)"] mgr_acquire_eq [OF assms, of k u own]
  by (auto simp: holder_upd split: if_splits)

lemma triple_acquire_lease:
  "triple (\<lambda>st s. unwindable s0 k h sid st s \<and> phase g False None st)
     (acquire_lease env cap k)
     (\<lambda>t st s. unwindable s0 k h sid st s \<and> phase g True None st)
     (unwindable s0 k h sid)"
proof (rule tripleI)
  fix st s e st' s'
  assume u: "unwindable s0 k h sid st s \<and> phase g False None st"
    and run: "acquire_lease env cap k st s = (Inl e, st', s')"
  then obtain e' m where m: "mgr_acquire k (oe_lease_uuid env, TRANSPORT) (sy_leases s) = (Inl e', m)"
      "st' = st" "s' = s\<lparr>sy_leases := m\<rparr>"
    by (auto simp: acquire_lease_def split: prod.splits sum.splits if_splits)
  have "leases_ok (sy_leases s)"
    using u by (cases "os_lease_token st") (simp_all add: unwindable_def)
  from mgr_acquire_cases(1) [OF this m(1)] have "lease_part (sy_leases s0) k (os_lease_token st) m"
    using u by (cases "os_lease_token st") (simp_all add: unwindable_def)
  then show "unwindable s0 k h sid st' s'"
    using u by (simp add: unwindable_def m(2,3) tables_def)
next
  fix st s t st' s'
  assume u: "unwindable s0 k h sid st s \<and> phase g False None st"
    and run: "acquire_lease env cap k st s = (Inr t, st', s')"
  show "unwindable s0 k h sid st' s' \<and> phase g True None st'"
  proof (cases "cp_provides_console cap")
    case False
    then show ?thesis
      using u run by (auto simp: acquire_lease_def phase_def)
  next
    case True
    with run obtain t' m where m: "mgr_acquire k (oe_lease_uuid env, TRANSPORT) (sy_leases s) = (Inr t', m)"
        "st' = st\<lparr>os_lease_token := Some t'\<rparr>" "s' = s\<lparr>sy_leases := m\<rparr>"
      by (auto simp: acquire_lease_def split: prod.splits sum.splits if_splits)
    have ok: "leases_ok (sy_leases s)" and h0: "lease_holder_of (sy_leases s) = lease_holder_of (sy_leases s0)"
      using u by (auto simp: unwindable_def phase_def)
    from mgr_acquire_cases(2) [OF ok m(1)] have "lease_part (sy_leases s0) k (Some t') m"
      by (simp add: h0)
    then show ?thesis
      using u by (auto simp: unwindable_def m(2,3) phase_def tables_def)
  qed
qed

definition our_record :: "target_key \<Rightarrow> string \<Rightarrow> transport_session \<Rightarrow> bool" where
  "our_record k sid rec \<longleftrightarrow> session_id rec = sid \<and> ts_target_key rec = k"

lemma triple_write_opening:
  assumes "oe_fs_ok env W_opening" and "req_target_key req = k" and "oe_session_id env = sid"
  shows "triple (\<lambda>st s. unwindable s0 k h sid st s \<and> phase (Some tok) True None st)
     (write_opening_record env req h' sel prov tok lt)
     (\<lambda>rec st s. (unwindable s0 k h sid st s \<and> phase (Some tok) True (Some sid) st \<and> sy_tokens s sid = Some tok) \<and> our_record k sid rec)
     (unwindable s0 k h sid)"
proof (rule tripleI)
  fix st s e st' s'
  assume "write_opening_record env req h' sel prov tok lt st s = (Inl e, st', s')"
  then show "unwindable s0 k h sid st' s'"
    using assms(1) by (simp add: write_opening_record_def fs_write_def Let_def)
next
  fix st s rec st' s'
  assume u: "unwindable s0 k h sid st s \<and> phase (Some tok) True None st"
    and run: "write_opening_record env req h' sel prov tok lt st s = (Inr rec, st', s')"
  have s': "st' = st\<lparr>os_session_id := Some sid\<rparr>" "our_record k sid rec"
      "s' = s\<lparr>sy_tokens := (sy_tokens s)(sid \<mapsto> tok), sy_registry := write_record rec (sy_registry s)\<rparr>"
    using run assms by (auto simp: write_opening_record_def fs_write_def Let_def our_record_def)
  have "session_part (tables s0) k sid (Some sid) (tables s')"
    using u s'(2) by (auto simp: unwindable_def tables_def phase_def s'(3) our_record_def write_record_def)
  then show "(unwindable s0 k h sid st' s' \<and> phase (Some tok) True (Some sid) st' \<and> sy_tokens s' sid = Some tok) \<and> our_record k sid rec"
    using u s'(2) by (auto simp: unwindable_def s'(1,3) phase_def write_record_def)
qed

text \<open>Writing our own record again.\<close>

lemma unwindable_write:
  assumes "unwindable s0 k h sid st s" and "os_session_id st = Some sid" and "our_record k sid rec"
  shows "unwindable s0 k h sid st (s\<lparr>sy_registry := write_record rec (sy_registry s)\<rparr>)"
proof -
  have "session_part (tables s0) k sid (Some sid) (tables (s\<lparr>sy_registry := write_record rec (sy_registry s)\<rparr>))"
    using assms by (auto simp: unwindable_def tables_def our_record_def write_record_def)
  then show ?thesis
    using assms(1,2) by (simp add: unwindable_def write_record_def)
qed

lemma our_record_backend [simp]: "our_record k sid (with_backend p t rec) = our_record k sid rec"
  by (simp add: our_record_def with_backend_def)

lemma our_record_ready [simp]: "our_record k sid (ready_session rec att p t) = our_record k sid rec"
  by (simp add: our_record_def ready_session_def)

text \<open>The attach keeps the relation: it writes our record and records the backend.\<close>

definition in_progress :: "sys \<Rightarrow> target_key \<Rightarrow> href \<Rightarrow> string \<Rightarrow> guard_token \<Rightarrow> open_state \<Rightarrow> sys \<Rightarrow> bool" where
  "in_progress s0 k h sid tok st s \<longleftrightarrow>
     unwindable s0 k h sid st s \<and> phase (Some tok) True (Some sid) st \<and> sy_tokens s sid = Some tok"

lemma in_progress_backend:
  "in_progress s0 k h sid tok st s \<Longrightarrow> in_progress s0 k h sid tok (st\<lparr>os_backend_pid := p, os_backend_start := t\<rparr>) s"
  by (auto simp: in_progress_def unwindable_def phase_def)

lemma in_progress_write:
  "in_progress s0 k h sid tok st s \<Longrightarrow> our_record k sid rec \<Longrightarrow>
     in_progress s0 k h sid tok st (s\<lparr>sy_registry := write_record rec (sy_registry s)\<rparr>)"
  by (simp add: in_progress_def unwindable_write phase_def)

lemma run_partials_keeps:
  assumes "in_progress s0 k h sid tok st s" and "our_record k sid rec"
    and "run_partials env rec n ps b st s = (r, st', s')"
  shows "in_progress s0 k h sid tok st' s'"
  using assms
proof (induction ps arbitrary: n b st s)
  case Nil
  then show ?case by simp
next
  case (Cons p ps)
  obtain label resource where p: "p = (label, resource)"
    by (cases p)
  consider (skip) "run_partials env rec (n + 1) ps b st s = (r, st', s')"
    | (fail) "st' = st \<and> s' = s"
    | (wrote) pid start where
        "run_partials env rec (n + 1) ps (Some pid, start) (st\<lparr>os_backend_pid := Some pid, os_backend_start := start\<rparr>)
           (s\<lparr>sy_registry := write_record (with_backend (Some pid) start rec) (sy_registry s)\<rparr>) = (r, st', s')"
    using Cons.prems(3) by (auto simp: p fs_write_def split: if_splits option.splits)
  then show ?case
  proof cases
    case skip
    then show ?thesis using Cons by blast
  next
    case fail
    then show ?thesis using Cons.prems by simp
  next
    case wrote
    have "our_record k sid (with_backend (Some pid) start rec)"
      using Cons.prems(2) by simp
    note in_progress_backend [OF in_progress_write [OF Cons.prems(1) this], where p = "Some pid" and t = start]
    then show ?thesis
      by (rule Cons.IH [OF _ Cons.prems(2) wrote])
  qed
qed

lemma triple_attach:
  fixes tp :: "'x transport"
  assumes "quiet env" and "our_record k sid rec"
  shows "triple (in_progress s0 k h sid tok) (attach_open_backend env tp req rec secrets)
     (\<lambda>_. in_progress s0 k h sid tok) (unwindable s0 k h sid)"
proof (rule tripleI)
  fix st s e st' s'
  assume u: "in_progress s0 k h sid tok st s" and run: "attach_open_backend env tp req rec secrets st s = (Inl e, st', s')"
  obtain r :: "('x open_error, int option \<times> string option) result" and st1 s1
    where r: "run_partials env rec 0 (tp_partials tp req) (None, None) st s = (r, st1, s1)"
    by (rule prod_cases3)
  have "st' = st1 \<and> s' = s1"
    using run assms(1)
    by (cases r) (auto simp: attach_open_backend_def Let_def r split: sum.splits prod.splits option.splits)
  then show "unwindable s0 k h sid st' s'"
    using run_partials_keeps [OF u assms(2) r] by (simp add: in_progress_def)
next
  fix st s v st' s'
  assume u: "in_progress s0 k h sid tok st s" and run: "attach_open_backend env tp req rec secrets st s = (Inr v, st', s')"
  obtain r :: "('x open_error, int option \<times> string option) result" and st1 s1
    where r: "run_partials env rec 0 (tp_partials tp req) (None, None) st s = (r, st1, s1)"
    by (rule prod_cases3)
  have "s' = s1 \<and> (st' = st1 \<or> (\<exists>p t. st' = st1\<lparr>os_backend_pid := p, os_backend_start := t\<rparr>))"
    using run assms(1)
    by (cases r) (auto simp: attach_open_backend_def Let_def r split: sum.splits prod.splits option.splits)
  then show "in_progress s0 k h sid tok st' s'"
    using run_partials_keeps [OF u assms(2) r] in_progress_backend by auto
qed

text \<open>A commit that raises: the promotion was refused, or the durable clearance failed.\<close>

text \<open>What a successful open leaves: the session owns the target.\<close>

definition opened :: "target_key \<Rightarrow> href \<Rightarrow> transport_session \<Rightarrow> sys \<Rightarrow> bool" where
  "opened k h ses s \<longleftrightarrow>
     (\<exists>tok. sg_holders (sy_guard s) k = Some tok \<and> sy_tokens s (session_id ses) = Some tok)
     \<and> read_record k (sy_registry s) = Inr (Some ses) \<and> ts_target_key ses = k
     \<and> sy_handles s (session_id ses) = Some h
     \<and> h \<in> set (bindings (sy_admission s) k) \<and> ah_state (handle_of (sy_admission s) h) = PROMOTED"

definition recorded :: "sys \<Rightarrow> target_key \<Rightarrow> href \<Rightarrow> string \<Rightarrow> guard_token \<Rightarrow> transport_session \<Rightarrow> open_state \<Rightarrow> sys \<Rightarrow> bool" where
  "recorded s0 k h sid tok ses st s \<longleftrightarrow>
     in_progress s0 k h sid tok st s \<and> read_record k (sy_registry s) = Inr (Some ses)"

lemma subscribe_session_frame [simp]:
  "sy_guard (subscribe_session ses st s) = sy_guard s" "sy_tokens (subscribe_session ses st s) = sy_tokens s"
  "sy_handles (subscribe_session ses st s) = sy_handles s" "sy_registry (subscribe_session ses st s) = sy_registry s"
  "sy_admission (subscribe_session ses st s) = sy_admission s"
  by (simp_all add: subscribe_session_def split: option.split)

lemma read_record_cong: "owner_files r' = owner_files r \<Longrightarrow> read_record k r' = read_record k r"
  by (simp add: read_record_def)

lemma clear_durable_frame:
  "clear_recovery_durable ok k g s = (x, s') \<Longrightarrow>
     sy_guard s' = sy_guard s \<and> sy_tokens s' = sy_tokens s \<and> sy_handles s' = sy_handles s
     \<and> sy_admission s' = sy_admission s \<and> owner_files (sy_registry s') = owner_files (sy_registry s)"
  by (auto simp: clear_recovery_durable_def clear_tombstone_def Let_def split: if_splits option.splits)

lemma clear_recovery_frame [simp]:
  "bindings (clear_recovery_required k g a) = bindings a" "handles (clear_recovery_required k g a) = handles a"
  by (simp_all add: clear_recovery_required_def)

lemma triple_commit:
  assumes our: "our_record k sid ses" and "h < length (handles (sy_admission s0))"
    and "h \<in> set (bindings (sy_admission s0) k)"
  shows "triple (recorded s0 k h sid tok ses) (commit_open_session env req h ses recovery)
     (\<lambda>_ st s. opened k h ses s) (unwindable s0 k h sid)"
proof (rule tripleI)
  fix st s e st' s'
  assume u0: "recorded s0 k h sid tok ses st s" and run: "commit_open_session env req h ses recovery st s = (Inl e, st', s')"
  have u: "in_progress s0 k h sid tok st s"
    using u0 by (simp add: recorded_def)
  have a: "sy_admission s = sy_admission s0"
    using u by (auto simp: in_progress_def unwindable_def phase_def)
  show "unwindable s0 k h sid st' s'"
  proof (cases "promote h (sy_admission s)")
    case (Inl x)
    then show ?thesis
      using u run by (simp add: commit_open_session_def on_admission_def in_progress_def)
  next
    case (Inr a')
    let ?s2 = "s\<lparr>sy_admission := a', sy_handles := (sy_handles s)(sid \<mapsto> h)\<rparr>"
    let ?st2 = "st\<lparr>os_admission_handle := Some h\<rparr>"
    have a': "a' = upd_handle h (\<lambda>x. x\<lparr>ah_state := PROMOTED\<rparr>) (sy_admission s0)"
      using Inr a by (auto simp: promote_def Let_def split: if_splits)
    have u2: "unwindable s0 k h sid ?st2 ?s2"
      using u a' by (auto simp: in_progress_def unwindable_def phase_def tables_def)
    have "unwindable s0 k h sid ?st2 (subscribe_session ses ?st2 ?s2)"
      by (rule unwindable_cong [OF u2]) (simp_all add: subscribe_session_def split: option.split)
    moreover have "st' = ?st2" "s' = subscribe_session ses ?st2 ?s2"
      using run Inr our
      by (auto simp: commit_open_session_def on_admission_def Let_def clear_recovery_durable_def our_record_def
          split: if_splits sum.splits prod.splits)
    ultimately show ?thesis
      by simp
  qed
next
  fix st s v st' s'
  assume u0: "recorded s0 k h sid tok ses st s" and run: "commit_open_session env req h ses recovery st s = (Inr v, st', s')"
  have u: "in_progress s0 k h sid tok st s"
    using u0 by (simp add: recorded_def)
  have a: "sy_admission s = sy_admission s0" and g: "sg_holders (sy_guard s) k = Some tok"
    using u by (auto simp: in_progress_def unwindable_def phase_def)
  obtain a' where pr: "promote h (sy_admission s0) = Inr a'"
    using run by (auto simp: commit_open_session_def on_admission_def a split: sum.splits)
  then have a': "a' = upd_handle h (\<lambda>x. x\<lparr>ah_state := PROMOTED\<rparr>) (sy_admission s0)"
    by (auto simp: promote_def Let_def split: if_splits)
  let ?s2 = "s\<lparr>sy_admission := a', sy_handles := (sy_handles s)(sid \<mapsto> h)\<rparr>"
  let ?s3 = "subscribe_session ses (st\<lparr>os_admission_handle := Some h\<rparr>) ?s2"
  have "sy_guard s' = sy_guard s \<and> sy_tokens s' = sy_tokens s \<and> sy_handles s' = (sy_handles s)(sid \<mapsto> h)
      \<and> owner_files (sy_registry s') = owner_files (sy_registry s)
      \<and> bindings (sy_admission s') = bindings a' \<and> handles (sy_admission s') = handles a'"
  proof (cases recovery)
    case False
    then show ?thesis
      using run our by (auto simp: commit_open_session_def on_admission_def a pr our_record_def Let_def)
  next
    case True
    then obtain x s4 where "clear_recovery_durable (oe_fs_ok env) (req_target_key req) (req_generation req) ?s3
          = (x :: ('b open_error, unit) result, s4)"
        "s' = clear_recovery_cache (req_target_key req) (req_generation req) s4"
      using run our by (auto simp: commit_open_session_def on_admission_def a pr our_record_def Let_def split: sum.splits prod.splits)
    with clear_durable_frame [OF this(1)] show ?thesis
      by (simp add: clear_recovery_cache_def)
  qed
  then show "opened k h ses s'"
    using u0 u g our assms(2,3) read_record_cong [of "sy_registry s'" "sy_registry s" k]
    by (simp add: opened_def recorded_def in_progress_def our_record_def a' upd_handle_nth)
qed

subsection \<open>The body\<close>

lemma triple_weaken:
  "triple P m Q E \<Longrightarrow> (\<And>st s. P' st s \<Longrightarrow> P st s) \<Longrightarrow> (\<And>v st s. Q v st s \<Longrightarrow> Q' v st s) \<Longrightarrow> triple P' m Q' E"
  unfolding triple_def by (fastforce split: prod.splits sum.splits)

lemma triple_case:
  "(\<And>a p t. triple P (f a p t) Q E) \<Longrightarrow> triple P (case v of (a, p, t) \<Rightarrow> f a p t) Q E"
  by (cases v) simp

lemma triple_fact:
  "(F \<Longrightarrow> triple P m Q E) \<Longrightarrow> triple (\<lambda>st s. P st s \<and> F) m Q E"
  by (auto simp: triple_def)

lemma triple_handle_channel:
  "(\<And>st s. P st s \<Longrightarrow> E st s) \<Longrightarrow> triple P (tlift (handle_channel h)) (\<lambda>_. P) E"
  by (rule triple_lift) (auto simp: handle_channel_def split: option.splits)

lemma triple_select_channel:
  "(\<And>st s. P st s \<Longrightarrow> E st s) \<Longrightarrow> triple P (tlift (select_channel env req h ch)) (\<lambda>_. P) E"
  by (rule triple_lift) (auto simp: select_channel_def split: sum.splits)

lemma triple_resolve:
  "triple (\<lambda>st s. unwindable s0 k h sid st s \<and> F st) (tlift (resolve_secrets env refs))
     (\<lambda>_ st s. unwindable s0 k h sid st s \<and> F st) (unwindable s0 k h sid)"
  by (rule triple_lift)
    (auto simp: resolve_secrets_def split: sum.splits prod.splits elim!: unwindable_cong)

lemma triple_write_ready:
  assumes "our_record k sid ses"
  shows "triple (in_progress s0 k h sid tok) (tlift (fs_write (oe_fs_ok env) W_ready ses))
     (\<lambda>_. recorded s0 k h sid tok ses) (unwindable s0 k h sid)"
proof (rule tripleI)
  fix st s e st' s'
  assume "in_progress s0 k h sid tok st s" and "tlift (fs_write (oe_fs_ok env) W_ready ses) st s = (Inl e, st', s')"
  then show "unwindable s0 k h sid st' s'"
    by (auto simp: tlift_def fs_write_def in_progress_def split: if_splits)
next
  fix st s v st' s'
  assume u: "in_progress s0 k h sid tok st s" and "tlift (fs_write (oe_fs_ok env) W_ready ses) st s = (Inr v, st', s')"
  then have "st' = st" "s' = s\<lparr>sy_registry := write_record ses (sy_registry s)\<rparr>"
    by (auto simp: tlift_def fs_write_def split: if_splits)
  then show "recorded s0 k h sid tok ses st' s'"
    using in_progress_write [OF u assms] assms read_write [of ses "sy_registry s"]
    by (simp add: recorded_def our_record_def)
qed

text \<open>An opened session is READY and its endpoints are loopback or local.\<close>

definition ready_opened :: "open_env \<Rightarrow> target_key \<Rightarrow> href \<Rightarrow> transport_session \<Rightarrow> sys \<Rightarrow> bool" where
  "ready_opened env k h ses s \<longleftrightarrow>
     opened k h ses s \<and> record_state ses = RS_READY
     \<and> assert_endpoints (oe_mapped_aware env) [console_endpoint ses, rsp_endpoint ses] = (Inr () :: (unit open_error, unit) result)"

lemma assert_endpoints_Inr:
  "assert_endpoints m es = (Inr () :: ('x open_error, unit) result) \<longleftrightarrow>
     (\<forall>e. Some e \<in> set es \<longrightarrow> assert_loopback_endpoint m e = Inr ())"
proof (induction es)
  case (Cons x es)
  then show ?case
    by (cases x) (auto split: sum.splits)
qed simp

lemma open_body_unwindable:
  assumes q: "quiet env" and w: "oe_fs_ok env W_opening" and sid: "oe_session_id env = sid"
    and k: "req_target_key req = k" and h: "h < length (handles (sy_admission s0))"
    and hb: "h \<in> set (bindings (sy_admission s0) k)"
  shows "triple (\<lambda>st s. unwindable s0 k h sid st s \<and> phase None False None st)
     (open_body env tp req recovery h) (\<lambda>ses _. ready_opened env k h ses) (unwindable s0 k h sid)"
proof -
  have tail: "triple (in_progress s0 k h sid tok)
     (tbind (tlift (checkpoint env L_record_written)) (\<lambda>_.
      tbind (attach_open_backend env tp req rec secrets) (\<lambda>(att, pid, start).
      tbind (tpure (assert_endpoints (oe_mapped_aware env) [ba_console_endpoint att, ba_rsp_endpoint att])) (\<lambda>_.
      tbind (tlift (fs_write (oe_fs_ok env) W_ready (ready_session rec att pid start))) (\<lambda>_.
      tbind (tlift (checkpoint env L_ready)) (\<lambda>_.
      tbind (commit_open_session env req h (ready_session rec att pid start) recovery) (\<lambda>_.
      tpure (Inr (ready_session rec att pid start)))))))))
     (\<lambda>ses _. ready_opened env k h ses) (unwindable s0 k h sid)" if r: "our_record k sid rec" for rec secrets tok
  proof -
    have rs: "our_record k sid (ready_session rec att pid start)" for att pid start
      using r by simp
    note commit = triple_commit [OF this h hb]
    have E: "\<And>st s. in_progress s0 k h sid tok st s \<Longrightarrow> unwindable s0 k h sid st s"
      by (simp add: in_progress_def)
    have E': "\<And>ses st s. recorded s0 k h sid tok ses st s \<Longrightarrow> unwindable s0 k h sid st s"
      by (simp add: recorded_def in_progress_def)
    show ?thesis
      by (rule triple_bind [OF triple_checkpoint [OF q E]], assumption,
          rule triple_bind [OF triple_attach [OF q r]], rule triple_case,
          rule triple_bind [OF triple_pure [OF E]], assumption, rule triple_fact,
          rule triple_bind [OF triple_write_ready [OF rs]],
          rule triple_bind [OF triple_checkpoint [OF q E']], assumption,
          rule triple_bind [OF commit], simp add: triple_def tpure_def ready_opened_def ready_session_def assert_endpoints_Inr)
  qed
  have wr: "triple (\<lambda>st s. unwindable s0 k h sid st s \<and> phase (Some tok) True None st)
      (write_opening_record env req h sel prov tok lt)
      (\<lambda>rec st s. in_progress s0 k h sid tok st s \<and> our_record k sid rec) (unwindable s0 k h sid)" for sel prov tok lt
    unfolding in_progress_def by (rule triple_write_opening [OF w k sid])
  show ?thesis
    unfolding open_body_def k
    by (rule triple_bind [OF triple_handle_channel], erule conjunct1,
        rule triple_bind [OF triple_select_channel], erule conjunct1,
        rule triple_bind [OF triple_checkpoint [OF q]], erule conjunct1,
        rule triple_bind [OF triple_acquire_guard],
        rule triple_bind [OF triple_checkpoint [OF q]], erule conjunct1,
        rule triple_bind [OF triple_acquire_lease],
        rule triple_bind [OF triple_checkpoint [OF q]], erule conjunct1,
        rule triple_bind [OF triple_resolve],
        rule triple_bind [OF wr],
        rule triple_fact, rule tail)
qed

subsection \<open>The rollback\<close>

lemma release_guard_part:
  assumes "guard_part g0 k tok g"
  shows "sg_holders (case tok of None \<Rightarrow> g | Some t \<Rightarrow> snd (guard_release k t g)) = sg_holders g0"
  using assms by (cases tok) (auto simp: guard_release_eq fun_upd_idem)

lemma release_lease_part:
  assumes "lease_part m0 k tok m"
  shows "lease_holder_of (case tok of None \<Rightarrow> m | Some t \<Rightarrow> snd (mgr_release k t m)) = lease_holder_of m0"
  using assms by (cases tok) (auto simp: mgr_release_eq holder_upd fun_upd_idem)

lemma fs_delete_own:
  assumes "map_of (owner_files (sy_registry s)) k = Some (Parsed rec)" and "session_id rec = sid" and "ok op"
  shows "\<exists>r. snd (fs_delete ok op k sid s :: ('x open_error, unit) result \<times> sys) = s\<lparr>sy_registry := r\<rparr>
     \<and> map_of (owner_files r) = (map_of (owner_files (sy_registry s)))(k := None)
     \<and> tomb_files r = tomb_files (sy_registry s)"
proof -
  have "delete_record k (Some sid) (sy_registry s) = Inr (unlink_record k (sy_registry s))"
    using delete_own [of k "sy_registry s" rec] assms(1,2) by (simp add: read_record_def)
  moreover have "s = s\<lparr>sy_registry := unlink_record k (sy_registry s)\<rparr>" if "unlink_record k (sy_registry s) = sy_registry s"
    using that by simp
  ultimately show ?thesis
    using assms(3) by (intro exI [of _ "unlink_record k (sy_registry s)"]) (auto simp: fs_delete_def unlink_record_def)
qed

text \<open>The record, token and handle entries of the session.\<close>

definition drop_session :: "open_env \<Rightarrow> target_key \<Rightarrow> string option \<Rightarrow> sys \<Rightarrow> sys" where
  "drop_session env k i s =
     (case i of
        None \<Rightarrow> s
      | Some sid \<Rightarrow>
          (let t1 = s\<lparr>sy_tokens := (sy_tokens s)(sid := None), sy_handles := (sy_handles s)(sid := None)\<rparr>;
               t2 = snd (fs_delete (oe_fs_ok env) D_rollback k sid t1 :: (unit open_error, unit) result \<times> sys)
           in unsubscribe_session k sid t2))"

lemma drop_session_tables:
  assumes "session_part (tables s0) k sid i (tables s)" and "oe_fs_ok env D_rollback"
    and "sy_tokens s0 sid = None" and "sy_handles s0 sid = None"
  defines "s' \<equiv> drop_session env k i s"
  shows "sy_tokens s' = sy_tokens s0" and "sy_handles s' = sy_handles s0"
    and "map_of (owner_files (sy_registry s')) = (if i = None then map_of (owner_files (sy_registry s0))
           else (map_of (owner_files (sy_registry s0)))(k := None))"
    and "tomb_files (sy_registry s') = tomb_files (sy_registry s)" and "sy_guard s' = sy_guard s"
    and "sy_leases s' = sy_leases s" and "sy_admission s' = sy_admission s" and "sy_reaped s' = sy_reaped s"
proof -
  have "sy_tokens s' = sy_tokens s0 \<and> sy_handles s' = sy_handles s0 \<and>
      map_of (owner_files (sy_registry s')) = (if i = None then map_of (owner_files (sy_registry s0))
           else (map_of (owner_files (sy_registry s0)))(k := None)) \<and>
      tomb_files (sy_registry s') = tomb_files (sy_registry s) \<and> sy_guard s' = sy_guard s \<and>
      sy_leases s' = sy_leases s \<and> sy_admission s' = sy_admission s \<and> sy_reaped s' = sy_reaped s"
  proof (cases i)
    case None
    then show ?thesis
      using assms(1) by (simp add: s'_def drop_session_def tables_def)
  next
    case (Some j)
    let ?t1 = "s\<lparr>sy_tokens := (sy_tokens s)(sid := None), sy_handles := (sy_handles s)(sid := None)\<rparr>"
    obtain rec where j: "j = sid" and others: "\<forall>j. j \<noteq> sid \<longrightarrow> sy_tokens s j = sy_tokens s0 j \<and> sy_handles s j = sy_handles s0 j"
      and rec: "session_id rec = sid" "map_of (owner_files (sy_registry s)) = (map_of (owner_files (sy_registry s0)))(k \<mapsto> Parsed rec)"
      using assms(1) Some by (auto simp: tables_def)
    have "map_of (owner_files (sy_registry ?t1)) k = Some (Parsed rec)"
      using rec(2) by simp
    from fs_delete_own [where 'x = unit and ok = "oe_fs_ok env" and op = D_rollback, OF this rec(1) assms(2)]
    obtain r where r: "snd (fs_delete (oe_fs_ok env) D_rollback k sid ?t1 :: (unit open_error, unit) result \<times> sys) = ?t1\<lparr>sy_registry := r\<rparr>"
        "map_of (owner_files r) = (map_of (owner_files (sy_registry s)))(k := None)" "tomb_files r = tomb_files (sy_registry s)"
      by auto
    have "s' = unsubscribe_session k sid (?t1\<lparr>sy_registry := r\<rparr>)"
      unfolding s'_def drop_session_def Some j option.case Let_def r(1) ..
    moreover have "(sy_tokens s)(sid := None) = sy_tokens s0" "(sy_handles s)(sid := None) = sy_handles s0"
      using others assms(3,4) by (auto simp: fun_eq_iff)
    ultimately show ?thesis
      using Some r(2,3) rec(2) by (simp add: unsubscribe_session_def)
  qed
  then show "sy_tokens s' = sy_tokens s0" "sy_handles s' = sy_handles s0"
    "map_of (owner_files (sy_registry s')) = (if i = None then map_of (owner_files (sy_registry s0))
           else (map_of (owner_files (sy_registry s0)))(k := None))"
    "tomb_files (sy_registry s') = tomb_files (sy_registry s)" "sy_guard s' = sy_guard s"
    "sy_leases s' = sy_leases s" "sy_admission s' = sy_admission s" "sy_reaped s' = sy_reaped s"
    by blast+
qed

lemma rollback_open_eq:
  "rollback_open env k st h s =
     (let s2 = drop_session env k (os_session_id st) (best_effort_reap st s);
          s4 = s2\<lparr>sy_leases := (case os_lease_token st of None \<Rightarrow> sy_leases s2 | Some t \<Rightarrow> snd (mgr_release k t (sy_leases s2))),
                  sy_guard := (case os_guard_token st of None \<Rightarrow> sy_guard s2 | Some t \<Rightarrow> snd (guard_release k t (sy_guard s2)))\<rparr>
      in snd (on_admission (rollback h) s4))"
  by (simp add: rollback_open_def drop_session_def release_lease_def release_guard_def Let_def split: option.split)

lemma best_effort_reap_frame [simp]:
  "sy_admission (best_effort_reap st s) = sy_admission s" "sy_registry (best_effort_reap st s) = sy_registry s"
  "sy_guard (best_effort_reap st s) = sy_guard s" "sy_leases (best_effort_reap st s) = sy_leases s"
  "sy_tokens (best_effort_reap st s) = sy_tokens s" "sy_handles (best_effort_reap st s) = sy_handles s"
  "tables (best_effort_reap st s) = tables s"
  "sy_reaped (best_effort_reap st s) = sy_reaped s @
     (case os_backend_pid st of None \<Rightarrow> [] | Some pid \<Rightarrow> [(pid, os_backend_start st)])"
  by (auto simp: best_effort_reap_def tables_def split: option.split)

text \<open>The handle leaves the table: no closure can have come between.\<close>

lemma rollback_handle:
  assumes "handle_part a0 h x a" and "adm_ok a0" and "h \<in> set (bindings a0 k)" and "closed_at a0 k = None"
  shows "\<exists>a'. rollback h a = Inr a' \<and> bindings a' = (bindings a0)(k := remove1 h (bindings a0 k))
     \<and> closed_at a' = closed_at a0 \<and> store a' = store a0 \<and> recovery_required a' = recovery_required a0"
proof -
  have h: "h < length (handles a0)" "ah_state (handle_of a0 h) \<in> live_states" "ah_target_key (handle_of a0 h) = k"
    using assms(3) table_mem [OF adm_ok_table [OF assms(2)], of h k] by simp_all
  have b: "bindings a = bindings a0" "closed_at a = closed_at a0" "store a = store a0"
      "recovery_required a = recovery_required a0" "ah_target_key (handle_of a h) = k" "ah_state (handle_of a h) \<in> live_states"
    using assms(1) h by (cases x; auto simp: upd_handle_nth)+
  then show ?thesis
    using assms(3,4) by (auto simp: rollback_def dispose_def Let_def)
qed

lemma rollback_restores:
  assumes u: "unwindable s0 k h sid st s" and "oe_fs_ok env D_rollback"
    and "sy_tokens s0 sid = None" and "sy_handles s0 sid = None"
    and a0: "adm_ok (sy_admission s0)" "h \<in> set (bindings (sy_admission s0) k)" "closed_at (sy_admission s0) k = None"
  defines "s' \<equiv> rollback_open env k st h s"
  shows "sg_holders (sy_guard s') = sg_holders (sy_guard s0)"
    and "lease_holder_of (sy_leases s') = lease_holder_of (sy_leases s0)"
    and "sy_tokens s' = sy_tokens s0" and "sy_handles s' = sy_handles s0"
    and "map_of (owner_files (sy_registry s')) = (if os_session_id st = None then map_of (owner_files (sy_registry s0))
           else (map_of (owner_files (sy_registry s0)))(k := None))"
    and "tomb_files (sy_registry s') = tomb_files (sy_registry s0)"
    and "bindings (sy_admission s') = (bindings (sy_admission s0))(k := remove1 h (bindings (sy_admission s0) k))"
    and "closed_at (sy_admission s') = closed_at (sy_admission s0)"
    and "sy_reaped s' = sy_reaped s0 @ (case os_backend_pid st of None \<Rightarrow> [] | Some pid \<Rightarrow> [(pid, os_backend_start st)])"
proof -
  let ?s2 = "drop_session env k (os_session_id st) (best_effort_reap st s)"
  have sp: "session_part (tables s0) k sid (os_session_id st) (tables (best_effort_reap st s))"
    using u by (simp add: unwindable_def)
  note d = drop_session_tables [OF sp assms(2-4)]
  have hp: "handle_part (sy_admission s0) h (os_admission_handle st) (sy_admission s)"
    using u by (simp add: unwindable_def)
  obtain a' where a': "rollback h (sy_admission s) = Inr a'"
      "bindings a' = (bindings (sy_admission s0))(k := remove1 h (bindings (sy_admission s0) k))"
      "closed_at a' = closed_at (sy_admission s0)"
    using rollback_handle [OF hp a0] by blast
  have s': "s' = ?s2\<lparr>sy_leases := (case os_lease_token st of None \<Rightarrow> sy_leases ?s2 | Some t \<Rightarrow> snd (mgr_release k t (sy_leases ?s2))),
                  sy_guard := (case os_guard_token st of None \<Rightarrow> sy_guard ?s2 | Some t \<Rightarrow> snd (guard_release k t (sy_guard ?s2))),
                  sy_admission := a'\<rparr>"
    by (simp add: s'_def rollback_open_eq Let_def on_admission_def d(7) a'(1))
  have g: "guard_part (sy_guard s0) k (os_guard_token st) (sy_guard ?s2)"
    and l: "lease_part (sy_leases s0) k (os_lease_token st) (sy_leases ?s2)"
    using u d(5,6) by (simp_all add: unwindable_def)
  show "sg_holders (sy_guard s') = sg_holders (sy_guard s0)"
    using release_guard_part [OF g] by (simp add: s')
  show "lease_holder_of (sy_leases s') = lease_holder_of (sy_leases s0)"
    using release_lease_part [OF l] by (simp add: s')
  show "sy_tokens s' = sy_tokens s0" "sy_handles s' = sy_handles s0"
    "map_of (owner_files (sy_registry s')) = (if os_session_id st = None then map_of (owner_files (sy_registry s0))
           else (map_of (owner_files (sy_registry s0)))(k := None))"
    using d(1-3) by (simp_all add: s')
  show "tomb_files (sy_registry s') = tomb_files (sy_registry s0)"
    using d(4) u by (simp add: s' unwindable_def)
  show "bindings (sy_admission s') = (bindings (sy_admission s0))(k := remove1 h (bindings (sy_admission s0) k))"
    "closed_at (sy_admission s') = closed_at (sy_admission s0)"
    using a'(2,3) by (simp_all add: s')
  show "sy_reaped s' = sy_reaped s0 @ (case os_backend_pid st of None \<Rightarrow> [] | Some pid \<Rightarrow> [(pid, os_backend_start st)])"
    using d(8) u by (simp add: s' unwindable_def)
qed

subsection \<open>A failing open leaks nothing\<close>

lemma open_failure_restores:
  assumes "open_session transports env req recovery s = (Inl e, s')"
    and q: "quiet env" and "oe_fs_ok env W_opening" and "oe_fs_ok env D_rollback"
    and ok: "guard_ok (sy_guard s)" "leases_ok (sy_leases s)" "adm_ok (sy_admission s)"
    and fresh: "sy_tokens s (oe_session_id env) = None" "sy_handles s (oe_session_id env) = None"
  defines "k \<equiv> req_target_key req"
  shows "sg_holders (sy_guard s') = sg_holders (sy_guard s) \<and> lease_holder_of (sy_leases s') = lease_holder_of (sy_leases s)
     \<and> sy_tokens s' = sy_tokens s \<and> sy_handles s' = sy_handles s
     \<and> bindings (sy_admission s') = bindings (sy_admission s) \<and> closed_at (sy_admission s') = closed_at (sy_admission s)
     \<and> tomb_files (sy_registry s') = tomb_files (sy_registry s)
     \<and> map_of (owner_files (sy_registry s')) \<in>
         {map_of (owner_files (sy_registry s)), (map_of (owner_files (sy_registry s)))(k := None)}"
proof (cases "s' = s")
  case True
  then show ?thesis by simp
next
  case False
  then obtain tp h a where tp: "transports (tr_provider (req_transport_ref req)) = Some tp"
    and adm: "(if recovery then admit_recovery else admit) (oe_handle_uuid env) k req (oe_now env) (sy_admission s) = Inr (h, a)"
    using assms(1) by (auto simp: open_session_def k_def split: option.splits sum.splits)
  let ?s0 = "s\<lparr>sy_admission := a\<rparr>"
  obtain st s1 where body: "open_body env tp req recovery h empty_open_state ?s0 = (Inl e, st, s1)"
    and s': "s' = rollback_open env k st h s1"
    using assms(1) False tp adm by (auto simp: open_session_def k_def split: option.splits sum.splits prod.splits)
  obtain snap op ch rc where reg: "register (oe_handle_uuid env) k op ch snap rc (sy_admission s) = (h, a)"
    and open_k: "closed_at (sy_admission s) k = None" "store (sy_admission s) k = Some snap" "ch = None \<longleftrightarrow> op = SSH_TIER"
    using adm admissions_register(1) [of "oe_handle_uuid env" k req "oe_now env" "sy_admission s" h a]
      admissions_register(2) [of "oe_handle_uuid env" k req "oe_now env" "sy_admission s" h a]
    by (cases recovery) auto
  note f = register_fields [OF reg]
  have a_ok: "adm_ok a"
    by (rule adm_ok_register [OF ok(3) reg open_k])
  have h: "h < length (handles a)" "h \<in> set (bindings a k)" "closed_at a k = None"
    using f(1,2,3,5) open_k(1) by auto
  have "unwindable ?s0 k h (oe_session_id env) st s1"
    using tripleD(1) [OF open_body_unwindable [OF q assms(3) refl meta_eq_to_obj_eq [OF k_def, symmetric], of h ?s0 tp recovery] _ body]
      h
      unwindable_start [of ?s0 k h "oe_session_id env"] ok h(1)
    by (simp add: phase_def empty_open_state_def)
  note r = rollback_restores [OF this assms(4)]
  have "h \<notin> set (bindings (sy_admission s) k)"
    using f(1) bindings_range [OF ok(3), of h k] by auto
  then have "remove1 h (bindings a k) = bindings (sy_admission s) k"
    by (simp add: f(2) remove1_append)
  then have "bindings (sy_admission s') = bindings (sy_admission s)"
    using r(7) fresh a_ok h f(2) by (simp add: s' fun_upd_idem)
  then show ?thesis
    using r(1-6,8) fresh a_ok h f(5) by (simp add: s')
qed

subsection \<open>A successful open\<close>

lemma open_session_cases:
  assumes "open_session transports env req recovery s = (r, s')"
  obtains (early) e where "r = Inl e" "s' = s"
  | (failed) tp h a st s1 e where "transports (tr_provider (req_transport_ref req)) = Some tp"
      "(if recovery then admit_recovery else admit) (oe_handle_uuid env) (req_target_key req) req (oe_now env) (sy_admission s) = Inr (h, a)"
      "open_body env tp req recovery h empty_open_state (s\<lparr>sy_admission := a\<rparr>) = (Inl e, st, s1)"
      "r = Inl e" "s' = rollback_open env (req_target_key req) st h s1"
  | (opened_ok) tp h a st ses where "transports (tr_provider (req_transport_ref req)) = Some tp"
      "(if recovery then admit_recovery else admit) (oe_handle_uuid env) (req_target_key req) req (oe_now env) (sy_admission s) = Inr (h, a)"
      "open_body env tp req recovery h empty_open_state (s\<lparr>sy_admission := a\<rparr>) = (Inr ses, st, s')"
      "r = Inr ses"
  using assms by (auto simp: open_session_def split: option.splits sum.splits prod.splits)

lemma admitted_handle:
  assumes "adm_ok a0" and "(if recovery then admit_recovery else admit) u k req now a0 = Inr (h, a)"
  shows "adm_ok a" and "h < length (handles a)" and "h \<in> set (bindings a k)"
proof -
  obtain snap op ch rc where reg: "register u k op ch snap rc a0 = (h, a)"
    and open_k: "closed_at a0 k = None" "store a0 k = Some snap" "ch = None \<longleftrightarrow> op = SSH_TIER"
    using assms(2) admissions_register(1) [of u k req now a0 h a] admissions_register(2) [of u k req now a0 h a]
    by (cases recovery) auto
  show "adm_ok a"
    by (rule adm_ok_register [OF assms(1) reg open_k])
  show "h < length (handles a)" "h \<in> set (bindings a k)"
    using register_fields(1-3) [OF reg] by auto
qed

lemma open_success:
  assumes "open_session transports env req recovery s = (Inr ses, s')"
    and q: "quiet env" and "oe_fs_ok env W_opening"
    and ok: "guard_ok (sy_guard s)" "leases_ok (sy_leases s)" "adm_ok (sy_admission s)"
  shows "\<exists>h. ready_opened env (req_target_key req) h ses s'"
  using assms(1)
proof (cases rule: open_session_cases)
  case (opened_ok tp h a st ses')
  note ad = admitted_handle [OF ok(3) opened_ok(2)]
  have "unwindable (s\<lparr>sy_admission := a\<rparr>) (req_target_key req) h (oe_session_id env) empty_open_state (s\<lparr>sy_admission := a\<rparr>)"
    by (rule unwindable_start) (simp_all add: ok)
  then have "ready_opened env (req_target_key req) h ses' s'"
    using tripleD(2) [OF open_body_unwindable [OF q assms(3) refl refl [of "req_target_key req"], of h "s\<lparr>sy_admission := a\<rparr>" tp recovery] _ opened_ok(3)] ad
    by (simp add: phase_def empty_open_state_def)
  then show ?thesis
    using opened_ok(4) by auto
qed simp_all

text \<open>While a session holds the target's guard no other open of it succeeds.\<close>

lemma open_body_held:
  assumes q: "quiet env"
  shows "triple (\<lambda>st s. sg_holders (sy_guard s) (req_target_key req) \<noteq> None)
     (open_body env tp req recovery h) (\<lambda>_ _ _. False) (\<lambda>_ _. True)"
proof -
  have ag: "triple (\<lambda>st s. sg_holders (sy_guard s) (req_target_key req) \<noteq> None) (acquire_guard env (req_target_key req))
      (\<lambda>_ _ _. False) (\<lambda>_ _. True)"
    by (rule tripleI) (auto simp: acquire_guard_def guard_acquire_def)
  have no: "triple (\<lambda>_ _. False) m Q E" for m :: "('b, 'c) step" and Q E
    by (simp add: triple_def)
  show ?thesis
    unfolding open_body_def
    by (rule triple_bind [OF triple_handle_channel], simp,
        rule triple_bind [OF triple_select_channel], simp,
        rule triple_bind [OF triple_checkpoint [OF q]], simp,
        rule triple_bind [OF ag], rule no)
qed

lemma open_refused_while_held:
  assumes "sg_holders (sy_guard s) (req_target_key req) \<noteq> None" and "quiet env"
  shows "isl (fst (open_session transports env req recovery s))"
proof -
  obtain r s' where run: "open_session transports env req recovery s = (r, s')"
    by (cases "open_session transports env req recovery s")
  show ?thesis
    using run
  proof (cases rule: open_session_cases)
    case (opened_ok tp h a st ses)
    then show ?thesis
      using tripleD(2) [OF open_body_held [OF assms(2), of req tp recovery h] _ opened_ok(3)] assms(1) by simp
  qed (simp_all add: run)
qed

end
