(* ===== verification/TransactionClose.thy ===== *)
theory TransactionClose
  imports Transaction AdmissionFence
begin

text \<open>
  How a session ends. Whatever fails on the way, \<open>close\<close>, \<open>force_release\<close> and the lifecycle
  subscriber give up the guard and the lease and drop the transaction's entries.
\<close>

lemma release_guard_holder:
  assumes "guard_ok (sy_guard s)"
  shows "sg_holders (sy_guard (release_guard k tok s)) =
     (if tok \<noteq> None \<and> sg_holders (sy_guard s) k = tok then (sg_holders (sy_guard s))(k := None) else sg_holders (sy_guard s))"
    and "guard_ok (sy_guard (release_guard k tok s))"
  using assms by (auto simp: release_guard_def guard_release_eq guard_ok_def split: option.split if_splits)

lemma release_lease_holder:
  "lease_holder_of (sy_leases (release_lease k tok s)) =
     (if tok \<noteq> None \<and> lease_holder_of (sy_leases s) k = tok then (lease_holder_of (sy_leases s))(k := None)
      else lease_holder_of (sy_leases s))"
  by (auto simp: release_lease_def mgr_release_eq holder_upd split: option.split)

lemma release_guard_frame [simp]:
  "sy_admission (release_guard k tok s) = sy_admission s" "sy_registry (release_guard k tok s) = sy_registry s"
  "sy_leases (release_guard k tok s) = sy_leases s" "sy_tokens (release_guard k tok s) = sy_tokens s"
  "sy_handles (release_guard k tok s) = sy_handles s"
  by (simp_all add: release_guard_def split: option.split)

lemma release_lease_frame [simp]:
  "sy_admission (release_lease k tok s) = sy_admission s" "sy_registry (release_lease k tok s) = sy_registry s"
  "sy_guard (release_lease k tok s) = sy_guard s" "sy_tokens (release_lease k tok s) = sy_tokens s"
  "sy_handles (release_lease k tok s) = sy_handles s"
  by (simp_all add: release_lease_def split: option.split)

text \<open>What the remaining cleanup steps leave alone.\<close>

definition same_holds :: "sys \<Rightarrow> sys \<Rightarrow> bool" where
  "same_holds s s' \<longleftrightarrow> sy_guard s' = sy_guard s \<and> sy_leases s' = sy_leases s \<and> sy_tokens s' = sy_tokens s"

lemma same_holds_refl [simp]: "same_holds s s"
  by (simp add: same_holds_def)

lemma same_holds_trans: "same_holds a b \<Longrightarrow> same_holds b c \<Longrightarrow> same_holds a c"
  by (simp add: same_holds_def)

lemma on_admission_holds: "same_holds s (snd (on_admission f s))" "sy_handles (snd (on_admission f s)) = sy_handles s"
    "sy_registry (snd (on_admission f s)) = sy_registry s"
  by (simp_all add: on_admission_def same_holds_def split: sum.split)

lemma complete_handle_holds:
  "same_holds s (snd (complete_handle sid s))" "sy_handles (snd (complete_handle sid s)) = (sy_handles s)(sid := None)"
  by (auto simp: complete_handle_def same_holds_def on_admission_def split: option.split sum.split prod.split)

lemma fs_delete_holds:
  "same_holds s (snd (fs_delete ok op k sid s))" "sy_handles (snd (fs_delete ok op k sid s)) = sy_handles s"
  by (simp_all add: fs_delete_def same_holds_def split: sum.split)

lemma mark_recovery_holds:
  "same_holds s (snd (mark_recovery ok k g reason s))" "sy_handles (snd (mark_recovery ok k g reason s)) = sy_handles s"
  by (simp_all add: mark_recovery_def same_holds_def)

lemma collect_holds: "snd (collect c f) = snd (f (snd c))"
  by (simp add: collect_def split: prod.split sum.split)

lemma collect_step:
  assumes "same_holds a (snd c)" "sy_handles (snd c) = hs"
    and "\<And>x. same_holds x (snd (f x))" "\<And>x. sy_handles (snd (f x)) = sy_handles x"
  shows "same_holds a (snd (collect c f))" "sy_handles (snd (collect c f)) = hs"
  using assms same_holds_trans [OF assms(1) assms(3)] by (simp_all add: collect_holds)

lemma unsubscribe_holds: "same_holds s (unsubscribe_session k sid s)" "sy_handles (unsubscribe_session k sid s) = sy_handles s"
  by (simp_all add: unsubscribe_session_def same_holds_def)

lemma confirm_and_abandon_holds:
  "same_holds s (confirm_and_abandon h s)" "sy_handles (confirm_and_abandon h s) = sy_handles s"
  by (auto simp: confirm_and_abandon_def same_holds_def on_admission_def split: sum.split prod.split)

text \<open>Once the CLOSING record is written, a close releases everything, whatever raises.\<close>

lemma close_releases:
  fixes transports :: "string \<rightharpoonup> 'x transport" and force :: bool
  assumes "record_by_session_id sid s = Inr (Some rec)" and "transports (ts_provider rec) = Some tp" and "ok W_closing"
    and g: "guard_ok (sy_guard s)"
  defines "s' \<equiv> snd (close_session transports ok sid force s)"
  shows "sy_tokens s' sid = None" and "sy_handles s' sid = None"
    and "sy_tokens s sid = Some t \<Longrightarrow> sg_holders (sy_guard s') (ts_target_key rec) \<noteq> Some t"
    and "console_lease_token rec = Some l \<Longrightarrow> lease_holder_of (sy_leases s') (ts_target_key rec) \<noteq> Some l"
proof -
  let ?k = "ts_target_key rec"
  let ?s1 = "s\<lparr>sy_registry := write_record (rec\<lparr>record_state := CLOSING\<rparr>) (sy_registry s)\<rparr>"
  let ?s3 = "pop_token ?k sid (release_lease ?k (console_lease_token rec) ?s1)"
  let ?h3 = "(sy_handles ?s3)(sid := None)"
  obtain s4 where s4: "same_holds ?s3 s4" "sy_handles s4 = ?h3" "s' = unsubscribe_session ?k sid s4"
  proof -
    let ?c1 = "collect ([] :: 'x open_error list, ?s3) (complete_handle sid)"
    let ?c2 = "if execution_state rec \<in> {HALTED, UNKNOWN} \<and> \<not> force
               then collect ?c1 (mark_recovery ok ?k (ts_generation rec) ''closed_while_halted'') else ?c1"
    let ?c3 = "collect ?c2 (fs_delete ok D_close ?k (session_id rec))"
    have one: "same_holds ?s3 (snd ?c1)" "sy_handles (snd ?c1) = ?h3"
      by (simp_all add: collect_holds complete_handle_holds)
    have two: "same_holds ?s3 (snd ?c2)" "sy_handles (snd ?c2) = ?h3"
      using one collect_step [OF one mark_recovery_holds] by simp_all
    have three: "same_holds ?s3 (snd ?c3)" "sy_handles (snd ?c3) = ?h3"
      by (rule collect_step [OF two fs_delete_holds])+
    have "s' = unsubscribe_session ?k sid (snd ?c3)"
      using assms(1-3) by (simp add: s'_def close_session_def fs_write_def Let_def)
    with three show ?thesis
      by (rule that)
  qed
  have e: "sy_guard s' = sy_guard ?s3" "sy_leases s' = sy_leases ?s3" "sy_tokens s' = sy_tokens ?s3" "sy_handles s' = ?h3"
    using s4 unsubscribe_holds [where s = s4] by (simp_all add: same_holds_def)
  have t3: "sy_tokens ?s3 = (sy_tokens s)(sid := None)"
    by (simp add: pop_token_def)
  show "sy_tokens s' sid = None" "sy_handles s' sid = None"
    using e t3 by simp_all
  show "sy_tokens s sid = Some t \<Longrightarrow> sg_holders (sy_guard s') ?k \<noteq> Some t"
    using g by (auto simp: e(1) pop_token_def release_guard_holder)
  show "console_lease_token rec = Some l \<Longrightarrow> lease_holder_of (sy_leases s') ?k \<noteq> Some l"
    by (auto simp: e(2) pop_token_def release_lease_holder)
qed

lemma force_release_releases:
  fixes ok :: "fs_op \<Rightarrow> bool"
  assumes "record_by_session_id sid s = Inr (Some rec)" and g: "guard_ok (sy_guard s)"
  defines "s' \<equiv> snd (force_release ok sid s :: ('b open_error, unit) result \<times> sys)"
  shows "sy_tokens s' sid = None" and "sy_handles s' sid = None"
    and "sy_tokens s sid = Some t \<Longrightarrow> sg_holders (sy_guard s') (ts_target_key rec) \<noteq> Some t"
    and "console_lease_token rec = Some l \<Longrightarrow> lease_holder_of (sy_leases s') (ts_target_key rec) \<noteq> Some l"
proof -
  let ?k = "ts_target_key rec"
  let ?s2 = "pop_token ?k sid (release_lease ?k (console_lease_token rec) s)"
  let ?s3 = "case sy_handles ?s2 sid of None \<Rightarrow> ?s2
             | Some h \<Rightarrow> confirm_and_abandon h (?s2\<lparr>sy_handles := (sy_handles ?s2)(sid := None)\<rparr>)"
  have three: "same_holds ?s2 ?s3" "sy_handles ?s3 sid = None"
    using confirm_and_abandon_holds
    by (auto simp: same_holds_def split: option.split)
  obtain s3 where s3: "same_holds ?s2 s3" "sy_handles s3 sid = None" "?s3 = s3"
    using three by blast
  let ?d = "fs_delete ok D_force ?k (session_id rec) s3 :: ('b open_error, unit) result \<times> sys"
  have d: "same_holds s3 (snd ?d)" "sy_handles (snd ?d) = sy_handles s3"
    by (rule fs_delete_holds)+
  have "s' = (case ?d of (Inl e, s4) \<Rightarrow> s4 | (Inr u, s4) \<Rightarrow> unsubscribe_session ?k sid s4)"
    using assms(1) by (simp add: s'_def force_release_def Let_def s3(3) split: sum.splits prod.splits)
  then have "s' = snd ?d \<or> s' = unsubscribe_session ?k sid (snd ?d)"
    by (auto split: sum.splits prod.splits)
  then have "same_holds (snd ?d) s'" "sy_handles s' = sy_handles (snd ?d)"
    by (auto simp: unsubscribe_holds)
  then have e: "sy_guard s' = sy_guard ?s2" "sy_leases s' = sy_leases ?s2" "sy_tokens s' = sy_tokens ?s2" "sy_handles s' sid = None"
    using s3(1,2) d by (simp_all add: same_holds_def)
  show "sy_tokens s' sid = None" "sy_handles s' sid = None"
    using e by (simp_all add: pop_token_def)
  show "sy_tokens s sid = Some t \<Longrightarrow> sg_holders (sy_guard s') ?k \<noteq> Some t"
    using g by (auto simp: e(1) pop_token_def release_guard_holder)
  show "console_lease_token rec = Some l \<Longrightarrow> lease_holder_of (sy_leases s') ?k \<noteq> Some l"
    by (auto simp: e(2) pop_token_def release_lease_holder)
qed

end
