(* ===== verification/Invalidation.thy ===== *)
theory Invalidation
  imports TransactionClose
begin

text \<open>
  \<open>invalidate_lifecycle\<close> of \<open>src/kdive/coordination/admission.py\<close> over the whole system: the
  closure of admission, then the teardown of the subscribed sessions by the dispatcher, with the
  transaction's subscribers as its workers. A worker may outlive the dispatcher's deadline
  (\<open>wedges\<close>): it is then blocked in the reap of the backend, which comes before any change.
\<close>

definition invalidate_worker ::
  "(string \<rightharpoonup> 'x transport) \<Rightarrow> (fs_op \<Rightarrow> bool) \<Rightarrow> (nat \<Rightarrow> bool) \<Rightarrow> (sys, 'x open_error) worker" where
  "invalidate_worker transports ok wedges i ev s =
     (if wedges i then (Wedged, s)
      else case subscriber_invalidate transports ok i s of
             (Inl e, s') \<Rightarrow> (Raised e, s')
           | (Inr u, s') \<Rightarrow> (Finished, s'))"

definition force_drop_worker :: "(fs_op \<Rightarrow> bool) \<Rightarrow> (sys, 'x open_error) worker" where
  "force_drop_worker ok i ev s =
     (case subscriber_force_drop ok i s of
        (Inl e, s') \<Rightarrow> (Raised e, s')
      | (Inr u, s') \<Rightarrow> (Finished, s'))"

text \<open>
  The dispatcher reads its subscribers before any worker runs; the workers only unsubscribe; it
  writes only the table of overdue workers.
\<close>

definition emit_sys ::
  "(overdue_key \<Rightarrow> bool) \<Rightarrow> (sys, 'x) worker \<Rightarrow> (sys, 'x) worker \<Rightarrow> lifecycle_event \<Rightarrow> dispatcher \<Rightarrow> sys
     \<Rightarrow> 'x invalidation_result \<times> sys" where
  "emit_sys alive inva fd ev d s =
     (case emit alive inva fd ev d s of
        (r, d', s') \<Rightarrow> (r, s'\<lparr>sy_dispatcher := map_option (\<lambda>x. x\<lparr>lc_overdue := lc_overdue d'\<rparr>) (sy_dispatcher s')\<rparr>))"

definition empty_invalidation :: "lifecycle_event \<Rightarrow> 'x invalidation_result" where
  "empty_invalidation ev =
     \<lparr>ir_target_key = ev_target_key ev, ir_kind = ev_kind ev, ir_errors = Map.empty, ir_overdue = [], ir_force_dropped = []\<rparr>"

text \<open>The event's dispatcher is the one bound to the transaction.\<close>

definition invalidate_lifecycle ::
  "(overdue_key \<Rightarrow> bool) \<Rightarrow> (sys, 'x) worker \<Rightarrow> (sys, 'x) worker \<Rightarrow> lifecycle_event \<Rightarrow> dispatcher \<Rightarrow> int \<Rightarrow> bool \<Rightarrow> sys
     \<Rightarrow> 'x invalidation_result \<times> sys" where
  "invalidate_lifecycle alive inva fd ev d gen cl s =
     (case invalidate_close (ev_target_key ev) gen cl (sy_admission s) of
        (emits, a) \<Rightarrow>
          (if emits then emit_sys alive inva fd ev d (s\<lparr>sy_admission := a\<rparr>)
           else (empty_invalidation ev, s\<lparr>sy_admission := a\<rparr>)))"

subsection \<open>What a force drop gives up\<close>

text \<open>The session's line is gone: its tokens hold nothing and its binding is disposed of.\<close>

definition session_gone :: "transport_session \<Rightarrow> open_state \<Rightarrow> sys \<Rightarrow> bool" where
  "session_gone ses st s \<longleftrightarrow>
     (let k = ts_target_key ses; sid = session_id ses in
        (os_guard_token st = None \<or> sg_holders (sy_guard s) k \<noteq> os_guard_token st)
      \<and> (os_lease_token st = None \<or> lease_holder_of (sy_leases s) k \<noteq> os_lease_token st)
      \<and> sy_tokens s sid = None \<and> sy_handles s sid = None
      \<and> (case os_admission_handle st of None \<Rightarrow> True | Some h \<Rightarrow> h \<notin> set (bindings (sy_admission s) k)))"

lemma confirm_and_abandon_disposes:
  assumes ok: "adm_ok (sy_admission s)" and closed: "closed_at (sy_admission s) k \<noteq> None"
    and h: "h \<in> set (bindings (sy_admission s) k)"
  shows "bindings (sy_admission (confirm_and_abandon h s)) = (bindings (sy_admission s))(k := remove1 h (bindings (sy_admission s) k))"
    and "closed_at (sy_admission (confirm_and_abandon h s)) = closed_at (sy_admission s)"
proof -
  let ?a = "sy_admission s"
  have x: "h < length (handles ?a)" "ah_state (handle_of ?a h) \<in> live_states" "ah_target_key (handle_of ?a h) = k"
    using h table_mem [OF adm_ok_table [OF ok], of h k] by simp_all
  have c: "ah_cancel (handle_of ?a h)"
    using adm_ok_handle [OF ok x(1)] x(2,3) closed by (auto simp: handle_ok_def)
  let ?a1 = "upd_handle h (\<lambda>x. x\<lparr>ah_reaped := True\<rparr>) ?a"
  have one: "confirm_reaped h ?a = Inr ?a1"
    using x c closed h by (auto simp: confirm_reaped_def Let_def)
  have y: "handle_of ?a1 h = (handle_of ?a h)\<lparr>ah_reaped := True\<rparr>"
    by (simp add: upd_handle_nth x(1))
  have two: "abandon h ?a1 = dispose h ABANDONED ?a1"
    using x c closed by (auto simp: abandon_def Let_def y)
  have three: "\<exists>a2. dispose h ABANDONED ?a1 = Inr a2 \<and> bindings a2 = (bindings ?a)(k := remove1 h (bindings ?a k)) \<and> closed_at a2 = closed_at ?a"
    using x h by (auto simp: dispose_def Let_def y)
  show "bindings (sy_admission (confirm_and_abandon h s)) = (bindings ?a)(k := remove1 h (bindings ?a k))"
    "closed_at (sy_admission (confirm_and_abandon h s)) = closed_at ?a"
    using three by (auto simp: confirm_and_abandon_def on_admission_def one two)
qed

lemma confirm_and_abandon_absent:
  assumes "h \<notin> set (bindings (sy_admission s) (ah_target_key (handle_of (sy_admission s) h)))"
  shows "confirm_and_abandon h s = s"
  using assms by (simp add: confirm_and_abandon_def on_admission_def confirm_reaped_def Let_def)

text \<open>The state before the record is deleted, in which the line is already gone.\<close>

definition dropped_line :: "nat \<Rightarrow> sys \<Rightarrow> sys" where
  "dropped_line i s =
     (let sb = sy_subscribers s ! i; st = sb_state sb; k = ts_target_key (sb_session sb); sid = session_id (sb_session sb);
          s2 = release_guard k (os_guard_token st) (release_lease k (os_lease_token st) s);
          s3 = s2\<lparr>sy_tokens := (sy_tokens s2)(sid := None)\<rparr>;
          s4 = (case os_admission_handle st of None \<Rightarrow> s3 | Some h \<Rightarrow> confirm_and_abandon h s3)
      in s4\<lparr>sy_handles := (sy_handles s4)(sid := None)\<rparr>)"

lemma subscriber_force_drop_eq:
  "subscriber_force_drop ok i s =
     (let ses = sb_session (sy_subscribers s ! i); k = ts_target_key ses; sid = session_id ses; s5 = dropped_line i s
      in if \<not> sb_killed (sy_subscribers s ! i) then (Inr (), unsubscribe_session k sid s5)
         else case fs_delete ok D_subscriber k sid s5 of
                (Inl e, s6) \<Rightarrow> (Inl e, s6)
              | (Inr u, s6) \<Rightarrow> (Inr (), unsubscribe_session k sid s6))"
  by (simp add: subscriber_force_drop_def dropped_line_def Let_def)

lemma confirm_and_abandon_registry: "sy_registry (confirm_and_abandon h s) = sy_registry s"
  by (auto simp: confirm_and_abandon_def on_admission_def split: sum.split prod.split)

lemma dropped_line_gone:
  fixes s :: sys and i :: nat
  defines "ses \<equiv> sb_session (sy_subscribers s ! i)" and "st \<equiv> sb_state (sy_subscribers s ! i)"
  assumes ok: "adm_ok (sy_admission s)" "guard_ok (sy_guard s)"
    and h: "os_admission_handle st = Some h" "h \<in> set (bindings (sy_admission s) (ts_target_key ses))"
    and closed: "closed_at (sy_admission s) (ts_target_key ses) \<noteq> None"
  defines "k \<equiv> ts_target_key ses" and "s' \<equiv> dropped_line i s"
  shows "session_gone ses st s'"
    and "bindings (sy_admission s') = (bindings (sy_admission s))(k := remove1 h (bindings (sy_admission s) k))"
    and "closed_at (sy_admission s') = closed_at (sy_admission s)"
    and "sy_registry s' = sy_registry s"
proof -
  let ?s2 = "release_guard k (os_guard_token st) (release_lease k (os_lease_token st) s)"
  let ?s3 = "?s2\<lparr>sy_tokens := (sy_tokens ?s2)(session_id ses := None)\<rparr>"
  let ?s4 = "confirm_and_abandon h ?s3"
  have s': "s' = ?s4\<lparr>sy_handles := (sy_handles ?s4)(session_id ses := None)\<rparr>"
    using h(1) by (simp add: s'_def dropped_line_def Let_def ses_def st_def k_def)
  have a3: "sy_admission ?s3 = sy_admission s"
    by simp
  note d = confirm_and_abandon_disposes [of ?s3 k h, unfolded a3, OF ok(1)]
  show b: "bindings (sy_admission s') = (bindings (sy_admission s))(k := remove1 h (bindings (sy_admission s) k))"
    and "closed_at (sy_admission s') = closed_at (sy_admission s)"
    using d h(2) closed by (simp_all add: s' k_def)
  show "sy_registry s' = sy_registry s"
    by (simp add: s' confirm_and_abandon_registry)
  have "h \<notin> set (bindings (sy_admission s') k)"
    using b adm_ok_table [OF ok(1)] by (simp add: table_ok_def)
  moreover have same: "sy_guard s' = sy_guard ?s2" "sy_leases s' = sy_leases ?s2" "sy_tokens s' = sy_tokens ?s3"
    using confirm_and_abandon_holds(1) [of ?s3 h] by (simp_all add: s' same_holds_def)
  moreover have "os_guard_token st = None \<or> sg_holders (sy_guard s') k \<noteq> os_guard_token st"
    using ok(2) by (auto simp: same(1) release_guard_holder)
  moreover have "os_lease_token st = None \<or> lease_holder_of (sy_leases s') k \<noteq> os_lease_token st"
    by (auto simp: same(2) release_lease_holder)
  ultimately show "session_gone ses st s'"
    using h(1) by (simp add: session_gone_def Let_def k_def s')
qed

text \<open>Steps after the line is gone touch only the record and the dispatcher.\<close>

lemma session_gone_frame:
  assumes "sy_guard s' = sy_guard s" "sy_leases s' = sy_leases s" "sy_tokens s' = sy_tokens s"
    "sy_handles s' = sy_handles s" "sy_admission s' = sy_admission s"
  shows "session_gone ses st s' = session_gone ses st s"
  by (simp only: session_gone_def assms)

lemma unlink_present: "read_record k r = Inr (Some rec) \<Longrightarrow> unlink_record k r \<noteq> r"
  using read_unlink [of k k r] by auto

lemma fs_delete_admission: "sy_admission (snd (fs_delete ok op k sid s)) = sy_admission s"
  by (simp add: fs_delete_def split: sum.split)

lemma force_drop_frame:
  fixes s :: sys and i :: nat and ok :: "fs_op \<Rightarrow> bool"
  defines "s' \<equiv> snd (subscriber_force_drop ok i s :: ('x open_error, unit) result \<times> sys)"
  shows "session_gone ses st s' = session_gone ses st (dropped_line i s)"
    and "sy_admission s' = sy_admission (dropped_line i s)"
    and "\<not> sb_killed (sy_subscribers s ! i) \<Longrightarrow> sy_registry s' = sy_registry (dropped_line i s)"
    and "sb_killed (sy_subscribers s ! i) \<Longrightarrow> ok D_subscriber \<Longrightarrow>
           read_record k (sy_registry (dropped_line i s)) = Inr (Some rec) \<Longrightarrow>
           session_id rec = session_id (sb_session (sy_subscribers s ! i)) \<Longrightarrow>
           k = ts_target_key (sb_session (sy_subscribers s ! i)) \<Longrightarrow> read_record k (sy_registry s') = Inr None"
proof -
  let ?ses = "sb_session (sy_subscribers s ! i)"
  let ?d = "fs_delete ok D_subscriber (ts_target_key ?ses) (session_id ?ses) (dropped_line i s) :: ('x open_error, unit) result \<times> sys"
  have d: "same_holds (dropped_line i s) (snd ?d)" "sy_handles (snd ?d) = sy_handles (dropped_line i s)"
    "sy_admission (snd ?d) = sy_admission (dropped_line i s)"
    by (rule fs_delete_holds fs_delete_admission)+
  consider (kept) "\<not> sb_killed (sy_subscribers s ! i)" "s' = unsubscribe_session (ts_target_key ?ses) (session_id ?ses) (dropped_line i s)"
    | (gone) "sb_killed (sy_subscribers s ! i)"
        "s' = snd ?d \<or> s' = unsubscribe_session (ts_target_key ?ses) (session_id ?ses) (snd ?d)"
    unfolding s'_def subscriber_force_drop_eq Let_def
    by (cases "fst ?d"; cases ?d) (auto split: if_splits)
  then have f: "sy_guard s' = sy_guard (dropped_line i s)" "sy_leases s' = sy_leases (dropped_line i s)"
    "sy_tokens s' = sy_tokens (dropped_line i s)" "sy_handles s' = sy_handles (dropped_line i s)"
    "sy_admission s' = sy_admission (dropped_line i s)"
    using d by (cases; auto simp: unsubscribe_session_def same_holds_def)+
  show "session_gone ses st s' = session_gone ses st (dropped_line i s)"
    by (rule session_gone_frame) (simp_all add: f)
  show "sy_admission s' = sy_admission (dropped_line i s)"
    by (rule f(5))
  show "\<not> sb_killed (sy_subscribers s ! i) \<Longrightarrow> sy_registry s' = sy_registry (dropped_line i s)"
    unfolding s'_def by (simp add: subscriber_force_drop_eq Let_def unsubscribe_session_def)
  assume "sb_killed (sy_subscribers s ! i)" "ok D_subscriber" "k = ts_target_key ?ses" "session_id rec = session_id ?ses"
    and "read_record k (sy_registry (dropped_line i s)) = Inr (Some rec)"
  then show "read_record k (sy_registry s') = Inr None"
    unfolding s'_def
    by (auto simp: subscriber_force_drop_eq Let_def fs_delete_def delete_record_def unsubscribe_session_def read_unlink unlink_present)
qed

subsection \<open>The teardown of a subscribed session\<close>

lemma force_drop_worker_world:
  "snd (force_drop_worker ok i ev s :: 'x open_error worker_outcome \<times> sys) =
     snd (subscriber_force_drop ok i s :: ('x open_error, unit) result \<times> sys)"
  by (simp add: force_drop_worker_def split: prod.split sum.split)

text \<open>The subscriber's object after its reap was tried: killed, and otherwise as it was.\<close>

definition reaped_subscriber :: "nat \<Rightarrow> sys \<Rightarrow> sys" where
  "reaped_subscriber i s =
     (best_effort_reap (sb_state (sy_subscribers s ! i)) s)
       \<lparr>sy_subscribers := (sy_subscribers s)[i := (sy_subscribers s ! i)\<lparr>sb_killed := True\<rparr>]\<rparr>"

lemma invalidate_worker_run:
  fixes transports :: "string \<rightharpoonup> 'x transport"
  assumes "transports (ts_provider (sb_session (sy_subscribers s ! i))) = Some tp"
  shows "snd (invalidate_worker transports ok (\<lambda>_. False) i ev s) =
           snd (subscriber_force_drop ok i (reaped_subscriber i s) :: ('x open_error, unit) result \<times> sys)"
    and "fst (invalidate_worker transports ok (\<lambda>_. False) i ev s) \<noteq> Wedged"
proof -
  have "sy_subscribers (best_effort_reap st s) = sy_subscribers s" for st
    by (simp add: best_effort_reap_def split: option.split)
  then show "snd (invalidate_worker transports ok (\<lambda>_. False) i ev s) =
           snd (subscriber_force_drop ok i (reaped_subscriber i s) :: ('x open_error, unit) result \<times> sys)"
    and "fst (invalidate_worker transports ok (\<lambda>_. False) i ev s) \<noteq> Wedged"
    using assms
    by (simp_all add: invalidate_worker_def subscriber_invalidate_def reaped_subscriber_def Let_def split: prod.split sum.split)
qed

lemma reaped_subscriber_frame:
  "sy_admission (reaped_subscriber i s) = sy_admission s" "sy_guard (reaped_subscriber i s) = sy_guard s"
  "sy_registry (reaped_subscriber i s) = sy_registry s"
  "i < length (sy_subscribers s) \<Longrightarrow> sy_subscribers (reaped_subscriber i s) ! i = (sy_subscribers s ! i)\<lparr>sb_killed := True\<rparr>"
  by (simp_all add: reaped_subscriber_def best_effort_reap_def split: option.split)

lemma emit_one:
  assumes sub: "lc_subscribers d (ev_target_key ev) = [(n, i)]" and live: "\<not> ((ev_target_key ev, n, i) \<in> set (lc_overdue d) \<and> alive (ev_target_key ev, n, i))"
    and run: "emit alive inva fd ev d w = (r, d', w')"
  shows "w' = (if fst (inva i ev w) = Wedged then snd (fd i ev (snd (inva i ev w))) else snd (inva i ev w))"
proof -
  have "runnable_subscribers alive (ev_target_key ev) d = [(n, i)]"
    using sub live by (simp add: runnable_subscribers_def)
  then show ?thesis
    using emit_world [OF run] by (simp add: newly_wedged_def wedged_def split_beta)
qed

lemma invalidation_tears_down:
  fixes s :: sys and transports :: "string \<rightharpoonup> 'x transport" and wedges :: "nat \<Rightarrow> bool" and ok :: "fs_op \<Rightarrow> bool" and d :: dispatcher
    and i :: nat and ev :: lifecycle_event
  defines "sb \<equiv> sy_subscribers s ! i" and "k \<equiv> ev_target_key ev"
  assumes inv: "adm_ok (sy_admission s)" "guard_ok (sy_guard s)"
    and fresh: "\<not> is_stale_lifecycle_close k gen (sy_admission s)"
    and sub: "lc_subscribers d k = [(n, i)]" "i < length (sy_subscribers s)" "\<not> ((k, n, i) \<in> set (lc_overdue d) \<and> alive (k, n, i))"
    and key: "ts_target_key (sb_session sb) = k" and tp: "transports (ts_provider (sb_session sb)) = Some tp"
    and h: "os_admission_handle (sb_state sb) = Some h" "h \<in> set (bindings (sy_admission s) k)"
    and run: "invalidate_lifecycle alive (invalidate_worker transports ok wedges) (force_drop_worker ok) ev d gen True s = (r, s')"
  shows "session_gone (sb_session sb) (sb_state sb) s'"
    and "bindings (sy_admission s') k = remove1 h (bindings (sy_admission s) k)"
    and "closed_at (sy_admission s') k = Some (case closed_at (sy_admission s) k of None \<Rightarrow> gen | Some g \<Rightarrow> g)"
    and "\<not> wedges i \<Longrightarrow> ok D_subscriber \<Longrightarrow> read_record k (sy_registry s) = Inr (Some rec) \<Longrightarrow>
           session_id rec = session_id (sb_session sb) \<Longrightarrow> read_record k (sy_registry s') = Inr None"
    and "wedges i \<Longrightarrow> \<not> sb_killed sb \<Longrightarrow> sy_registry s' = sy_registry s"
proof -
  define a where "a = snd (close_admission k gen (sy_admission s))"
  let ?s0 = "s\<lparr>sy_admission := a\<rparr>"
  let ?iw = "invalidate_worker transports ok wedges"
  let ?fw = "force_drop_worker ok :: (sys, 'x open_error) worker"
  note e = close_effect [OF inv(1) fresh]
  have a: "adm_ok a" "bindings a = bindings (sy_admission s)"
    "closed_at a k = Some (case closed_at (sy_admission s) k of None \<Rightarrow> gen | Some g \<Rightarrow> g)"
    using e(2,3) adm_ok_close [OF inv(1)] by (auto simp: a_def split: option.split)
  obtain d' w' where em: "emit alive ?iw ?fw ev d ?s0 = (r, d', w')"
    and s': "s' = w'\<lparr>sy_dispatcher := map_option (\<lambda>x. x\<lparr>lc_overdue := lc_overdue d'\<rparr>) (sy_dispatcher w')\<rparr>"
    using run fresh
    by (auto simp: invalidate_lifecycle_def invalidate_close_def emit_sys_def a_def k_def split: prod.splits)
  define s2 where "s2 = (if wedges i then ?s0 else reaped_subscriber i ?s0)"
  have w': "w' = snd (subscriber_force_drop ok i s2 :: ('x open_error, unit) result \<times> sys)"
  proof (cases "wedges i")
    case True
    then show ?thesis
      using emit_one [OF sub(1,3) [unfolded k_def] em] by (simp add: invalidate_worker_def s2_def force_drop_worker_world)
  next
    case False
    then have "?iw i ev ?s0 = invalidate_worker transports ok (\<lambda>_. False) i ev ?s0"
      by (simp add: invalidate_worker_def)
    then show ?thesis
      using False emit_one [OF sub(1,3) [unfolded k_def] em] invalidate_worker_run [of transports ?s0 i tp ok ev] tp
      by (simp add: s2_def sb_def)
  qed
  have s2: "sy_admission s2 = a" "sy_guard s2 = sy_guard s" "sy_registry s2 = sy_registry s"
    "sb_session (sy_subscribers s2 ! i) = sb_session sb" "sb_state (sy_subscribers s2 ! i) = sb_state sb"
    "sb_killed (sy_subscribers s2 ! i) = (\<not> wedges i \<or> sb_killed sb)"
    using reaped_subscriber_frame [of i ?s0] sub(2) by (simp_all add: s2_def sb_def)
  note g = dropped_line_gone [where s = s2 and i = i, unfolded s2 key, OF a(1) inv(2) h(1) h(2) [folded a(2)]]
  note f = force_drop_frame [where s = s2 and i = i and ok = ok and 'x = 'x, folded w', unfolded s2]
  have c: "closed_at a k \<noteq> None"
    using a(3) by simp
  have adm: "sy_admission s' = sy_admission (dropped_line i s2)" "sy_registry s' = sy_registry w'"
    using f(2) by (simp_all add: s')
  show "session_gone (sb_session sb) (sb_state sb) s'"
  proof -
    have "session_gone (sb_session sb) (sb_state sb) s' = session_gone (sb_session sb) (sb_state sb) w'"
      by (rule session_gone_frame) (simp_all add: s')
    then show ?thesis
      using g(1) [OF c] f(1) by blast
  qed
  show "bindings (sy_admission s') k = remove1 h (bindings (sy_admission s) k)"
    using g(2) [OF c] a(2) by (simp add: adm(1))
  show "closed_at (sy_admission s') k = Some (case closed_at (sy_admission s) k of None \<Rightarrow> gen | Some g \<Rightarrow> g)"
    using g(3) [OF c] a(3) by (simp add: adm(1))
  show "read_record k (sy_registry s') = Inr None" if "\<not> wedges i" "ok D_subscriber"
    "read_record k (sy_registry s) = Inr (Some rec)" "session_id rec = session_id (sb_session sb)"
  proof -
    have r: "read_record k (sy_registry (dropped_line i s2)) = Inr (Some rec)"
      using that(3) g(4) [OF c] by simp
    show ?thesis
      unfolding adm(2) by (rule f(4) [OF _ that(2) r that(4) key [symmetric]]) (simp add: that(1))
  qed
  show "sy_registry s' = sy_registry s" if "wedges i" "\<not> sb_killed sb"
    unfolding adm(2) g(4) [OF c, symmetric] using that by (intro f(3)) simp
qed

end
