(* ===== verification/TransactionProps.thy ===== *)
theory TransactionProps
  imports TransactionOpen TransactionClose Invalidation AdmissionProps
begin

text \<open>
  The properties of the transport transaction: what an open, a close, a forced release and a
  lifecycle invalidation leave behind. A gdbstub provider, an environment without failures and a
  published target serve as the concrete case.
\<close>

definition ex_capability :: transport_capability where
  "ex_capability = \<lparr>cp_provider_name = ''qemu-gdbstub'', cp_locality = LOCAL, cp_architectures = [X86_64],
     cp_provides_console = True, cp_provides_rsp = True, cp_supports_uart_break = False,
     cp_endpoint_exposure = LOOPBACK_LOCAL, cp_operations = transport_operations\<rparr>"

text \<open>The provider reports its backend process, then returns a loopback RSP endpoint.\<close>

definition ex_transport :: "unit transport" where
  "ex_transport = \<lparr>tp_capability = ex_capability,
     tp_partials = (\<lambda>_. [(''backend_process'', RawMap [(KStr ''pid'', RawInt 4711), (KStr ''start_time'', RawStr ''99'')])]),
     tp_attach = (\<lambda>_ _. Inr \<lparr>ba_console_endpoint = None, ba_rsp_endpoint = Some (TcpEndpoint ''127.0.0.1'' 1234),
        ba_backend_pid = None, ba_backend_start_time = None, ba_console_artifact = None\<rparr>),
     tp_close = (\<lambda>_. None)\<rparr>"

definition ex_transports :: "string \<rightharpoonup> unit transport" where
  "ex_transports = [''qemu-gdbstub'' \<mapsto> ex_transport]"

definition ex_env :: "open_label set \<Rightarrow> (fs_op \<Rightarrow> bool) \<Rightarrow> open_env" where
  "ex_env crash ok = \<lparr>oe_now = 0, oe_handle_uuid = ''h0'', oe_guard_secret = ''g0'', oe_lease_uuid = ''l0'',
     oe_session_id = ''s0'', oe_created_at = 0, oe_mapped_aware = True, oe_policy = plan,
     oe_secret_defs = Map.empty, oe_secret_backends = Map.empty, oe_fs_ok = ok, oe_crash_after = crash,
     oe_during = (\<lambda>_ s. s)\<rparr>"

definition ex_sys :: sys where
  "ex_sys = \<lparr>sy_admission = run_calls [Publish ex_key (ex_snapshot 1 TS_READY)] (new_admission 300),
     sy_registry = new_registry False, sy_guard = new_stop_guard, sy_leases = Map.empty,
     sy_secrets = new_secret_registry, sy_tokens = Map.empty, sy_handles = Map.empty,
     sy_dispatcher = Some new_dispatcher, sy_subscribers = [], sy_reaped = []\<rparr>"

definition ex_open :: "open_label set \<Rightarrow> (fs_op \<Rightarrow> bool) \<Rightarrow> (unit open_error, transport_session) result \<times> sys" where
  "ex_open crash ok = open_session ex_transports (ex_env crash ok) (ex_request 1) False ex_sys"

lemma ex_env_quiet: "quiet (ex_env crash ok)"
  by (simp add: ex_env_def)

lemma ex_sys_ok:
  "guard_ok (sy_guard ex_sys)" "leases_ok (sy_leases ex_sys)" "adm_ok (sy_admission ex_sys)"
  "sy_tokens ex_sys x = None" "sy_handles ex_sys x = None"
  by (simp_all add: ex_sys_def leases_ok_def adm_ok_run adm_ok_new del: run_calls.simps)

lemma loopback_address:
  "(case ip_address ''127.0.0.1'' of None \<Rightarrow> Inl Endpoint_value_error
    | Some a \<Rightarrow> require (is_loopback m a) Endpoint_unsafe) = Inr ()"
  using loopback_127_0_0_1 [of m] by (simp add: loopback_literal_def split: option.splits)

text \<open>What evaluates an open of the concrete target.\<close>

lemmas open_eval = open_session_def refuse_unsafe_exposure_def endpoint_returning_ops_def open_body_def tbind_def tlift_def
  tpure_def handle_channel_def select_channel_def select_stop_capable_channel_def channel_disproved_def capable_def plan_def
  candidates_def provides_rsp_cap_def supports_uart_break_def checkpoint_def acquire_guard_def guard_acquire_def acquire_lease_def mgr_acquire_def
  lease_for_def lease_acquire_def new_console_lease_def resolve_secrets_def resolve_def write_opening_record_def fs_write_def
  write_record_def attach_open_backend_def backend_identity_def raw_get_def commit_open_session_def on_admission_def promote_def
  subscribe_session_def ready_session_def with_backend_def admit_def validate_open_def bind_snapshot_def rebind_def register_def
  check_caps_def check_platform_drift_def check_lease_identity_def check_lease_ttl_def reject_non_live_def non_live_states_def
  after_call_def publish_snapshot_def store_put_def new_admission_def num_eq_def upd_handle_def current_execution_epoch_def
  new_registry_def new_stop_guard_def new_dispatcher_def loopback_address Let_def

lemmas ex_open_eval = ex_open_def ex_sys_def ex_env_def ex_transports_def ex_transport_def ex_capability_def ex_defs open_eval

lemma ex_open_succeeds: "\<not> isl (fst (ex_open {} (\<lambda>_. True)))"
  by (simp add: ex_open_eval)

lemma ex_open_crashes: "isl (fst (ex_open {L_ready} (\<lambda>_. True)))"
  by (simp add: ex_open_eval)

subsection \<open>Opening\<close>



text \<open>C9: A successful open leaves one owner: the session's fenced guard token holds the target, the
  durable record of the target is exactly the returned session, READY, with endpoints that passed the
  loopback gate, and the session's admission handle is a PROMOTED live binding of the target.\<close>

theorem opened_session_owns_target:
  assumes "open_session transports env req recovery s = (Inr ses, s')" and "quiet env" and "oe_fs_ok env W_opening"
    and "guard_ok (sy_guard s)" and "leases_ok (sy_leases s)" and "adm_ok (sy_admission s)"
  shows "ts_target_key ses = req_target_key req \<and> record_state ses = RS_READY
    \<and> (\<exists>tok. sg_holders (sy_guard s') (req_target_key req) = Some tok \<and> sy_tokens s' (session_id ses) = Some tok)
    \<and> read_record (req_target_key req) (sy_registry s') = Inr (Some ses)
    \<and> (\<exists>h. sy_handles s' (session_id ses) = Some h \<and> h \<in> set (bindings (sy_admission s') (req_target_key req))
          \<and> ah_state (handle_of (sy_admission s') h) = PROMOTED)
    \<and> (\<forall>e. Some e \<in> {console_endpoint ses, rsp_endpoint ses} \<longrightarrow> assert_loopback_endpoint (oe_mapped_aware env) e = Inr ())"
  using open_success [OF assms]
  by (auto simp: ready_opened_def opened_def assert_endpoints_Inr)

theorem opened_session_owns_target_witness:
  "\<exists>tok. sg_holders (sy_guard (snd (ex_open {} (\<lambda>_. True)))) ex_key = Some tok"
proof -
  obtain ses s' where run: "ex_open {} (\<lambda>_. True) = (Inr ses, s')"
    using ex_open_succeeds by (cases "ex_open {} (\<lambda>_. True)"; cases "fst (ex_open {} (\<lambda>_. True))") auto
  have "req_target_key (ex_request 1) = ex_key"
    by (simp add: ex_request_def)
  then show ?thesis
    using opened_session_owns_target [OF run [unfolded ex_open_def] ex_env_quiet _ ex_sys_ok(1-3)] run
    by (auto simp: ex_env_def)
qed

text \<open>While the target's stop-capable guard is held, every open of the target fails: two sessions
  are never stop-capable on one target at a time.\<close>

theorem held_target_refuses_open:
  assumes "sg_holders (sy_guard s) (req_target_key req) \<noteq> None" and "quiet env"
  shows "isl (fst (open_session transports env req recovery s))"
  by (rule open_refused_while_held [OF assms])

theorem held_target_refuses_open_witness:
  "isl (fst (open_session ex_transports (ex_env {} (\<lambda>_. True)) (ex_request 1) False
      (ex_sys\<lparr>sy_guard := snd (guard_acquire ex_key ''other'' new_stop_guard)\<rparr>)))"
  by (rule held_target_refuses_open [OF _ ex_env_quiet])
    (simp add: guard_acquire_def new_stop_guard_def ex_request_def Let_def)

subsection \<open>Ending a session\<close>

text \<open>Once the CLOSING record is written, closing a session gives up its guard token, its lease
  token and its table entries whatever the provider's close, admission or a later durable operation
  raises.\<close>

theorem close_gives_up_everything:
  assumes "record_by_session_id sid s = Inr (Some rec)" and "transports (ts_provider rec) = Some tp" and "ok W_closing"
    and "guard_ok (sy_guard s)" and "close_session transports ok sid force s = (r, s')"
  shows "sy_tokens s' sid = None \<and> sy_handles s' sid = None
    \<and> (\<forall>t. sy_tokens s sid = Some t \<longrightarrow> sg_holders (sy_guard s') (ts_target_key rec) \<noteq> Some t)
    \<and> (\<forall>l. console_lease_token rec = Some l \<longrightarrow> lease_holder_of (sy_leases s') (ts_target_key rec) \<noteq> Some l)"
  using close_releases [where transports = transports and force = force and ok = ok and sid = sid and s = s and rec = rec
      and tp = tp, OF assms(1-4)] assms(5) by simp

text \<open>A session that is open, as its record, its token and its handle say.\<close>

definition ex_token :: guard_token where
  "ex_token = \<lparr>gt_target_key = ex_key, gt_fence = 1, gt_secret = ''g0''\<rparr>"

definition ex_live :: sys where
  "ex_live = ex_sys\<lparr>sy_admission := ex_opened, sy_guard := snd (guard_acquire ex_key ''g0'' new_stop_guard),
     sy_registry := write_record (ex_session ''s0'' 1 HALTED) (new_registry False),
     sy_tokens := [''s0'' \<mapsto> ex_token], sy_handles := [''s0'' \<mapsto> 0],
     sy_dispatcher := Some (subscribe ex_key ''s0'' 0 new_dispatcher),
     sy_subscribers := [\<lparr>sb_session = ex_session ''s0'' 1 HALTED,
        sb_state = empty_open_state\<lparr>os_guard_token := Some ex_token, os_session_id := Some ''s0'',
          os_backend_pid := Some 4711, os_admission_handle := Some 0\<rparr>, sb_killed = False\<rparr>]\<rparr>"

lemma ex_live_facts:
  "record_by_session_id ''s0'' ex_live = Inr (Some (ex_session ''s0'' 1 HALTED))"
  "ts_target_key (ex_session sid g st) = ex_key" "ts_provider (ex_session sid g st) = ''qemu-gdbstub''" "session_id (ex_session sid g st) = sid"
  "guard_ok (sy_guard ex_live)" "adm_ok (sy_admission ex_live)" "sy_tokens ex_live ''s0'' = Some ex_token"
  "sg_holders (sy_guard ex_live) ex_key = Some ex_token" "read_record ex_key (sy_registry ex_live) = Inr (Some (ex_session ''s0'' 1 HALTED))"
  by (simp_all add: ex_live_def record_by_session_id_def list_records_def write_record_def new_registry_def
      ex_session_def guard_acquire_def new_stop_guard_def guard_ok_def Let_def reachable_ok ex_reachable ex_token_def read_record_def)

theorem close_gives_up_everything_witness:
  "sg_holders (sy_guard (snd (close_session ex_transports (\<lambda>op. op \<noteq> W_tombstone) ''s0'' False ex_live))) ex_key \<noteq> Some ex_token"
  using close_gives_up_everything [OF ex_live_facts(1) _ _ ex_live_facts(5) prod.collapse [symmetric], of ex_transports ex_transport
      "\<lambda>op. op \<noteq> W_tombstone" False] ex_live_facts(7)
  by (simp add: ex_live_facts ex_transports_def)

text \<open>A forced release gives up the guard token, the lease token and the table entries of a session
  in the same way, without calling the provider.\<close>

theorem force_release_gives_up_everything:
  assumes "record_by_session_id sid s = Inr (Some rec)" and "guard_ok (sy_guard s)"
    and "force_release ok sid s = (r, s')"
  shows "sy_tokens s' sid = None \<and> sy_handles s' sid = None
    \<and> (\<forall>t. sy_tokens s sid = Some t \<longrightarrow> sg_holders (sy_guard s') (ts_target_key rec) \<noteq> Some t)
    \<and> (\<forall>l. console_lease_token rec = Some l \<longrightarrow> lease_holder_of (sy_leases s') (ts_target_key rec) \<noteq> Some l)"
  using force_release_releases [where ok = ok, OF assms(1,2)] assms(3) by (metis snd_conv)

theorem force_release_gives_up_everything_witness:
  "sg_holders (sy_guard (snd (force_release (\<lambda>_. True) ''s0'' ex_live :: (unit open_error, unit) result \<times> sys))) ex_key \<noteq> Some ex_token"
proof -
  obtain r s' where run: "(force_release (\<lambda>_. True) ''s0'' ex_live :: (unit open_error, unit) result \<times> sys) = (r, s')"
    by (rule prod.exhaust)
  then show ?thesis
    using force_release_gives_up_everything [OF ex_live_facts(1,5) run] ex_live_facts(7) by (simp add: ex_live_facts)
qed

text \<open>C10: A lifecycle invalidation that closes the target ends its subscribed session even if the
  worker that reaps the backend wedges: the session's guard and lease tokens hold nothing, its
  entries and its binding are gone and the target is closed. If the worker finishes, the durable
  record is gone too; if it wedges, the record stays on disk for the next reconciliation.\<close>

theorem invalidation_ends_session:
  assumes "adm_ok (sy_admission s)" and "guard_ok (sy_guard s)"
    and "\<not> is_stale_lifecycle_close (ev_target_key ev) gen (sy_admission s)"
    and "lc_subscribers d (ev_target_key ev) = [(n, i)]" and "i < length (sy_subscribers s)"
    and "(ev_target_key ev, n, i) \<notin> set (lc_overdue d)"
    and "sb_session (sy_subscribers s ! i) = ses" and "sb_state (sy_subscribers s ! i) = st" and "\<not> sb_killed (sy_subscribers s ! i)"
    and "ts_target_key ses = ev_target_key ev" and "transports (ts_provider ses) = Some tp"
    and "os_admission_handle st = Some h" and "h \<in> set (bindings (sy_admission s) (ev_target_key ev))"
    and "read_record (ev_target_key ev) (sy_registry s) = Inr (Some rec)" and "session_id rec = session_id ses"
    and "ok D_subscriber"
    and "invalidate_lifecycle alive (invalidate_worker transports ok wedges) (force_drop_worker ok) ev d gen True s = (r, s')"
  shows "session_gone ses st s' \<and> bindings (sy_admission s') (ev_target_key ev) = remove1 h (bindings (sy_admission s) (ev_target_key ev))
    \<and> closed_at (sy_admission s') (ev_target_key ev) \<noteq> None
    \<and> read_record (ev_target_key ev) (sy_registry s') = (if wedges i then Inr (Some rec) else Inr None)"
proof -
  have live: "\<not> ((ev_target_key ev, n, i) \<in> set (lc_overdue d) \<and> alive (ev_target_key ev, n, i))"
    using assms(6) by simp
  note t = invalidation_tears_down [where transports = transports and tp = tp and h = h and alive = alive and ok = ok
      and wedges = wedges and s = s and i = i and ev = ev and d = d and gen = gen and n = n, OF assms(1-5) live, unfolded assms(7,8), OF assms(10-13) assms(17)]
  show ?thesis
    using t(1-3) t(4) [of rec] t(5) assms(9,14-16) by (auto split: if_splits)
qed

definition ex_crash :: "(nat \<Rightarrow> bool) \<Rightarrow> unit open_error invalidation_result \<times> sys" where
  "ex_crash wedges = invalidate_lifecycle (\<lambda>_. True) (invalidate_worker ex_transports (\<lambda>_. True) wedges) (force_drop_worker (\<lambda>_. True))
     \<lparr>ev_target_key = ex_key, ev_kind = LK_CRASHED\<rparr> (subscribe ex_key ''s0'' 0 new_dispatcher) 1 True ex_live"

theorem invalidation_ends_session_witness:
  "bindings (sy_admission (snd (ex_crash (\<lambda>_. True)))) ex_key = []
   \<and> sg_holders (sy_guard (snd (ex_crash (\<lambda>_. True)))) ex_key \<noteq> Some ex_token"
proof -
  obtain r s' where run: "ex_crash (\<lambda>_. True) = (r, s')"
    by (rule prod.exhaust)
  have a: "sy_admission ex_live = ex_opened"
    by (simp add: ex_live_def)
  have "bindings ex_opened ex_key = [0]" "\<not> is_stale_lifecycle_close ex_key 1 ex_opened"
    by code_simp+
  moreover have "session_gone (ex_session ''s0'' 1 HALTED) (sb_state (sy_subscribers ex_live ! 0)) s' \<and>
      bindings (sy_admission s') ex_key = remove1 0 (bindings (sy_admission ex_live) ex_key)"
    using invalidation_ends_session [OF ex_live_facts(6,5) _ _ _ _ _ refl _ _ _ _ _ _ _ _ run [unfolded ex_crash_def],
        of "''s0''" 0 "ex_session ''s0'' 1 HALTED" ex_transport 0 "ex_session ''s0'' 1 HALTED"] calculation
    by (simp add: a ex_live_facts ex_transports_def subscribe_def new_dispatcher_def) (simp add: ex_live_def)
  ultimately show ?thesis
    using run by (simp add: a session_gone_def ex_live_facts Let_def) (simp add: ex_live_def)
qed

subsection \<open>Where a failure leaves something behind\<close>

text \<open>The open publishes the session id to its unwind state only after the OPENING record is
  written, but registers the guard token under the id before: when that first write fails, the
  rollback releases the guard and leaves the token in the transaction's table for good.\<close>

theorem opening_write_failure_leaks_token:
  "isl (fst (ex_open {} (\<lambda>op. op \<noteq> W_opening)))
   \<and> sg_holders (sy_guard (snd (ex_open {} (\<lambda>op. op \<noteq> W_opening)))) ex_key = None
   \<and> sy_tokens (snd (ex_open {} (\<lambda>op. op \<noteq> W_opening))) ''s0'' = Some ex_token"
  by (simp add: ex_open_eval ex_token_def rollback_open_def best_effort_reap_def release_lease_def release_guard_def
      guard_release_def mgr_release_def lease_release_def empty_open_state_def rollback_def dispose_def)

text \<open>A forced release on a target that admission has not closed forgets the session's handle and
  leaves its binding in the table: confirming the reclamation is refused, the refusal is suppressed,
  and no operation of the transaction can reach the binding any more.\<close>

theorem force_release_strands_binding:
  assumes "record_by_session_id sid s = Inr (Some rec)" and "sy_handles s sid = Some h"
    and "closed_at (sy_admission s) (ah_target_key (handle_of (sy_admission s) h)) = None"
    and "force_release ok sid s = (r, s')"
  shows "sy_admission s' = sy_admission s \<and> sy_handles s' sid = None"
proof -
  let ?s2 = "pop_token (ts_target_key rec) sid (release_lease (ts_target_key rec) (console_lease_token rec) s)"
  have a: "sy_admission ?s2 = sy_admission s" "sy_handles ?s2 = sy_handles s"
    by (simp_all add: pop_token_def)
  have c: "confirm_and_abandon h (?s2\<lparr>sy_handles := (sy_handles s)(sid := None)\<rparr>) = ?s2\<lparr>sy_handles := (sy_handles s)(sid := None)\<rparr>"
    using assms(3) by (simp add: confirm_and_abandon_def on_admission_def confirm_reaped_def Let_def a)
  show ?thesis
    using assms(1,2,4) a
    by (auto simp: force_release_def Let_def c fs_delete_def unsubscribe_session_def split: sum.splits if_splits prod.splits)
qed

theorem force_release_strands_binding_witness:
  "0 \<in> set (bindings (sy_admission (snd (force_release (\<lambda>_. True) ''s0'' ex_live :: (unit open_error, unit) result \<times> sys))) ex_key)"
proof -
  obtain r s' where run: "(force_release (\<lambda>_. True) ''s0'' ex_live :: (unit open_error, unit) result \<times> sys) = (r, s')"
    by (rule prod.exhaust)
  have "closed_at ex_opened (ah_target_key (handle_of ex_opened 0)) = None" "0 \<in> set (bindings ex_opened ex_key)"
    by code_simp+
  moreover have "sy_handles ex_live ''s0'' = Some 0" "sy_admission ex_live = ex_opened"
    by (simp_all add: ex_live_def)
  ultimately show ?thesis
    using force_release_strands_binding [OF ex_live_facts(1) _ _ run, of 0] run by simp
qed

end
