(* ===== verification/SessionGuard.thy ===== *)
theory SessionGuard
  imports Prelude TransportState
begin

text \<open>
  Models \<open>SessionGuard\<close> of \<open>src/kdive/seams/guard.py\<close>, the stateless policy run around
  an interactive debug session. The preconditions, the teardown steps and the three callbacks
  of \<open>teardown\<close> belong to the caller: they are parameters, functions of the state \<open>'w\<close> of
  the world they act on. An exception is carried as the value \<open>repr(exc)\<close> of type \<open>'x\<close>.
\<close>

datatype teardown_reason = Ended | Attach_error

record guard_context =
  gc_target_key :: target_key
  gc_generation :: int
  gc_session_id :: "string option"
  gc_reason :: teardown_reason

record 'x teardown_report =
  step_errors :: "string \<rightharpoonup> 'x"
  close_error :: "'x option"
  resume_ok :: bool
  resume_detail :: string

text \<open>An effect of the caller: it may raise, and what it did before stays.\<close>

type_synonym ('w, 'x, 'a) effect = "'w \<Rightarrow> ('x, 'a) result \<times> 'w"

fun run_preconditions :: "(guard_context \<Rightarrow> ('w, 'x, unit) effect) list \<Rightarrow> guard_context \<Rightarrow> ('w, 'x, unit) effect" where
  "run_preconditions [] ctx w = (Inr (), w)"
| "run_preconditions (p # ps) ctx w =
     (case p ctx w of (Inl e, w') \<Rightarrow> (Inl e, w') | (Inr u, w') \<Rightarrow> run_preconditions ps ctx w')"

definition enter :: "(guard_context \<Rightarrow> ('w, 'x, unit) effect) list \<Rightarrow> guard_context \<Rightarrow> ('w, 'x, unit) effect" where
  "enter pre_attach ctx w = run_preconditions pre_attach ctx w"

fun verify_attached ::
  "(guard_context \<Rightarrow> transport_session \<Rightarrow> ('w, 'x, unit) effect) list
     \<Rightarrow> guard_context \<Rightarrow> transport_session \<Rightarrow> ('w, 'x, unit) effect" where
  "verify_attached [] ctx ses w = (Inr (), w)"
| "verify_attached (p # ps) ctx ses w =
     (case p ctx ses w of (Inl e, w') \<Rightarrow> (Inl e, w') | (Inr u, w') \<Rightarrow> verify_attached ps ctx ses w')"

text \<open>The loop over \<open>reversed(self._teardown_steps)\<close>: an error is recorded under the step's name.\<close>

fun run_steps ::
  "(string \<times> (guard_context \<Rightarrow> ('w, 'x, unit) effect)) list \<Rightarrow> guard_context
     \<Rightarrow> (string \<rightharpoonup> 'x) \<Rightarrow> 'w \<Rightarrow> (string \<rightharpoonup> 'x) \<times> 'w" where
  "run_steps [] ctx errs w = (errs, w)"
| "run_steps ((name, step) # ss) ctx errs w =
     (case step ctx w of
        (Inl e, w') \<Rightarrow> run_steps ss ctx (errs(name \<mapsto> e)) w'
      | (Inr u, w') \<Rightarrow> run_steps ss ctx errs w')"

definition halted_detail :: string where
  "halted_detail = ''durable record still reports HALTED with no owner''"

definition resume_holds :: "('w, 'x, transport_session option) effect \<Rightarrow> ('w, 'x, bool \<times> string) effect" where
  "resume_holds read_rec w =
     (case read_rec w of
        (Inl e, w') \<Rightarrow> (Inl e, w')
      | (Inr None, w') \<Rightarrow> (Inr (True, ''''), w')
      | (Inr (Some r), w') \<Rightarrow>
          (Inr (if execution_state r = HALTED then (False, halted_detail) else (True, '''')), w'))"

definition teardown ::
  "(string \<times> (guard_context \<Rightarrow> ('w, 'x, unit) effect)) list \<Rightarrow> guard_context
     \<Rightarrow> ('w, 'x, unit) effect \<Rightarrow> ('w, 'x, transport_session option) effect \<Rightarrow> ('w, 'x, unit) effect
     \<Rightarrow> ('w, 'x, 'x teardown_report) effect" where
  "teardown steps ctx close read_rec force_reap w =
     (let (errs, w1) = run_steps (rev steps) ctx Map.empty w;
          (close_r, w2) = close w1;
          close_err = (case close_r of Inl e \<Rightarrow> Some e | Inr u \<Rightarrow> None);
          report = (\<lambda>ok detail. \<lparr>step_errors = errs, close_error = close_err,
                                  resume_ok = ok, resume_detail = detail\<rparr>)
      in case resume_holds read_rec w2 of
           (Inl e, w3) \<Rightarrow> (Inl e, w3)
         | (Inr (ok, detail), w3) \<Rightarrow>
             (if ok then (Inr (report ok detail), w3)
              else case resume_holds read_rec (snd (force_reap w3)) of
                     (Inl e, w4) \<Rightarrow> (Inl e, w4)
                   | (Inr (ok', detail'), w4) \<Rightarrow> (Inr (report ok' detail'), w4)))"

lemma run_preconditions_ok_iff:
  "fst (run_preconditions (ps @ qs) ctx w) = Inr () \<longleftrightarrow>
     fst (run_preconditions ps ctx w) = Inr () \<and>
     fst (run_preconditions qs ctx (snd (run_preconditions ps ctx w))) = Inr ()"
  by (induction ps arbitrary: w) (auto split: prod.splits sum.splits)

text \<open>Every step runs, whatever the others do.\<close>

lemma run_steps_world:
  "snd (run_steps ss ctx errs w) = foldl (\<lambda>w (n, st). snd (st ctx w)) w ss"
  by (induction ss arbitrary: errs w) (auto split: prod.splits sum.splits)

lemma run_steps_errors_keep:
  "errs n \<noteq> None \<Longrightarrow> fst (run_steps ss ctx errs w) n \<noteq> None"
  by (induction ss arbitrary: errs w) (auto split: prod.splits sum.splits)

lemma run_steps_snoc_error:
  assumes "fst (st ctx (snd (run_steps ss ctx errs w))) = Inl e"
  shows "fst (run_steps (ss @ (n, st) # ss') ctx errs w) n \<noteq> None"
  using assms
proof (induction ss arbitrary: errs w)
  case Nil
  then obtain w' where "st ctx w = (Inl e, w')"
    by (cases "st ctx w") simp
  then show ?case
    using run_steps_errors_keep [of "errs(n \<mapsto> e)" n ss' ctx w'] by simp
next
  case (Cons a ss)
  then show ?case
    by (cases a) (auto split: prod.splits sum.splits)
qed

text \<open>A reader that never raises: a reader that raises is the one thing \<open>teardown\<close> lets through.\<close>

definition total_read :: "('w, 'x, 'a) effect \<Rightarrow> bool" where
  "total_read f \<longleftrightarrow> (\<forall>w. \<not> isl (fst (f w)))"

definition not_halted :: "transport_session option \<Rightarrow> bool" where
  "not_halted r = (case r of None \<Rightarrow> True | Some rec \<Rightarrow> execution_state rec \<noteq> HALTED)"

lemma resume_holds_eq:
  "resume_holds f w =
     (case f w of (Inl e, w') \<Rightarrow> (Inl e, w')
      | (Inr r, w') \<Rightarrow> (Inr (not_halted r, if not_halted r then '''' else halted_detail), w'))"
  by (auto simp: resume_holds_def not_halted_def split: prod.splits sum.splits option.splits)

lemma total_read_cases:
  assumes "total_read f"
  obtains r w' where "f w = (Inr r, w')"
  using assms that by (cases "f w") (metis fst_conv isl_def sum.exhaust total_read_def)

text \<open>The world after the steps, all of which run, and after \<open>close\<close>.\<close>

definition torn_down ::
  "(string \<times> (guard_context \<Rightarrow> ('w, 'x, unit) effect)) list \<Rightarrow> guard_context
     \<Rightarrow> ('w, 'x, unit) effect \<Rightarrow> 'w \<Rightarrow> 'w" where
  "torn_down steps ctx close w = snd (close (foldr (\<lambda>(n, st) w. snd (st ctx w)) steps w))"

lemma run_steps_rev:
  "snd (run_steps (rev ss) ctx errs w) = foldr (\<lambda>(n, st) w. snd (st ctx w)) ss w"
  by (simp add: run_steps_world foldr_conv_foldl split_def)

text \<open>
  With a total reader teardown always reports. The report is \<open>resume_ok\<close> exactly when the last
  record read was not HALTED, and \<open>force_reap\<close> ran exactly when the first one was.
\<close>

lemma teardown_reports:
  assumes "total_read read_rec"
  shows "\<exists>r0 w3. read_rec (torn_down steps ctx close w) = (Inr r0, w3) \<and>
     (\<exists>r rep w'. teardown steps ctx close read_rec force_reap w = (Inr rep, w')
        \<and> (if not_halted r0 then r = r0 \<and> w' = w3 else read_rec (snd (force_reap w3)) = (Inr r, w'))
        \<and> resume_ok rep = not_halted r)"
proof -
  obtain errs w1 where st: "run_steps (rev steps) ctx Map.empty w = (errs, w1)"
    by (cases "run_steps (rev steps) ctx Map.empty w")
  obtain cr w2 where cl: "close w1 = (cr, w2)"
    by (cases "close w1")
  have w2: "torn_down steps ctx close w = w2"
    using run_steps_rev [of steps ctx Map.empty w] st cl by (simp add: torn_down_def)
  obtain r0 w3 where r0: "read_rec w2 = (Inr r0, w3)"
    by (rule total_read_cases [OF assms])
  obtain r1 w4 where r1: "read_rec (snd (force_reap w3)) = (Inr r1, w4)"
    by (rule total_read_cases [OF assms])
  show ?thesis
    by (cases "not_halted r0") (simp_all add: w2 teardown_def st cl r0 r1 resume_holds_eq)
qed

text \<open>The steps run in reverse order, and each failing step is in the report.\<close>

lemma teardown_step_reported:
  assumes "teardown (pre @ (n, st) # post) ctx close read_rec force_reap w = (Inr rep, w')"
    and "fst (st ctx (foldr (\<lambda>(n, st) w. snd (st ctx w)) post w)) = Inl e"
  shows "step_errors rep n \<noteq> None"
proof -
  have "fst (run_steps (rev (pre @ (n, st) # post)) ctx Map.empty w) n \<noteq> None"
    using run_steps_snoc_error [of st ctx "rev post" Map.empty w e n "rev pre"] assms(2)
    by (simp add: run_steps_rev)
  then show ?thesis
    using assms(1) by (auto simp: teardown_def Let_def split: prod.splits sum.splits if_splits)
qed

text \<open>A reader that raises makes teardown raise: the exception of \<open>read_record\<close> is not caught.\<close>

lemma teardown_read_error:
  assumes "read_rec (torn_down steps ctx close w) = (Inl e, w3)"
  shows "teardown steps ctx close read_rec force_reap w = (Inl e, w3)"
proof -
  obtain errs w1 where st: "run_steps (rev steps) ctx Map.empty w = (errs, w1)"
    by (cases "run_steps (rev steps) ctx Map.empty w")
  obtain cr w2 where cl: "close w1 = (cr, w2)"
    by (cases "close w1")
  have "torn_down steps ctx close w = w2"
    using run_steps_rev [of steps ctx Map.empty w] st cl by (simp add: torn_down_def)
  then show ?thesis
    using assms by (simp add: teardown_def st cl resume_holds_def)
qed

end
