(* ===== verification/Watchdog.thy ===== *)
theory Watchdog
  imports SessionGuard
begin

text \<open>
  Models \<open>src/kdive/seams/watchdog.py\<close>: the policy that relaxes the kernel's lockup detectors
  before an interactive stop and puts the operator's values back. The channel to the target is a
  parameter (\<open>read_knob\<close>, \<open>write_knob\<close>, effects on a world \<open>'w\<close> that may raise), since no
  concrete one is in the source. Calls of one session are taken one after the other.
\<close>

datatype watchdog_arch = WD_X86_64 | WD_PPC64LE

datatype knob_outcome = RELAXED | ABSENT | SKIPPED | WRITE_FAILED

record watchdog_knob =
  kn_name :: string
  kn_relaxed_value :: string
  kn_out_of_band :: bool

definition generic_lockup_knobs :: "watchdog_knob list" where
  "generic_lockup_knobs =
     map (\<lambda>n. \<lparr>kn_name = n, kn_relaxed_value = ''0'', kn_out_of_band = False\<rparr>)
       [''kernel.nmi_watchdog'', ''kernel.watchdog'', ''kernel.watchdog_thresh'',
        ''kernel.softlockup_panic'', ''kernel.hardlockup_panic'']"

definition knobs_for_arch :: "watchdog_arch \<Rightarrow> watchdog_knob list" where
  "knobs_for_arch a =
     (if a = WD_PPC64LE
      then generic_lockup_knobs
             @ [\<lparr>kn_name = ''phyp_partition_watchdog'', kn_relaxed_value = ''disabled'', kn_out_of_band = True\<rparr>]
      else generic_lockup_knobs)"

record captured_state =
  ca_prior :: "string \<rightharpoonup> string"
  ca_relaxed :: "string \<rightharpoonup> bool"

definition new_captured_state :: captured_state where
  "new_captured_state = \<lparr>ca_prior = Map.empty, ca_relaxed = Map.empty\<rparr>"

datatype watchdog_error = No_session_id | Key_error | Restore_failed "string \<rightharpoonup> bool"

text \<open>The channel: \<open>read_knob(name)\<close> and \<open>write_knob(name, value).ok\<close>.\<close>

record ('w, 'x) knob_channel =
  read_knob :: "string \<Rightarrow> 'w \<Rightarrow> ('x, string option) result \<times> 'w"
  write_knob :: "string \<Rightarrow> string \<Rightarrow> 'w \<Rightarrow> ('x, bool) result \<times> 'w"

definition safe_read :: "('w, 'x) knob_channel \<Rightarrow> string \<Rightarrow> 'w \<Rightarrow> string option \<times> 'w" where
  "safe_read ch n w = (case read_knob ch n w of (Inl e, w') \<Rightarrow> (None, w') | (Inr v, w') \<Rightarrow> (v, w'))"

definition safe_write :: "('w, 'x) knob_channel \<Rightarrow> string \<Rightarrow> string \<Rightarrow> 'w \<Rightarrow> bool \<times> 'w" where
  "safe_write ch n v w = (case write_knob ch n v w of (Inl e, w') \<Rightarrow> (False, w') | (Inr ok, w') \<Rightarrow> (ok, w'))"

text \<open>The loop of \<open>_first_relax\<close>, over the remaining knobs.\<close>

fun first_relax ::
  "('w, 'x) knob_channel \<Rightarrow> watchdog_knob list \<Rightarrow> (string \<rightharpoonup> knob_outcome) \<Rightarrow> captured_state \<Rightarrow> 'w
     \<Rightarrow> (string \<rightharpoonup> knob_outcome) \<times> captured_state \<times> 'w" where
  "first_relax ch [] outs ca w = (outs, ca, w)"
| "first_relax ch (k # ks) outs ca w =
     (if kn_out_of_band k then first_relax ch ks (outs(kn_name k \<mapsto> SKIPPED)) ca w
      else case safe_read ch (kn_name k) w of
        (None, w1) \<Rightarrow> first_relax ch ks (outs(kn_name k \<mapsto> ABSENT)) ca w1
      | (Some prior, w1) \<Rightarrow>
          (let (ok, w2) = safe_write ch (kn_name k) (kn_relaxed_value k) w1
           in first_relax ch ks (outs(kn_name k \<mapsto> (if ok then RELAXED else WRITE_FAILED)))
                (ca\<lparr>ca_prior := (ca_prior ca)(kn_name k \<mapsto> prior),
                    ca_relaxed := (ca_relaxed ca)(kn_name k \<mapsto> ok)\<rparr>) w2))"

fun reissue_relax ::
  "('w, 'x) knob_channel \<Rightarrow> watchdog_knob list \<Rightarrow> (string \<rightharpoonup> knob_outcome) \<Rightarrow> captured_state \<Rightarrow> 'w
     \<Rightarrow> (string \<rightharpoonup> knob_outcome) \<times> 'w" where
  "reissue_relax ch [] outs ca w = (outs, w)"
| "reissue_relax ch (k # ks) outs ca w =
     (if kn_out_of_band k then reissue_relax ch ks (outs(kn_name k \<mapsto> SKIPPED)) ca w
      else if ca_prior ca (kn_name k) = None then reissue_relax ch ks (outs(kn_name k \<mapsto> ABSENT)) ca w
      else (let (ok, w1) = safe_write ch (kn_name k) (kn_relaxed_value k) w
            in reissue_relax ch ks (outs(kn_name k \<mapsto> (if ok then RELAXED else WRITE_FAILED))) ca w1))"

type_synonym captures = "string \<rightharpoonup> captured_state"

definition relax ::
  "('w, 'x) knob_channel \<Rightarrow> watchdog_knob list \<Rightarrow> guard_context \<Rightarrow> captures \<Rightarrow> 'w
     \<Rightarrow> (watchdog_error, string \<rightharpoonup> knob_outcome) result \<times> captures \<times> 'w" where
  "relax ch knobs ctx caps w =
     (case gc_session_id ctx of
        None \<Rightarrow> (Inl No_session_id, caps, w)
      | Some sid \<Rightarrow>
          (case caps sid of
             None \<Rightarrow>
               (let (outs, ca, w') = first_relax ch knobs Map.empty new_captured_state w
                in (Inr outs, caps(sid \<mapsto> ca), w'))
           | Some ca \<Rightarrow>
               (let (outs, w') = reissue_relax ch knobs Map.empty ca w in (Inr outs, caps, w'))))"

text \<open>The loop of \<open>restore\<close>, over the remaining \<open>reversed(self._knobs)\<close>.\<close>

fun restore_knobs ::
  "('w, 'x) knob_channel \<Rightarrow> watchdog_knob list \<Rightarrow> (string \<rightharpoonup> bool) \<Rightarrow> captured_state \<Rightarrow> 'w
     \<Rightarrow> (watchdog_error, string \<rightharpoonup> bool) result \<times> 'w" where
  "restore_knobs ch [] restored ca w = (Inr restored, w)"
| "restore_knobs ch (k # ks) restored ca w =
     (if kn_out_of_band k \<or> ca_relaxed ca (kn_name k) \<noteq> Some True then restore_knobs ch ks restored ca w
      else case ca_prior ca (kn_name k) of
        None \<Rightarrow> (Inl Key_error, w)
      | Some prior \<Rightarrow>
          (let (ok, w1) = safe_write ch (kn_name k) prior w
           in restore_knobs ch ks (restored(kn_name k \<mapsto> ok)) ca w1))"

record restore_report =
  rr_restored :: "string \<rightharpoonup> bool"
  rr_noop :: bool

definition restore ::
  "('w, 'x) knob_channel \<Rightarrow> watchdog_knob list \<Rightarrow> guard_context \<Rightarrow> captures \<Rightarrow> 'w
     \<Rightarrow> (watchdog_error, restore_report) result \<times> captures \<times> 'w" where
  "restore ch knobs ctx caps w =
     (case gc_session_id ctx of
        None \<Rightarrow> (Inr \<lparr>rr_restored = Map.empty, rr_noop = True\<rparr>, caps, w)
      | Some sid \<Rightarrow>
          (case caps sid of
             None \<Rightarrow> (Inr \<lparr>rr_restored = Map.empty, rr_noop = True\<rparr>, caps(sid := None), w)
           | Some ca \<Rightarrow>
               (case restore_knobs ch (rev knobs) Map.empty ca w of
                  (Inl e, w') \<Rightarrow> (Inl e, caps(sid := None), w')
                | (Inr m, w') \<Rightarrow> (Inr \<lparr>rr_restored = m, rr_noop = False\<rparr>, caps(sid := None), w'))))"

definition failures :: "restore_report \<Rightarrow> string \<rightharpoonup> bool" where
  "failures r = (\<lambda>n. if rr_restored r n = Some False then Some False else None)"

text \<open>\<open>WatchdogRestoreStep.teardown\<close>: the failed names are the keys of the map.\<close>

definition restore_step ::
  "('w, 'x) knob_channel \<Rightarrow> watchdog_knob list \<Rightarrow> guard_context \<Rightarrow> captures \<times> 'w
     \<Rightarrow> (watchdog_error, unit) result \<times> (captures \<times> 'w)" where
  "restore_step ch knobs ctx s =
     (case restore ch knobs ctx (fst s) (snd s) of
        (Inl e, s') \<Rightarrow> (Inl e, s')
      | (Inr r, s') \<Rightarrow> (if failures r \<noteq> Map.empty then (Inl (Restore_failed (failures r)), s') else (Inr (), s')))"

subsection \<open>Restoring the baseline\<close>

text \<open>
  What a channel promises: \<open>val\<close> reads the target's knobs, a read reports the value and changes
  nothing, a write that reports success sets the knob, one that does not leaves all as it was.
\<close>

definition channel_ok :: "('w \<Rightarrow> string \<Rightarrow> string option) \<Rightarrow> ('w, 'x) knob_channel \<Rightarrow> bool" where
  "channel_ok val ch \<longleftrightarrow>
     (\<forall>n w. val (snd (read_knob ch n w)) = val w \<and>
        (\<forall>v. fst (read_knob ch n w) = Inr (Some v) \<longrightarrow> val w n = Some v)) \<and>
     (\<forall>n v w. val (snd (write_knob ch n v w)) =
        (if fst (write_knob ch n v w) = Inr True then (val w)(n \<mapsto> v) else val w))"

lemma safe_read_val:
  assumes "channel_ok val ch" and "safe_read ch n w = (r, w')"
  shows "val w' = val w" and "r = Some v \<Longrightarrow> val w n = Some v"
proof -
  obtain x w1 where x: "read_knob ch n w = (x, w1)"
    by (cases "read_knob ch n w")
  have "val w1 = val w \<and> (\<forall>v. x = Inr (Some v) \<longrightarrow> val w n = Some v)"
    using assms(1) x unfolding channel_ok_def by (metis fst_conv snd_conv)
  then show "val w' = val w" and "r = Some v \<Longrightarrow> val w n = Some v"
    using assms(2) by (auto simp: safe_read_def x split: sum.splits)
qed

lemma safe_write_val:
  assumes "channel_ok val ch" and "safe_write ch n v w = (ok, w')"
  shows "val w' = (if ok then (val w)(n \<mapsto> v) else val w)"
proof -
  obtain x w1 where x: "write_knob ch n v w = (x, w1)"
    by (cases "write_knob ch n v w")
  have "val w1 = (if x = Inr True then (val w)(n \<mapsto> v) else val w)"
    using assms(1) x unfolding channel_ok_def by (metis fst_conv snd_conv)
  then show ?thesis
    using assms(2) by (auto simp: safe_write_def x split: sum.splits)
qed

text \<open>
  \<open>baseline ca b cur\<close>: the target's values are \<open>cur\<close>, and the capture knows what to write to
  get the values \<open>b\<close> back.
\<close>

definition baseline :: "captured_state \<Rightarrow> (string \<rightharpoonup> string) \<Rightarrow> (string \<rightharpoonup> string) \<Rightarrow> bool" where
  "baseline ca b cur \<longleftrightarrow>
     (\<forall>n. (ca_relaxed ca n = Some True \<longrightarrow> ca_prior ca n = b n \<and> (\<exists>v. b n = Some v))
        \<and> (ca_relaxed ca n \<noteq> Some True \<longrightarrow> cur n = b n))"

definition in_band :: "watchdog_knob list \<Rightarrow> string set" where
  "in_band ks = kn_name ` {k \<in> set ks. \<not> kn_out_of_band k}"

lemma in_band_Cons [simp]:
  "in_band (k # ks) = (if kn_out_of_band k then in_band ks else insert (kn_name k) (in_band ks))"
  by (auto simp: in_band_def)

lemma first_relax_baseline:
  assumes "channel_ok val ch" and "first_relax ch ks outs ca w = (outs', ca', w')"
    and "distinct (map kn_name ks)" and "baseline ca b (val w)"
    and "\<forall>n \<in> kn_name ` set ks. ca_relaxed ca n = None"
    and "{n. ca_relaxed ca n = Some True} \<subseteq> A" and "in_band ks \<subseteq> A"
  shows "baseline ca' b (val w') \<and> {n. ca_relaxed ca' n = Some True} \<subseteq> A"
  using assms(2-)
proof (induction ks arbitrary: outs ca w)
  case Nil
  then show ?case by simp
next
  case (Cons k ks)
  show ?case
  proof (cases "kn_out_of_band k")
    case True
    with Cons show ?thesis by simp
  next
    case inband: False
    obtain r w1 where r: "safe_read ch (kn_name k) w = (r, w1)"
      by (cases "safe_read ch (kn_name k) w")
    note rv = safe_read_val [OF assms(1) r]
    show ?thesis
    proof (cases r)
      case None
      with Cons inband r rv show ?thesis by simp
    next
      case (Some v)
      obtain ok w2 where wr: "safe_write ch (kn_name k) (kn_relaxed_value k) w1 = (ok, w2)"
        by (cases "safe_write ch (kn_name k) (kn_relaxed_value k) w1")
      let ?ca = "ca\<lparr>ca_prior := (ca_prior ca)(kn_name k \<mapsto> v), ca_relaxed := (ca_relaxed ca)(kn_name k \<mapsto> ok)\<rparr>"
      have b: "baseline ?ca b (val w2)"
        using Cons.prems(3,4) safe_write_val [OF assms(1) wr] rv(1) rv(2) [OF Some]
        by (simp add: baseline_def)
      have run: "first_relax ch ks (outs(kn_name k \<mapsto> (if ok then RELAXED else WRITE_FAILED))) ?ca w2 = (outs', ca', w')"
        using Cons.prems(1) inband r Some wr by simp
      have dist: "distinct (map kn_name ks)" and A: "in_band ks \<subseteq> A"
        using Cons.prems(2,6) inband by simp_all
      have none: "\<forall>n \<in> kn_name ` set ks. ca_relaxed ?ca n = None"
      proof
        fix n assume "n \<in> kn_name ` set ks"
        then show "ca_relaxed ?ca n = None"
          using Cons.prems(2,4) by (cases "n = kn_name k") auto
      qed
      have sub: "{n. ca_relaxed ?ca n = Some True} \<subseteq> A"
        using Cons.prems(5,6) inband by auto
      show ?thesis
        by (rule Cons.IH [OF run dist b none sub A])
    qed
  qed
qed

lemma reissue_relax_baseline:
  assumes "channel_ok val ch" and "reissue_relax ch ks outs ca w = (outs', w')"
    and "baseline ca b (val w)" and "\<forall>n. ca_prior ca n \<noteq> None \<longrightarrow> ca_relaxed ca n = Some True"
  shows "baseline ca b (val w')"
  using assms(2,3)
proof (induction ks arbitrary: outs w)
  case Nil
  then show ?case by simp
next
  case (Cons k ks)
  show ?case
  proof (cases "kn_out_of_band k \<or> ca_prior ca (kn_name k) = None")
    case True
    then consider "reissue_relax ch ks (outs(kn_name k \<mapsto> SKIPPED)) ca w = (outs', w')"
      | "reissue_relax ch ks (outs(kn_name k \<mapsto> ABSENT)) ca w = (outs', w')"
      using Cons.prems(1) by (cases "kn_out_of_band k") simp_all
    then show ?thesis
      by cases (rule Cons.IH [OF _ Cons.prems(2)], assumption)+
  next
    case writes: False
    obtain ok w1 where wr: "safe_write ch (kn_name k) (kn_relaxed_value k) w = (ok, w1)"
      by (cases "safe_write ch (kn_name k) (kn_relaxed_value k) w")
    have "ca_relaxed ca (kn_name k) = Some True"
      using writes assms(4) by blast
    then have "baseline ca b (val w1)"
      using Cons.prems(2) safe_write_val [OF assms(1) wr] by (cases ok) (simp_all add: baseline_def)
    moreover have "reissue_relax ch ks (outs(kn_name k \<mapsto> (if ok then RELAXED else WRITE_FAILED))) ca w1 = (outs', w')"
      using Cons.prems(1) writes wr by auto
    ultimately show ?thesis
      by (rule Cons.IH [rotated])
  qed
qed

lemma restore_knobs_baseline:
  assumes "channel_ok val ch" and "restore_knobs ch ks m ca w = (r, w')"
    and "\<forall>n. ca_relaxed ca n = Some True \<longrightarrow> ca_prior ca n = b n \<and> b n \<noteq> None"
    and "\<forall>n. val w n = b n \<or> m n = Some False \<or> (ca_relaxed ca n = Some True \<and> n \<in> in_band ks)"
  shows "\<exists>m'. r = Inr m' \<and> (\<forall>n. val w' n = b n \<or> m' n = Some False)"
  using assms(2,4)
proof (induction ks arbitrary: m w)
  case Nil
  then show ?case by (auto simp: in_band_def)
next
  case (Cons k ks)
  show ?case
  proof (cases "kn_out_of_band k \<or> ca_relaxed ca (kn_name k) \<noteq> Some True")
    case True
    with Cons.prems have "restore_knobs ch ks m ca w = (r, w')"
      by (auto split: if_splits)
    then show ?thesis
      by (rule Cons.IH) (use Cons.prems(2) True in \<open>auto split: if_splits\<close>)
  next
    case writes: False
    then obtain p where p: "ca_prior ca (kn_name k) = Some p" "b (kn_name k) = Some p"
      using assms(3) by (metis not_Some_eq)
    obtain ok w1 where wr: "safe_write ch (kn_name k) p w = (ok, w1)"
      by (cases "safe_write ch (kn_name k) p w")
    have "restore_knobs ch ks (m(kn_name k \<mapsto> ok)) ca w1 = (r, w')"
      using Cons.prems(1) writes p wr by simp
    then show ?thesis
      by (rule Cons.IH) (use Cons.prems(2) writes p safe_write_val [OF assms(1) wr] in \<open>auto split: if_splits\<close>)
  qed
qed

text \<open>Relaxing a session any number of times, as the handlers do on each stop.\<close>

fun relax_times ::
  "nat \<Rightarrow> ('w, 'x) knob_channel \<Rightarrow> watchdog_knob list \<Rightarrow> guard_context \<Rightarrow> captures \<times> 'w \<Rightarrow> captures \<times> 'w" where
  "relax_times 0 ch knobs ctx s = s"
| "relax_times (Suc n) ch knobs ctx s = relax_times n ch knobs ctx (snd (relax ch knobs ctx (fst s) (snd s)))"

definition all_captured_relaxed :: "captured_state \<Rightarrow> bool" where
  "all_captured_relaxed ca \<longleftrightarrow> (\<forall>n. ca_prior ca n \<noteq> None \<longrightarrow> ca_relaxed ca n = Some True)"

lemma relax_times_baseline:
  assumes "channel_ok val ch" and "gc_session_id ctx = Some sid"
    and "caps sid = Some ca" and "baseline ca b (val w)" and "n = 0 \<or> all_captured_relaxed ca"
  shows "\<exists>w'. relax_times n ch knobs ctx (caps, w) = (caps, w') \<and> baseline ca b (val w')"
  using assms(4,5)
proof (induction n arbitrary: w)
  case 0
  then show ?case by simp
next
  case (Suc n)
  obtain outs w1 where re: "reissue_relax ch knobs Map.empty ca w = (outs, w1)"
    by (cases "reissue_relax ch knobs Map.empty ca w")
  have "baseline ca b (val w1)"
    using reissue_relax_baseline [OF assms(1) re Suc.prems(1)] Suc.prems(2) by (simp add: all_captured_relaxed_def)
  then show ?case
    using Suc assms(2,3) re by (simp add: relax_def)
qed

text \<open>
  Capture-once: after the first relax of a session, any number of further ones and a restore,
  every knob that the restore does not report as failed has its original value, provided the
  first relax wrote every knob it captured (or was the only one).
\<close>

lemma relax_restore:
  assumes ch: "channel_ok val ch" and dist: "distinct (map kn_name knobs)"
    and sid: "gc_session_id ctx = Some sid" and "caps sid = None"
    and first: "first_relax ch knobs Map.empty new_captured_state w = (outs, ca, w1)"
    and "n = 0 \<or> all_captured_relaxed ca"
    and fin: "relax_times (Suc n) ch knobs ctx (caps, w) = (caps', w2)"
  shows "\<exists>r w3. restore ch knobs ctx caps' w2 = (Inr r, caps, w3) \<and>
      (\<forall>x. val w3 x = val w x \<or> failures r x = Some False)"
proof -
  have b0: "baseline ca (val w) (val w1) \<and> {n. ca_relaxed ca n = Some True} \<subseteq> in_band knobs"
    by (rule first_relax_baseline [OF ch first dist])
      (auto simp: baseline_def new_captured_state_def)
  have "relax_times n ch knobs ctx (caps(sid \<mapsto> ca), w1) = (caps', w2)"
    using fin sid assms(4) first by (simp add: relax_def)
  then have caps': "caps' = caps(sid \<mapsto> ca)" and b: "baseline ca (val w) (val w2)"
    using relax_times_baseline [OF ch sid, of "caps(sid \<mapsto> ca)" ca "val w" w1 n knobs] b0 assms(6) by auto
  obtain r w3 where rk: "restore_knobs ch (rev knobs) Map.empty ca w2 = (r, w3)"
    by (cases "restore_knobs ch (rev knobs) Map.empty ca w2")
  have "\<exists>m'. r = Inr m' \<and> (\<forall>x. val w3 x = val w x \<or> m' x = Some False)"
  proof (rule restore_knobs_baseline [OF ch rk])
    show "\<forall>x. ca_relaxed ca x = Some True \<longrightarrow> ca_prior ca x = val w x \<and> val w x \<noteq> None"
      using b unfolding baseline_def by blast
    show "\<forall>x. val w2 x = val w x \<or> Map.empty x = Some False
              \<or> (ca_relaxed ca x = Some True \<and> x \<in> in_band (rev knobs))"
      using b b0 unfolding baseline_def in_band_def set_rev by blast
  qed
  moreover have "caps(sid := None) = caps"
    using assms(4) by (simp add: fun_upd_idem)
  ultimately show ?thesis
    using rk sid by (auto simp: restore_def caps' failures_def)
qed

text \<open>A restore clears the session, so a second one does nothing.\<close>

lemma restore_clears:
  assumes "gc_session_id ctx = Some sid" and "restore ch knobs ctx caps w = (r, caps', w')"
  shows "caps' = caps(sid := None)"
  using assms by (auto simp: restore_def split: option.splits prod.splits sum.splits)

lemma restore_twice:
  assumes "restore ch knobs ctx caps w = (r, caps', w')"
  shows "restore ch knobs ctx caps' w' = (Inr \<lparr>rr_restored = Map.empty, rr_noop = True\<rparr>, caps', w')"
  using assms restore_clears [of ctx _ ch knobs caps w r caps' w']
  by (cases "gc_session_id ctx") (auto simp: restore_def)

end
