(* ===== verification/SessionProps.thy ===== *)
theory SessionProps
  imports StopGuard Lease SessionGuard Watchdog Lifecycle Examples
begin

text \<open>
  The properties of the services a session composes: the stop-capable guard, the console lease,
  the session guard, the watchdog policy and the lifecycle dispatcher.
\<close>

subsection \<open>Tokens\<close>

lemma guard_fed: "authority_fed (\<lambda>_ _. True) acq rel rvk xs s"
  by (induction xs arbitrary: s) (simp_all split: authority_op.split)

text \<open>A stop-capable guard token that was issued and has lost its target, by release or by revoke,
  is dead: after any further acquisitions, releases and revokes it does not hold the target, its
  release is refused and changes no holder. The fence counter alone separates the tokens, whatever
  their secrets.\<close>

theorem lost_guard_token_is_dead:
  assumes "guard_ok g" and "gt_fence t \<le> sg_fence g" and "sg_holders g k \<noteq> Some t"
    and "g' = authority_run guard_acquire guard_release guard_revoke ops g"
  shows "sg_holders g' k \<noteq> Some t \<and> \<not> fst (guard_release k t g')
    \<and> sg_holders (snd (guard_release k t g')) = sg_holders g'"
  using guard.dead_forever [OF assms(1-3) guard_fed] guard.dead_release_noop [OF assms(1-3) guard_fed]
  by (simp add: assms(4) Let_def)

theorem lost_guard_token_is_dead_witness:
  "let t = \<lparr>gt_target_key = ex_key, gt_fence = 1, gt_secret = ''a''\<rparr>;
       g = guard_revoke ex_key (snd (guard_acquire ex_key ''a'' new_stop_guard))
   in \<not> fst (guard_release ex_key t (authority_run guard_acquire guard_release guard_revoke [Acquire ex_key ''a''] g))"
proof -
  let ?t = "\<lparr>gt_target_key = ex_key, gt_fence = 1, gt_secret = ''a''\<rparr>"
  let ?g = "guard_revoke ex_key (snd (guard_acquire ex_key ''a'' new_stop_guard))"
  have "guard_ok ?g" "gt_fence ?t \<le> sg_fence ?g" "sg_holders ?g ex_key \<noteq> Some ?t"
    by (auto simp: guard_defs new_stop_guard_def guard_ok_def Let_def)
  then show ?thesis
    using lost_guard_token_is_dead [OF _ _ _ refl, of ?g ?t ex_key "[Acquire ex_key ''a'']"] by simp
qed

text \<open>The guard has one holder per target: an acquisition succeeds exactly when nobody holds the
  target, its token then holds it, and every other acquisition conflicts until a release by that
  token or a revoke of the target.\<close>

theorem guard_has_one_holder:
  assumes "guard_ok g"
  shows "(\<not> isl (fst (guard_acquire k u g)) \<longleftrightarrow> sg_holders g k = None)
    \<and> (\<forall>t g'. guard_acquire k u g = (Inr t, g') \<longrightarrow>
         sg_holders g' = (sg_holders g)(k \<mapsto> t) \<and> isl (fst (guard_acquire k v g'))
         \<and> fst (guard_release k t g') \<and> sg_holders (snd (guard_release k t g')) = sg_holders g
         \<and> (\<forall>t'. t' \<noteq> t \<longrightarrow> \<not> fst (guard_release k t' g')))"
proof -
  have "fst (guard_release k t g') \<and> sg_holders (snd (guard_release k t g')) = sg_holders g
      \<and> (\<forall>t'. t' \<noteq> t \<longrightarrow> \<not> fst (guard_release k t' g')) \<and> isl (fst (guard_acquire k v g')) \<and> sg_holders g' = (sg_holders g)(k \<mapsto> t)"
    if "guard_acquire k u g = (Inr t, g')" for t g'
  proof -
    have ok: "guard_ok g'"
      using guard.invar_acquire [OF assms, of k u] that by simp
    have h: "sg_holders g k = None" "sg_holders g' = (sg_holders g)(k \<mapsto> t)"
      using guard.exclusive(1) [OF assms that] guard.acquired [OF assms that] by simp_all
    then have "(sg_holders g')(k := None) = sg_holders g"
      by (simp add: fun_upd_idem)
    then show ?thesis
      using h guard.release_current [OF ok, of k t] guard.release_stale [OF ok, of k] guard.acquire_held [OF ok, of k v] by auto
  qed
  moreover have "\<not> isl (fst (guard_acquire k u g)) \<longleftrightarrow> sg_holders g k = None"
    by (simp add: guard_acquire_def Let_def)
  ultimately show ?thesis
    by blast
qed

theorem guard_has_one_holder_witness: "isl (fst (guard_acquire ex_key ''b'' (snd (guard_acquire ex_key ''a'' new_stop_guard))))"
  using guard_has_one_holder [OF guard_ok_new, of ex_key "''a''" "''b''"]
  by (cases "guard_acquire ex_key ''a'' new_stop_guard"; cases "fst (guard_acquire ex_key ''a'' new_stop_guard)")
    (auto simp: new_stop_guard_def)

text \<open>A console lease token that has lost its target never releases the lease of a later owner,
  whatever happens in between, as long as no acquisition draws a uuid that was drawn before.\<close>

theorem lost_lease_token_is_dead:
  assumes "uuid_ok s" and "t \<in> snd s" and "lease_holder_of (fst s) k \<noteq> Some t"
    and "authority_fed (\<lambda>i s. fst i \<notin> snd s \<and> snd i \<noteq> FREE) uuid_acquire uuid_release uuid_revoke ops s"
    and "s' = authority_run uuid_acquire uuid_release uuid_revoke ops s"
  shows "\<not> fst (mgr_release k t (fst s')) \<and> lease_holder_of (snd (mgr_release k t (fst s'))) = lease_holder_of (fst s')"
  using leases.dead_release_noop [OF assms(1-4)] by (simp add: assms(5) Let_def uuid_release_def split_beta)

theorem lost_lease_token_is_dead_witness:
  "\<not> fst (mgr_release ex_key ''u1'' (fst (authority_run uuid_acquire uuid_release uuid_revoke
        [Acquire ex_key (''u2'', PROVISIONER)] (snd (uuid_release ex_key ''u1'' (snd (uuid_acquire ex_key (''u1'', TRANSPORT) (Map.empty, {}))))))))"
proof -
  let ?s = "snd (uuid_release ex_key ''u1'' (snd (uuid_acquire ex_key (''u1'', TRANSPORT) (Map.empty, {}))))"
  have 0: "uuid_ok (Map.empty, {})"
    by (simp add: uuid_ok_def leases_ok_def lease_holder_of_def)
  have "uuid_ok ?s"
    by (rule leases.invar_release [OF leases.invar_acquire [OF 0]])
  moreover have "snd ?s = {''u1''}"
    by (simp add: uuid_release_def uuid_acquire_def split_beta)
  moreover have "lease_holder_of (fst ?s) ex_key \<noteq> Some ''u1''"
    by (simp add: uuid_release_def uuid_acquire_def split_beta mgr_release_eq holder_upd)
  ultimately show ?thesis
    using lost_lease_token_is_dead [OF _ _ _ _ refl, of ?s "''u1''" ex_key "[Acquire ex_key (''u2'', PROVISIONER)]"] by simp
qed

subsection \<open>The session guard\<close>


text \<open>A world with one durable record; the close fails, the forced reap deletes the record.\<close>

definition ex_read :: "(transport_session option, unit, transport_session option) effect" where
  "ex_read w = (Inr w, w)"

definition ex_context :: guard_context where
  "ex_context = \<lparr>gc_target_key = ex_key, gc_generation = 1, gc_session_id = Some ''s0'', gc_reason = Ended\<rparr>"

definition ex_halted :: "transport_session option" where
  "ex_halted = Some \<lparr>session_id = ''s0'', ts_target_key = ex_key, ts_generation = 1, ts_provider = ''qemu-gdbstub'',
      ts_channel_id = ''gdb'', console_endpoint = None, rsp_endpoint = None, record_state = RS_READY,
      console_lease_token = None, stop_guard_token = None, attach_epoch = 0, ts_break_plan = None,
      execution_state = HALTED, backend_pid = None, backend_start_time = None, created_at = 0, ended_at = None,
      ts_artifacts = []\<rparr>"


text \<open>A teardown step that raises never stops the others, and its error is reported under its name:
  the steps run in reverse order of registration.\<close>

theorem raising_step_reported:
  assumes "teardown (pre @ (n, st) # post) ctx close read_rec force_reap w = (Inr rep, w')"
    and "fst (st ctx (foldr (\<lambda>(n, st) w. snd (st ctx w)) post w)) = Inl e"
  shows "step_errors rep n \<noteq> None"
  by (rule teardown_step_reported [OF assms])

theorem raising_step_reported_witness:
  "step_errors (projr (fst (teardown [(''step'', \<lambda>ctx w. (Inl (), w))] ex_context (\<lambda>w. (Inl (), w)) ex_read (\<lambda>w. (Inr (), None)) ex_halted))) ''step'' \<noteq> None"
proof -
  let ?t = "teardown [(''step'', \<lambda>ctx w. (Inl (), w))] ex_context (\<lambda>w. (Inl (), w)) ex_read (\<lambda>w. (Inr (), None)) ex_halted"
  obtain rep w' where run: "?t = (Inr rep, w')"
    by (auto simp: teardown_def resume_holds_def ex_read_def ex_halted_def Let_def)
  show ?thesis
    using raising_step_reported [where pre = "[]" and post = "[]", simplified, OF run] run by simp
qed

text \<open>A teardown raises when reading the durable record raises, after the steps and the close have
  run, so no report is returned.\<close>

theorem teardown_raises_on_read_error:
  assumes "read_rec (torn_down steps ctx close w) = (Inl e, w3)"
  shows "teardown steps ctx close read_rec force_reap w = (Inl e, w3)"
  using assms by (rule teardown_read_error)

theorem teardown_raises_on_read_error_witness:
  "teardown [] ex_context (\<lambda>w. (Inr (), w)) (\<lambda>w. (Inl (), w)) (\<lambda>w. (Inr (), w)) (0::nat) = (Inl (), 0)"
  by (rule teardown_raises_on_read_error) (simp add: torn_down_def)

subsection \<open>The watchdog\<close>


text \<open>A channel over a map of values that never fails, and one whose first write fails.\<close>

definition ex_channel :: "(string \<rightharpoonup> string, unit) knob_channel" where
  "ex_channel = \<lparr>read_knob = (\<lambda>n w. (Inr (w n), w)), write_knob = (\<lambda>n v w. (Inr True, w(n \<mapsto> v)))\<rparr>"

definition ex_flaky :: "((string \<rightharpoonup> string) \<times> bool, unit) knob_channel" where
  "ex_flaky = \<lparr>read_knob = (\<lambda>n w. (Inr (fst w n), w)),
     write_knob = (\<lambda>n v w. if snd w then (Inr True, ((fst w)(n \<mapsto> v), True)) else (Inr False, (fst w, True)))\<rparr>"

definition ex_knob :: watchdog_knob where
  "ex_knob = \<lparr>kn_name = ''kernel.watchdog'', kn_relaxed_value = ''0'', kn_out_of_band = False\<rparr>"


text \<open>A knob whose first relaxation write failed and whose reissued write succeeded is never
  restored: the capture still says it was not relaxed, the restore skips it and reports no failure.\<close>

theorem reissued_knob_never_restored:
  "let (caps, w) = relax_times 2 ex_flaky [ex_knob] ex_context (Map.empty, ([''kernel.watchdog'' \<mapsto> ''1''], False));
       (r, caps', w') = restore ex_flaky [ex_knob] ex_context caps w
   in fst w' ''kernel.watchdog'' = Some ''0'' \<and> (\<exists>rep. r = Inr rep \<and> failures rep = Map.empty)"
  by (simp add: numeral_2_eq_2 relax_def restore_def ex_flaky_def ex_knob_def ex_context_def safe_read_def safe_write_def
      new_captured_state_def failures_def Let_def)

text \<open>Restoring is idempotent: a second restore of the same session does nothing and says so.\<close>

theorem second_restore_is_noop:
  assumes "restore ch knobs ctx caps w = (r, caps', w')"
  shows "restore ch knobs ctx caps' w' = (Inr \<lparr>rr_restored = Map.empty, rr_noop = True\<rparr>, caps', w')"
  by (rule restore_twice [OF assms])

theorem second_restore_is_noop_witness:
  "fst (restore ex_channel [ex_knob] ex_context Map.empty Map.empty) = Inr \<lparr>rr_restored = Map.empty, rr_noop = True\<rparr>"
  using second_restore_is_noop [of ex_channel "[ex_knob]" ex_context Map.empty Map.empty] by (simp add: restore_def ex_context_def)

subsection \<open>The lifecycle dispatcher\<close>

text \<open>One emission invalidates, in registration order, exactly the subscribers of the target whose
  instance is not still running from an earlier emission, and then force-drops, in the same order,
  exactly those among them that outlived the deadline; the instances recorded as overdue afterwards
  are those that were and still run, and the newly wedged ones, which the next emission will not
  invoke again while they run.\<close>

theorem emit_invalidates_once:
  assumes "emit alive inva fd ev d w = (r, d', w')"
  shows "w' = foldl (\<lambda>w (n, sub). snd (fd sub ev w))
                (foldl (\<lambda>w (n, sub). snd (inva sub ev w)) w (runnable_subscribers alive (ev_target_key ev) d))
                (newly_wedged alive inva ev d w)
    \<and> set (newly_wedged alive inva ev d w) \<subseteq> set (runnable_subscribers alive (ev_target_key ev) d)
    \<and> set (lc_overdue d') = {x \<in> set (lc_overdue d). alive x}
         \<union> (\<lambda>(n, sub). (ev_target_key ev, n, sub)) ` set (newly_wedged alive inva ev d w)
    \<and> (\<forall>n sub. (n, sub) \<in> set (newly_wedged alive inva ev d w) \<longrightarrow> alive (ev_target_key ev, n, sub)
         \<longrightarrow> (n, sub) \<notin> set (runnable_subscribers alive (ev_target_key ev) d'))"
proof -
  note o = emit_overdue [OF assms]
  have "(n, sub) \<notin> set (runnable_subscribers alive (ev_target_key ev) d')"
    if "(n, sub) \<in> set (newly_wedged alive inva ev d w)" "alive (ev_target_key ev, n, sub)" for n sub
  proof -
    have "(ev_target_key ev, n, sub) \<in> set (lc_overdue d')"
      using that(1) unfolding o by force
    then show ?thesis
      using that(2) by (simp add: runnable_subscribers_def)
  qed
  then show ?thesis
    using emit_world [OF assms] o by (auto simp: newly_wedged_def wedged_subset)
qed

theorem emit_invalidates_once_witness:
  "snd (snd (emit (\<lambda>_. True) (\<lambda>sub ev w. (if sub = 1 then Wedged else (Finished :: unit worker_outcome), w @ [sub])) (\<lambda>sub ev w. (Finished, w @ [sub + 10]))
      \<lparr>ev_target_key = ex_key, ev_kind = LK_CRASHED\<rparr> (subscribe ex_key ''b'' 1 (subscribe ex_key ''a'' 0 new_dispatcher)) [])) = [0, 1, 11]"
proof -
  obtain r d' w' where run: "emit (\<lambda>_. True) (\<lambda>sub ev w. (if sub = 1 then Wedged else (Finished :: unit worker_outcome), w @ [sub]))
      (\<lambda>sub ev w. (Finished, w @ [sub + 10])) \<lparr>ev_target_key = ex_key, ev_kind = LK_CRASHED\<rparr>
      (subscribe ex_key ''b'' 1 (subscribe ex_key ''a'' 0 new_dispatcher)) [] = (r, d', w')"
    by (rule prod_cases3)
  show ?thesis
    using emit_invalidates_once [OF run] run
    by (simp add: subscribe_def new_dispatcher_def runnable_subscribers_def newly_wedged_def wedged_def)
qed

end
