(* ===== verification/RspProbe.thy ===== *)
theory RspProbe
  imports PyText TransportState
begin

text \<open>
  Models \<open>src/kdive/transport/core/rsp_probe.py\<close> and the RSP half of
  \<open>src/kdive/coordination/exec_probe.py\<close>: framing and checking packets of the GDB remote
  protocol, and the bounded read loops of the two probes. Bytes are characters. What the peer
  does is a list of socket events; the loop's deadline is the end of the list.
\<close>

definition rsp_max_accumulate_bytes :: nat where
  "rsp_max_accumulate_bytes = 4096"

definition checksum :: "string \<Rightarrow> nat" where
  "checksum payload = sum_list (map of_char payload) mod 256"

definition rsp_frame :: "string \<Rightarrow> string" where
  "rsp_frame payload =
     ''$'' @ payload @ ''#'' @ [hex_char (checksum payload div 16), hex_char (checksum payload mod 16)]"

subsection \<open>Python's \<open>int(b, 16)\<close>\<close>

definition is_space :: "char \<Rightarrow> bool" where
  "is_space c \<longleftrightarrow> (of_char c :: nat) \<in> {9, 10, 11, 12, 13, 32}"

definition strip :: "string \<Rightarrow> string" where
  "strip s = rev (dropWhile is_space (rev (dropWhile is_space s)))"

text \<open>Digits with single underscores between them.\<close>

fun hex_digits :: "string \<Rightarrow> nat \<Rightarrow> nat option" where
  "hex_digits [] n = None"
| "hex_digits (c # cs) n =
     (case hex_digit c of
        None \<Rightarrow> None
      | Some d \<Rightarrow>
          (case cs of
             [] \<Rightarrow> Some (16 * n + d)
           | u # rest \<Rightarrow> (if u = CHR ''_'' then hex_digits rest (16 * n + d) else hex_digits cs (16 * n + d))))"

definition unprefix :: "string \<Rightarrow> string" where
  "unprefix s =
     (case s of
        z # x # rest \<Rightarrow>
          (if z = CHR ''0'' \<and> (x = CHR ''x'' \<or> x = CHR ''X'')
           then (case rest of u # digits \<Rightarrow> if u = CHR ''_'' then digits else rest | [] \<Rightarrow> [])
           else s)
      | _ \<Rightarrow> s)"

definition py_int16 :: "string \<Rightarrow> int option" where
  "py_int16 s =
     (case strip s of
        [] \<Rightarrow> None
      | c # cs \<Rightarrow>
          (if c = CHR ''-'' then map_option (\<lambda>n. - int n) (hex_digits (unprefix cs) 0)
           else if c = CHR ''+'' then map_option int (hex_digits (unprefix cs) 0)
           else map_option int (hex_digits (unprefix (c # cs)) 0)))"

subsection \<open>Frames\<close>

definition valid_rsp_frame :: "string \<Rightarrow> bool" where
  "valid_rsp_frame buffer =
     (case find_char (CHR ''$'') buffer of
        None \<Rightarrow> False
      | Some start \<Rightarrow>
          (case find_char_from (CHR ''#'') buffer start of
             None \<Rightarrow> False
           | Some hash_idx \<Rightarrow>
               (if hash_idx + 2 \<ge> length buffer then False
                else let payload = take (hash_idx - (start + 1)) (drop (start + 1) buffer);
                         checksum_hex = take 2 (drop (hash_idx + 1) buffer)
                     in (case py_int16 checksum_hex of
                           None \<Rightarrow> False
                         | Some expected \<Rightarrow> int (checksum payload) = expected))))"

definition first_stop_reply :: "string \<Rightarrow> string option" where
  "first_stop_reply buffer =
     (case find_char (CHR ''$'') buffer of
        None \<Rightarrow> None
      | Some start \<Rightarrow>
          (case find_char_from (CHR ''#'') buffer start of
             None \<Rightarrow> None
           | Some hash_idx \<Rightarrow>
               (if hash_idx + 2 \<ge> length buffer then None
                else let payload = take (hash_idx - (start + 1)) (drop (start + 1) buffer);
                         checksum_hex = take 2 (drop (hash_idx + 1) buffer)
                     in (case py_int16 checksum_hex of
                           None \<Rightarrow> None
                         | Some expected \<Rightarrow>
                             (if int (checksum payload) \<noteq> expected then None
                              else if payload = [] \<or> (hd payload \<noteq> CHR ''T'' \<and> hd payload \<noteq> CHR ''S'') then None
                              else Some payload)))))"

subsection \<open>The read loops\<close>

datatype recv_event = Chunk string | Recv_timeout | Recv_oserror

text \<open>An empty chunk is the peer's end of file.\<close>

fun read_loop :: "(string \<Rightarrow> bool) \<Rightarrow> recv_event list \<Rightarrow> string \<Rightarrow> bool" where
  "read_loop accepts [] buffer = False"
| "read_loop accepts (Recv_timeout # es) buffer = read_loop accepts es buffer"
| "read_loop accepts (Recv_oserror # es) buffer = False"
| "read_loop accepts (Chunk c # es) buffer =
     (if c = [] then False
      else if accepts (buffer @ c) then True
      else if length (buffer @ c) > rsp_max_accumulate_bytes then False
      else read_loop accepts es (buffer @ c))"

text \<open>What the sockets do: the connection succeeds or not, so does the send, then the events.\<close>

record peer =
  connects :: bool
  sends :: bool
  events :: "recv_event list"

definition rsp_reachable :: "peer \<Rightarrow> bool" where
  "rsp_reachable p = (connects p \<and> sends p \<and> read_loop valid_rsp_frame (events p) [])"

definition probe_rsp_halted :: "transport_session \<Rightarrow> peer \<Rightarrow> bool" where
  "probe_rsp_halted ses p =
     (case rsp_endpoint ses of
        Some (TcpEndpoint h port) \<Rightarrow>
          connects p \<and> sends p \<and> read_loop (\<lambda>b. first_stop_reply b \<noteq> None) (events p) []
      | _ \<Rightarrow> False)"

subsection \<open>Round trip\<close>

lemma checksum_less [simp]: "checksum p < 256"
  by (simp add: checksum_def)

lemma hex_char_not_special:
  assumes "d < 16"
  shows "\<not> is_space (hex_char d)" "hex_char d \<noteq> CHR ''-''" "hex_char d \<noteq> CHR ''+''"
    "hex_char d \<noteq> CHR ''x''" "hex_char d \<noteq> CHR ''X''" "hex_char d \<noteq> CHR ''_''"
proof -
  have "d \<in> {0, 1, 2, 3, 4, 5, 6, 7, 8, 9, 10, 11, 12, 13, 14, 15}"
    using assms by simp presburger
  then show "\<not> is_space (hex_char d)" "hex_char d \<noteq> CHR ''-''" "hex_char d \<noteq> CHR ''+''"
    "hex_char d \<noteq> CHR ''x''" "hex_char d \<noteq> CHR ''X''" "hex_char d \<noteq> CHR ''_''"
    by (elim insertE; simp add: hex_char_def is_space_def char_of_def)+
qed

lemma py_int16_hex:
  assumes "n < 256"
  shows "py_int16 [hex_char (n div 16), hex_char (n mod 16)] = Some (int n)"
proof -
  have d: "n div 16 < 16" "n mod 16 < 16"
    using assms by simp_all
  note s1 = hex_char_not_special [OF d(1)] and s2 = hex_char_not_special [OF d(2)]
  have "strip [hex_char (n div 16), hex_char (n mod 16)] = [hex_char (n div 16), hex_char (n mod 16)]"
    using s1(1) s2(1) by (simp add: strip_def)
  then show ?thesis
    using s1 s2 d by (simp add: py_int16_def unprefix_def)
qed

lemma find_char_from_append:
  "start = length pre \<Longrightarrow> c \<notin> set p \<Longrightarrow> c \<noteq> d \<Longrightarrow>
     find_char_from c (pre @ d # p @ c # rest) start = Some (length pre + 1 + length p)"
  by (simp add: find_char_from_def find_char_append)

lemma frame_parts:
  fixes rest :: string
  assumes "CHR ''$'' \<notin> set pre" and "CHR ''#'' \<notin> set p"
  defines "buf \<equiv> pre @ rsp_frame p @ rest"
  shows "find_char (CHR ''$'') buf = Some (length pre)"
    and "find_char_from (CHR ''#'') buf (length pre) = Some (length pre + 1 + length p)"
    and "length pre + 1 + length p + 2 < length buf"
    and "take (length pre + 1 + length p - (length pre + 1)) (drop (length pre + 1) buf) = p"
    and "take 2 (drop (length pre + 1 + length p + 1) buf) =
           [hex_char (checksum p div 16), hex_char (checksum p mod 16)]"
  using assms by (simp_all add: rsp_frame_def find_char_append find_char_from_append)

lemma valid_frame_roundtrip:
  assumes "CHR ''$'' \<notin> set pre" and "CHR ''#'' \<notin> set p"
  shows "valid_rsp_frame (pre @ rsp_frame p @ rest)"
  using frame_parts [OF assms, of rest] py_int16_hex [OF checksum_less, of p]
  unfolding valid_rsp_frame_def Let_def by (simp del: append_assoc)

lemma first_stop_reply_roundtrip:
  assumes "CHR ''$'' \<notin> set pre" and "CHR ''#'' \<notin> set p"
  shows "first_stop_reply (pre @ rsp_frame p @ rest) =
     (if p \<noteq> [] \<and> (hd p = CHR ''T'' \<or> hd p = CHR ''S'') then Some p else None)"
  using frame_parts [OF assms, of rest] py_int16_hex [OF checksum_less, of p]
  unfolding first_stop_reply_def Let_def by (simp del: append_assoc)

text \<open>A stop reply is a valid frame whose payload starts with T or S.\<close>

lemma stop_reply_valid:
  "first_stop_reply b = Some p \<Longrightarrow> valid_rsp_frame b \<and> p \<noteq> [] \<and> hd p \<in> {CHR ''T'', CHR ''S''}"
  by (auto simp: first_stop_reply_def valid_rsp_frame_def Let_def split: option.splits if_splits)

text \<open>A loop accepts only a prefix of what the peer sent.\<close>

fun received :: "recv_event list \<Rightarrow> string" where
  "received [] = []"
| "received (Chunk c # es) = c @ received es"
| "received (_ # es) = received es"

lemma read_loop_accepts:
  "read_loop accepts es buf \<Longrightarrow> \<exists>data rest. buf @ received es = data @ rest \<and> accepts data"
proof (induction accepts es buf rule: read_loop.induct)
  case (4 accepts c es buf)
  show ?case
  proof (cases "accepts (buf @ c)")
    case True
    then show ?thesis
      by (intro exI [of _ "buf @ c"] exI [of _ "received es"]) simp
  next
    case False
    then show ?thesis
      using 4 by (auto split: if_splits)
  qed
qed simp_all

text \<open>The buffer it keeps is bounded: the cap before a read, the cap and one chunk after it.\<close>

fun max_buffer :: "(string \<Rightarrow> bool) \<Rightarrow> recv_event list \<Rightarrow> string \<Rightarrow> nat" where
  "max_buffer accepts [] buffer = length buffer"
| "max_buffer accepts (Recv_timeout # es) buffer = max_buffer accepts es buffer"
| "max_buffer accepts (Recv_oserror # es) buffer = length buffer"
| "max_buffer accepts (Chunk c # es) buffer =
     (if c = [] \<or> accepts (buffer @ c) \<or> length (buffer @ c) > rsp_max_accumulate_bytes then length (buffer @ c)
      else max_buffer accepts es (buffer @ c))"

lemma max_buffer_bound:
  "length buf \<le> rsp_max_accumulate_bytes \<Longrightarrow> (\<And>c. Chunk c \<in> set es \<Longrightarrow> length c \<le> 256) \<Longrightarrow>
     max_buffer accepts es buf \<le> rsp_max_accumulate_bytes + 256"
  by (induction accepts es buf rule: max_buffer.induct) (fastforce simp: not_less)+

end
