(* ===== verification/CoreProps.thy ===== *)
theory CoreProps
  imports Registry Secrets Selection TransportCore RspProbe AdmissionProps
begin

text \<open>
  The properties of the durable registry, the secrets, channel selection, the transport metadata,
  break injection and the RSP probe.
\<close>

subsection \<open>The registry\<close>

text \<open>A delete that carries a session id removes the target's record exactly when the record is that
  session's: a late cleanup of an old session never erases the record of the session that replaced
  it, and no other target's record is touched.\<close>

theorem delete_is_session_fenced:
  assumes "delete_record k (Some sid) r = Inr r'"
  shows "read_record k r' = (case read_record k r of
           Inr (Some ses) \<Rightarrow> if session_id ses = sid then Inr None else Inr (Some ses) | x \<Rightarrow> x)
    \<and> (\<forall>k'. k' \<noteq> k \<longrightarrow> read_record k' r' = read_record k' r)"
proof -
  obtain x where "read_record k r = Inr x"
    and "r' = (case x of Some ses \<Rightarrow> if session_id ses = sid then unlink_record k r else r | None \<Rightarrow> r)"
    using assms by (auto simp: delete_record_Inr)
  then show ?thesis
    by (cases x) (simp_all add: read_unlink)
qed

theorem delete_is_session_fenced_witness:
  "read_record ex_key (projr (delete_record ex_key (Some ''old'') (write_record (ex_session ''new'' 2 EXECUTING) (new_registry False))))
     = Inr (Some (ex_session ''new'' 2 EXECUTING))"
proof -
  let ?r = "write_record (ex_session ''new'' 2 EXECUTING) (new_registry False)"
  have r: "read_record ex_key ?r = Inr (Some (ex_session ''new'' 2 EXECUTING))"
    using read_write [of "ex_session ''new'' 2 EXECUTING"] by (simp add: ex_session_def)
  then have "delete_record ex_key (Some ''old'') ?r = Inr ?r"
    by (simp add: delete_record_def ex_session_def)
  then show ?thesis
    using delete_is_session_fenced [of ex_key "''old''" ?r ?r] r by (simp add: ex_session_def)
qed


definition ex_reconcile :: "(nat, unit) reconcile_env" where
  "ex_reconcile = \<lparr>stop_by_identity = (\<lambda>_ _ n. (True, n + 1)), mark_required = (\<lambda>_ _ n. n), on_orphan_reaped = (\<lambda>_ n. (Inl (), n))\<rparr>"


text \<open>One ownership file that does not parse stops crash reconciliation altogether: it raises before
  any orphan is reaped and deletes nothing.\<close>

theorem malformed_record_stops_reconcile:
  assumes "(k, Malformed) \<in> set (owner_files r)"
  shows "\<exists>r' w'. reconcile env (r, w) = (Inl Malformed_record, (r', w')) \<and> owner_files r' = owner_files r"
  using reconcile_malformed [OF assms, of env w] by auto

theorem malformed_record_stops_reconcile_witness:
  "\<exists>r' w'. reconcile ex_reconcile ((new_registry False)\<lparr>owner_files := [(ex_key, Malformed)]\<rparr>, 0) = (Inl Malformed_record, (r', w'))
     \<and> owner_files r' = [(ex_key, Malformed)]"
  using malformed_record_stops_reconcile [of ex_key "(new_registry False)\<lparr>owner_files := [(ex_key, Malformed)]\<rparr>" ex_reconcile 0] by simp

subsection \<open>Secrets\<close>

text \<open>C15: Whatever a resolution returns is masked: every secret value in its result is in the registry's
  snapshot afterwards, nothing that was registered is dropped by it, and this holds too when it
  raises half way. Releasing a scope then unmasks exactly the values that no other scope still
  registers.\<close>

theorem resolved_secrets_stay_masked:
  assumes "secrets_ok r" and "resolve defs bes scope refs r = (res, r')"
  shows "snapshot r \<subseteq> snapshot r' \<and> (\<forall>m. res = Inr m \<longrightarrow> ran m \<subseteq> snapshot r')
    \<and> (\<forall>s v. v \<in> snapshot (release_scope (Some s) r') \<longleftrightarrow> (\<exists>s' vs. (s', vs) \<in> set (by_scope r') \<and> s' \<noteq> s \<and> v \<in> set vs))"
proof -
  have m: "secrets_ok r' \<and> snapshot r \<subseteq> snapshot r' \<and> (\<forall>m. res = Inr m \<longrightarrow> ran m \<subseteq> snapshot r')"
    by (rule resolve_loop_masked [OF assms(1) assms(2) [unfolded resolve_def]]) simp
  have "v \<in> snapshot (release_scope (Some s) r') \<longleftrightarrow> (\<exists>s' vs. (s', vs) \<in> set (by_scope r') \<and> s' \<noteq> s \<and> v \<in> set vs)" for s v
  proof -
    have "by_scope (release_scope (Some s) r') = dict_pop s (by_scope r')"
      by (simp add: release_scope_def Let_def)
    then have "registered (release_scope (Some s) r') = concat (map snd (dict_pop s (by_scope r')))"
      by (simp add: registered_def)
    then show ?thesis
      using snapshot_eq [OF secrets_ok_release] m by (auto simp: dict_pop_def)
  qed
  with m show ?thesis
    by blast
qed

theorem resolved_secrets_stay_masked_witness:
  "''pw'' \<in> snapshot (snd (resolve [''db'' \<mapsto> \<lparr>sf_kind = KIND_ENV, sf_label = ''l'', sf_reference = ''db'', sf_required = True\<rparr>]
      [KIND_ENV \<mapsto> env_get [''db'' \<mapsto> ''pw'']] None [''db''] new_secret_registry))"
proof -
  have run: "resolve [''db'' \<mapsto> \<lparr>sf_kind = KIND_ENV, sf_label = ''l'', sf_reference = ''db'', sf_required = True\<rparr>]
      [KIND_ENV \<mapsto> env_get [''db'' \<mapsto> ''pw'']] None [''db''] new_secret_registry =
      (Inr [''db'' \<mapsto> ''pw''], register_secret (Some ''pw'') None new_secret_registry)"
    by (simp add: resolve_def env_get_def)
  show ?thesis
    using resolved_secrets_stay_masked [OF secrets_ok_new run] by (simp add: run)
qed

text \<open>A scope that is the string \<open>__global__\<close> is the global scope: releasing it evicts what was registered
  for the whole process.\<close>

theorem global_scope_name_evicts:
  "snapshot (release_scope (Some ''__global__'') (register_secret (Some ''pw'') None new_secret_registry)) = {}"
  by (simp add: register_secret_def release_scope_def new_secret_registry_def global_scope_def snapshot_def Let_def dict_pop_def)

subsection \<open>Selection and break injection\<close>

text \<open>C14: Channel selection with the reference policy picks the first channel, in the target's order, that
  has the required capabilities and a break method not disproved for it, with such a method; and it
  fails exactly when there is none.\<close>

theorem selects_first_breakable_channel:
  assumes "select_stop_capable_channel plan k ts req pf dis = res"
  shows "(\<forall>s. res = Inr s \<longrightarrow> (\<exists>pre suf. ts = pre @ sel_channel s # suf \<and> capable req (sel_channel s)
          \<and> (\<forall>c \<in> set pre. capable req c \<longrightarrow> set (candidates c pf) \<subseteq> channel_disproved k dis c))
        \<and> bp_method (sel_break_plan s) \<in> set (candidates (sel_channel s) pf) - channel_disproved k dis (sel_channel s)
        \<and> bp_channel_id (sel_break_plan s) = tr_channel_id (sel_channel s))
    \<and> (isl res \<longleftrightarrow> (\<forall>c \<in> set ts. capable req c \<longrightarrow> set (candidates c pf) \<subseteq> channel_disproved k dis c))"
proof -
  have none: "(\<forall>p. plan c pf d \<noteq> Inr p) \<longleftrightarrow> set (candidates c pf) \<subseteq> d" for c d
    using plan_defined [of c pf d] by blast
  let ?cap = "filter (capable req) ts"
  have fail: "isl res \<longleftrightarrow> (\<forall>c \<in> set ts. capable req c \<longrightarrow> set (candidates c pf) \<subseteq> channel_disproved k dis c)"
  proof (cases "?cap = []")
    case True
    then show ?thesis
      using assms by (auto simp: select_stop_capable_channel_def filter_empty_conv)
  next
    case False
    then have "res = select_loop plan k pf dis False ?cap"
      using assms by (simp add: select_stop_capable_channel_def)
    then show ?thesis
      using select_loop_Inl [of plan k pf dis False ?cap] none by (cases res) (auto simp: isl_def)
  qed
  have "\<exists>pre suf. ts = pre @ sel_channel s # suf \<and> capable req (sel_channel s)
      \<and> (\<forall>c \<in> set pre. capable req c \<longrightarrow> set (candidates c pf) \<subseteq> channel_disproved k dis c)" if "res = Inr s" for s
  proof -
    have "select_loop plan k pf dis False ?cap = Inr s"
      using assms that by (auto simp: select_stop_capable_channel_def Let_def split: if_splits)
    then obtain pre suf where cap: "?cap = pre @ sel_channel s # suf"
      and pre: "\<forall>c \<in> set pre. \<forall>p. plan c pf (channel_disproved k dis c) \<noteq> Inr p"
      unfolding select_loop_Inr by blast
    obtain us vs where ts: "ts = us @ sel_channel s # vs" and us: "filter (capable req) us = pre" and "capable req (sel_channel s)"
      using filter_prefix [OF cap] by blast
    moreover have "set (candidates c pf) \<subseteq> channel_disproved k dis c" if "c \<in> set us" "capable req c" for c
    proof -
      have "c \<in> set pre"
        using that by (simp add: us [symmetric])
      then show ?thesis
        using pre none [of c] by blast
    qed
    ultimately show ?thesis
      by blast
  qed
  moreover have "bp_method (sel_break_plan s) \<in> set (candidates (sel_channel s) pf) - channel_disproved k dis (sel_channel s)
      \<and> bp_channel_id (sel_break_plan s) = tr_channel_id (sel_channel s)" if "res = Inr s" for s
  proof -
    have "select_loop plan k pf dis False ?cap = Inr s"
      using assms that by (auto simp: select_stop_capable_channel_def Let_def split: if_splits)
    then have "plan (sel_channel s) pf (channel_disproved k dis (sel_channel s)) = Inr (sel_break_plan s)"
      by (simp only: select_loop_Inr)
    from plan_eq_InrD [OF this] show ?thesis
      by simp
  qed
  ultimately show ?thesis
    using fail by blast
qed

theorem selects_first_breakable_channel_witness:
  "\<not> isl (select_stop_capable_channel plan ex_key [ex_ref] [] ex_platform {})"
  using selects_first_breakable_channel [of ex_key "[ex_ref]" "[]" ex_platform "{}", OF refl]
  by (simp add: capable_def candidates_def ex_ref_def ex_platform_def channel_disproved_def provides_rsp_cap_def)

text \<open>Injecting a break acts on the world only through the mechanism of the admitted plan: the proxy
  for a line break, the ssh runner with the fixed SysRq argument vector for SysRq; a request that
  names another method, and any request under a gdbstub plan, is refused without an effect.\<close>

theorem break_uses_admitted_mechanism:
  assumes "inject_break req bp res w = (r, w')"
  shows "(w' \<noteq> w \<or> r = Inr () \<longrightarrow> (req = ''auto'' \<or> break_method_of req = Some (bp_method bp)) \<and>
        ((bp_method bp \<in> {UART_BREAK, AGENT_PROXY_BREAK} \<and> (\<exists>send. br_proxy res = Some send \<and> w' = snd (send w)))
         \<or> (bp_method bp = SYSRQ_G \<and> (\<exists>run. br_ssh_runner res = Some run
              \<and> w' = snd (run (br_ssh_argv_prefix res @ [''sh'', ''-c'', ''echo \"$1\" > /proc/sysrq-trigger'', ''sysrq-g'', ''g'']) w)))))
    \<and> (bp_method bp = GDBSTUB_NATIVE \<or> req \<noteq> ''auto'' \<and> break_method_of req \<noteq> Some (bp_method bp)
         \<longrightarrow> w' = w \<and> (\<exists>e. r = Inl (Inject_break_error e)))"
proof (cases "resolve_break_method req bp")
  case (Inl e)
  then show ?thesis
    using assms by (auto simp: inject_break_def)
next
  case (Inr m)
  then have m: "m = bp_method bp" "m \<noteq> GDBSTUB_NATIVE" "req = ''auto'' \<or> break_method_of req = Some m"
    using resolve_break_method_Inr [of req bp m] by blast+
  then consider "m \<in> {UART_BREAK, AGENT_PROXY_BREAK}" | "m = SYSRQ_G"
    by (cases m) auto
  then show ?thesis
    using assms m Inr
    by cases (auto simp: inject_break_def sysrq_argv_def split: option.splits prod.splits sum.splits if_splits)
qed

theorem break_uses_admitted_mechanism_witness:
  "inject_break ''auto'' \<lparr>bp_method = SYSRQ_G, bp_channel_id = ''c'', bp_rationale = []\<rparr>
     \<lparr>br_proxy = None, br_ssh_runner = Some (\<lambda>argv w. (Inr \<lparr>exit_status = 0, timed_out = False, cancelled = False,
         stdin_failed = False, oversized_output = False\<rparr> :: (unit, ssh_result) result, w @ [last argv])), br_ssh_argv_prefix = [''ssh'']\<rparr> []
   = (Inr (), [''g''])"
proof -
  let ?bp = "\<lparr>bp_method = SYSRQ_G, bp_channel_id = ''c'', bp_rationale = []\<rparr>"
  let ?res = "\<lparr>br_proxy = None, br_ssh_runner = Some (\<lambda>argv w. (Inr \<lparr>exit_status = 0, timed_out = False, cancelled = False,
         stdin_failed = False, oversized_output = False\<rparr> :: (unit, ssh_result) result, w @ [last argv])), br_ssh_argv_prefix = [''ssh'']\<rparr>"
  obtain w' where run: "inject_break ''auto'' ?bp ?res [] = (Inr (), w')"
    by (simp add: inject_break_def resolve_break_method_def requestable_def sysrq_g_failed_def)
  then show ?thesis
    using break_uses_admitted_mechanism [OF run] by simp
qed

subsection \<open>Data\<close>

text \<open>Routing data survives freezing: freezing succeeds exactly on JSON data, thawing what was frozen
  gives the data back with tuples as lists, and freezing that again gives the same frozen value.\<close>

theorem routing_data_roundtrip:
  "(\<not> isl (deep_freeze r) \<longleftrightarrow> json_ok r)
   \<and> (\<forall>f. deep_freeze r = Inr f \<longrightarrow> deep_thaw f = untuple r \<and> deep_freeze (deep_thaw f) = Inr f)"
proof -
  have "\<not> isl (deep_freeze r) \<longleftrightarrow> (\<exists>f. deep_freeze r = Inr f)"
    by (cases "deep_freeze r") auto
  moreover have "deep_thaw f = untuple r \<and> deep_freeze (deep_thaw f) = Inr f" if "deep_freeze r = Inr f" for f
    by (rule conjI [OF thaw_freeze(1) [OF that] freeze_thaw(1)])
  ultimately show ?thesis
    using freeze_defined(1) [of r] by blast
qed

theorem routing_data_roundtrip_witness:
  "deep_thaw (FMap [(''port'', FTuple [FInt 1])]) = RawMap [(KStr ''port'', RawList [RawInt 1])]"
  using routing_data_roundtrip [of "RawMap [(KStr ''port'', RawTuple [RawInt 1])]"] by simp

text \<open>Two targets never share a durable file name: the bytes hashed for a target determine it, so file
  names collide only on a collision of the hash.\<close>

theorem recovery_key_identifies_target:
  assumes "recovery_key sha256 a = Some x" and "recovery_key sha256 b = Some x"
    and "\<forall>m n. sha256 m = sha256 n \<longrightarrow> m = n"
  shows "a = b"
  using assms recovery_payload_inj [of a _ b] by (auto simp: recovery_key_def)

theorem recovery_key_identifies_target_witness:
  "recovery_key (\<lambda>m. m) \<lparr>provisioner = ''ab'', target_id = ''c''\<rparr> \<noteq> recovery_key (\<lambda>m. m) \<lparr>provisioner = ''a'', target_id = ''bc''\<rparr>"
proof
  assume eq: "recovery_key (\<lambda>m. m) \<lparr>provisioner = ''ab'', target_id = ''c''\<rparr> = recovery_key (\<lambda>m. m) \<lparr>provisioner = ''a'', target_id = ''bc''\<rparr>"
  obtain x where "recovery_key (\<lambda>m. m) \<lparr>provisioner = ''ab'', target_id = ''c''\<rparr> = Some x"
    by (simp add: recovery_key_def recovery_payload_def to_bytes4_def)
  then show False
    using recovery_key_identifies_target [of "\<lambda>m. m" "\<lparr>provisioner = ''ab'', target_id = ''c''\<rparr>" x "\<lparr>provisioner = ''a'', target_id = ''bc''\<rparr>"] eq
    by simp
qed

text \<open>The transport registry never lists a local-loopback exposure for a remote or unlisted provider,
  whatever sequence of registrations is tried, and its names are distinct; so an endpoint-returning
  operation that passes the exposure gate is a listed local provider's.\<close>

theorem registry_exposes_local_providers_only:
  assumes "(n, c) \<in> set (register_all cs [])" and "refuse_unsafe_exposure c ''transport.open'' = Inr ()"
  shows "n = cp_provider_name c \<and> n \<in> local_transport_providers \<and> cp_locality c = LOCAL
    \<and> get_capability n (register_all cs []) = Some c"
proof -
  have ok: "registry_ok (register_all cs [])"
    by (rule registry_ok_all) (simp add: registry_ok_def)
  have "cp_endpoint_exposure c = LOOPBACK_LOCAL"
    using assms(2) by (cases "cp_endpoint_exposure c") (auto simp: refuse_unsafe_exposure_def endpoint_returning_ops_def)
  then show ?thesis
    using ok assms(1) by (auto simp: registry_ok_def get_capability_def)
qed

theorem registry_exposes_local_providers_only_witness:
  "get_capability ''serial-local'' (register_all
     [\<lparr>cp_provider_name = ''rogue'', cp_locality = REMOTE, cp_architectures = [], cp_provides_console = False, cp_provides_rsp = False,
       cp_supports_uart_break = False, cp_endpoint_exposure = LOOPBACK_LOCAL, cp_operations = []\<rparr>,
      \<lparr>cp_provider_name = ''serial-local'', cp_locality = LOCAL, cp_architectures = [], cp_provides_console = True, cp_provides_rsp = False,
       cp_supports_uart_break = True, cp_endpoint_exposure = LOOPBACK_LOCAL, cp_operations = [''transport.open'']\<rparr>] []) \<noteq> None"
  (is "get_capability _ (register_all [?a, ?b] []) \<noteq> None")
proof -
  have "register_all [?a, ?b] [] = [(''serial-local'', ?b)]"
    by (simp add: make_capability_def remote_must_be_brokered_def register_transport_def local_transport_providers_def
        validate_transport_operation_def transport_operations_def)
  then have "(''serial-local'', ?b) \<in> set (register_all [?a, ?b] [])"
    by (simp only:) simp
  from registry_exposes_local_providers_only [OF this] show ?thesis
    by (simp add: refuse_unsafe_exposure_def)
qed

subsection \<open>The RSP probe\<close>



text \<open>The probe's buffer is bounded whatever the peer sends: it never holds more than the limit and one
  receive of 256 bytes.\<close>

theorem probe_buffer_bounded:
  assumes "\<And>c. Chunk c \<in> set es \<Longrightarrow> length c \<le> 256"
  shows "max_buffer accepts es [] \<le> rsp_max_accumulate_bytes + 256"
  by (rule max_buffer_bound) (simp_all add: assms)

theorem probe_buffer_bounded_witness:
  "max_buffer valid_rsp_frame [Chunk ''abc'', Recv_timeout, Chunk ''de''] [] \<le> rsp_max_accumulate_bytes + 256"
  by (rule probe_buffer_bounded) auto

text \<open>The checksum is read by Python's \<open>int(..., 16)\<close>, which takes a sign: this frame is accepted.\<close>

theorem signed_checksum_accepted: "valid_rsp_frame (''$'' @ [CHR 0x05] @ ''#+5'')"
  by (simp add: valid_rsp_frame_def find_char_from_def py_int16_def strip_def is_space_def unprefix_def hex_digit_def
      checksum_def)

text \<open>Only the first dollar sign is looked at: a stop reply behind another frame is not found.\<close>

theorem later_stop_reply_missed: "first_stop_reply (rsp_frame ''OK'' @ rsp_frame ''T05'') = None"
  using first_stop_reply_roundtrip [of "[]" "''OK''" "rsp_frame ''T05''"] by simp

end
