(* ===== verification/PyRegex.thy ===== *)
theory PyRegex
  imports PyText
begin

text \<open>
  The part of Python's \<open>re\<close> the source uses: classes, sequences, ordered alternatives,
  greedy and lazy repetition, groups and assertions, matched by backtracking. A match
  state is the text before the position (reversed), the text after it and the groups
  captured so far; \<open>rmatch\<close> lists every way to match in the order the engine tries
  them, so the engine's answer is the head of the list. Standard library of the
  language, not code of the repository.
\<close>

type_synonym 'c rx_state = "'c list \<times> 'c list \<times> (nat \<times> 'c list) list"

datatype 'c rx =
    RCls "'c \<Rightarrow> bool"
  | RSeq "'c rx" "'c rx"
  | RAlt "'c rx" "'c rx"
  | RRep "'c rx" nat
  | RStar "'c rx"
  | RLazy "'c rx"
  | RCap nat "'c rx"
  | RAssert "'c list \<Rightarrow> 'c list \<Rightarrow> bool"

text \<open>Up to \<open>n\<close> rounds of \<open>m\<close>, the most first; a round that consumes nothing ends the loop.\<close>

fun greedy :: "('c rx_state \<Rightarrow> 'c rx_state list) \<Rightarrow> nat \<Rightarrow> 'c rx_state \<Rightarrow> 'c rx_state list" where
  "greedy m 0 st = [st]"
| "greedy m (Suc n) st =
     concat (map (greedy m n) (filter (\<lambda>st'. length (fst (snd st')) < length (fst (snd st))) (m st))) @ [st]"

fun lazy :: "('c rx_state \<Rightarrow> 'c rx_state list) \<Rightarrow> nat \<Rightarrow> 'c rx_state \<Rightarrow> 'c rx_state list" where
  "lazy m 0 st = [st]"
| "lazy m (Suc n) st =
     st # concat (map (lazy m n) (filter (\<lambda>st'. length (fst (snd st')) < length (fst (snd st))) (m st)))"

definition match_cls :: "('c \<Rightarrow> bool) \<Rightarrow> 'c rx_state \<Rightarrow> 'c rx_state list" where
  "match_cls P st = (case st of (b, a, cs) \<Rightarrow>
     (case a of [] \<Rightarrow> [] | x # xs \<Rightarrow> if P x then [(x # b, xs, cs)] else []))"

primrec rmatch :: "'c rx \<Rightarrow> 'c rx_state \<Rightarrow> 'c rx_state list" where
  "rmatch (RCls P) = match_cls P"
| "rmatch (RSeq r s) = (\<lambda>st. concat (map (rmatch s) (rmatch r st)))"
| "rmatch (RAlt r s) = (\<lambda>st. rmatch r st @ rmatch s st)"
| "rmatch (RRep r n) = greedy (rmatch r) n"
| "rmatch (RStar r) = (\<lambda>st. greedy (rmatch r) (length (fst (snd st))) st)"
| "rmatch (RLazy r) = (\<lambda>st. lazy (rmatch r) (length (fst (snd st))) st)"
| "rmatch (RCap k r) = (\<lambda>st. map (\<lambda>(b', a', cs').
     (b', a', (k, take (length (fst (snd st)) - length a') (fst (snd st))) # cs')) (rmatch r st))"
| "rmatch (RAssert p) = (\<lambda>(b, a, cs). if p b a then [(b, a, cs)] else [])"

text \<open>\<open>re.match\<close>, \<open>re.search\<close> and the text of a group.\<close>

definition re_at :: "'c rx \<Rightarrow> 'c list \<Rightarrow> 'c list \<Rightarrow> 'c rx_state option" where
  "re_at r b a = (case rmatch r (b, a, []) of [] \<Rightarrow> None | st # _ \<Rightarrow> Some st)"

definition re_match :: "'c rx \<Rightarrow> 'c list \<Rightarrow> 'c rx_state option" where
  "re_match r s = re_at r [] s"

fun search_from :: "'c rx \<Rightarrow> 'c list \<Rightarrow> 'c list \<Rightarrow> 'c rx_state option" where
  "search_from r b [] = re_at r b []"
| "search_from r b (x # xs) =
     (case re_at r b (x # xs) of Some st \<Rightarrow> Some st | None \<Rightarrow> search_from r (x # b) xs)"

definition re_search :: "'c rx \<Rightarrow> 'c list \<Rightarrow> 'c rx_state option" where
  "re_search r s = search_from r [] s"

definition group_of :: "nat \<Rightarrow> 'c rx_state \<Rightarrow> 'c list" where
  "group_of k st = (case map_of (snd (snd st)) k of Some t \<Rightarrow> t | None \<Rightarrow> [])"

abbreviation rx_plus :: "'c rx \<Rightarrow> 'c rx" where
  "rx_plus r \<equiv> RSeq r (RStar r)"

abbreviation rx_opt :: "'c rx \<Rightarrow> 'c rx" where
  "rx_opt r \<equiv> RRep r 1"

primrec rx_lit :: "'c list \<Rightarrow> 'c rx" where
  "rx_lit [] = RAssert (\<lambda>b a. True)"
| "rx_lit (c # cs) = RSeq (RCls (\<lambda>x. x = c)) (rx_lit cs)"

text \<open>Assertions: \<open>\Z\<close>, \<open>$\<close>, and \<open>^\<close> and \<open>$\<close> of \<open>re.MULTILINE\<close>.\<close>

definition at_end :: "'c list \<Rightarrow> 'c list \<Rightarrow> bool" where
  "at_end b a \<longleftrightarrow> a = []"

definition at_dollar :: "'c \<Rightarrow> 'c list \<Rightarrow> 'c list \<Rightarrow> bool" where
  "at_dollar nl b a \<longleftrightarrow> a = [] \<or> a = [nl]"

definition at_line_start :: "'c \<Rightarrow> 'c list \<Rightarrow> 'c list \<Rightarrow> bool" where
  "at_line_start nl b a \<longleftrightarrow> b = [] \<or> hd b = nl"

definition at_line_end :: "'c \<Rightarrow> 'c list \<Rightarrow> 'c list \<Rightarrow> bool" where
  "at_line_end nl b a \<longleftrightarrow> a = [] \<or> hd a = nl"

subsection \<open>Repeating a class\<close>

text \<open>The ways to read at most \<open>n\<close> characters of a class, longest first.\<close>

fun cls_runs :: "('c \<Rightarrow> bool) \<Rightarrow> nat \<Rightarrow> 'c rx_state \<Rightarrow> 'c rx_state list" where
  "cls_runs P 0 st = [st]"
| "cls_runs P (Suc n) (b, [], cs) = [(b, [], cs)]"
| "cls_runs P (Suc n) (b, x # xs, cs) =
     (if P x then cls_runs P n (x # b, xs, cs) @ [(b, x # xs, cs)] else [(b, x # xs, cs)])"

lemma greedy_cls: "greedy (match_cls P) n st = cls_runs P n st"
  by (induction P n st rule: cls_runs.induct) (auto simp: match_cls_def)

lemma cls_runs_set:
  "st' \<in> set (cls_runs P n (b, a, cs)) \<longleftrightarrow>
     (\<exists>k \<le> n. k \<le> length a \<and> (\<forall>x \<in> set (take k a). P x) \<and>
        st' = (rev (take k a) @ b, drop k a, cs))"
proof (induction n arbitrary: b a)
  case (Suc n)
  show ?case
  proof (cases a)
    case Nil
    then show ?thesis by simp
  next
    case (Cons x xs)
    show ?thesis
    proof (cases "P x")
      case False
      with Cons show ?thesis
        by (auto simp: take_Cons' intro: exI [of _ 0])
    next
      case True
      have "st' \<in> set (cls_runs P (Suc n) (b, a, cs)) \<longleftrightarrow>
          (\<exists>k \<le> n. k \<le> length xs \<and> (\<forall>y \<in> set (take k xs). P y) \<and>
             st' = (rev (take k xs) @ x # b, drop k xs, cs)) \<or> st' = (b, a, cs)"
        using True Cons Suc.IH [of "x # b" xs] by (simp add: disj_commute)
      also have "\<dots> \<longleftrightarrow> (\<exists>k \<le> Suc n. k \<le> length a \<and> (\<forall>y \<in> set (take k a). P y) \<and>
             st' = (rev (take k a) @ b, drop k a, cs))" (is "?L \<longleftrightarrow> ?R")
      proof
        assume ?L
        then show ?R
        proof
          assume "\<exists>k \<le> n. k \<le> length xs \<and> (\<forall>y \<in> set (take k xs). P y) \<and>
             st' = (rev (take k xs) @ x # b, drop k xs, cs)"
          then obtain k where "k \<le> n" "k \<le> length xs" "\<forall>y \<in> set (take k xs). P y"
            "st' = (rev (take k xs) @ x # b, drop k xs, cs)" by blast
          with True Cons show ?R by (intro exI [of _ "Suc k"]) simp
        next
          assume "st' = (b, a, cs)"
          then show ?R by (intro exI [of _ 0]) simp
        qed
      next
        assume ?R
        then obtain k where k: "k \<le> Suc n" "k \<le> length a" "\<forall>y \<in> set (take k a). P y"
          "st' = (rev (take k a) @ b, drop k a, cs)" by blast
        then show ?L
          using Cons by (cases k) auto
      qed
      finally show ?thesis .
    qed
  qed
qed auto

lemma rmatch_rep_cls: "rmatch (RRep (RCls P) n) st = cls_runs P n st"
  by (simp add: greedy_cls)

lemma rmatch_star_cls: "rmatch (RStar (RCls P)) st = cls_runs P (length (fst (snd st))) st"
  by (simp add: greedy_cls)

text \<open>The engine reads the longest run first.\<close>

lemma cls_runs_hd:
  "hd (cls_runs P n (b, a, cs)) =
     (rev (takeWhile P (take n a)) @ b, drop (length (takeWhile P (take n a))) a, cs)"
proof (induction n arbitrary: b a)
  case (Suc n)
  show ?case
  proof (cases a)
    case (Cons x xs)
    then show ?thesis
      using Suc.IH [of "x # b" xs]
      by (cases "cls_runs P n (x # b, xs, cs)"; cases n; cases xs) (auto split: if_splits)
  qed simp
qed simp

lemma cls_runs_not_Nil [simp]: "cls_runs P n st \<noteq> []"
  by (cases "(P, n, st)" rule: cls_runs.cases) auto

text \<open>Literals.\<close>

lemma rmatch_lit:
  "rmatch (rx_lit l) (b, a, cs) =
     (if starts_with l a then [(rev l @ b, drop (length l) a, cs)] else [])"
proof (induction l arbitrary: b a)
  case (Cons c l)
  then show ?case by (cases a) (auto simp: match_cls_def)
qed simp

lemma assert_filters: "concat (map (rmatch (RAssert p)) sts) = filter (\<lambda>(b, a, cs). p b a) sts"
  by (induction sts) auto

lemma re_at_None: "re_at r b a = None \<longleftrightarrow> rmatch r (b, a, []) = []"
  by (simp add: re_at_def split: list.splits)

lemma re_at_SomeD: "re_at r b a = Some st \<Longrightarrow> st \<in> set (rmatch r (b, a, []))"
  by (auto simp: re_at_def split: list.splits)

lemma search_from_None:
  "search_from r b s = None \<longleftrightarrow> (\<forall>p q. s = p @ q \<longrightarrow> re_at r (rev p @ b) q = None)"
proof (induction s arbitrary: b)
  case (Cons x xs)
  have "(\<forall>p q. x # xs = p @ q \<longrightarrow> re_at r (rev p @ b) q = None) \<longleftrightarrow>
     re_at r b (x # xs) = None \<and> (\<forall>p q. xs = p @ q \<longrightarrow> re_at r (rev p @ x # b) q = None)"
    (is "?L \<longleftrightarrow> ?R")
  proof
    assume L: ?L
    have "re_at r b (x # xs) = None" using L [rule_format, of "[]"] by simp
    moreover have "re_at r (rev p @ x # b) q = None" if "xs = p @ q" for p q
      using L [rule_format, of "x # p" q] that by simp
    ultimately show ?R by blast
  next
    assume R: ?R
    show ?L
    proof (intro allI impI)
      fix p q assume "x # xs = p @ q"
      with R show "re_at r (rev p @ b) q = None" by (cases p) auto
    qed
  qed
  with Cons.IH show ?case by (auto split: option.splits)
qed simp

subsection \<open>When a pattern matches\<close>

text \<open>
  Whether a pattern matches at all, part by part, as statements about the text: the rules
  \<open>rx_ne\<close> turn \<open>rmatch r st \<noteq> []\<close> into how the text splits.
\<close>

named_theorems rx_ne

lemma ne_cls [rx_ne]:
  "rmatch (RSeq (RCls P) r) (b, a, cs) \<noteq> [] \<longleftrightarrow> (\<exists>x xs. a = x # xs \<and> P x \<and> rmatch r (x # b, xs, cs) \<noteq> [])"
  by (cases a) (auto simp: match_cls_def)

lemma ne_runs:
  "(\<exists>st \<in> set (cls_runs P n (b, a, cs)). rmatch r st \<noteq> []) \<longleftrightarrow>
     (\<exists>u v. a = u @ v \<and> length u \<le> n \<and> (\<forall>x \<in> set u. P x) \<and> rmatch r (rev u @ b, v, cs) \<noteq> [])"
proof
  assume "\<exists>st \<in> set (cls_runs P n (b, a, cs)). rmatch r st \<noteq> []"
  then obtain b' a' cs' where mem: "(b', a', cs') \<in> set (cls_runs P n (b, a, cs))"
    and ne: "rmatch r (b', a', cs') \<noteq> []"
    by (metis prod_cases3)
  from mem obtain k where "k \<le> n" "k \<le> length a" "\<forall>x \<in> set (take k a). P x"
    "(b', a', cs') = (rev (take k a) @ b, drop k a, cs)"
    unfolding cls_runs_set by blast
  with ne have "k \<le> n" "k \<le> length a" "\<forall>x \<in> set (take k a). P x"
    "rmatch r (rev (take k a) @ b, drop k a, cs) \<noteq> []" by auto
  then show "\<exists>u v. a = u @ v \<and> length u \<le> n \<and> (\<forall>x \<in> set u. P x) \<and> rmatch r (rev u @ b, v, cs) \<noteq> []"
    by (intro exI [of _ "take k a"] exI [of _ "drop k a"]) simp
next
  assume "\<exists>u v. a = u @ v \<and> length u \<le> n \<and> (\<forall>x \<in> set u. P x) \<and> rmatch r (rev u @ b, v, cs) \<noteq> []"
  then obtain u v where uv: "a = u @ v" "length u \<le> n" "\<forall>x \<in> set u. P x" "rmatch r (rev u @ b, v, cs) \<noteq> []"
    by blast
  then have "(rev u @ b, v, cs) \<in> set (cls_runs P n (b, a, cs))"
    unfolding cls_runs_set by (intro exI [of _ "length u"]) simp
  with uv(4) show "\<exists>st \<in> set (cls_runs P n (b, a, cs)). rmatch r st \<noteq> []" by blast
qed

lemma ne_star [rx_ne]:
  "rmatch (RSeq (RStar (RCls P)) r) (b, a, cs) \<noteq> [] \<longleftrightarrow>
     (\<exists>u v. a = u @ v \<and> (\<forall>x \<in> set u. P x) \<and> rmatch r (rev u @ b, v, cs) \<noteq> [])"
proof -
  have "rmatch (RSeq (RStar (RCls P)) r) (b, a, cs) \<noteq> [] \<longleftrightarrow>
      (\<exists>st \<in> set (cls_runs P (length a) (b, a, cs)). rmatch r st \<noteq> [])"
    by (auto simp: greedy_cls)
  also have "\<dots> \<longleftrightarrow> (\<exists>u v. a = u @ v \<and> (\<forall>x \<in> set u. P x) \<and> rmatch r (rev u @ b, v, cs) \<noteq> [])"
    unfolding ne_runs by (metis le_add1 length_append)
  finally show ?thesis .
qed

lemma ne_rep [rx_ne]:
  "rmatch (RSeq (RRep (RCls P) n) r) (b, a, cs) \<noteq> [] \<longleftrightarrow>
     (\<exists>u v. a = u @ v \<and> length u \<le> n \<and> (\<forall>x \<in> set u. P x) \<and> rmatch r (rev u @ b, v, cs) \<noteq> [])"
proof -
  have "rmatch (RSeq (RRep (RCls P) n) r) (b, a, cs) \<noteq> [] \<longleftrightarrow>
      (\<exists>st \<in> set (cls_runs P n (b, a, cs)). rmatch r st \<noteq> [])"
    by (auto simp: greedy_cls)
  then show ?thesis unfolding ne_runs .
qed

lemma ne_lit [rx_ne]:
  "rmatch (RSeq (rx_lit l) r) (b, a, cs) \<noteq> [] \<longleftrightarrow> (\<exists>v. a = l @ v \<and> rmatch r (rev l @ b, v, cs) \<noteq> [])"
  by (auto simp: rmatch_lit starts_with_iff)

lemma ne_end [rx_ne]: "rmatch (RAssert at_end) (b, a, cs) \<noteq> [] \<longleftrightarrow> a = []"
  by (simp add: at_end_def)

lemma ne_dollar [rx_ne]: "rmatch (RAssert (at_dollar nl)) (b, a, cs) \<noteq> [] \<longleftrightarrow> a = [] \<or> a = [nl]"
  by (simp add: at_dollar_def)

lemma ne_alt [rx_ne]:
  "rmatch (RSeq (RAlt r s) t) st \<noteq> [] \<longleftrightarrow> rmatch (RSeq r t) st \<noteq> [] \<or> rmatch (RSeq s t) st \<noteq> []"
  by auto

lemma ne_assoc [rx_ne]: "rmatch (RSeq (RSeq r s) t) st \<noteq> [] \<longleftrightarrow> rmatch (RSeq r (RSeq s t)) st \<noteq> []"
  by (auto simp: map_concat [symmetric])

lemma re_match_ne: "re_match r s \<noteq> None \<longleftrightarrow> rmatch r ([], s, []) \<noteq> []"
  by (simp add: re_match_def re_at_None)

subsection \<open>What a match consumes\<close>

primrec cap_free :: "'c rx \<Rightarrow> bool" where
  "cap_free (RCls P) = True"
| "cap_free (RSeq r s) = (cap_free r \<and> cap_free s)"
| "cap_free (RAlt r s) = (cap_free r \<and> cap_free s)"
| "cap_free (RRep r n) = cap_free r"
| "cap_free (RStar r) = cap_free r"
| "cap_free (RLazy r) = cap_free r"
| "cap_free (RCap k r) = False"
| "cap_free (RAssert p) = True"

lemma cap_free_lit [simp]: "cap_free (rx_lit l)"
  by (induction l) auto

text \<open>A way to match moves a text \<open>u\<close> from what is ahead to what is behind.\<close>

definition eats :: "bool \<Rightarrow> ('c rx_state \<Rightarrow> 'c rx_state list) \<Rightarrow> bool" where
  "eats keep m \<longleftrightarrow> (\<forall>b a cs b' a' cs'. (b', a', cs') \<in> set (m (b, a, cs)) \<longrightarrow>
     (\<exists>u. a = u @ a' \<and> b' = rev u @ b) \<and> (keep \<longrightarrow> cs' = cs))"

lemma eatsI:
  "(\<And>b a cs b' a' cs'. (b', a', cs') \<in> set (m (b, a, cs)) \<Longrightarrow>
     (\<exists>u. a = u @ a' \<and> b' = rev u @ b) \<and> (keep \<longrightarrow> cs' = cs)) \<Longrightarrow> eats keep m"
  unfolding eats_def by blast

lemma eatsD:
  "eats keep m \<Longrightarrow> (b', a', cs') \<in> set (m (b, a, cs)) \<Longrightarrow>
     (\<exists>u. a = u @ a' \<and> b' = rev u @ b) \<and> (keep \<longrightarrow> cs' = cs)"
  unfolding eats_def by blast

lemma eats_trans:
  assumes "eats keep m" "(b1, a1, cs1) \<in> set (m (b, a, cs))"
    and "(\<exists>u. a1 = u @ a2 \<and> b2 = rev u @ b1) \<and> (keep \<longrightarrow> cs2 = cs1)"
  shows "(\<exists>u. a = u @ a2 \<and> b2 = rev u @ b) \<and> (keep \<longrightarrow> cs2 = cs)"
proof -
  obtain u where u: "a = u @ a1" "b1 = rev u @ b" "keep \<longrightarrow> cs1 = cs"
    using eatsD [OF assms(1,2)] by blast
  obtain w where w: "a1 = w @ a2" "b2 = rev w @ b1" "keep \<longrightarrow> cs2 = cs1"
    using assms(3) by blast
  have "a = (u @ w) @ a2 \<and> b2 = rev (u @ w) @ b"
    using u(1,2) w(1,2) by simp
  then show ?thesis using u(3) w(3) by blast
qed

lemma eats_refl: "(\<exists>u. a = u @ a \<and> b = rev u @ b) \<and> (keep \<longrightarrow> cs = cs)"
  by (intro conjI exI [of _ "[]"]) auto

lemma greedy_eats: "eats keep m \<Longrightarrow> (b', a', cs') \<in> set (greedy m n (b, a, cs)) \<Longrightarrow>
   (\<exists>u. a = u @ a' \<and> b' = rev u @ b) \<and> (keep \<longrightarrow> cs' = cs)"
proof (induction n arbitrary: b a cs)
  case 0
  then show ?case by simp
next
  case (Suc n)
  from Suc.prems(2) consider (stop) "(b', a', cs') = (b, a, cs)"
    | (more) b1 a1 cs1 where "(b1, a1, cs1) \<in> set (m (b, a, cs))" "(b', a', cs') \<in> set (greedy m n (b1, a1, cs1))"
    by auto
  then show ?case
  proof cases
    case stop
    then show ?thesis by (simp add: eats_refl)
  next
    case more
    then show ?thesis
      using eats_trans [OF Suc.prems(1) more(1) Suc.IH [OF Suc.prems(1) more(2)]] by blast
  qed
qed

lemma lazy_eats: "eats keep m \<Longrightarrow> (b', a', cs') \<in> set (lazy m n (b, a, cs)) \<Longrightarrow>
   (\<exists>u. a = u @ a' \<and> b' = rev u @ b) \<and> (keep \<longrightarrow> cs' = cs)"
proof (induction n arbitrary: b a cs)
  case 0
  then show ?case by simp
next
  case (Suc n)
  from Suc.prems(2) consider (stop) "(b', a', cs') = (b, a, cs)"
    | (more) b1 a1 cs1 where "(b1, a1, cs1) \<in> set (m (b, a, cs))" "(b', a', cs') \<in> set (lazy m n (b1, a1, cs1))"
    by auto
  then show ?case
  proof cases
    case stop
    then show ?thesis by (simp add: eats_refl)
  next
    case more
    then show ?thesis
      using eats_trans [OF Suc.prems(1) more(1) Suc.IH [OF Suc.prems(1) more(2)]] by blast
  qed
qed

lemma seq_ways:
  "st' \<in> set (rmatch (RSeq r s) st) \<longleftrightarrow>
     (\<exists>b1 a1 c1. (b1, a1, c1) \<in> set (rmatch r st) \<and> st' \<in> set (rmatch s (b1, a1, c1)))"
  by auto

lemma rmatch_eats: "(keep \<longrightarrow> cap_free r) \<Longrightarrow> eats keep (rmatch r)"
proof (induction r)
  case (RCls P)
  show ?case
  proof (rule eatsI)
    fix b a cs b' a' and cs' :: "(nat \<times> 'a list) list"
    assume "(b', a', cs') \<in> set (rmatch (RCls P) (b, a, cs))"
    then obtain x where "a = [x] @ a'" "b' = rev [x] @ b" "cs' = cs"
      by (auto simp: match_cls_def split: list.splits if_splits)
    then show "(\<exists>u. a = u @ a' \<and> b' = rev u @ b) \<and> (keep \<longrightarrow> cs' = cs)" by blast
  qed
next
  case (RSeq r s)
  then have m: "eats keep (rmatch r)" "eats keep (rmatch s)" by auto
  show ?case
  proof (rule eatsI)
    fix b a cs b' a' cs'
    assume "(b', a', cs') \<in> set (rmatch (RSeq r s) (b, a, cs))"
    then obtain b1 a1 c1 where "(b1, a1, c1) \<in> set (rmatch r (b, a, cs))" "(b', a', cs') \<in> set (rmatch s (b1, a1, c1))"
      unfolding seq_ways by blast
    then show "(\<exists>u. a = u @ a' \<and> b' = rev u @ b) \<and> (keep \<longrightarrow> cs' = cs)"
      by (elim eats_trans [OF m(1)] eatsD [OF m(2)])
  qed
next
  case (RAlt r s)
  then have m: "eats keep (rmatch r)" "eats keep (rmatch s)" by auto
  show ?case
    by (rule eatsI) (auto dest: eatsD [OF m(1)] eatsD [OF m(2)])
next
  case (RRep r n)
  then have m: "eats keep (rmatch r)" by auto
  show ?case
    by (rule eatsI) (simp add: greedy_eats [OF m])
next
  case (RStar r)
  then have m: "eats keep (rmatch r)" by auto
  show ?case
    by (rule eatsI) (simp add: greedy_eats [OF m])
next
  case (RLazy r)
  then have m: "eats keep (rmatch r)" by auto
  show ?case
    by (rule eatsI) (simp add: lazy_eats [OF m])
next
  case (RCap k r)
  then have "\<not> keep" by simp
  have m: "eats False (rmatch r)"
    using RCap.IH \<open>\<not> keep\<close> by simp
  show ?case
    using \<open>\<not> keep\<close> by (intro eatsI) (auto dest: eatsD [OF m])
next
  case (RAssert p)
  show ?case
    by (rule eatsI) (auto split: if_splits)
qed

text \<open>Three groups in a row: each holds its part of the text matched.\<close>

lemma cap_part:
  assumes "cap_free r" and "(b', a', cs') \<in> set (rmatch (RCap k r) (b, a, cs))"
  shows "\<exists>u. a = u @ a' \<and> b' = rev u @ b \<and> cs' = (k, u) # cs"
proof -
  from assms(2) obtain c where c: "(b', a', c) \<in> set (rmatch r (b, a, cs))"
    "cs' = (k, take (length a - length a') a) # c" by auto
  from eatsD [OF rmatch_eats [of True r] c(1)] assms(1)
  obtain u where "a = u @ a'" "b' = rev u @ b" "c = cs" by blast
  with c(2) show ?thesis by auto
qed

lemma three_groups:
  assumes "cap_free r1" "cap_free r2" "cap_free r3"
    and "(b', a', cs') \<in> set (rmatch (RSeq (RCap 1 r1) (RSeq (RCap 2 r2) (RCap 3 r3))) (b, a, cs))"
  shows "\<exists>u v w. a = u @ v @ w @ a' \<and> b' = rev (u @ v @ w) @ b \<and> cs' = (3, w) # (2, v) # (1, u) # cs"
proof -
  from assms(4) obtain b1 a1 c1 b2 a2 c2 where
    "(b1, a1, c1) \<in> set (rmatch (RCap 1 r1) (b, a, cs))"
    "(b2, a2, c2) \<in> set (rmatch (RCap 2 r2) (b1, a1, c1))"
    "(b', a', cs') \<in> set (rmatch (RCap 3 r3) (b2, a2, c2))"
    unfolding seq_ways by blast
  from cap_part [OF assms(1) this(1)] cap_part [OF assms(2) this(2)] cap_part [OF assms(3) this(3)]
  show ?thesis by auto
qed

subsection \<open>Substitution\<close>

text \<open>
  \<open>re.sub\<close> with a function of the match, for a pattern that matches no empty text: a match
  is replaced and the search goes on behind it.
\<close>

function re_sub :: "'c rx \<Rightarrow> ('c rx_state \<Rightarrow> 'c list) \<Rightarrow> 'c list \<Rightarrow> 'c list \<Rightarrow> 'c list" where
  "re_sub r f b [] = []"
| "re_sub r f b (x # xs) =
     (case re_at r b (x # xs) of
        Some (b', a', cs) \<Rightarrow>
          if length a' < length (x # xs) then f (b', a', cs) @ re_sub r f b' a' else x # re_sub r f (x # b) xs
      | None \<Rightarrow> x # re_sub r f (x # b) xs)"
  by pat_completeness auto
termination
  by (relation "measure (\<lambda>(r, f, b, s). length s)") auto

declare re_sub.simps(2) [simp del]

end
