(* ===== verification/Elf.thy ===== *)
theory Elf
  imports PyRegex "HOL-Library.Word"
begin

text \<open>
  Models \<open>src/kdive/symbols/build_id.py\<close>, \<open>src/kdive/symbols/vmcore_build_id.py\<close> and
  \<open>src/kdive/symbols/verify.py\<close>: reading the GNU build id of a vmlinux and the
  \<open>VMCOREINFO\<close> build id of a vmcore from their note segments, and comparing ids.

  A binary file is its content with two limits of its host: the largest offset a seek
  takes and the largest buffer a read can allocate. Integers unpacked from it are
  Python's, so sums do not wrap. What leaves a reader as an exception other than its
  own error classes has its own constructors.
\<close>

subsection \<open>Binary files and \<open>struct\<close>\<close>

type_synonym byte = "8 word"

datatype byte_order = Little | Big

record bin_file =
  content :: "byte list"
  max_offset :: nat
  max_alloc :: nat

datatype elf_failure =
    Truncated nat nat
  | Bad_magic
  | Ident_truncated
  | Unsupported_ident
  | No_program_headers
  | Implausible_phentsize nat
  | Table_past_eof
  | Cannot_read
  | Note_absent

datatype elf_raised =
    Build_id_read_error elf_failure
  | Vmcore_build_id_error elf_failure
  | Vmcore_format_unsupported
  | Vmcore_build_id_absent elf_failure
  | Os_error
  | Seek_value_error
  | Read_buffer_error
  | Struct_error

text \<open>\<open>seek\<close> refuses what does not fit an \<open>off_t\<close>; \<open>read\<close> allocates before it reads.\<close>

definition fh_seek :: "bin_file \<Rightarrow> nat \<Rightarrow> (elf_raised, nat) result" where
  "fh_seek fh off =
     (if 2 ^ 63 \<le> off then Inl Seek_value_error
      else if max_offset fh < off then Inl Os_error
      else Inr off)"

definition fh_read :: "bin_file \<Rightarrow> nat \<Rightarrow> nat \<Rightarrow> (elf_raised, byte list) result" where
  "fh_read fh pos n =
     (if max_alloc fh < n then Inl Read_buffer_error else Inr (take n (drop pos (content fh))))"

fun le_nat :: "byte list \<Rightarrow> nat" where
  "le_nat [] = 0"
| "le_nat (b # bs) = unat b + 256 * le_nat bs"

definition unpack :: "byte_order \<Rightarrow> byte list \<Rightarrow> nat" where
  "unpack en bs = (case en of Little \<Rightarrow> le_nat bs | Big \<Rightarrow> le_nat (rev bs))"

definition unpack_from :: "byte_order \<Rightarrow> nat \<Rightarrow> byte list \<Rightarrow> nat \<Rightarrow> (elf_raised, nat) result" where
  "unpack_from en w blob off =
     (if off + w \<le> length blob then Inr (unpack en (take w (drop off blob))) else Inl Struct_error)"

definition slice :: "nat \<Rightarrow> nat \<Rightarrow> 'a list \<Rightarrow> 'a list" where
  "slice i j xs = take (j - i) (drop i xs)"

text \<open>\<open>-n % 4\<close>, \<open>bytes.rstrip(b"\x00")\<close>, \<open>bytes.hex()\<close>.\<close>

definition pad4 :: "nat \<Rightarrow> nat" where
  "pad4 n = nat ((- int n) mod 4)"

definition rstrip_nul :: "byte list \<Rightarrow> byte list" where
  "rstrip_nul bs = rev (dropWhile (\<lambda>b. b = 0) (rev bs))"

definition hex_of :: "byte list \<Rightarrow> string" where
  "hex_of bs = concat (map (\<lambda>b. [hex_char (unat b div 16), hex_char (unat b mod 16)]) bs)"

definition ascii :: "string \<Rightarrow> byte list" where
  "ascii s = map (\<lambda>c. of_nat (of_char c)) s"

definition elf_magic :: "byte list" where
  "elf_magic = [0x7f, 0x45, 0x4c, 0x46]"

definition NT_GNU_BUILD_ID :: nat where
  "NT_GNU_BUILD_ID = 3"

definition PT_NOTE :: nat where
  "PT_NOTE = 4"

subsection \<open>\<open>build_id.py\<close>\<close>

definition read_exact :: "bin_file \<Rightarrow> nat \<Rightarrow> nat \<Rightarrow> (elf_raised, byte list) result" where
  "read_exact fh off n =
     rbind (fh_seek fh off) (\<lambda>pos.
     rbind (fh_read fh pos n) (\<lambda>blob.
       if length blob \<noteq> n then Inl (Build_id_read_error (Truncated n off)) else Inr blob))"

function scan_notes :: "byte_order \<Rightarrow> byte list \<Rightarrow> nat \<Rightarrow> (elf_raised, string option) result" where
  "scan_notes en blob off =
     (if off + 12 \<le> length blob then
        rbind (unpack_from en 4 blob off) (\<lambda>namesz.
        rbind (unpack_from en 4 blob (off + 4)) (\<lambda>descsz.
        rbind (unpack_from en 4 blob (off + 8)) (\<lambda>ntype.
          let name_start = off + 12;
              name_end = name_start + namesz;
              desc_start = name_end + pad4 name_end;
              desc_end = desc_start + descsz
          in if desc_end > length blob then Inr None
             else if ntype = NT_GNU_BUILD_ID \<and> rstrip_nul (slice name_start name_end blob) = ascii ''GNU''
             then Inr (Some (hex_of (slice desc_start desc_end blob)))
             else scan_notes en blob (desc_end + pad4 desc_end))))
      else Inr None)"
  by pat_completeness auto
termination
  by (relation "measure (\<lambda>(en, blob, off). Suc (length blob) - off)") auto

declare scan_notes.simps [simp del]

text \<open>The loop over the program headers: the first note segment with an answer.\<close>

fun scan_phdrs :: "bin_file \<Rightarrow> byte_order \<Rightarrow> bool \<Rightarrow> byte list \<Rightarrow> nat \<Rightarrow> nat list \<Rightarrow> (elf_raised, string) result" where
  "scan_phdrs fh en is64 phdrs phentsize [] = Inl (Build_id_read_error Note_absent)"
| "scan_phdrs fh en is64 phdrs phentsize (i # is) =
     (let ph = i * phentsize in
      rbind (unpack_from en 4 phdrs ph) (\<lambda>p_type.
      if p_type \<noteq> PT_NOTE then scan_phdrs fh en is64 phdrs phentsize is
      else
        rbind (if is64 then unpack_from en 8 phdrs (ph + 8) else unpack_from en 4 phdrs (ph + 4)) (\<lambda>p_offset.
        rbind (if is64 then unpack_from en 8 phdrs (ph + 32) else unpack_from en 4 phdrs (ph + 16)) (\<lambda>p_filesz.
        rbind (read_exact fh p_offset p_filesz) (\<lambda>blob.
        rbind (scan_notes en blob 0) (\<lambda>found.
          case found of Some b \<Rightarrow> Inr b | None \<Rightarrow> scan_phdrs fh en is64 phdrs phentsize is))))))"

definition build_id_body :: "bin_file \<Rightarrow> (elf_raised, string) result" where
  "build_id_body fh =
     rbind (read_exact fh 0 16) (\<lambda>ident.
     if take 4 ident \<noteq> elf_magic then Inl (Build_id_read_error Bad_magic)
     else let ei_class = unat (ident ! 4); ei_data = unat (ident ! 5) in
       if ei_class \<notin> {1, 2} \<or> ei_data \<notin> {1, 2} then Inl (Build_id_read_error Unsupported_ident)
       else let en = (if ei_data = 1 then Little else Big); is64 = (ei_class = 2) in
         rbind (read_exact fh 0 (if is64 then 64 else 52)) (\<lambda>ehdr.
         rbind (if is64 then unpack_from en 8 ehdr 32 else unpack_from en 4 ehdr 28) (\<lambda>e_phoff.
         rbind (unpack_from en 2 ehdr (if is64 then 54 else 42)) (\<lambda>e_phentsize.
         rbind (unpack_from en 2 ehdr (if is64 then 56 else 44)) (\<lambda>e_phnum.
           if e_phnum = 0 then Inl (Build_id_read_error No_program_headers)
           else if e_phentsize < (if is64 then 56 else 32)
           then Inl (Build_id_read_error (Implausible_phentsize e_phentsize))
           else if e_phoff + e_phentsize * e_phnum > length (content fh)
           then Inl (Build_id_read_error Table_past_eof)
           else rbind (read_exact fh e_phoff (e_phentsize * e_phnum)) (\<lambda>phdrs.
                  scan_phdrs fh en is64 phdrs e_phentsize [0..<e_phnum]))))))"

text \<open>The whole reader: an \<open>OSError\<close>, of \<open>open\<close> or later, is the reader's own error.\<close>

definition read_elf_build_id :: "bin_file option \<Rightarrow> (elf_raised, string) result" where
  "read_elf_build_id path =
     (case path of
        None \<Rightarrow> Inl (Build_id_read_error Cannot_read)
      | Some fh \<Rightarrow>
          (case build_id_body fh of
             Inl Os_error \<Rightarrow> Inl (Build_id_read_error Cannot_read)
           | r \<Rightarrow> r))"

subsection \<open>\<open>vmcore_build_id.py\<close>\<close>

definition space_byte :: "byte \<Rightarrow> bool" where
  "space_byte b \<longleftrightarrow> b \<in> {0x20, 0x09, 0x0a, 0x0d, 0x0c, 0x0b}"

definition hex_byte :: "byte \<Rightarrow> bool" where
  "hex_byte b \<longleftrightarrow> (let n = unat b in 48 \<le> n \<and> n \<le> 57 \<or> 65 \<le> n \<and> n \<le> 70 \<or> 97 \<le> n \<and> n \<le> 102)"

definition lower_ascii :: "byte list \<Rightarrow> string" where
  "lower_ascii bs = map (\<lambda>b. let n = unat b in char_of (if 65 \<le> n \<and> n \<le> 90 then n + 32 else n)) bs"

definition build_id_prefix :: "byte list" where
  "build_id_prefix = ascii ''BUILD-ID=''"

definition build_id_line :: "byte rx" where
  "build_id_line =
     RSeq (RAssert (at_line_start 0x0a))
    (RSeq (rx_lit build_id_prefix)
    (RSeq (RCap 1 (rx_plus (RCls hex_byte)))
    (RSeq (RStar (RCls space_byte)) (RAssert (at_line_end 0x0a)))))"

definition vmcore_read_exact :: "bin_file \<Rightarrow> nat \<Rightarrow> nat \<Rightarrow> (elf_raised, byte list) result" where
  "vmcore_read_exact fh off n =
     rbind (fh_seek fh off) (\<lambda>pos.
     rbind (fh_read fh pos n) (\<lambda>blob.
       if length blob \<noteq> n then Inl (Vmcore_build_id_error (Truncated n off)) else Inr blob))"

function scan_vmcoreinfo :: "byte_order \<Rightarrow> byte list \<Rightarrow> nat \<Rightarrow> (elf_raised, string option) result" where
  "scan_vmcoreinfo en blob off =
     (if off + 12 \<le> length blob then
        rbind (unpack_from en 4 blob off) (\<lambda>namesz.
        rbind (unpack_from en 4 blob (off + 4)) (\<lambda>descsz.
        rbind (unpack_from en 4 blob (off + 8)) (\<lambda>ntype.
          let name_start = off + 12;
              name_end = name_start + namesz;
              desc_start = name_end + pad4 name_end;
              desc_end = desc_start + descsz;
              next = desc_end + pad4 desc_end
          in if desc_end > length blob then Inr None
             else if rstrip_nul (slice name_start name_end blob) = ascii ''VMCOREINFO''
             then (case re_search build_id_line (slice desc_start desc_end blob) of
                     Some m \<Rightarrow> Inr (Some (lower_ascii (group_of 1 m)))
                   | None \<Rightarrow> scan_vmcoreinfo en blob next)
             else scan_vmcoreinfo en blob next)))
      else Inr None)"
  by pat_completeness auto
termination
  by (relation "measure (\<lambda>(en, blob, off). Suc (length blob) - off)") auto

declare scan_vmcoreinfo.simps [simp del]

fun vmcore_scan_phdrs :: "bin_file \<Rightarrow> byte_order \<Rightarrow> bool \<Rightarrow> byte list \<Rightarrow> nat \<Rightarrow> nat list \<Rightarrow> (elf_raised, string) result" where
  "vmcore_scan_phdrs fh en is64 phdrs phentsize [] = Inl (Vmcore_build_id_absent Note_absent)"
| "vmcore_scan_phdrs fh en is64 phdrs phentsize (i # is) =
     (let ph = i * phentsize in
      rbind (unpack_from en 4 phdrs ph) (\<lambda>p_type.
      if p_type \<noteq> PT_NOTE then vmcore_scan_phdrs fh en is64 phdrs phentsize is
      else
        rbind (if is64 then unpack_from en 8 phdrs (ph + 8) else unpack_from en 4 phdrs (ph + 4)) (\<lambda>p_offset.
        rbind (if is64 then unpack_from en 8 phdrs (ph + 32) else unpack_from en 4 phdrs (ph + 16)) (\<lambda>p_filesz.
        rbind (vmcore_read_exact fh p_offset p_filesz) (\<lambda>blob.
        rbind (scan_vmcoreinfo en blob 0) (\<lambda>found.
          case found of Some b \<Rightarrow> Inr b | None \<Rightarrow> vmcore_scan_phdrs fh en is64 phdrs phentsize is))))))"

definition vmcore_build_id_body :: "bin_file \<Rightarrow> (elf_raised, string) result" where
  "vmcore_build_id_body fh =
     rbind (fh_read fh 0 16) (\<lambda>ident.
     if take 4 ident \<noteq> elf_magic then Inl Vmcore_format_unsupported
     else if length ident < 16 then Inl (Vmcore_build_id_error Ident_truncated)
     else let ei_class = unat (ident ! 4); ei_data = unat (ident ! 5) in
       if ei_class \<notin> {1, 2} \<or> ei_data \<notin> {1, 2} then Inl (Vmcore_build_id_error Unsupported_ident)
       else let en = (if ei_data = 1 then Little else Big); is64 = (ei_class = 2) in
         rbind (vmcore_read_exact fh 0 (if is64 then 64 else 52)) (\<lambda>ehdr.
         rbind (if is64 then unpack_from en 8 ehdr 32 else unpack_from en 4 ehdr 28) (\<lambda>e_phoff.
         rbind (unpack_from en 2 ehdr (if is64 then 54 else 42)) (\<lambda>e_phentsize.
         rbind (unpack_from en 2 ehdr (if is64 then 56 else 44)) (\<lambda>e_phnum.
           if e_phnum = 0 then Inl (Vmcore_build_id_absent No_program_headers)
           else if e_phentsize < (if is64 then 56 else 32)
           then Inl (Vmcore_build_id_error (Implausible_phentsize e_phentsize))
           else if e_phoff + e_phentsize * e_phnum > length (content fh)
           then Inl (Vmcore_build_id_error Table_past_eof)
           else rbind (vmcore_read_exact fh e_phoff (e_phentsize * e_phnum)) (\<lambda>phdrs.
                  vmcore_scan_phdrs fh en is64 phdrs e_phentsize [0..<e_phnum]))))))"

definition read_vmcore_build_id :: "bin_file option \<Rightarrow> (elf_raised, string) result" where
  "read_vmcore_build_id path =
     (case path of
        None \<Rightarrow> Inl (Vmcore_build_id_error Cannot_read)
      | Some fh \<Rightarrow>
          (case vmcore_build_id_body fh of
             Inl Os_error \<Rightarrow> Inl (Vmcore_build_id_error Cannot_read)
           | r \<Rightarrow> r))"

subsection \<open>\<open>verify.py\<close>\<close>

datatype provenance_error = Provenance_mismatch string string | Build_id_unread elf_raised

definition is_lower_hex :: "char \<Rightarrow> bool" where
  "is_lower_hex c \<longleftrightarrow> is_digit c \<or> (97 \<le> (of_char c :: nat) \<and> (of_char c :: nat) \<le> 102)"

text \<open>\<open>^[0-9a-f]{8,}$\<close>.\<close>

definition build_id_re :: "char rx" where
  "build_id_re =
     (let h = RCls is_lower_hex in
      RSeq h (RSeq h (RSeq h (RSeq h (RSeq h (RSeq h (RSeq h (RSeq h
        (RSeq (RStar h) (RAssert (at_dollar (CHR 0x0A))))))))))))"

definition verify_build_id :: "string \<Rightarrow> string \<Rightarrow> (provenance_error, unit) result" where
  "verify_build_id expected observed =
     (if observed \<noteq> expected then Inl (Provenance_mismatch expected observed) else Inr ())"

definition verify_vmlinux_provenance ::
    "(bin_file option \<Rightarrow> (elf_raised, string) result) \<Rightarrow> string \<Rightarrow> bin_file option \<Rightarrow> (provenance_error, string) result" where
  "verify_vmlinux_provenance build_id_reader expected vmlinux =
     (case build_id_reader vmlinux of
        Inl e \<Rightarrow> Inl (Build_id_unread e)
      | Inr observed \<Rightarrow> rbind (verify_build_id expected observed) (\<lambda>_. Inr observed))"

end
