(* ===== verification/ElfImage.thy ===== *)
theory ElfImage
  imports Elf
begin

text \<open>
  Facts about the readers of \<open>Elf\<close>: which errors they raise and the shape of what they
  return, a writer of ELF images as the reference for the readers, and the reading of
  what was written.
\<close>

subsection \<open>What the readers raise\<close>

lemma unpack_from_Inr [simp]: "off + w \<le> length blob \<Longrightarrow> unpack_from en w blob off = Inr (unpack en (take w (drop off blob)))"
  by (simp add: unpack_from_def)

lemma scan_notes_returns: "\<exists>r. scan_notes en blob off = Inr r"
proof (induction en blob off rule: scan_notes.induct)
  case (1 en blob off)
  show ?case
  proof (cases "off + 12 \<le> length blob")
    case True
    then show ?thesis
      using 1 by (subst scan_notes.simps) (auto simp: Let_def)
  qed (subst scan_notes.simps, simp)
qed

lemma scan_vmcoreinfo_returns: "\<exists>r. scan_vmcoreinfo en blob off = Inr r"
proof (induction en blob off rule: scan_vmcoreinfo.induct)
  case (1 en blob off)
  show ?case
  proof (cases "off + 12 \<le> length blob")
    case True
    then show ?thesis
      using 1 by (subst scan_vmcoreinfo.simps) (auto simp: Let_def split: option.splits)
  qed (subst scan_vmcoreinfo.simps, simp)
qed

text \<open>An exception that is neither the reader's own nor an \<open>OSError\<close>: of a seek or an allocation.\<close>

definition escapes :: "elf_raised \<Rightarrow> bool" where
  "escapes e \<longleftrightarrow> e = Seek_value_error \<or> e = Read_buffer_error"

lemma fh_raises:
  "fh_seek fh off = Inl e \<Longrightarrow> e = Os_error \<or> escapes e"
  "fh_read fh pos n = Inl e \<Longrightarrow> escapes e"
  by (auto simp: fh_seek_def fh_read_def escapes_def split: if_splits)

lemma read_exact_raises:
  "read_exact fh off n = Inl e \<Longrightarrow> e = Os_error \<or> escapes e \<or> (\<exists>x. e = Build_id_read_error x)"
  by (auto simp: read_exact_def rbind_eq_Inl dest: fh_raises split: if_splits)

lemma vmcore_read_exact_raises:
  "vmcore_read_exact fh off n = Inl e \<Longrightarrow> e = Os_error \<or> escapes e \<or> (\<exists>x. e = Vmcore_build_id_error x)"
  by (auto simp: vmcore_read_exact_def rbind_eq_Inl dest: fh_raises split: if_splits)

lemma read_exact_length: "read_exact fh off n = Inr blob \<Longrightarrow> length blob = n"
  by (auto simp: read_exact_def split: if_splits)

lemma vmcore_read_exact_length: "vmcore_read_exact fh off n = Inr blob \<Longrightarrow> length blob = n"
  by (auto simp: vmcore_read_exact_def split: if_splits)

text \<open>Every field of a program header lies inside the table.\<close>

lemma phdr_fields_inside:
  assumes "i < n" "length phdrs = k * n" "(if is64 then 56 else 32) \<le> (k::nat)"
  shows "i * k + (if is64 then 40 else 20) \<le> length phdrs"
proof -
  have "Suc i * k \<le> n * k" using assms(1) by (intro mult_le_mono1) simp
  then show ?thesis using assms(2,3) by (simp add: mult.commute split: if_splits)
qed

lemma scan_phdrs_raises:
  assumes "scan_phdrs fh en is64 phdrs k is = Inl e" "\<forall>i \<in> set is. i < n"
    and "length phdrs = k * n" "(if is64 then 56 else 32) \<le> k"
  shows "e = Os_error \<or> escapes e \<or> (\<exists>x. e = Build_id_read_error x)"
  using assms(1,2)
proof (induction "is")
  case (Cons i "is")
  have "i * k + (if is64 then 40 else 20) \<le> length phdrs"
    using Cons.prems(2) assms(3,4) by (intro phdr_fields_inside [where n = n]) auto
  with Cons show ?case
    by (auto simp: Let_def rbind_eq_Inl dest: read_exact_raises split: if_splits option.splits)
      (metis scan_notes_returns sum.distinct(1))+
qed auto

lemma vmcore_scan_phdrs_raises:
  assumes "vmcore_scan_phdrs fh en is64 phdrs k is = Inl e" "\<forall>i \<in> set is. i < n"
    and "length phdrs = k * n" "(if is64 then 56 else 32) \<le> k"
  shows "e = Os_error \<or> escapes e \<or> (\<exists>x. e = Vmcore_build_id_error x) \<or> (\<exists>x. e = Vmcore_build_id_absent x)"
  using assms(1,2)
proof (induction "is")
  case (Cons i "is")
  have "i * k + (if is64 then 40 else 20) \<le> length phdrs"
    using Cons.prems(2) assms(3,4) by (intro phdr_fields_inside [where n = n]) auto
  with Cons show ?case
    by (auto simp: Let_def rbind_eq_Inl dest: vmcore_read_exact_raises split: if_splits option.splits)
      (metis scan_vmcoreinfo_returns sum.distinct(1))+
qed auto

lemma build_id_body_raises:
  assumes "build_id_body fh = Inl e"
  shows "e = Os_error \<or> escapes e \<or> (\<exists>x. e = Build_id_read_error x)"
  using assms unfolding build_id_body_def
  by (auto simp: rbind_eq_Inl Let_def dest!: read_exact_length
      dest: read_exact_raises scan_phdrs_raises [where n = "unpack _ _"] split: if_splits)

lemma vmcore_body_raises:
  assumes "vmcore_build_id_body fh = Inl e"
  shows "e = Os_error \<or> escapes e \<or> e = Vmcore_format_unsupported \<or>
     (\<exists>x. e = Vmcore_build_id_error x) \<or> (\<exists>x. e = Vmcore_build_id_absent x)"
  using assms unfolding vmcore_build_id_body_def
  by (auto simp: rbind_eq_Inl Let_def dest!: vmcore_read_exact_length
      dest: fh_raises vmcore_read_exact_raises vmcore_scan_phdrs_raises [where n = "unpack _ _"] split: if_splits)

subsection \<open>What the readers return\<close>

lemma byte_nibbles: "unat (b :: byte) div 16 < 16"
proof -
  have "unat b < 2 ^ LENGTH(8)" by (rule unsigned_less)
  then show ?thesis by simp
qed

lemma lower_hex_char: "d < 16 \<Longrightarrow> is_lower_hex (hex_char d)"
  by (auto simp: is_lower_hex_def is_digit_def hex_char_def)

lemma hex_of_shape: "even (length (hex_of bs)) \<and> (\<forall>c \<in> set (hex_of bs). is_lower_hex c)"
  using byte_nibbles by (induction bs) (auto simp: hex_of_def lower_hex_char)

lemma scan_notes_hex:
  "scan_notes en blob off = Inr (Some s) \<Longrightarrow> \<exists>bs. s = hex_of bs"
proof (induction en blob off rule: scan_notes.induct)
  case (1 en blob off)
  show ?case
  proof (cases "off + 12 \<le> length blob")
    case True
    with 1 show ?thesis
      by (subst (asm) (2) scan_notes.simps) (auto simp: Let_def split: if_splits)
  next
    case False
    with 1(2) show ?thesis by (subst (asm) scan_notes.simps) simp
  qed
qed

lemma scan_phdrs_hex:
  "scan_phdrs fh en is64 phdrs k is = Inr s \<Longrightarrow> \<exists>bs. s = hex_of bs"
  by (induction "is") (auto simp: Let_def dest: scan_notes_hex split: if_splits option.splits)

lemma read_elf_build_id_hex:
  assumes "read_elf_build_id f = Inr s"
  shows "\<exists>bs. s = hex_of bs"
proof -
  obtain fh where "f = Some fh" using assms by (cases f) (auto simp: read_elf_build_id_def)
  with assms have "build_id_body fh = Inr s"
    by (auto simp: read_elf_build_id_def split: sum.splits elf_raised.splits)
  then show ?thesis
    unfolding build_id_body_def by (auto simp: Let_def split: if_splits dest: scan_phdrs_hex)
qed

subsection \<open>Writing integers\<close>

primrec put_le :: "nat \<Rightarrow> nat \<Rightarrow> byte list" where
  "put_le 0 n = []"
| "put_le (Suc w) n = of_nat (n mod 256) # put_le w (n div 256)"

definition put :: "byte_order \<Rightarrow> nat \<Rightarrow> nat \<Rightarrow> byte list" where
  "put en w n = (case en of Little \<Rightarrow> put_le w n | Big \<Rightarrow> rev (put_le w n))"

lemma length_put_le [simp]: "length (put_le w n) = w"
  by (induction w arbitrary: n) auto

lemma length_put [simp]: "length (put en w n) = w"
  by (simp add: put_def split: byte_order.splits)

lemma le_nat_put: "le_nat (put_le w n) = n mod 256 ^ w"
proof (induction w arbitrary: n)
  case (Suc w)
  have "unat (of_nat (n mod 256) :: byte) = n mod 256"
    by (simp add: unat_of_nat)
  with Suc show ?case by (simp add: mod_mult2_eq)
qed simp

lemma unpack_put [simp]: "n < 256 ^ w \<Longrightarrow> unpack en (put en w n) = n"
  by (simp add: unpack_def put_def le_nat_put split: byte_order.splits)

subsection \<open>Writing notes\<close>

type_synonym elf_note = "byte list \<times> byte list \<times> nat"

definition put_note :: "byte_order \<Rightarrow> elf_note \<Rightarrow> byte list" where
  "put_note en nt = (case nt of (name, desc, ty) \<Rightarrow>
     put en 4 (length name) @ put en 4 (length desc) @ put en 4 ty @
     name @ replicate (pad4 (length name)) 0 @ desc @ replicate (pad4 (length desc)) 0)"

definition put_notes :: "byte_order \<Rightarrow> elf_note list \<Rightarrow> byte list" where
  "put_notes en ns = concat (map (put_note en) ns)"

definition note_fits :: "elf_note \<Rightarrow> bool" where
  "note_fits nt \<longleftrightarrow> (case nt of (name, desc, ty) \<Rightarrow>
     length name < 2 ^ 32 \<and> length desc < 2 ^ 32 \<and> ty < 2 ^ 32)"

lemma pad4_aligns: "4 dvd n + pad4 n"
proof -
  have "int n + (- int n) mod 4 = int (n + pad4 n)" by (simp add: pad4_def)
  moreover have "(4::int) dvd int n + (- int n) mod 4"
    by (simp add: dvd_eq_mod_eq_0 mod_add_right_eq)
  ultimately show ?thesis by (metis int_dvd_int_iff of_nat_numeral)
qed

lemma pad4_offset: "4 dvd m \<Longrightarrow> pad4 (m + n) = pad4 n"
proof -
  assume "4 dvd m"
  then obtain q where "m = 4 * q" by blast
  then have "(- int (m + n)) mod 4 = (- int n) mod 4"
    by (simp add: mod_eq_dvd_iff)
  then show ?thesis by (simp add: pad4_def)
qed

lemma length_put_note:
  "length (put_note en (name, desc, ty)) = 12 + (length name + pad4 (length name)) + (length desc + pad4 (length desc))"
  by (simp add: put_note_def)

lemma put_note_aligned: "4 dvd length (put_note en nt)"
proof (cases nt)
  case (fields name desc ty)
  have "4 dvd (12::nat)" by simp
  then show ?thesis
    unfolding fields length_put_note by (intro dvd_add pad4_aligns)
qed

text \<open>The fields of the note that starts at an aligned offset.\<close>

lemma note_fields:
  fixes pre suf :: "byte list" and en :: byte_order
  assumes "note_fits (name, desc, ty)"
  defines "blob \<equiv> pre @ put_note en (name, desc, ty) @ suf"
  shows "unpack_from en 4 blob (length pre) = Inr (length name)"
    and "unpack_from en 4 blob (length pre + 4) = Inr (length desc)"
    and "unpack_from en 4 blob (length pre + 8) = Inr ty"
    and "slice (length pre + 12) (length pre + 12 + length name) blob = name"
    and "slice (length pre + 12 + length name + pad4 (length name))
           (length pre + 12 + length name + pad4 (length name) + length desc) blob = desc"
  using assms(1) by (simp_all add: blob_def put_note_def note_fits_def slice_def drop_Cons')

text \<open>The answer of the build-id reader on a list of notes: the first GNU build-id note.\<close>

definition is_gnu_note :: "elf_note \<Rightarrow> bool" where
  "is_gnu_note nt \<longleftrightarrow> (case nt of (name, desc, ty) \<Rightarrow> ty = NT_GNU_BUILD_ID \<and> rstrip_nul name = ascii ''GNU'')"

definition gnu_build_id :: "elf_note list \<Rightarrow> string option" where
  "gnu_build_id ns = map_option (\<lambda>(name, desc, ty). hex_of desc) (List.find is_gnu_note ns)"

lemma note_step:
  fixes pre suf name desc :: "byte list" and en :: byte_order and ty :: nat
  assumes "4 dvd length pre"
  defines "blob \<equiv> pre @ put_note en (name, desc, ty) @ suf"
    and "desc_end \<equiv> length pre + 12 + length name + pad4 (length name) + length desc"
  shows "length pre + 12 \<le> length blob"
    and "pad4 (length pre + 12 + length name) = pad4 (length name)"
    and "\<not> length blob < desc_end"
    and "desc_end + pad4 desc_end = length (pre @ put_note en (name, desc, ty))"
proof -
  have s4: "4 dvd length pre + 12" using assms(1) by (simp add: dvd_add)
  then show "pad4 (length pre + 12 + length name) = pad4 (length name)" by (rule pad4_offset)
  have "4 dvd length pre + 12 + (length name + pad4 (length name))"
    using s4 pad4_aligns by (rule dvd_add)
  then have "pad4 desc_end = pad4 (length desc)"
    unfolding desc_end_def by (metis add.assoc pad4_offset)
  then show "desc_end + pad4 desc_end = length (pre @ put_note en (name, desc, ty))"
    by (simp add: length_put_note) (simp add: desc_end_def)
  show "length pre + 12 \<le> length blob" "\<not> length blob < desc_end"
    by (simp_all add: blob_def desc_end_def length_put_note)
qed

lemma scan_put_note:
  fixes pre suf :: "byte list" and en :: byte_order
  assumes "note_fits (name, desc, ty)" "4 dvd length pre"
  defines "blob \<equiv> pre @ put_note en (name, desc, ty) @ suf"
  shows "scan_notes en blob (length pre) =
    (if is_gnu_note (name, desc, ty) then Inr (Some (hex_of desc))
     else scan_notes en blob (length (pre @ put_note en (name, desc, ty))))"
  using note_fields [OF assms(1), where en = en and pre = pre and suf = suf, folded blob_def]
    note_step(1,3) [OF assms(2), where en = en and suf = suf and name = name and desc = desc and ty = ty, folded blob_def]
    note_step(2) [OF assms(2), of name]
    note_step(4) [OF assms(2), where en = en and name = name and desc = desc and ty = ty]
  by (subst scan_notes.simps) (simp add: Let_def is_gnu_note_def del: length_append)

lemma scan_put_notes_aux:
  assumes "\<forall>n \<in> set ns. note_fits n" "4 dvd length pre"
  shows "scan_notes en (pre @ put_notes en ns) (length pre) = Inr (gnu_build_id ns)"
  using assms
proof (induction ns arbitrary: pre)
  case Nil
  then show ?case by (subst scan_notes.simps) (simp add: put_notes_def gnu_build_id_def)
next
  case (Cons nt ns)
  obtain name desc ty where n: "nt = (name, desc, ty)" by (rule prod_cases3)
  have "4 dvd length (pre @ put_note en nt)"
    using Cons.prems(2) put_note_aligned by simp
  from Cons.IH [OF _ this] Cons.prems
    scan_put_note [where name = name and desc = desc and ty = ty and pre = pre and en = en and suf = "put_notes en ns"]
  show ?case by (simp add: n put_notes_def gnu_build_id_def)
qed

lemma scan_put_notes:
  "\<forall>n \<in> set ns. note_fits n \<Longrightarrow> scan_notes en (put_notes en ns) 0 = Inr (gnu_build_id ns)"
  using scan_put_notes_aux [of ns "[]" en] by simp

text \<open>The answer of the vmcore reader: the first \<open>VMCOREINFO\<close> note with a build-id line.\<close>

definition vmcoreinfo_id :: "elf_note \<Rightarrow> string option" where
  "vmcoreinfo_id nt = (case nt of (name, desc, ty) \<Rightarrow>
     if rstrip_nul name = ascii ''VMCOREINFO''
     then map_option (lower_ascii \<circ> group_of 1) (re_search build_id_line desc)
     else None)"

fun vmcoreinfo_build_id :: "elf_note list \<Rightarrow> string option" where
  "vmcoreinfo_build_id [] = None"
| "vmcoreinfo_build_id (nt # ns) =
     (case vmcoreinfo_id nt of Some b \<Rightarrow> Some b | None \<Rightarrow> vmcoreinfo_build_id ns)"

lemma scan_vmcoreinfo_put_note:
  fixes pre suf :: "byte list" and en :: byte_order
  assumes "note_fits (name, desc, ty)" "4 dvd length pre"
  defines "blob \<equiv> pre @ put_note en (name, desc, ty) @ suf"
  shows "scan_vmcoreinfo en blob (length pre) =
    (case vmcoreinfo_id (name, desc, ty) of Some b \<Rightarrow> Inr (Some b)
     | None \<Rightarrow> scan_vmcoreinfo en blob (length (pre @ put_note en (name, desc, ty))))"
  using note_fields [OF assms(1), where en = en and pre = pre and suf = suf, folded blob_def]
    note_step(1,3) [OF assms(2), where en = en and suf = suf and name = name and desc = desc and ty = ty, folded blob_def]
    note_step(2) [OF assms(2), of name]
    note_step(4) [OF assms(2), where en = en and name = name and desc = desc and ty = ty]
  by (subst scan_vmcoreinfo.simps)
    (simp add: Let_def vmcoreinfo_id_def del: length_append split: option.splits)

lemma scan_vmcoreinfo_put_notes_aux:
  assumes "\<forall>n \<in> set ns. note_fits n" "4 dvd length pre"
  shows "scan_vmcoreinfo en (pre @ put_notes en ns) (length pre) = Inr (vmcoreinfo_build_id ns)"
  using assms
proof (induction ns arbitrary: pre)
  case Nil
  then show ?case by (subst scan_vmcoreinfo.simps) (simp add: put_notes_def)
next
  case (Cons nt ns)
  obtain name desc ty where n: "nt = (name, desc, ty)" by (rule prod_cases3)
  have "4 dvd length (pre @ put_note en nt)"
    using Cons.prems(2) put_note_aligned by simp
  from Cons.IH [OF _ this] Cons.prems
    scan_vmcoreinfo_put_note [where name = name and desc = desc and ty = ty and pre = pre and en = en and suf = "put_notes en ns"]
  show ?case by (simp add: n put_notes_def split: option.splits)
qed

lemma scan_vmcoreinfo_put_notes:
  "\<forall>n \<in> set ns. note_fits n \<Longrightarrow> scan_vmcoreinfo en (put_notes en ns) 0 = Inr (vmcoreinfo_build_id ns)"
  using scan_vmcoreinfo_put_notes_aux [of ns "[]" en] by simp

subsection \<open>Writing an image\<close>

text \<open>A segment holds notes, or bytes of another type of segment.\<close>

datatype segment = Note_segment "elf_note list" | Other_segment nat "byte list"

primrec segment_type :: "segment \<Rightarrow> nat" where
  "segment_type (Note_segment ns) = PT_NOTE"
| "segment_type (Other_segment ty bs) = ty"

primrec segment_bytes :: "byte_order \<Rightarrow> segment \<Rightarrow> byte list" where
  "segment_bytes en (Note_segment ns) = put_notes en ns"
| "segment_bytes en (Other_segment ty bs) = bs"

primrec segment_notes :: "segment \<Rightarrow> elf_note list" where
  "segment_notes (Note_segment ns) = ns"
| "segment_notes (Other_segment ty bs) = []"

primrec segment_ok :: "segment \<Rightarrow> bool" where
  "segment_ok (Note_segment ns) \<longleftrightarrow> (\<forall>n \<in> set ns. note_fits n)"
| "segment_ok (Other_segment ty bs) \<longleftrightarrow> ty \<noteq> PT_NOTE \<and> ty < 2 ^ 32"

definition ehdr_size :: "bool \<Rightarrow> nat" where
  "ehdr_size is64 = (if is64 then 64 else 52)"

definition phdr_size :: "bool \<Rightarrow> nat" where
  "phdr_size is64 = (if is64 then 56 else 32)"

definition put_ehdr :: "byte_order \<Rightarrow> bool \<Rightarrow> nat \<Rightarrow> byte list" where
  "put_ehdr en is64 n =
     elf_magic @ [if is64 then 2 else 1, case en of Little \<Rightarrow> 1 | Big \<Rightarrow> 2] @ replicate 10 0 @
     (if is64
      then replicate 16 0 @ put en 8 64 @ replicate 14 0 @ put en 2 56 @ put en 2 n @ replicate 6 0
      else replicate 12 0 @ put en 4 52 @ replicate 10 0 @ put en 2 32 @ put en 2 n @ replicate 6 0)"

definition put_phdr :: "byte_order \<Rightarrow> bool \<Rightarrow> nat \<Rightarrow> nat \<Rightarrow> nat \<Rightarrow> byte list" where
  "put_phdr en is64 ty off sz =
     (if is64
      then put en 4 ty @ replicate 4 0 @ put en 8 off @ replicate 16 0 @ put en 8 sz @ replicate 16 0
      else put en 4 ty @ put en 4 off @ replicate 8 0 @ put en 4 sz @ replicate 12 0)"

text \<open>The headers of segments whose contents start at \<open>off\<close>, one after the other.\<close>

fun put_phdrs :: "byte_order \<Rightarrow> bool \<Rightarrow> nat \<Rightarrow> segment list \<Rightarrow> byte list" where
  "put_phdrs en is64 off [] = []"
| "put_phdrs en is64 off (g # gs) =
     put_phdr en is64 (segment_type g) off (length (segment_bytes en g)) @
     put_phdrs en is64 (off + length (segment_bytes en g)) gs"

definition put_body :: "byte_order \<Rightarrow> segment list \<Rightarrow> byte list" where
  "put_body en gs = concat (map (segment_bytes en) gs)"

definition elf_image :: "byte_order \<Rightarrow> bool \<Rightarrow> segment list \<Rightarrow> byte list" where
  "elf_image en is64 gs =
     put_ehdr en is64 (length gs) @
     put_phdrs en is64 (ehdr_size is64 + phdr_size is64 * length gs) gs @
     put_body en gs"

text \<open>What fits the fields of the image and the limits of the host.\<close>

definition image_fits :: "bin_file \<Rightarrow> byte_order \<Rightarrow> bool \<Rightarrow> segment list \<Rightarrow> bool" where
  "image_fits fh en is64 gs \<longleftrightarrow>
     content fh = elf_image en is64 gs \<and> gs \<noteq> [] \<and> length gs < 2 ^ 16 \<and> (\<forall>g \<in> set gs. segment_ok g) \<and>
     length (content fh) \<le> max_offset fh \<and> length (content fh) \<le> max_alloc fh \<and>
     length (content fh) < (if is64 then 2 ^ 63 else 2 ^ 32)"

lemma length_put_ehdr [simp]: "length (put_ehdr en is64 n) = ehdr_size is64"
  by (simp add: put_ehdr_def ehdr_size_def elf_magic_def)

lemma length_put_phdr [simp]: "length (put_phdr en is64 ty off sz) = phdr_size is64"
  by (simp add: put_phdr_def phdr_size_def)

lemma length_put_phdrs [simp]: "length (put_phdrs en is64 off gs) = phdr_size is64 * length gs"
  by (induction gs arbitrary: off) simp_all

text \<open>The fields of the header and of the \<open>i\<close>-th program header.\<close>

lemma ehdr_ident:
  "take 4 (take 16 (put_ehdr en is64 n @ rest)) = elf_magic"
  "take 16 (put_ehdr en is64 n @ rest) ! 4 = (if is64 then 2 else 1)"
  "take 16 (put_ehdr en is64 n @ rest) ! 5 = (case en of Little \<Rightarrow> 1 | Big \<Rightarrow> 2)"
  by (simp_all add: put_ehdr_def elf_magic_def numeral_eq_Suc)

lemma ehdr_fields:
  assumes "n < 2 ^ 16"
  shows "(if is64 then unpack_from en 8 (put_ehdr en is64 n) 32 else unpack_from en 4 (put_ehdr en is64 n) 28)
           = Inr (ehdr_size is64)"
    and "unpack_from en 2 (put_ehdr en is64 n) (if is64 then 54 else 42) = Inr (phdr_size is64)"
    and "unpack_from en 2 (put_ehdr en is64 n) (if is64 then 56 else 44) = Inr n"
  using assms
  by (simp_all add: ehdr_size_def phdr_size_def put_ehdr_def elf_magic_def unpack_from_def drop_Cons' take_Cons')

lemma phdr_fields:
  fixes suf :: "byte list" and en :: byte_order
  assumes "ty < 2 ^ 32" "off < (if is64 then 2 ^ 63 else 2 ^ 32)" "sz < (if is64 then 2 ^ 63 else 2 ^ 32)"
    and "length pre = p"
  defines "t \<equiv> pre @ put_phdr en is64 ty off sz @ suf"
  shows "unpack_from en 4 t p = Inr ty"
    and "(if is64 then unpack_from en 8 t (p + 8) else unpack_from en 4 t (p + 4)) = Inr off"
    and "(if is64 then unpack_from en 8 t (p + 32) else unpack_from en 4 t (p + 16)) = Inr sz"
  using assms(1-4) by (simp_all add: t_def put_phdr_def unpack_from_def split: if_splits)

subsection \<open>Reading an image\<close>

lemma find_append: "List.find P (xs @ ys) = (case List.find P xs of None \<Rightarrow> List.find P ys | Some x \<Rightarrow> Some x)"
  by (induction xs) auto

lemma vmcoreinfo_append:
  "vmcoreinfo_build_id (ms @ ns) = (case vmcoreinfo_build_id ms of None \<Rightarrow> vmcoreinfo_build_id ns | Some b \<Rightarrow> Some b)"
  by (induction ms) (auto split: option.splits)

lemma gnu_build_id_append:
  "gnu_build_id (ms @ ns) = (case gnu_build_id ms of None \<Rightarrow> gnu_build_id ns | Some b \<Rightarrow> Some b)"
  by (simp add: gnu_build_id_def find_append split: option.splits)

definition fits_host :: "bin_file \<Rightarrow> bool \<Rightarrow> bool" where
  "fits_host fh is64 \<longleftrightarrow> length (content fh) \<le> max_offset fh \<and> length (content fh) \<le> max_alloc fh \<and>
     length (content fh) < (if is64 then 2 ^ 63 else 2 ^ 32)"

lemma read_exact_part:
  assumes "content fh = pre @ part @ suf" "fits_host fh is64"
  shows "read_exact fh (length pre) (length part) = Inr part"
  using assms by (auto simp: read_exact_def fh_seek_def fh_read_def fits_host_def split: if_splits)

lemma vmcore_read_exact_part:
  assumes "content fh = pre @ part @ suf" "fits_host fh is64"
  shows "vmcore_read_exact fh (length pre) (length part) = Inr part"
  using assms by (auto simp: vmcore_read_exact_def fh_seek_def fh_read_def fits_host_def split: if_splits)

text \<open>What the fields of the first header of the rest of the table say.\<close>

lemma next_phdr:
  fixes pre :: "byte list"
  assumes "segment_ok g" "content fh = c0 @ put_body en (g # gs)" "fits_host fh is64"
  defines "t \<equiv> pre @ put_phdrs en is64 (length c0) (g # gs)"
  shows "unpack_from en 4 t (length pre) = Inr (segment_type g)"
    and "(if is64 then unpack_from en 8 t (length pre + 8) else unpack_from en 4 t (length pre + 4)) = Inr (length c0)"
    and "(if is64 then unpack_from en 8 t (length pre + 32) else unpack_from en 4 t (length pre + 16))
           = Inr (length (segment_bytes en g))"
proof -
  have ty: "segment_type g < 2 ^ 32" using assms(1) by (cases g) (auto simp: PT_NOTE_def)
  have "length c0 + length (segment_bytes en g) \<le> length (content fh)"
    using assms(2) by (simp add: put_body_def)
  then have "length c0 < (if is64 then 2 ^ 63 else 2 ^ 32)"
    "length (segment_bytes en g) < (if is64 then 2 ^ 63 else 2 ^ 32)"
    using assms(3) by (auto simp: fits_host_def)
  note fields = phdr_fields [OF ty this refl,
      where suf = "put_phdrs en is64 (length c0 + length (segment_bytes en g)) gs" and en = en and pre = pre]
  show "unpack_from en 4 t (length pre) = Inr (segment_type g)"
    and "(if is64 then unpack_from en 8 t (length pre + 8) else unpack_from en 4 t (length pre + 4)) = Inr (length c0)"
    and "(if is64 then unpack_from en 8 t (length pre + 32) else unpack_from en 4 t (length pre + 16))
           = Inr (length (segment_bytes en g))"
    unfolding t_def put_phdrs.simps by (rule fields)+
qed

text \<open>
  Both readers walk the program headers in the same way. What the walk relies on: an exact
  read of a part of the file, a scan of a segment, and its own two equations.
\<close>

locale note_loop =
  fixes exact :: "bin_file \<Rightarrow> nat \<Rightarrow> nat \<Rightarrow> (elf_raised, byte list) result"
    and scan :: "byte_order \<Rightarrow> byte list \<Rightarrow> nat \<Rightarrow> (elf_raised, string option) result"
    and answer :: "elf_note list \<Rightarrow> string option"
    and absent :: elf_raised
    and loop :: "bin_file \<Rightarrow> byte_order \<Rightarrow> bool \<Rightarrow> byte list \<Rightarrow> nat \<Rightarrow> nat list \<Rightarrow> (elf_raised, string) result"
  assumes exact_part:
      "\<lbrakk>content fh = pre @ part @ suf; fits_host fh is64\<rbrakk> \<Longrightarrow> exact fh (length pre) (length part) = Inr part"
    and scan_answers: "\<forall>n \<in> set ns. note_fits n \<Longrightarrow> scan en (put_notes en ns) 0 = Inr (answer ns)"
    and answer_Nil: "answer [] = None"
    and answer_append: "answer (ms @ ns) = (case answer ms of None \<Rightarrow> answer ns | Some b \<Rightarrow> Some b)"
    and loop_Nil: "loop fh en is64 t k [] = Inl absent"
    and loop_Cons: "loop fh en is64 t k (i # is) =
      rbind (unpack_from en 4 t (i * k)) (\<lambda>p_type.
      if p_type \<noteq> PT_NOTE then loop fh en is64 t k is
      else
        rbind (if is64 then unpack_from en 8 t (i * k + 8) else unpack_from en 4 t (i * k + 4)) (\<lambda>p_offset.
        rbind (if is64 then unpack_from en 8 t (i * k + 32) else unpack_from en 4 t (i * k + 16)) (\<lambda>p_filesz.
        rbind (exact fh p_offset p_filesz) (\<lambda>blob.
        rbind (scan en blob 0) (\<lambda>found.
          case found of Some b \<Rightarrow> Inr b | None \<Rightarrow> loop fh en is64 t k is)))))"
begin

definition outcome :: "segment list \<Rightarrow> (elf_raised, string) result" where
  "outcome gs = (case answer (concat (map segment_notes gs)) of Some b \<Rightarrow> Inr b | None \<Rightarrow> Inl absent)"

lemma loop_image:
  assumes "\<forall>g \<in> set gs. segment_ok g" "fits_host fh is64"
    and "content fh = c0 @ put_body en gs" "length pre = i * phdr_size is64"
  shows "loop fh en is64 (pre @ put_phdrs en is64 (length c0) gs) (phdr_size is64) [i..<i + length gs] = outcome gs"
  using assms(1,3,4)
proof (induction gs arbitrary: pre i c0)
  case Nil
  then show ?case by (simp add: answer_Nil loop_Nil outcome_def)
next
  case (Cons g gs)
  let ?sb = "segment_bytes en g"
  let ?ph = "put_phdr en is64 (segment_type g) (length c0) (length ?sb)"
  have ok: "segment_ok g" using Cons.prems(1) by simp
  have body: "content fh = (c0 @ ?sb) @ put_body en gs" "content fh = c0 @ ?sb @ put_body en gs"
    using Cons.prems(2) by (simp_all add: put_body_def)
  have step: "length (pre @ ?ph) = Suc i * phdr_size is64"
    using Cons.prems(3) by simp
  have IH: "loop fh en is64 (pre @ put_phdrs en is64 (length c0) (g # gs)) (phdr_size is64)
      [Suc i..<Suc i + length gs] = outcome gs"
    using Cons.IH [OF _ body(1) step] Cons.prems(1) by simp
  have upt: "[i..<i + length (g # gs)] = i # [Suc i..<Suc i + length gs]"
    by (subst upt_conv_Cons) simp_all
  note fields = next_phdr [OF ok Cons.prems(2) assms(2), where pre = pre, unfolded Cons.prems(3)]
  show ?case
  proof (cases g)
    case (Other_segment ty bs)
    then have "segment_type g \<noteq> PT_NOTE" using ok by simp
    with fields(1) IH upt show ?thesis
      by (simp add: Other_segment loop_Cons outcome_def del: put_phdrs.simps)
  next
    case (Note_segment ns)
    then have sb: "?sb = put_notes en ns" and ty: "segment_type g = PT_NOTE" and sn: "segment_notes g = ns"
      by simp_all
    have "scan en ?sb 0 = Inr (answer ns)"
      using ok unfolding sb by (intro scan_answers) (simp add: Note_segment)
    then show ?thesis
      using fields IH upt ty exact_part [OF body(2) assms(2)]
      by (simp add: loop_Cons outcome_def answer_append sn split: option.splits del: put_phdrs.simps)
  qed
qed

end

interpretation build_id: note_loop read_exact scan_notes gnu_build_id "Build_id_read_error Note_absent" scan_phdrs
proof
  show "read_exact fh (length pre) (length part) = Inr part"
    if "content fh = pre @ part @ suf" "fits_host fh is64" for fh pre part suf is64
    using that by (rule read_exact_part)
qed (auto simp: scan_put_notes gnu_build_id_append Let_def gnu_build_id_def [of "[]"])

interpretation vmcoreinfo: note_loop vmcore_read_exact scan_vmcoreinfo vmcoreinfo_build_id
  "Vmcore_build_id_absent Note_absent" vmcore_scan_phdrs
proof
  show "vmcore_read_exact fh (length pre) (length part) = Inr part"
    if "content fh = pre @ part @ suf" "fits_host fh is64" for fh pre part suf is64
    using that by (rule vmcore_read_exact_part)
qed (auto simp: scan_vmcoreinfo_put_notes vmcoreinfo_append Let_def)

text \<open>The parts of an image both bodies read.\<close>

lemma image_parts:
  assumes "image_fits fh en is64 gs"
  defines "off \<equiv> ehdr_size is64 + phdr_size is64 * length gs"
  shows "content fh = [] @ put_ehdr en is64 (length gs) @ (put_phdrs en is64 off gs @ put_body en gs)"
    and "content fh = put_ehdr en is64 (length gs) @ put_phdrs en is64 off gs @ put_body en gs"
    and "content fh = (put_ehdr en is64 (length gs) @ put_phdrs en is64 off gs) @ put_body en gs"
    and "content fh = [] @ take 16 (content fh) @ drop 16 (content fh)"
    and "length (take 16 (content fh)) = 16"
    and "fits_host fh is64" "\<forall>g \<in> set gs. segment_ok g" "length gs < 2 ^ 16" "length gs \<noteq> 0"
    and "\<not> phdr_size is64 < (if is64 then 56 else 32)"
    and "\<not> length (content fh) < ehdr_size is64 + phdr_size is64 * length gs"
proof -
  show c: "content fh = put_ehdr en is64 (length gs) @ put_phdrs en is64 off gs @ put_body en gs"
    and "fits_host fh is64" "\<forall>g \<in> set gs. segment_ok g" "length gs < 2 ^ 16" "length gs \<noteq> 0"
    using assms by (auto simp: image_fits_def elf_image_def fits_host_def)
  have "16 \<le> ehdr_size is64" by (simp add: ehdr_size_def)
  then show "length (take 16 (content fh)) = 16" unfolding c by simp
  show "content fh = [] @ put_ehdr en is64 (length gs) @ (put_phdrs en is64 off gs @ put_body en gs)"
    "content fh = (put_ehdr en is64 (length gs) @ put_phdrs en is64 off gs) @ put_body en gs"
    by (simp_all add: c)
  show "content fh = [] @ take 16 (content fh) @ drop 16 (content fh)" by simp
  show "\<not> phdr_size is64 < (if is64 then 56 else 32)" by (simp add: phdr_size_def)
  show "\<not> length (content fh) < ehdr_size is64 + phdr_size is64 * length gs"
    unfolding c by simp
qed

lemma ident_values:
  "unat ((if is64 then 2 else 1) :: byte) = (if is64 then 2 else 1)"
  "unat ((case en of Little \<Rightarrow> 1 | Big \<Rightarrow> 2) :: byte) = (case en of Little \<Rightarrow> 1 | Big \<Rightarrow> 2)"
  by (simp_all split: byte_order.splits)

lemma read_image:
  assumes "image_fits fh en is64 gs"
  shows "read_elf_build_id (Some fh) = build_id.outcome gs"
proof -
  let ?off = "ehdr_size is64 + phdr_size is64 * length gs"
  note parts = image_parts [OF assms]
  note n = parts(8) and host = parts(6)
  note id = ehdr_ident [where en = en and ?is64.0 = is64 and n = "length gs"
      and rest = "put_phdrs en is64 ?off gs @ put_body en gs", folded parts(2)]
  note ef = ehdr_fields(1) [OF n, of is64 en] ehdr_fields(2,3) [OF n, of en is64]
  have reads: "read_exact fh 0 16 = Inr (take 16 (content fh))"
    "read_exact fh 0 (if is64 then 64 else 52) = Inr (put_ehdr en is64 (length gs))"
    "read_exact fh (ehdr_size is64) (phdr_size is64 * length gs) = Inr (put_phdrs en is64 ?off gs)"
    using read_exact_part [OF parts(4) host] parts(5) read_exact_part [OF parts(1) host]
      read_exact_part [OF parts(2) host] by (simp_all add: ehdr_size_def)
  have "scan_phdrs fh en is64 (put_phdrs en is64 ?off gs) (phdr_size is64) [0..<length gs] = build_id.outcome gs"
    using build_id.loop_image [OF parts(7) host parts(3), where pre = "[]" and i = 0] by simp
  then have "build_id_body fh = build_id.outcome gs"
    using reads parts(9-11) id ef ident_values(1) [of is64] ident_values(2) [of en]
    by (cases en; cases is64) (simp_all add: build_id_body_def Let_def)
  then show ?thesis by (auto simp: read_elf_build_id_def build_id.outcome_def split: option.splits)
qed

lemma read_vmcore_image:
  assumes "image_fits fh en is64 gs"
  shows "read_vmcore_build_id (Some fh) = vmcoreinfo.outcome gs"
proof -
  let ?off = "ehdr_size is64 + phdr_size is64 * length gs"
  note parts = image_parts [OF assms]
  note n = parts(8) and host = parts(6)
  note id = ehdr_ident [where en = en and ?is64.0 = is64 and n = "length gs"
      and rest = "put_phdrs en is64 ?off gs @ put_body en gs", folded parts(2)]
  note ef = ehdr_fields(1) [OF n, of is64 en] ehdr_fields(2,3) [OF n, of en is64]
  have "fh_read fh 0 16 = Inr (take 16 (content fh))"
    using host parts(5) by (auto simp: fh_read_def fits_host_def)
  then have reads: "fh_read fh 0 16 = Inr (take 16 (content fh))"
    "vmcore_read_exact fh 0 (if is64 then 64 else 52) = Inr (put_ehdr en is64 (length gs))"
    "vmcore_read_exact fh (ehdr_size is64) (phdr_size is64 * length gs) = Inr (put_phdrs en is64 ?off gs)"
    using vmcore_read_exact_part [OF parts(1) host] vmcore_read_exact_part [OF parts(2) host]
    by (simp_all add: ehdr_size_def)
  have "vmcore_scan_phdrs fh en is64 (put_phdrs en is64 ?off gs) (phdr_size is64) [0..<length gs] = vmcoreinfo.outcome gs"
    using vmcoreinfo.loop_image [OF parts(7) host parts(3), where pre = "[]" and i = 0] by simp
  then have "vmcore_build_id_body fh = vmcoreinfo.outcome gs"
    using reads parts(5,9-11) id ef ident_values(1) [of is64] ident_values(2) [of en]
    by (cases en; cases is64) (simp_all add: vmcore_build_id_body_def Let_def)
  then show ?thesis by (auto simp: read_vmcore_build_id_def vmcoreinfo.outcome_def split: option.splits)
qed

end
