(* ===== verification/ElfLine.thy ===== *)
theory ElfLine
  imports ElfImage
begin

text \<open>
  The regular expression of \<open>vmcore_build_id.py\<close> against a reference that reads lines:
  a search of \<open>build_id_line\<close> finds the first line that is \<open>BUILD-ID=\<close>, hexadecimal
  digits and trailing blanks.
\<close>

definition line_id :: "byte list \<Rightarrow> byte list option" where
  "line_id l =
     (let t = drop (length build_id_prefix) l; h = takeWhile hex_byte t in
      if starts_with build_id_prefix l \<and> h \<noteq> [] \<and> (\<forall>x \<in> set (dropWhile hex_byte t). space_byte x)
      then Some h else None)"

fun first_line_id :: "byte list list \<Rightarrow> byte list option" where
  "first_line_id [] = None"
| "first_line_id (l # ls) = (case line_id l of Some h \<Rightarrow> Some h | None \<Rightarrow> first_line_id ls)"

definition unlines :: "byte list list \<Rightarrow> byte list" where
  "unlines ls = concat (map (\<lambda>l. l @ [0x0a]) ls)"

lemma hex_not_space: "hex_byte x \<Longrightarrow> \<not> space_byte x"
  by (auto simp: hex_byte_def space_byte_def Let_def)

lemma newline_bytes: "\<not> hex_byte 0x0a" "space_byte 0x0a"
  by (simp_all add: hex_byte_def space_byte_def Let_def)

text \<open>The tail of the expression: blanks up to an end of line.\<close>

definition blank_tail :: "byte rx_state \<Rightarrow> byte rx_state list" where
  "blank_tail = rmatch (RSeq (RStar (RCls space_byte)) (RAssert (at_line_end 0x0a)))"

lemma blank_tail_set:
  "st' \<in> set (blank_tail (b, a, cs)) \<longleftrightarrow>
     (\<exists>k \<le> length a. (\<forall>x \<in> set (take k a). space_byte x) \<and> at_line_end 0x0a [] (drop k a) \<and>
        st' = (rev (take k a) @ b, drop k a, cs))"
  by (auto simp: blank_tail_def greedy_cls cls_runs_set at_line_end_def split: if_splits)
    (intro exI [of _ "length a"], simp)

lemma blank_tail_hex: "hex_byte x \<Longrightarrow> blank_tail (b, x # a, cs) = []"
proof -
  assume x: "hex_byte x"
  then have "x \<noteq> 0x0a" using newline_bytes by auto
  have "st' \<notin> set (blank_tail (b, x # a, cs))" for st'
  proof
    assume "st' \<in> set (blank_tail (b, x # a, cs))"
    then obtain k where k: "\<forall>y \<in> set (take k (x # a)). space_byte y" "at_line_end 0x0a [] (drop k (x # a))"
      unfolding blank_tail_set by blast
    show False
      using k x hex_not_space [OF x] \<open>x \<noteq> 0x0a\<close> by (cases k) (auto simp: at_line_end_def)
  qed
  then show ?thesis by (cases "blank_tail (b, x # a, cs)") auto
qed

lemma blank_tail_line:
  assumes "0x0a \<notin> set w"
  shows "blank_tail (b, w @ 0x0a # rest, cs) \<noteq> [] \<longleftrightarrow> (\<forall>x \<in> set w. space_byte x)"
proof
  assume "\<forall>x \<in> set w. space_byte x"
  then have "(rev w @ b, 0x0a # rest, cs) \<in> set (blank_tail (b, w @ 0x0a # rest, cs))"
    unfolding blank_tail_set by (intro exI [of _ "length w"]) (simp add: at_line_end_def)
  then show "blank_tail (b, w @ 0x0a # rest, cs) \<noteq> []" by auto
next
  assume "blank_tail (b, w @ 0x0a # rest, cs) \<noteq> []"
  then obtain st' where "st' \<in> set (blank_tail (b, w @ 0x0a # rest, cs))"
    by (cases "blank_tail (b, w @ 0x0a # rest, cs)") auto
  then obtain k where k: "\<forall>x \<in> set (take k (w @ 0x0a # rest)). space_byte x"
    "at_line_end 0x0a [] (drop k (w @ 0x0a # rest))"
    unfolding blank_tail_set by blast
  have "length w \<le> k"
  proof (rule ccontr)
    assume "\<not> length w \<le> k"
    then have "k < length w" by simp
    then have "hd (drop k (w @ 0x0a # rest)) = w ! k" "drop k (w @ 0x0a # rest) \<noteq> []"
      by (simp_all add: hd_drop_conv_nth nth_append)
    with k(2) have "w ! k = 0x0a" unfolding at_line_end_def by metis
    with assms \<open>k < length w\<close> show False by (metis nth_mem)
  qed
  with k(1) show "\<forall>x \<in> set w. space_byte x" by simp
qed

text \<open>The whole expression at the start of a line.\<close>

lemma build_id_line_at:
  "rmatch build_id_line (b, a, []) =
     (if at_line_start 0x0a b a \<and> starts_with build_id_prefix a
      then concat (map blank_tail (rmatch (RCap 1 (rx_plus (RCls hex_byte)))
             (rev build_id_prefix @ b, drop (length build_id_prefix) a, [])))
      else [])"
  by (simp add: build_id_line_def blank_tail_def rmatch_lit)

lemma captured_hex:
  "rmatch (RCap 1 (rx_plus (RCls hex_byte))) (b, x # t, []) =
     (if hex_byte x
      then map (\<lambda>(b', a', cs'). (b', a', [(1, take (Suc (length t) - length a') (x # t))])) (cls_runs hex_byte (length t) (x # b, t, []))
      else [])"
  by (auto simp: match_cls_def greedy_cls cls_runs_set simp del: cls_runs.simps)

text \<open>Only the longest run of digits can be followed by the tail.\<close>

lemma shorter_run_fails:
  assumes "st \<in> set (cls_runs hex_byte (length t) (b, t, cs))"
    and "blank_tail (fst st, fst (snd st), cs') \<noteq> []"
  shows "st = (rev (takeWhile hex_byte t) @ b, dropWhile hex_byte t, cs)"
proof -
  obtain k where k: "k \<le> length t" "\<forall>x \<in> set (take k t). hex_byte x"
    "st = (rev (take k t) @ b, drop k t, cs)"
    using assms(1) unfolding cls_runs_set by blast
  have "takeWhile hex_byte t = take k t \<and> dropWhile hex_byte t = drop k t"
  proof (cases "drop k t")
    case Nil
    then have "take k t = t" by simp
    with k(2) Nil show ?thesis by (simp add: dropWhile_eq_Nil_conv takeWhile_eq_all_conv)
  next
    case (Cons y ys)
    have t: "t = take k t @ y # ys" using Cons by (metis append_take_drop_id)
    have "\<not> hex_byte y" using assms(2) blank_tail_hex unfolding k(3) Cons by auto
    then have "takeWhile hex_byte (take k t @ y # ys) = take k t"
      "dropWhile hex_byte (take k t @ y # ys) = y # ys"
      using k(2) by (simp_all add: takeWhile_append2 dropWhile_append2)
    then show ?thesis using t Cons by simp
  qed
  with k(3) show ?thesis by simp
qed

lemma hd_concat_unique:
  assumes "xs \<noteq> []" "\<And>x. x \<in> set xs \<Longrightarrow> f x \<noteq> [] \<Longrightarrow> x = hd xs"
  shows "(concat (map f xs) = [] \<longleftrightarrow> f (hd xs) = []) \<and>
     (f (hd xs) \<noteq> [] \<longrightarrow> hd (concat (map f xs)) = hd (f (hd xs)))"
proof (cases xs)
  case (Cons y ys)
  show ?thesis
  proof (cases "f y = []")
    case True
    then have "f x = []" if "x \<in> set xs" for x using assms(2) [OF that] Cons by auto
    then show ?thesis using True Cons by auto
  next
    case False
    then show ?thesis using Cons by simp
  qed
qed (use assms in simp)

text \<open>The captures that can be read where \<open>x\<close> and \<open>v\<close> are left, and the longest.\<close>

definition hex_caps :: "byte list \<Rightarrow> byte \<Rightarrow> byte list \<Rightarrow> byte rx_state list" where
  "hex_caps b x v = map (\<lambda>(b', a', cs'). (b', a', [(1, take (Suc (length v) - length a') (x # v))]))
     (cls_runs hex_byte (length v) (x # b, v, []))"

lemma hex_caps_hd:
  "hd (hex_caps b x v) =
     (rev (takeWhile hex_byte v) @ x # b, dropWhile hex_byte v, [(1, x # takeWhile hex_byte v)])"
proof -
  define h where "h = takeWhile hex_byte v"
  define w where "w = dropWhile hex_byte v"
  have v: "v = h @ w" by (simp add: h_def w_def)
  have "drop (length h) v = w" using v by simp
  then have "hd (cls_runs hex_byte (length v) (x # b, v, [])) = (rev h @ x # b, w, [])"
    by (simp add: cls_runs_hd h_def)
  then have "hd (hex_caps b x v) = (rev h @ x # b, w, [(1, take (Suc (length v) - length w) (x # v))])"
    unfolding hex_caps_def by (simp add: hd_map)
  moreover have "take (Suc (length v) - length w) (x # v) = x # h" by (simp add: v)
  ultimately show ?thesis by (simp add: h_def w_def)
qed

lemma hex_caps_unique:
  assumes "y \<in> set (hex_caps b x v)" "blank_tail y \<noteq> []"
  shows "y = hd (hex_caps b x v)"
proof -
  obtain b' a' cs' where st: "(b', a', cs') \<in> set (cls_runs hex_byte (length v) (x # b, v, []))"
    and y: "y = (b', a', [(1, take (Suc (length v) - length a') (x # v))])"
    using assms(1) unfolding hex_caps_def by auto
  have "(b', a', cs') = (rev (takeWhile hex_byte v) @ x # b, dropWhile hex_byte v, [])"
    by (rule shorter_run_fails [OF st]) (use assms(2) y in simp)
  moreover have "length v = length (takeWhile hex_byte v) + length (dropWhile hex_byte v)"
    by (metis length_append takeWhile_dropWhile_id)
  moreover have "take (length (takeWhile hex_byte v)) v = takeWhile hex_byte v"
    by (metis append_eq_conv_conj takeWhile_dropWhile_id)
  ultimately show ?thesis unfolding y hex_caps_hd by simp
qed

lemma hex_caps_not_Nil: "hex_caps b x v \<noteq> []"
  by (simp add: hex_caps_def)

lemma hex_caps_tail:
  fixes b rest u :: "byte list" and x :: byte
  assumes "0x0a \<notin> set u"
  defines "ways \<equiv> concat (map blank_tail (hex_caps b x (u @ 0x0a # rest)))"
  shows "ways = [] \<longleftrightarrow> \<not> (\<forall>z \<in> set (dropWhile hex_byte u). space_byte z)"
    and "ways \<noteq> [] \<Longrightarrow> group_of 1 (hd ways) = x # takeWhile hex_byte u"
proof -
  let ?v = "u @ 0x0a # rest" and ?h = "takeWhile hex_byte u" and ?w = "dropWhile hex_byte u"
  have first: "hd (hex_caps b x ?v) = (rev ?h @ x # b, ?w @ 0x0a # rest, [(1, x # ?h)])"
    unfolding hex_caps_hd using newline_bytes(1) by (simp add: takeWhile_tail dropWhile_append3)
  have nw: "0x0a \<notin> set ?w" using assms(1) by (auto dest: set_dropWhileD)
  have conc: "(ways = [] \<longleftrightarrow> blank_tail (hd (hex_caps b x ?v)) = []) \<and>
     (blank_tail (hd (hex_caps b x ?v)) \<noteq> [] \<longrightarrow> hd ways = hd (blank_tail (hd (hex_caps b x ?v))))"
    unfolding ways_def by (rule hd_concat_unique [OF hex_caps_not_Nil hex_caps_unique])
  show "ways = [] \<longleftrightarrow> \<not> (\<forall>z \<in> set ?w. space_byte z)"
    using conc blank_tail_line [OF nw] unfolding first by blast
  assume "ways \<noteq> []"
  with conc have ne: "blank_tail (hd (hex_caps b x ?v)) \<noteq> []"
    and hd: "hd ways = hd (blank_tail (hd (hex_caps b x ?v)))" by blast+
  have "hd ways \<in> set (blank_tail (hd (hex_caps b x ?v)))"
    unfolding hd using ne by simp
  then show "group_of 1 (hd ways) = x # ?h"
    unfolding first blank_tail_set by (auto simp: group_of_def)
qed

lemma prefix_in_line:
  "starts_with build_id_prefix (l @ 0x0a # rest) \<longleftrightarrow> starts_with build_id_prefix l"
proof
  have nl: "0x0a \<notin> set build_id_prefix" by (simp add: build_id_prefix_def ascii_def)
  assume "starts_with build_id_prefix (l @ 0x0a # rest)"
  then obtain t where "l @ 0x0a # rest = build_id_prefix @ t" by (auto simp: starts_with_iff)
  then consider us where "l = build_id_prefix @ us"
    | us where "l @ us = build_id_prefix" "0x0a # rest = us @ t"
    by (auto simp: append_eq_append_conv2)
  then show "starts_with build_id_prefix l"
  proof cases
    case 2
    have "us = []"
    proof (rule ccontr)
      assume "us \<noteq> []"
      then have "0x0a \<in> set us" using 2(2) by (cases us) auto
      with 2(1) nl show False by (metis UnCI set_append)
    qed
    with 2(1) show ?thesis by (auto simp: starts_with_iff)
  qed (auto simp: starts_with_iff)
qed (auto simp: starts_with_iff)

lemma re_at_ways:
  "map_option (group_of 1) (re_at r b a) =
     (if rmatch r (b, a, []) = [] then None else Some (group_of 1 (hd (rmatch r (b, a, [])))))"
  by (simp add: re_at_def split: list.splits)

text \<open>At the start of a line the expression reads what \<open>line_id\<close> reads.\<close>

lemma re_at_line:
  assumes "0x0a \<notin> set l" "at_line_start 0x0a b a" "a = l @ 0x0a # rest"
  shows "map_option (group_of 1) (re_at build_id_line b a) = line_id l"
proof (cases "starts_with build_id_prefix l")
  case False
  then show ?thesis
    using assms(2,3) by (simp add: re_at_None build_id_line_at line_id_def prefix_in_line)
next
  case True
  then obtain t where l: "l = build_id_prefix @ t" by (auto simp: starts_with_iff)
  have d: "drop (length build_id_prefix) a = t @ 0x0a # rest" by (simp add: assms(3) l)
  let ?b = "rev build_id_prefix @ b"
  have ways: "rmatch build_id_line (b, a, []) =
      concat (map blank_tail (rmatch (RCap 1 (rx_plus (RCls hex_byte))) (?b, t @ 0x0a # rest, [])))"
    unfolding build_id_line_at d using True assms(2,3) by (simp add: prefix_in_line del: rmatch.simps)
  have lid: "line_id l = (if takeWhile hex_byte t \<noteq> [] \<and> (\<forall>x \<in> set (dropWhile hex_byte t). space_byte x)
      then Some (takeWhile hex_byte t) else None)"
    using True by (simp add: line_id_def l Let_def)
  show ?thesis
  proof (cases t)
    case Nil
    then show ?thesis
      unfolding re_at_ways ways lid using newline_bytes(1) by (simp add: match_cls_def)
  next
    case (Cons x u)
    have nu: "0x0a \<notin> set u" using assms(1) by (simp add: l Cons)
    show ?thesis
    proof (cases "hex_byte x")
      case False
      then show ?thesis unfolding re_at_ways ways lid Cons by (simp add: match_cls_def)
    next
      case hex: True
      have "rmatch build_id_line (b, a, []) = concat (map blank_tail (hex_caps ?b x (u @ 0x0a # rest)))"
        unfolding ways Cons append_Cons captured_hex hex_caps_def using hex by simp
      with hex_caps_tail [OF nu, where b = ?b and x = x and rest = rest] hex show ?thesis
        unfolding re_at_ways lid Cons by auto
    qed
  qed
qed

text \<open>Inside a line it cannot start, so the search is a search of the lines.\<close>

lemma search_skips_line:
  assumes "0x0a \<notin> set l" "b \<noteq> []" "hd b \<noteq> 0x0a"
  shows "search_from build_id_line b (l @ 0x0a # rest) = search_from build_id_line (0x0a # rev l @ b) rest"
  using assms
proof (induction l arbitrary: b)
  case Nil
  then have "re_at build_id_line b (0x0a # rest) = None"
    by (simp add: re_at_None build_id_line_at at_line_start_def)
  then show ?case by simp
next
  case (Cons x l)
  then have "re_at build_id_line b ((x # l) @ 0x0a # rest) = None"
    by (simp add: re_at_None build_id_line_at at_line_start_def)
  with Cons show ?case by simp
qed

lemma search_lines:
  assumes "\<forall>l \<in> set ls. 0x0a \<notin> set l" "b = [] \<or> hd b = 0x0a"
  shows "map_option (group_of 1) (search_from build_id_line b (unlines ls)) = first_line_id ls"
  using assms
proof (induction ls arbitrary: b)
  case Nil
  then show ?case
    by (simp add: unlines_def re_at_None build_id_line_at build_id_prefix_def ascii_def)
next
  case (Cons l ls)
  have u: "unlines (l # ls) = l @ 0x0a # unlines ls" by (simp add: unlines_def)
  have at: "map_option (group_of 1) (re_at build_id_line b (unlines (l # ls))) = line_id l"
    by (rule re_at_line [OF _ _ u]) (use Cons.prems in \<open>auto simp: at_line_start_def\<close>)
  show ?case
  proof (cases "re_at build_id_line b (unlines (l # ls))")
    case (Some m)
    then have "search_from build_id_line b (unlines (l # ls)) = Some m"
      by (cases "unlines (l # ls)") auto
    with at [symmetric] Some show ?thesis by simp
  next
    case None
    have "search_from build_id_line b (unlines (l # ls)) = search_from build_id_line (0x0a # rev l @ b) (unlines ls)"
    proof (cases l)
      case Nil
      with None u show ?thesis by simp
    next
      case (Cons x l')
      with None u have "search_from build_id_line b (unlines (l # ls)) =
          search_from build_id_line (x # b) (l' @ 0x0a # unlines ls)" by simp
      also have "\<dots> = search_from build_id_line (0x0a # rev l' @ x # b) (unlines ls)"
        using Cons.prems Cons \<open>\<forall>l \<in> set (l # ls). 0x0a \<notin> set l\<close>
        by (intro search_skips_line) auto
      finally show ?thesis using Cons by simp
    qed
    with at None Cons show ?thesis by auto
  qed
qed

end
