(* ===== verification/ElfProps.thy ===== *)
theory ElfProps
  imports ElfLine
begin

text \<open>The properties of the build-id readers and of the provenance check.\<close>

subsection \<open>A concrete image\<close>

definition ex_gnu_note :: elf_note where
  "ex_gnu_note = (ascii ''GNU'' @ [0], [0xde, 0xad, 0xbe, 0xef], 3)"

definition ex_info_note :: elf_note where
  "ex_info_note = (ascii ''VMCOREINFO'' @ [0], unlines [ascii ''OSRELEASE=6.1'', ascii ''BUILD-ID=DEADBEEF''], 0)"

definition ex_segments :: "segment list" where
  "ex_segments = [Other_segment 1 [0x90, 0x90], Note_segment [ex_info_note, ex_gnu_note]]"

definition ex_image :: bin_file where
  "ex_image = \<lparr>content = elf_image Little True ex_segments, max_offset = 2 ^ 40, max_alloc = 2 ^ 30\<rparr>"

lemma length_ascii [simp]: "length (ascii s) = length s"
  by (simp add: ascii_def)

lemma ex_image_fits: "image_fits ex_image Little True ex_segments"
proof -
  have "segment_ok g" if "g \<in> set ex_segments" for g
    using that by (auto simp: ex_segments_def ex_gnu_note_def ex_info_note_def note_fits_def PT_NOTE_def unlines_def)
  moreover have "length (elf_image Little True ex_segments) \<le> 1000"
    by (simp add: ex_segments_def elf_image_def put_body_def put_notes_def put_note_def ex_gnu_note_def
        ex_info_note_def ehdr_size_def phdr_size_def pad4_def unlines_def)
  ultimately show ?thesis
    by (auto simp: image_fits_def ex_image_def) (simp_all add: ex_segments_def)
qed

lemma ex_answers:
  "gnu_build_id (concat (map segment_notes ex_segments)) = Some ''deadbeef''"
  "first_line_id [ascii ''OSRELEASE=6.1'', ascii ''BUILD-ID=DEADBEEF''] = Some (ascii ''DEADBEEF'')"
  by code_simp+

subsection \<open>Properties\<close>

text \<open>C17: reading back what was written. For every image the writer can produce - either
  class, either byte order, any list of segments and notes that fits the fields -
  \<open>read_elf_build_id\<close> returns the description of the first GNU build-id note of the
  note segments, in hexadecimal, and reports \<open>BuildIdReadError\<close> when there is none.\<close>

theorem elf_image_roundtrip:
  assumes "image_fits fh en is64 gs"
  shows "read_elf_build_id (Some fh) =
     (case gnu_build_id (concat (map segment_notes gs)) of
        Some b \<Rightarrow> Inr b | None \<Rightarrow> Inl (Build_id_read_error Note_absent))"
  using read_image [OF assms] by (simp add: build_id.outcome_def)

lemma elf_image_roundtrip_witness:
  "read_elf_build_id (Some ex_image) = Inr ''deadbeef''"
  using elf_image_roundtrip [OF ex_image_fits] by (simp add: ex_answers)

text \<open>the vmcore reader finds the build id of the kernel log header. When a note of
  an image is named \<open>VMCOREINFO\<close>, no note before it yields an id, and its text is lines of
  which \<open>l\<close> is the first to be \<open>BUILD-ID=\<close>, hexadecimal digits and blanks, then
  \<open>read_vmcore_build_id\<close> returns exactly those digits in lower case.\<close>

theorem vmcore_image_roundtrip:
  assumes "image_fits fh en is64 gs"
    and "concat (map segment_notes gs) = before @ (name, unlines ls, ty) # after"
    and "vmcoreinfo_build_id before = None" "rstrip_nul name = ascii ''VMCOREINFO''"
    and "\<forall>l \<in> set ls. 0x0a \<notin> set l" "first_line_id ls = Some digits"
  shows "read_vmcore_build_id (Some fh) = Inr (lower_ascii digits)"
proof -
  have "map_option (group_of 1) (re_search build_id_line (unlines ls)) = Some digits"
    using search_lines [OF assms(5), of "[]"] assms(6) by (simp add: re_search_def)
  then have "vmcoreinfo_id (name, unlines ls, ty) = Some (lower_ascii digits)"
    using assms(4) by (auto simp: vmcoreinfo_id_def)
  then have "vmcoreinfo_build_id (concat (map segment_notes gs)) = Some (lower_ascii digits)"
    unfolding assms(2) using assms(3) by (simp add: vmcoreinfo_append)
  then show ?thesis
    using read_vmcore_image [OF assms(1)] by (simp add: vmcoreinfo.outcome_def)
qed

lemma vmcore_image_roundtrip_witness:
  "read_vmcore_build_id (Some ex_image) = Inr ''deadbeef''"
proof -
  have "read_vmcore_build_id (Some ex_image) = Inr (lower_ascii (ascii ''DEADBEEF''))"
    by (rule vmcore_image_roundtrip [OF ex_image_fits, where before = "[]" and after = "[ex_gnu_note]"
        and name = "ascii ''VMCOREINFO'' @ [0]" and ty = 0
        and ls = "[ascii ''OSRELEASE=6.1'', ascii ''BUILD-ID=DEADBEEF'']"])
      (simp add: ex_segments_def ex_info_note_def, simp, code_simp, (simp add: ascii_def), rule ex_answers)
  moreover have "lower_ascii (ascii ''DEADBEEF'') = ''deadbeef''" by code_simp
  ultimately show ?thesis by simp
qed

text \<open>what can leave the readers. Whatever the file holds, every failure of
  \<open>read_elf_build_id\<close> is a \<open>BuildIdReadError\<close>, and every failure of
  \<open>read_vmcore_build_id\<close> one of its three classes, except an exception of a seek to an
  offset or of an allocation of a size that a program header asks for; no field is ever
  unpacked outside its buffer.\<close>

theorem elf_readers_raise_own_errors:
  "(read_elf_build_id f = Inl e \<longrightarrow>
      (\<exists>x. e = Build_id_read_error x) \<or> e = Seek_value_error \<or> e = Read_buffer_error) \<and>
   (read_vmcore_build_id f = Inl e \<longrightarrow>
      e = Vmcore_format_unsupported \<or> (\<exists>x. e = Vmcore_build_id_error x) \<or>
      (\<exists>x. e = Vmcore_build_id_absent x) \<or> e = Seek_value_error \<or> e = Read_buffer_error)"
proof (cases f)
  case None
  then show ?thesis by (auto simp: read_elf_build_id_def read_vmcore_build_id_def)
next
  case (Some fh)
  show ?thesis
    using build_id_body_raises [of fh] vmcore_body_raises [of fh]
    unfolding Some read_elf_build_id_def read_vmcore_build_id_def escapes_def
    by (auto split: sum.splits elf_raised.splits)
qed

lemma elf_readers_raise_own_errors_witness:
  "(\<exists>x. read_elf_build_id None = Inl (Build_id_read_error x)) \<and>
   (\<exists>x. read_vmcore_build_id None = Inl (Vmcore_build_id_error x))"
  using elf_readers_raise_own_errors [of None "Build_id_read_error Cannot_read"]
    elf_readers_raise_own_errors [of None "Vmcore_build_id_error Cannot_read"]
  by (simp add: read_elf_build_id_def read_vmcore_build_id_def)

text \<open>The exception is real: a note segment that says its offset is \<open>2 ^ 63\<close>.\<close>

definition ex_bad_offset :: bin_file where
  "ex_bad_offset = \<lparr>content = put_ehdr Little True 1 @ put_phdr Little True PT_NOTE (2 ^ 63) 16,
     max_offset = 2 ^ 40, max_alloc = 2 ^ 30\<rparr>"

lemma note_offset_escapes_reader: "read_elf_build_id (Some ex_bad_offset) = Inl Seek_value_error"
proof -
  let ?eh = "put_ehdr Little True 1" and ?ph = "put_phdr Little True PT_NOTE (2 ^ 63) 16"
  have c: "content ex_bad_offset = [] @ ?eh @ ?ph" "content ex_bad_offset = ?eh @ ?ph @ []"
    by (simp_all add: ex_bad_offset_def)
  have host: "fits_host ex_bad_offset True"
    by (simp add: fits_host_def ex_bad_offset_def ehdr_size_def phdr_size_def)
  have len: "length ?eh = 64" "length ?ph = 56" by (simp_all add: ehdr_size_def phdr_size_def)
  have "16 \<le> length (content ex_bad_offset)" unfolding c(2) using len by simp
  then have reads: "read_exact ex_bad_offset 0 16 = Inr (take 16 (content ex_bad_offset))"
    "read_exact ex_bad_offset 0 64 = Inr ?eh" "read_exact ex_bad_offset 64 56 = Inr ?ph"
    using read_exact_part [OF c(1) host] read_exact_part [OF c(2) host] len
      read_exact_part [where pre = "[]" and part = "take 16 (content ex_bad_offset)"
        and suf = "drop 16 (content ex_bad_offset)", OF _ host]
    by (simp_all del: length_put_ehdr length_put_phdr)
  have seek: "read_exact ex_bad_offset (2 ^ 63) 16 = Inl Seek_value_error"
    by (simp add: read_exact_def fh_seek_def)
  have ty: "unpack_from Little 4 ?ph 0 = Inr PT_NOTE" "unpack_from Little 8 ?ph 8 = Inr (2 ^ 63)"
    "unpack_from Little 8 ?ph 32 = Inr 16"
    by (simp_all add: put_phdr_def unpack_from_def PT_NOTE_def)
  have "length (content ex_bad_offset) = 120" unfolding c(2) using len by simp
  then have "build_id_body ex_bad_offset = Inl Seek_value_error"
    using reads seek ty ehdr_ident [where en = Little and ?is64.0 = True and n = 1 and rest = ?ph, folded append_Nil2, folded c(2)]
      ehdr_fields [where n = 1 and ?is64.0 = True and en = Little]
    by (simp add: build_id_body_def Let_def c ehdr_size_def phdr_size_def)
  then show ?thesis by (simp add: read_elf_build_id_def)
qed

text \<open>the provenance check decides by the notes of the file. On an image whose build
  id is \<open>b\<close> it returns the expected id exactly when that is \<open>b\<close> and raises
  \<open>ProvenanceMismatch\<close> with both ids otherwise; and whatever file it accepts, the id it
  returns is the expected one, an even number of lower-case hexadecimal digits.\<close>

theorem provenance_decided_by_notes:
  assumes "image_fits fh en is64 gs" "gnu_build_id (concat (map segment_notes gs)) = Some b"
  shows "verify_vmlinux_provenance read_elf_build_id expected (Some fh) =
      (if b = expected then Inr b else Inl (Provenance_mismatch expected b)) \<and>
    (\<forall>f r. verify_vmlinux_provenance read_elf_build_id expected f = Inr r \<longrightarrow>
      r = expected \<and> even (length r) \<and> (\<forall>c \<in> set r. is_lower_hex c))"
proof (intro conjI allI impI)
  show "verify_vmlinux_provenance read_elf_build_id expected (Some fh) =
      (if b = expected then Inr b else Inl (Provenance_mismatch expected b))"
    using read_image [OF assms(1)] assms(2)
    by (simp add: verify_vmlinux_provenance_def verify_build_id_def build_id.outcome_def)
  fix f r
  assume "verify_vmlinux_provenance read_elf_build_id expected f = Inr r"
  then have r: "read_elf_build_id f = Inr r" "r = expected"
    by (auto simp: verify_vmlinux_provenance_def verify_build_id_def split: sum.splits if_splits)
  obtain bs where "r = hex_of bs" using read_elf_build_id_hex [OF r(1)] by blast
  with r(2) hex_of_shape [of bs]
  show "r = expected" "even (length r)" "\<forall>c \<in> set r. is_lower_hex c" by simp_all
qed

lemma provenance_decided_by_notes_witness:
  "verify_vmlinux_provenance read_elf_build_id ''deadbeef'' (Some ex_image) = Inr ''deadbeef'' \<and>
   verify_vmlinux_provenance read_elf_build_id ''00'' (Some ex_image) = Inl (Provenance_mismatch ''00'' ''deadbeef'')"
  using provenance_decided_by_notes [OF ex_image_fits ex_answers(1), of "''deadbeef''"]
    provenance_decided_by_notes [OF ex_image_fits ex_answers(1), of "''00''"]
  by simp

end
