(* ===== verification/FileTree.thy ===== *)
theory FileTree
  imports PyText
begin

text \<open>
  What \<open>pathlib\<close> does on a POSIX file system, as far as the source relies on it: paths as
  their parts, a file tree with symbolic links, \<open>resolve\<close> (\<open>os.path.realpath\<close> without
  \<open>strict\<close>) and the calls that follow links (\<open>exists\<close>, \<open>is_file\<close>, \<open>is_dir\<close>). Standard
  library and operating system, not code of the repository.

  A path is whether it is absolute and its parts, the empty and \<open>.\<close> parts dropped, as
  \<open>Path\<close> keeps them. A tree maps absolute part lists to nodes and is finite, so it is an
  association list; the root always exists. Permissions and length limits are left out.
\<close>

type_synonym parts = "string list"

datatype path = Path bool parts

datatype node = Dir | File | Link path

type_synonym tree = "(parts \<times> node) list"

fun parts_of :: "path \<Rightarrow> parts" where
  "parts_of (Path a ps) = ps"

fun is_absolute :: "path \<Rightarrow> bool" where
  "is_absolute (Path a ps) = a"

definition parse_path :: "string \<Rightarrow> path" where
  "parse_path s = Path (starts_with ''/'' s) (filter (\<lambda>p. p \<noteq> [] \<and> p \<noteq> ''.'') (split_on (CHR ''/'') s))"

text \<open>\<open>str(path)\<close> and \<open>path / other\<close>: an absolute right side replaces the left one.\<close>

definition str_path :: "path \<Rightarrow> string" where
  "str_path p = (case p of Path a ps \<Rightarrow>
     if a then CHR ''/'' # join_with (CHR ''/'') ps
     else if ps = [] then ''.'' else join_with (CHR ''/'') ps)"

definition join_path :: "path \<Rightarrow> path \<Rightarrow> path" where
  "join_path p q = (case (p, q) of (Path a ps, Path b qs) \<Rightarrow> if b then Path True qs else Path a (ps @ qs))"

definition node_at :: "tree \<Rightarrow> parts \<Rightarrow> node option" where
  "node_at t ps = (if ps = [] then Some Dir else map_of t ps)"

definition link_at :: "tree \<Rightarrow> parts \<Rightarrow> path option" where
  "link_at t ps = (case node_at t ps of Some (Link q) \<Rightarrow> Some q | _ \<Rightarrow> None)"

definition links :: "tree \<Rightarrow> parts set" where
  "links t = {ps \<in> fst ` set t. link_at t ps \<noteq> None}"

lemma links_iff: "ps \<in> links t \<longleftrightarrow> link_at t ps \<noteq> None"
proof
  assume "link_at t ps \<noteq> None"
  then have "ps \<in> fst ` set t"
    by (auto simp: link_at_def node_at_def dom_map_of_conv_image_fst [symmetric] split: if_splits option.splits)
  then show "ps \<in> links t" using \<open>link_at t ps \<noteq> None\<close> by (simp add: links_def)
qed (simp add: links_def)

lemma finite_links [simp]: "finite (links t)"
  by (simp add: links_def)

datatype walk_stop = Loop | Out_of_fuel | Missing | Null_byte

text \<open>
  The walk of \<open>realpath\<close>: \<open>cur\<close> is resolved, \<open>rest\<close> is to come, \<open>seen\<close> are the links
  being expanded; a link met while it is being expanded is a loop. With \<open>strict\<close> it is the
  walk of a system call: what it passes must exist and be a directory. The fuel counts
  nested expansions and \<open>real_fuel\<close> below is enough.
\<close>

function real_walk :: "bool \<Rightarrow> tree \<Rightarrow> nat \<Rightarrow> parts list \<Rightarrow> parts \<Rightarrow> parts \<Rightarrow> (walk_stop, parts) result" where
  "real_walk strict t n seen cur [] = Inr cur"
| "real_walk strict t n seen cur (c # rest) =
     (if c = [] \<or> c = ''.'' then real_walk strict t n seen cur rest
      else if strict \<and> node_at t cur \<noteq> Some Dir then Inl Missing
      else if c = ''..'' then real_walk strict t n seen (butlast cur) rest
      else if CHR 0x00 \<in> set c then Inl Null_byte
      else let new = cur @ [c] in
        (case link_at t new of
           None \<Rightarrow> if strict \<and> node_at t new = None then Inl Missing else real_walk strict t n seen new rest
         | Some target \<Rightarrow>
             if new \<in> set seen then Inl Loop
             else (case n of
                 0 \<Rightarrow> Inl Out_of_fuel
               | Suc m \<Rightarrow>
                   rbind (real_walk strict t m (new # seen) (if is_absolute target then [] else cur) (parts_of target))
                     (\<lambda>r. real_walk strict t n seen r rest))))"
  by pat_completeness auto
termination
  by (relation "measures [\<lambda>(strict, t, n, seen, cur, rest). n, \<lambda>(strict, t, n, seen, cur, rest). length rest]") auto

declare real_walk.simps(2) [simp del]

definition real_fuel :: "tree \<Rightarrow> nat" where
  "real_fuel t = length t"

text \<open>The host: its tree, the working directory and what \<open>expanduser\<close> makes of \<open>~\<close> and \<open>~user\<close>.\<close>

record host =
  tree :: tree
  cwd :: parts
  home_of :: "string \<Rightarrow> path option"

datatype path_error = Symlink_loop | No_home_directory | Embedded_null_byte

definition start_of :: "host \<Rightarrow> path \<Rightarrow> parts" where
  "start_of h p = (if is_absolute p then [] else cwd h)"

text \<open>
  \<open>Path.resolve\<close>: a loop is a \<open>RuntimeError\<close> (Python 3.11 and 3.12), a NUL in a part a
  \<open>ValueError\<close>.
\<close>

definition resolve_path :: "host \<Rightarrow> path \<Rightarrow> (path_error, path) result" where
  "resolve_path h p =
     (case real_walk False (tree h) (real_fuel (tree h)) [] (start_of h p) (parts_of p) of
        Inr ps \<Rightarrow> Inr (Path True ps)
      | Inl Null_byte \<Rightarrow> Inl Embedded_null_byte
      | Inl _ \<Rightarrow> Inl Symlink_loop)"

text \<open>What a system call finds at a path.\<close>

definition stat_path :: "host \<Rightarrow> path \<Rightarrow> node option" where
  "stat_path h p =
     (case real_walk True (tree h) (real_fuel (tree h)) [] (start_of h p) (parts_of p) of
        Inr ps \<Rightarrow> node_at (tree h) ps
      | Inl _ \<Rightarrow> None)"

definition path_exists :: "host \<Rightarrow> path \<Rightarrow> bool" where
  "path_exists h p \<longleftrightarrow> stat_path h p \<noteq> None"

definition is_file :: "host \<Rightarrow> path \<Rightarrow> bool" where
  "is_file h p \<longleftrightarrow> stat_path h p = Some File"

definition is_dir :: "host \<Rightarrow> path \<Rightarrow> bool" where
  "is_dir h p \<longleftrightarrow> stat_path h p = Some Dir"

definition expanduser :: "host \<Rightarrow> path \<Rightarrow> (path_error, path) result" where
  "expanduser h p = (case p of
     Path False (c # ps) \<Rightarrow>
       if starts_with ''~'' c
       then (case home_of h c of Some q \<Rightarrow> Inr (join_path q (Path False ps)) | None \<Rightarrow> Inl No_home_directory)
       else Inr p
   | _ \<Rightarrow> Inr p)"

text \<open>\<open>path.parent\<close>, \<open>path.name\<close> and \<open>child.relative_to(parent)\<close>.\<close>

definition parent_of :: "path \<Rightarrow> path" where
  "parent_of p = (case p of Path a ps \<Rightarrow> Path a (butlast ps))"

definition name_of :: "path \<Rightarrow> string" where
  "name_of p = (case p of Path a ps \<Rightarrow> if ps = [] then [] else last ps)"

definition relative_to :: "path \<Rightarrow> path \<Rightarrow> bool" where
  "relative_to child parent = (case (child, parent) of (Path a cs, Path b ps) \<Rightarrow> a = b \<and> starts_with ps cs)"

subsection \<open>Resolved paths\<close>

text \<open>No link on the way: the path and all its ancestors are nodes that are not links.\<close>

definition link_free :: "tree \<Rightarrow> parts \<Rightarrow> bool" where
  "link_free t ps \<longleftrightarrow> (\<forall>k. link_at t (take k ps) = None)"

definition plain :: "parts \<Rightarrow> bool" where
  "plain ps \<longleftrightarrow> (\<forall>c \<in> set ps. c \<noteq> [] \<and> c \<noteq> ''.'' \<and> c \<noteq> ''..'' \<and> CHR 0x00 \<notin> set c)"

lemma link_free_Nil [simp]: "link_free t []"
  by (simp add: link_free_def link_at_def node_at_def)

lemma link_free_butlast: "link_free t ps \<Longrightarrow> link_free t (butlast ps)"
  by (auto simp: link_free_def butlast_conv_take min_def)

lemma link_free_snoc: "link_free t ps \<Longrightarrow> link_at t (ps @ [c]) = None \<Longrightarrow> link_free t (ps @ [c])"
  by (auto simp: link_free_def not_le take_Cons' not_less)

lemma plain_simps [simp]:
  "plain []" "plain (ps @ qs) \<longleftrightarrow> plain ps \<and> plain qs"
  "plain (c # ps) \<longleftrightarrow> c \<noteq> [] \<and> c \<noteq> ''.'' \<and> c \<noteq> ''..'' \<and> CHR 0x00 \<notin> set c \<and> plain ps"
  by (auto simp: plain_def)

lemma plain_butlast: "plain ps \<Longrightarrow> plain (butlast ps)"
  by (auto simp: plain_def dest: in_set_butlastD)

lemma real_walk_resolved:
  assumes "real_walk strict t n seen cur rest = Inr r" "link_free t cur" "plain cur"
  shows "link_free t r \<and> plain r"
  using assms
proof (induction strict t n seen cur rest arbitrary: r rule: real_walk.induct)
  case (2 strict t n seen cur c rest)
  show ?case
  proof (cases "link_at t (cur @ [c])")
    case None
    with 2 show ?thesis
      by (auto simp: real_walk.simps(2) Let_def link_free_butlast plain_butlast link_free_snoc split: if_splits)
  next
    case (Some target)
    with 2 show ?thesis
      by (auto simp: real_walk.simps(2) Let_def link_free_butlast plain_butlast split: if_splits nat.splits)
  qed
qed simp

text \<open>The fuel is enough: each nested expansion is of another link.\<close>

lemma real_walk_fuel:
  assumes "distinct seen" "set seen \<subseteq> links t" "card (links t) \<le> n + length seen"
  shows "real_walk strict t n seen cur rest \<noteq> Inl Out_of_fuel"
  using assms
proof (induction strict t n seen cur rest rule: real_walk.induct)
  case (2 strict t n seen cur c rest)
  show ?case
  proof (cases "link_at t (cur @ [c])")
    case None
    with 2 show ?thesis by (auto simp: real_walk.simps(2) Let_def)
  next
    case (Some target)
    show ?thesis
    proof (cases "cur @ [c] \<in> set seen")
      case False
      have "cur @ [c] \<in> links t" using Some by (simp add: links_iff)
      then have sub: "set ((cur @ [c]) # seen) \<subseteq> links t" using 2 by simp
      have dis: "distinct ((cur @ [c]) # seen)" using 2 False by simp
      have "length ((cur @ [c]) # seen) \<le> card (links t)"
        using card_mono [OF finite_links sub] distinct_card [OF dis] by simp
      then obtain m where n: "n = Suc m" using 2 by (cases n) auto
      with 2 Some False sub dis show ?thesis
        by (auto simp: real_walk.simps(2) Let_def rbind_eq_Inl)
    qed (use 2 Some in \<open>auto simp: real_walk.simps(2) Let_def\<close>)
  qed
qed simp

lemma card_links: "card (links t) \<le> real_fuel t"
proof -
  have "links t \<subseteq> fst ` set t" by (auto simp: links_def)
  then have "card (links t) \<le> card (fst ` set t)" by (simp add: card_mono)
  also have "\<dots> \<le> length t" using card_image_le [of "set t" fst] card_length [of t] by simp
  finally show ?thesis by (simp add: real_fuel_def)
qed

lemma real_walk_enough: "real_walk strict t (real_fuel t) [] cur rest \<noteq> Inl Out_of_fuel"
  by (rule real_walk_fuel) (simp_all add: card_links)

text \<open>Without links and \<open>..\<close> the walk appends.\<close>

lemma real_walk_append:
  assumes "plain rest" "\<forall>k. link_at t (cur @ take k rest) = None"
  shows "real_walk False t n seen cur rest = Inr (cur @ rest)"
  using assms
proof (induction rest arbitrary: cur)
  case (Cons c rest)
  have "link_at t (cur @ [c]) = None" using Cons.prems(2) [rule_format, of 1] by simp
  moreover have "link_at t ((cur @ [c]) @ take k rest) = None" for k
    using Cons.prems(2) [rule_format, of "Suc k"] by simp
  ultimately show ?case
    using Cons by (simp add: real_walk.simps(2) Let_def)
qed simp

text \<open>The working directory of a process is a physical path.\<close>

definition host_ok :: "host \<Rightarrow> bool" where
  "host_ok h \<longleftrightarrow> link_free (tree h) (cwd h) \<and> plain (cwd h)"

lemma resolve_resolved:
  assumes "host_ok h" "resolve_path h p = Inr q"
  shows "\<exists>ps. q = Path True ps \<and> link_free (tree h) ps \<and> plain ps"
proof -
  obtain ps where q: "q = Path True ps"
    and w: "real_walk False (tree h) (real_fuel (tree h)) [] (start_of h p) (parts_of p) = Inr ps"
    using assms(2) by (auto simp: resolve_path_def split: sum.splits walk_stop.splits)
  have "link_free (tree h) ps \<and> plain ps"
    by (rule real_walk_resolved [OF w]) (use assms(1) in \<open>auto simp: start_of_def host_ok_def\<close>)
  with q show ?thesis by blast
qed

lemma resolve_fixed:
  "link_free (tree h) ps \<Longrightarrow> plain ps \<Longrightarrow> resolve_path h (Path True ps) = Inr (Path True ps)"
  by (simp add: resolve_path_def start_of_def real_walk_append link_free_def)

text \<open>A resolved path names what a system call finds there, if it finds anything.\<close>

lemma real_walk_strict:
  "real_walk True t n seen cur rest = Inr r \<Longrightarrow> real_walk False t n seen cur rest = Inr r"
proof (induction True t n seen cur rest arbitrary: r rule: real_walk.induct)
  case (2 t n seen cur c rest)
  show ?case
  proof (cases "link_at t (cur @ [c])")
    case None
    with 2 show ?thesis by (auto simp: real_walk.simps(2) Let_def split: if_splits)
  next
    case (Some target)
    let ?new = "cur @ [c]"
    show ?thesis
    proof (cases "c = [] \<or> c = ''.'' \<or> c = ''..''")
      case True
      with 2 show ?thesis by (auto simp: real_walk.simps(2) split: if_splits)
    next
      case False
      with 2(6) Some obtain m r1 where n: "n = Suc m" "?new \<notin> set seen" "node_at t cur = Some Dir" "CHR 0x00 \<notin> set c"
        and w1: "real_walk True t m (?new # seen) (if is_absolute target then [] else cur) (parts_of target) = Inr r1"
        and w2: "real_walk True t (Suc m) seen r1 rest = Inr r"
        by (auto simp: real_walk.simps(2) Let_def split: if_splits nat.splits)
      have "real_walk False t m (?new # seen) (if is_absolute target then [] else cur) (parts_of target) = Inr r1"
        using 2(4) [OF _ _ _ n(4) refl Some n(2) n(1) w1] False n(3) by simp
      moreover have "real_walk False t (Suc m) seen r1 rest = Inr r"
        using 2(5) [OF _ _ _ n(4) refl Some n(2) n(1) w1] w2 False n by simp
      ultimately show ?thesis using False Some n by (simp add: real_walk.simps(2))
    qed
  qed
qed simp

lemma stat_resolved:
  assumes "stat_path h p = Some nd" "resolve_path h p = Inr q"
  shows "node_at (tree h) (parts_of q) = Some nd"
  using assms by (auto simp: stat_path_def resolve_path_def dest: real_walk_strict split: sum.splits walk_stop.splits)

end
