(* ===== verification/Paths.thy ===== *)
theory Paths
  imports FileTree PyRegex Target Secrets
begin

text \<open>
  Models \<open>src/kdive/safety/paths.py\<close>, the validators every path and run id of a request
  passes, and \<open>src/kdive/symbols/resolve.py\<close>, which finds the symbol files of a run with
  them. The host is a parameter. A \<open>PathSafetyError\<close> is its own constructor;
  \<open>Path_error\<close> is an exception of \<open>pathlib\<close> that passes through.
\<close>

datatype safety_error =
    Parent_missing
  | Root_too_broad
  | Root_parent_missing
  | Overlaps_source
  | Overlaps_sensitive
  | Run_id_characters
  | Run_id_syntax
  | Source_not_directory
  | Source_marker_missing
  | Rootfs_characters
  | Rootfs_too_broad
  | Rootfs_not_file
  | Guest_not_absolute
  | Guest_components
  | Guest_characters
  | Secret_not_file_based
  | Secret_not_absolute
  | Secret_characters
  | Secret_missing
  | Escapes_sandbox
  | Path_error path_error

definition lift_path :: "(path_error, 'a) result \<Rightarrow> (safety_error, 'a) result" where
  "lift_path m = (case m of Inl e \<Rightarrow> Inl (Path_error e) | Inr x \<Rightarrow> Inr x)"

lemma lift_path_simps [simp]:
  "lift_path (Inl e) = Inl (Path_error e)" "lift_path (Inr x) = Inr x"
  "lift_path m = Inr x \<longleftrightarrow> m = Inr x"
  by (auto simp: lift_path_def split: sum.splits)

definition alnum :: "char \<Rightarrow> bool" where
  "alnum c \<longleftrightarrow> (let n = of_char c :: nat in
     65 \<le> n \<and> n \<le> 90 \<or> 97 \<le> n \<and> n \<le> 122 \<or> 48 \<le> n \<and> n \<le> 57)"

definition run_id_char :: "char \<Rightarrow> bool" where
  "run_id_char c \<longleftrightarrow> alnum c \<or> c \<in> {CHR ''_'', CHR ''.'', CHR ''-''}"

definition run_id_pattern :: "char rx" where
  "run_id_pattern = RSeq (RCls alnum) (RSeq (RRep (RCls run_id_char) 127) (RAssert at_end))"

definition shell_metachars :: string where
  "shell_metachars = '';|&`$<>'' @ [CHR 0x5C]"

definition unsafe_text :: "string \<Rightarrow> bool" where
  "unsafe_text s \<longleftrightarrow> (\<exists>c \<in> set s. c \<in> set shell_metachars) \<or> (\<exists>c \<in> set s. (of_char c :: nat) < 32)"

definition resolve_existing_or_parent :: "host \<Rightarrow> path \<Rightarrow> (safety_error, path) result" where
  "resolve_existing_or_parent h p =
     rbind (lift_path (expanduser h p)) (\<lambda>expanded.
       if path_exists h expanded then lift_path (resolve_path h expanded)
       else if \<not> path_exists h (parent_of expanded) then Inl Parent_missing
       else rbind (lift_path (resolve_path h (parent_of expanded))) (\<lambda>r.
              Inr (join_path r (parse_path (name_of expanded)))))"

definition paths_overlap :: "path \<Rightarrow> path \<Rightarrow> bool" where
  "paths_overlap left right \<longleftrightarrow> left = right \<or> relative_to left right \<or> relative_to right left"

definition home_dir :: "host \<Rightarrow> (safety_error, path) result" where
  "home_dir h = rbind (lift_path (expanduser h (Path False [''~'']))) (\<lambda>p. lift_path (resolve_path h p))"

text \<open>The loop over the paths that must not overlap.\<close>

fun refuse_overlaps :: "host \<Rightarrow> safety_error \<Rightarrow> path \<Rightarrow> path list \<Rightarrow> (safety_error, unit) result" where
  "refuse_overlaps h e p [] = Inr ()"
| "refuse_overlaps h e p (q # qs) =
     rbind (resolve_existing_or_parent h q) (\<lambda>r.
       if paths_overlap p r then Inl e else refuse_overlaps h e p qs)"

definition validate_artifact_root :: "host \<Rightarrow> path \<Rightarrow> path list \<Rightarrow> path list \<Rightarrow> (safety_error, path) result" where
  "validate_artifact_root h artifact_root sources sensitives =
     rbind (resolve_existing_or_parent h artifact_root) (\<lambda>p.
     rbind (home_dir h) (\<lambda>home.
       if p \<in> {Path True [], home} then Inl Root_too_broad
       else if \<not> path_exists h (if path_exists h p then p else parent_of p) then Inl Root_parent_missing
       else rthen (refuse_overlaps h Overlaps_source p sources)
           (rthen (refuse_overlaps h Overlaps_sensitive p sensitives) (Inr p))))"

definition validate_run_id :: "string \<Rightarrow> (safety_error, string) result" where
  "validate_run_id run_id =
     (if re_match run_id_pattern run_id = None then Inl Run_id_characters
      else if contains_sub ''..'' run_id then Inl Run_id_syntax
      else Inr run_id)"

definition validate_source_path :: "host \<Rightarrow> path \<Rightarrow> (safety_error, path) result" where
  "validate_source_path h p =
     rbind (lift_path (expanduser h p)) (\<lambda>e. rbind (lift_path (resolve_path h e)) (\<lambda>r.
       if \<not> is_dir h r then Inl Source_not_directory
       else if \<not> path_exists h (join_path r (Path False [''Kconfig'']))
             \<or> \<not> path_exists h (join_path r (Path False [''Makefile''])) then Inl Source_marker_missing
       else Inr r))"

definition validate_rootfs_source :: "host \<Rightarrow> path \<Rightarrow> path list \<Rightarrow> path list \<Rightarrow> (safety_error, path) result" where
  "validate_rootfs_source h p sources sensitives =
     (if unsafe_text (str_path p) then Inl Rootfs_characters
      else rbind (lift_path (expanduser h p)) (\<lambda>e. rbind (lift_path (resolve_path h e)) (\<lambda>r.
        rbind (home_dir h) (\<lambda>home.
          if r \<in> {Path True [], home} then Inl Rootfs_too_broad
          else if \<not> is_file h r then Inl Rootfs_not_file
          else rthen (refuse_overlaps h Overlaps_source r sources)
              (rthen (refuse_overlaps h Overlaps_sensitive r sensitives) (Inr r))))))"

definition ends_with :: "'a list \<Rightarrow> 'a list \<Rightarrow> bool" where
  "ends_with suf s \<longleftrightarrow> starts_with (rev suf) (rev s)"

definition validate_guest_path :: "string \<Rightarrow> (safety_error, string) result" where
  "validate_guest_path s =
     (if \<not> starts_with ''/'' s then Inl Guest_not_absolute
      else if contains_sub ''//'' s \<or> contains_sub ''/../'' s \<or> ends_with ''/..'' s then Inl Guest_components
      else if unsafe_text s then Inl Guest_characters
      else Inr s)"

definition validate_secret_file_reference :: "host \<Rightarrow> secret_reference \<Rightarrow> bool \<Rightarrow> (safety_error, path) result" where
  "validate_secret_file_reference h ref must_exist =
     (if sf_kind ref \<noteq> KIND_FILE then Inl Secret_not_file_based
      else rbind (lift_path (expanduser h (parse_path (sf_reference ref)))) (\<lambda>p.
        if \<not> is_absolute p then Inl Secret_not_absolute
        else rbind (lift_path (resolve_path h p)) (\<lambda>r.
          if unsafe_text (str_path r) then Inl Secret_characters
          else if must_exist \<and> \<not> is_file h r then Inl Secret_missing
          else Inr r)))"

definition confine_run_relative :: "host \<Rightarrow> string \<Rightarrow> path \<Rightarrow> (safety_error, path) result" where
  "confine_run_relative h ref run_dir =
     rbind (lift_path (resolve_path h run_dir)) (\<lambda>run_root.
     rbind (lift_path (resolve_path h (join_path run_root (parse_path ref)))) (\<lambda>r.
       if \<not> relative_to r run_root then Inl Escapes_sandbox else Inr r))"

subsection \<open>\<open>symbols/resolve.py\<close>\<close>

record resolution_warning =
  rw_code :: string
  rw_detail :: "string option"

record resolved_symbols =
  vmlinux_path :: path
  modules_path :: "path option"
  warnings :: "resolution_warning list"

datatype symbol_error =
    Vmlinux_ref_unsafe safety_error
  | Vmlinux_not_found string
  | Modules_ref_unsafe safety_error
  | Symbol_path_error path_error

text \<open>The warning for a missing bundle; the detail carries the reference that was looked for.\<close>

definition modules_missing :: "string option \<Rightarrow> resolution_warning" where
  "modules_missing r = \<lparr>rw_code = ''modules_debuginfo_missing'', rw_detail = r\<rparr>"

text \<open>\<open>except PathSafetyError\<close> around a confinement.\<close>

definition confined :: "(safety_error \<Rightarrow> symbol_error) \<Rightarrow> (safety_error, path) result \<Rightarrow> (symbol_error, path) result" where
  "confined err m = (case m of
     Inl (Path_error e) \<Rightarrow> Inl (Symbol_path_error e) | Inl e \<Rightarrow> Inl (err e) | Inr p \<Rightarrow> Inr p)"

definition resolve_symbols :: "host \<Rightarrow> kernel_provenance \<Rightarrow> path \<Rightarrow> (symbol_error, resolved_symbols) result" where
  "resolve_symbols h prov run_dir =
     rbind (confined Vmlinux_ref_unsafe (confine_run_relative h (vmlinux_ref prov) run_dir)) (\<lambda>v.
       if \<not> is_file h v then Inl (Vmlinux_not_found (vmlinux_ref prov))
       else (case modules_ref prov of
           None \<Rightarrow> Inr \<lparr>vmlinux_path = v, modules_path = None, warnings = [modules_missing None]\<rparr>
         | Some ref \<Rightarrow>
             rbind (confined Modules_ref_unsafe (confine_run_relative h ref run_dir)) (\<lambda>c.
               if path_exists h c
               then Inr \<lparr>vmlinux_path = v, modules_path = Some c, warnings = []\<rparr>
               else Inr \<lparr>vmlinux_path = v, modules_path = None, warnings = [modules_missing (Some ref)]\<rparr>)))"

end
