(* ===== verification/PathProps.thy ===== *)
theory PathProps
  imports Paths
begin

text \<open>The properties of the path validators and of symbol resolution, and a host to try them on.\<close>

subsection \<open>Overlaps and names\<close>

lemma relative_to_iff:
  "relative_to (Path True cs) (Path True ps) \<longleftrightarrow> (\<exists>qs. cs = ps @ qs)"
  by (simp add: relative_to_def starts_with_iff)

lemma refuse_overlaps_Inr:
  "refuse_overlaps h e p qs = Inr u \<longleftrightarrow>
     (\<forall>q \<in> set qs. \<exists>r. resolve_existing_or_parent h q = Inr r \<and> \<not> paths_overlap p r)"
  by (induction qs) auto

lemma alnum_cases: "alnum c \<Longrightarrow> c \<noteq> CHR ''/'' \<and> c \<noteq> CHR ''.''"
  by (auto simp: alnum_def Let_def)

lemma run_id_char_no_slash: "run_id_char c \<Longrightarrow> c \<noteq> CHR ''/''"
  by (auto simp: run_id_char_def dest: alnum_cases)

lemma run_id_pattern_match:
  "re_match run_id_pattern s \<noteq> None \<longleftrightarrow>
     (\<exists>c cs. s = c # cs \<and> alnum c \<and> (\<forall>x \<in> set cs. run_id_char x) \<and> length cs \<le> 127)"
  unfolding re_match_ne run_id_pattern_def rx_ne by auto

text \<open>a run id is one component. \<open>validate_run_id\<close> accepts exactly the ids of one to
  128 letters, digits, \<open>_\<close>, \<open>.\<close> and \<open>-\<close> that start with a letter or digit and hold no
  \<open>..\<close>; the directory \<open>root / run_id\<close> of an accepted id is a child of the root with that
  id as its name, so distinct ids have distinct directories inside the root.\<close>

theorem run_id_is_one_component:
  "(validate_run_id s = Inr r \<longleftrightarrow>
      r = s \<and> (\<exists>c cs. s = c # cs \<and> alnum c \<and> (\<forall>x \<in> set cs. run_id_char x) \<and> length cs \<le> 127)
        \<and> \<not> contains_sub ''..'' s) \<and>
   (validate_run_id s = Inr r \<longrightarrow>
      join_path (Path True root) (parse_path r) = Path True (root @ [s]) \<and> plain [s])"
proof -
  have acc: "validate_run_id s = Inr r \<longleftrightarrow>
      r = s \<and> (\<exists>c cs. s = c # cs \<and> alnum c \<and> (\<forall>x \<in> set cs. run_id_char x) \<and> length cs \<le> 127)
        \<and> \<not> contains_sub ''..'' s"
    using run_id_pattern_match [of s] by (auto simp: validate_run_id_def)
  moreover have "join_path (Path True root) (parse_path r) = Path True (root @ [s]) \<and> plain [s]"
    if "validate_run_id s = Inr r"
  proof -
    from that acc obtain c cs where s: "r = s" "s = c # cs" "alnum c" "\<forall>x \<in> set cs. run_id_char x"
      by blast
    have "CHR ''/'' \<notin> set s" using s alnum_cases run_id_char_no_slash by auto
    then have "split_on (CHR ''/'') s = [s]" by (rule split_on_id)
    moreover have "s \<noteq> ''.''" "s \<noteq> ''..''" "\<not> starts_with ''/'' s"
      using s alnum_cases [of c] by auto
    moreover have "CHR 0x00 \<notin> set s"
      using s by (auto simp: alnum_def run_id_char_def Let_def)
    ultimately show ?thesis using s by (simp add: parse_path_def join_path_def)
  qed
  ultimately show ?thesis by blast
qed

lemma run_id_is_one_component_witness:
  "validate_run_id ''run-1'' = Inr ''run-1'' \<and>
   join_path (Path True [''srv'']) (parse_path ''run-1'') = Path True [''srv'', ''run-1'']"
proof -
  have "validate_run_id ''run-1'' = Inr ''run-1''"
    by (simp add: run_id_is_one_component alnum_def run_id_char_def Let_def)
  then show ?thesis
    using run_id_is_one_component [of "''run-1''" "''run-1''" "[''srv'']"] by simp
qed

text \<open>C18: confinement. What \<open>confine_run_relative\<close> returns is below the resolved run
  directory, has no symbolic link on the way and no \<open>..\<close> in it, so that whatever a system
  call finds there is the node of the tree at that very place inside the run directory; a
  reference of plain components that meets no link is accepted, and an absolute
  reference that resolves elsewhere is refused.\<close>

theorem confined_path_stays_inside:
  assumes "host_ok h" "resolve_path h run_dir = Inr (Path True root)"
  shows "(confine_run_relative h ref run_dir = Inr p \<longrightarrow>
      (\<exists>rest. p = Path True (root @ rest) \<and> link_free (tree h) (root @ rest) \<and> plain (root @ rest) \<and>
        resolve_path h p = Inr p \<and> (\<forall>nd. stat_path h p = Some nd \<longrightarrow> node_at (tree h) (root @ rest) = Some nd)))
    \<and> (\<forall>rest. parse_path ref = Path False rest \<and> plain rest \<and> link_free (tree h) (root @ rest) \<longrightarrow>
        confine_run_relative h ref run_dir = Inr (Path True (root @ rest)))
    \<and> (\<forall>qs rs. parse_path ref = Path True qs \<and> resolve_path h (Path True qs) = Inr (Path True rs) \<and>
        \<not> starts_with root rs \<longrightarrow> confine_run_relative h ref run_dir = Inl Escapes_sandbox)"
proof (intro conjI impI allI)
  assume "confine_run_relative h ref run_dir = Inr p"
  then have r: "resolve_path h (join_path (Path True root) (parse_path ref)) = Inr p"
    and rel: "relative_to p (Path True root)"
    using assms(2) by (auto simp: confine_run_relative_def split: if_splits)
  obtain ps where p: "p = Path True ps" and ok: "link_free (tree h) ps" "plain ps"
    using resolve_resolved [OF assms(1) r] by blast
  obtain rest where "ps = root @ rest" using rel unfolding p by (auto simp: relative_to_iff)
  moreover have fixed: "resolve_path h p = Inr p" using resolve_fixed [OF ok] by (simp add: p)
  moreover have "node_at (tree h) ps = Some nd" if "stat_path h p = Some nd" for nd
    using stat_resolved [OF that fixed] by (simp add: p)
  ultimately show "\<exists>rest. p = Path True (root @ rest) \<and> link_free (tree h) (root @ rest) \<and> plain (root @ rest) \<and>
        resolve_path h p = Inr p \<and> (\<forall>nd. stat_path h p = Some nd \<longrightarrow> node_at (tree h) (root @ rest) = Some nd)"
    using p ok by blast
next
  fix rest assume a: "parse_path ref = Path False rest \<and> plain rest \<and> link_free (tree h) (root @ rest)"
  obtain ps where "Path True root = Path True ps" "plain ps"
    using resolve_resolved [OF assms] by blast
  with a have "resolve_path h (Path True (root @ rest)) = Inr (Path True (root @ rest))"
    by (intro resolve_fixed) auto
  then show "confine_run_relative h ref run_dir = Inr (Path True (root @ rest))"
    using a assms(2) by (simp add: confine_run_relative_def join_path_def relative_to_iff)
next
  fix qs rs
  assume "parse_path ref = Path True qs \<and> resolve_path h (Path True qs) = Inr (Path True rs) \<and> \<not> starts_with root rs"
  then show "confine_run_relative h ref run_dir = Inl Escapes_sandbox"
    using assms(2) by (simp add: confine_run_relative_def join_path_def relative_to_def)
qed

subsection \<open>A host\<close>

definition ex_host :: host where
  "ex_host = \<lparr>tree =
      [([''srv''], Dir), ([''srv'', ''r''], Dir), ([''srv'', ''r'', ''vmlinux''], File),
       ([''srv'', ''r'', ''out''], Link (Path True [''etc''])), ([''srv'', ''l''], Link (Path False [''r''])),
       ([''etc''], Dir), ([''etc'', ''shadow''], File), ([''home''], Dir), ([''home'', ''u''], Dir)],
     cwd = [''srv''], home_of = (\<lambda>c. if c = ''~'' then Some (Path True [''home'', ''u'']) else None)\<rparr>"

lemma take_all_cases: "(\<forall>k. P (take k [])) \<longleftrightarrow> P []" "(\<forall>k. P (take k (x # xs))) \<longleftrightarrow> P [] \<and> (\<forall>k. P (x # take k xs))"
proof -
  show "(\<forall>k. P (take k (x # xs))) \<longleftrightarrow> P [] \<and> (\<forall>k. P (x # take k xs))" (is "?L \<longleftrightarrow> ?R")
  proof
    assume ?L
    then show ?R using spec [of _ 0] spec [of _ "Suc _"] by (metis take_0 take_Suc_Cons)
  next
    assume ?R
    then show ?L by (simp add: take_Cons' )
  qed
qed simp

lemma ex_host_ok: "host_ok ex_host"
  by (auto simp: host_ok_def link_free_def ex_host_def link_at_def node_at_def take_Cons' plain_def)

lemma ex_confinement:
  "resolve_path ex_host (Path False [''l'']) = Inr (Path True [''srv'', ''r''])"
  "confine_run_relative ex_host ''vmlinux'' (Path False [''l'']) = Inr (Path True [''srv'', ''r'', ''vmlinux''])"
  "confine_run_relative ex_host ''out/shadow'' (Path False [''l'']) = Inl Escapes_sandbox"
  "confine_run_relative ex_host ''../x'' (Path False [''l'']) = Inl Escapes_sandbox"
  by code_simp+

lemma confined_path_stays_inside_witness:
  "resolve_path ex_host (Path True [''srv'', ''r'', ''vmlinux'']) = Inr (Path True [''srv'', ''r'', ''vmlinux''])"
  using confined_path_stays_inside [OF ex_host_ok ex_confinement(1), of "''vmlinux''" "Path True [''srv'', ''r'', ''vmlinux'']"]
    ex_confinement(2) by simp

subsection \<open>Disjoint roots\<close>

lemma common_below:
  assumes "relative_to s p" "relative_to s q"
  shows "paths_overlap p q"
proof -
  obtain a cs where s: "s = Path a cs" by (cases s)
  obtain b ps where p: "p = Path b ps" by (cases p)
  obtain c qs where q: "q = Path c qs" by (cases q)
  obtain x where x: "cs = ps @ x" "a = b"
    using assms(1) by (auto simp: relative_to_def s p starts_with_iff)
  obtain y where y: "cs = qs @ y" "a = c"
    using assms(2) by (auto simp: relative_to_def s q starts_with_iff)
  note xy = x y
  then have "ps @ x = qs @ y" by simp
  then obtain us where "ps = qs @ us \<or> qs = ps @ us"
    by (auto simp: append_eq_append_conv2)
  with xy show ?thesis
    by (auto simp: paths_overlap_def relative_to_def p q starts_with_iff)
qed

text \<open>a validated root shares nothing with the trees it must stay out of. Whatever
  \<open>validate_artifact_root\<close> or \<open>validate_rootfs_source\<close> returns is neither the file system
  root nor the home directory, and no path lies below both it and the resolved place of
  any of the source or sensitive paths.\<close>

theorem validated_roots_disjoint:
  assumes "validate_artifact_root h p sources sensitives = Inr r \<or> validate_rootfs_source h p sources sensitives = Inr r"
  shows "r \<noteq> Path True [] \<and> home_dir h \<noteq> Inr r \<and>
    (\<forall>q \<in> set (sources @ sensitives). \<exists>d. resolve_existing_or_parent h q = Inr d \<and>
       \<not> (\<exists>s. relative_to s r \<and> relative_to s d))"
proof -
  have base: "r \<noteq> Path True [] \<and> home_dir h \<noteq> Inr r \<and>
      refuse_overlaps h Overlaps_source r sources = Inr () \<and> refuse_overlaps h Overlaps_sensitive r sensitives = Inr ()"
    using assms by (auto simp: validate_artifact_root_def validate_rootfs_source_def split: if_splits)
  moreover have "\<exists>d. resolve_existing_or_parent h q = Inr d \<and> \<not> (\<exists>s. relative_to s r \<and> relative_to s d)"
    if "q \<in> set (sources @ sensitives)" for q
    using that base common_below unfolding refuse_overlaps_Inr by fastforce
  ultimately show ?thesis by blast
qed

lemma ex_roots:
  "validate_artifact_root ex_host (Path True [''srv'', ''new'']) [Path True [''srv'', ''r'']] [Path True [''etc'']]
     = Inr (Path True [''srv'', ''new''])"
  "validate_artifact_root ex_host (Path True [''srv'', ''l'', ''x'']) [Path True [''srv'', ''r'']] [] = Inl Overlaps_source"
  "validate_rootfs_source ex_host (Path False [''r'', ''vmlinux'']) [] [Path True [''etc'']]
     = Inr (Path True [''srv'', ''r'', ''vmlinux''])"
  by code_simp+

lemma validated_roots_disjoint_witness:
  "\<exists>d. resolve_existing_or_parent ex_host (Path True [''etc'']) = Inr d \<and>
     \<not> (\<exists>s. relative_to s (Path True [''srv'', ''new'']) \<and> relative_to s d)"
  using validated_roots_disjoint [OF disjI1 [OF ex_roots(1)]] by simp

text \<open>
  What \<open>resolve_symbols\<close> returns: an existing vmlinux, both paths below the resolved run
  directory, and exactly one warning when and only when no module bundle was found.
\<close>

theorem resolved_symbols_confined:
  assumes "resolve_symbols h prov run_dir = Inr s"
  shows "is_file h (vmlinux_path s) \<and>
    (\<exists>root. resolve_path h run_dir = Inr root \<and> relative_to (vmlinux_path s) root \<and>
       (\<forall>m. modules_path s = Some m \<longrightarrow> relative_to m root \<and> path_exists h m)) \<and>
    length (warnings s) = (if modules_path s = None then 1 else 0)"
proof -
  have conf: "confine_run_relative h ref run_dir = Inr p \<Longrightarrow>
      \<exists>root. resolve_path h run_dir = Inr root \<and> relative_to p root" for ref p
    by (auto simp: confine_run_relative_def split: if_splits)
  have cf: "confined err m = Inr p \<longleftrightarrow> m = Inr p" for err m p
    by (cases m) (auto simp: confined_def split: safety_error.splits)
  show ?thesis
    using assms conf by (auto simp: resolve_symbols_def cf split: option.splits if_splits; fastforce)
qed

end
