(* ===== verification/Config.thy ===== *)
theory Config
  imports PyRegex
begin

text \<open>
  Models the validation of \<open>src/kdive/config.py\<close>: the tokens of a kernel command line, of
  a kernel configuration and of a make invocation with their merges, SSH options, the
  destructive permissions and the operation names, and the profiles and overrides with
  their field validators. A validator that raises is an \<open>Inl\<close>; a profile is accepted when
  all its fields are. Text is UTF-8, and \<open>\d\<close> is read as the ASCII digits.
\<close>

datatype config_error =
    Unsafe_kernel_arg string
  | Duplicate_kernel_arg string
  | Invalid_config_line string
  | Duplicate_config_symbol string
  | Not_make_target string
  | Make_variable_owned string
  | Make_variable_name string
  | Make_variable_control string
  | Unsupported_ssh_option string
  | Ssh_option_value string
  | Connect_timeout_not_integer
  | Connect_timeout_out_of_range
  | Ssh_text_invalid
  | Unsupported_debug_operation string
  | Name_not_safe string
  | Argv_empty_entry
  | Argv_control
  | Marker_invalid
  | Rootfs_source_invalid
  | Wait_requires_gdbstub
  | Field_out_of_range string
  | Key_mismatch string

subsection \<open>Characters and patterns\<close>

text \<open>\<open>^[first][rest]*\Z\<close>, the shape of most patterns.\<close>

definition token_rx :: "(char \<Rightarrow> bool) \<Rightarrow> (char \<Rightarrow> bool) \<Rightarrow> char rx" where
  "token_rx P Q = RSeq (RCls P) (RSeq (RStar (RCls Q)) (RAssert at_end))"

definition safe_label_pattern :: "char rx" where
  "safe_label_pattern = token_rx letter_or_digit (\<lambda>c. letter_or_digit c \<or> one_of ''_.-'' c)"

definition kernel_arg_pattern :: "char rx" where
  "kernel_arg_pattern =
     token_rx (\<lambda>c. letter_or_digit c \<or> c = CHR ''_'') (\<lambda>c. letter_or_digit c \<or> one_of ''_.:=,/+%@-'' c)"

definition printable_unquoted :: "char \<Rightarrow> bool" where
  "printable_unquoted c \<longleftrightarrow> (let n = of_char c :: nat in 32 \<le> n \<and> n \<le> 33 \<or> 35 \<le> n \<and> n \<le> 126)"

definition kernel_arg_quoted_pattern :: "char rx" where
  "kernel_arg_quoted_pattern =
     RSeq (RCls (\<lambda>c. letter_or_digit c \<or> c = CHR ''_''))
    (RSeq (RStar (RCls (\<lambda>c. letter_or_digit c \<or> one_of ''_.:/+%@-'' c)))
    (RSeq (rx_lit [CHR ''='', CHR 0x22])
    (RSeq (RStar (RCls printable_unquoted))
    (RSeq (rx_lit [CHR 0x22]) (RAssert at_end)))))"

definition make_var_name_pattern :: "char rx" where
  "make_var_name_pattern =
     token_rx (\<lambda>c. upper_az c \<or> lower_az c \<or> c = CHR ''_'') (\<lambda>c. letter_or_digit c \<or> c = CHR ''_'')"

definition make_target_pattern :: "char rx" where
  "make_target_pattern = token_rx letter_or_digit (\<lambda>c. letter_or_digit c \<or> one_of ''_./+-'' c)"

definition symbol_char :: "char \<Rightarrow> bool" where
  "symbol_char c \<longleftrightarrow> upper_az c \<or> is_digit c \<or> c = CHR ''_''"

definition hex_letter :: "char \<Rightarrow> bool" where
  "hex_letter c \<longleftrightarrow> hex_digit c \<noteq> None"

definition config_line_pattern :: "char rx" where
  "config_line_pattern =
     RSeq (RAlt
        (RSeq (rx_lit ''CONFIG_'') (RSeq (rx_plus (RCls symbol_char)) (RSeq (rx_lit ''='')
          (RAlt (RCls (one_of ''ymn''))
          (RAlt (RSeq (rx_opt (RCls (\<lambda>c. c = CHR ''-''))) (rx_plus (RCls is_digit)))
          (RAlt (RSeq (rx_lit ''0x'') (rx_plus (RCls hex_letter)))
            (RSeq (rx_lit [CHR 0x22]) (RSeq (RStar (RCls (\<lambda>c. \<not> one_of [CHR 0x22, CHR 0x0A, CHR 0x0D] c)))
              (rx_lit [CHR 0x22])))))))))
        (RSeq (rx_lit ''# CONFIG_'') (RSeq (rx_plus (RCls symbol_char)) (rx_lit '' is not set''))))
      (RAssert at_end)"

text \<open>Unicode category \<open>Cc\<close> in UTF-8: C0, DEL, and C1 as the two bytes \<open>C2 80\<close> to \<open>C2 9F\<close>.\<close>

fun has_control_character :: "string \<Rightarrow> bool" where
  "has_control_character [] = False"
| "has_control_character (c # cs) =
     ((of_char c :: nat) < 32 \<or> (of_char c :: nat) = 127 \<or>
      (case cs of [] \<Rightarrow> False
       | d # _ \<Rightarrow> (of_char c :: nat) = 194 \<and> 128 \<le> (of_char d :: nat) \<and> (of_char d :: nat) \<le> 159) \<or>
      has_control_character cs)"

subsection \<open>Kernel arguments\<close>

text \<open>The key of a token: what stands before the first \<open>=\<close>.\<close>

definition key_of :: "string \<Rightarrow> string" where
  "key_of token = takeWhile (\<lambda>c. c \<noteq> CHR ''='') token"

fun validate_kernel_args_from :: "string set \<Rightarrow> string list \<Rightarrow> (config_error, unit) result" where
  "validate_kernel_args_from seen [] = Inr ()"
| "validate_kernel_args_from seen (t # ts) =
     (if re_match kernel_arg_pattern t = None \<and> re_match kernel_arg_quoted_pattern t = None
      then Inl (Unsafe_kernel_arg t)
      else if key_of t \<in> seen then Inl (Duplicate_kernel_arg (key_of t))
      else validate_kernel_args_from (insert (key_of t) seen) ts)"

definition validate_kernel_arg_tokens :: "string list \<Rightarrow> (config_error, string list) result" where
  "validate_kernel_arg_tokens ts = rthen (validate_kernel_args_from {} ts) (Inr ts)"

definition merge_kernel_args :: "string list \<Rightarrow> string list \<Rightarrow> string list" where
  "merge_kernel_args base over =
     (let keys = key_of ` set over in filter (\<lambda>t. key_of t \<notin> keys) base @ over)"

subsection \<open>Configuration lines\<close>

definition config_symbol :: "string \<Rightarrow> string" where
  "config_symbol line =
     (if starts_with ''# CONFIG_'' line then takeWhile (\<lambda>c. c \<noteq> CHR '' '') (drop 2 line)
      else takeWhile (\<lambda>c. c \<noteq> CHR ''='') line)"

fun validate_config_lines_from :: "string set \<Rightarrow> string list \<Rightarrow> (config_error, unit) result" where
  "validate_config_lines_from seen [] = Inr ()"
| "validate_config_lines_from seen (l # ls) =
     (if re_match config_line_pattern l = None then Inl (Invalid_config_line l)
      else if config_symbol l \<in> seen then Inl (Duplicate_config_symbol (config_symbol l))
      else validate_config_lines_from (insert (config_symbol l) seen) ls)"

definition validate_config_line_tokens :: "string list \<Rightarrow> (config_error, string list) result" where
  "validate_config_line_tokens ls = rthen (validate_config_lines_from {} ls) (Inr ls)"

definition merge_config_lines :: "string list \<Rightarrow> string list \<Rightarrow> string list" where
  "merge_config_lines base over =
     (let symbols = config_symbol ` set over in filter (\<lambda>l. config_symbol l \<notin> symbols) base @ over)"

subsection \<open>Make\<close>

definition validate_make_targets :: "string list \<Rightarrow> (config_error, string list) result" where
  "validate_make_targets ts =
     (case List.find (\<lambda>t. re_match make_target_pattern t = None) ts of
        Some t \<Rightarrow> Inl (Not_make_target t) | None \<Rightarrow> Inr ts)"

definition reserved_make_variables :: "string list" where
  "reserved_make_variables = [''O'', ''ARCH'', ''KBUILD_OUTPUT'']"

definition check_make_variable :: "string \<times> string \<Rightarrow> (config_error, unit) result" where
  "check_make_variable kv = (case kv of (key, item) \<Rightarrow>
     if key \<in> set reserved_make_variables then Inl (Make_variable_owned key)
     else if re_match make_var_name_pattern key = None then Inl (Make_variable_name key)
     else if has_control_character item then Inl (Make_variable_control key)
     else Inr ())"

definition validate_make_variable_map :: "(string \<times> string) list \<Rightarrow> (config_error, (string \<times> string) list) result" where
  "validate_make_variable_map m = rthen (check_all (map check_make_variable m)) (Inr m)"

subsection \<open>SSH options\<close>

definition connect_timeout_bounds :: "int \<times> int" where
  "connect_timeout_bounds = (1, 3600)"

definition allowed_ssh_options :: "(string \<times> string list option) list" where
  "allowed_ssh_options =
     [(''ConnectTimeout'', None), (''IdentitiesOnly'', Some [''yes'', ''no'']),
      (''LogLevel'', Some [''ERROR'', ''QUIET'', ''VERBOSE'']),
      (''StrictHostKeyChecking'', Some [''accept-new'', ''yes''])]"

definition validate_connect_timeout :: "string \<Rightarrow> (config_error, unit) result" where
  "validate_connect_timeout value =
     (case py_int value of
        None \<Rightarrow> Inl Connect_timeout_not_integer
      | Some n \<Rightarrow>
          if fst connect_timeout_bounds \<le> n \<and> n \<le> snd connect_timeout_bounds then Inr ()
          else Inl Connect_timeout_out_of_range)"

definition validate_ssh_option :: "string \<times> string \<Rightarrow> (config_error, unit) result" where
  "validate_ssh_option kv = (case kv of (key, item) \<Rightarrow>
     (case map_of allowed_ssh_options key of
        None \<Rightarrow> Inl (Unsupported_ssh_option key)
      | Some allowed \<Rightarrow>
          if item = [] \<or> has_control_character item then Inl (Ssh_option_value key)
          else (case allowed of
              None \<Rightarrow> validate_connect_timeout item
            | Some vs \<Rightarrow> if item \<in> set vs then Inr () else Inl (Ssh_option_value key))))"

definition validate_ssh_options_map :: "(string \<times> string) list \<Rightarrow> (config_error, (string \<times> string) list) result" where
  "validate_ssh_options_map m = rthen (check_all (map validate_ssh_option m)) (Inr m)"

definition validate_optional_ssh_text :: "string option \<Rightarrow> (config_error, string option) result" where
  "validate_optional_ssh_text v = (case v of
     Some s \<Rightarrow> if s = [] \<or> has_control_character s then Inl Ssh_text_invalid else Inr v
   | None \<Rightarrow> Inr v)"

subsection \<open>Operations and permissions\<close>

definition allowed_debug_operations :: "string list" where
  "allowed_debug_operations =
     [''debug.start_session'', ''debug.interrupt'', ''debug.continue'', ''debug.set_breakpoint'',
      ''debug.clear_breakpoint'', ''debug.list_breakpoints'', ''debug.step'', ''debug.next'', ''debug.finish'',
      ''debug.backtrace'', ''debug.list_variables'', ''debug.set_watchpoint'', ''debug.clear_watchpoint'',
      ''debug.read_registers'', ''debug.read_symbol'', ''debug.read_memory'', ''debug.evaluate'',
      ''debug.load_module_symbols'', ''debug.end_session'', ''transport.inject_break'',
      ''debug.introspect.run'', ''debug.introspect.helper'', ''debug.introspect.from_vmcore'',
      ''debug.introspect.from_vmcore_helper'', ''debug.postmortem.crash'', ''debug.postmortem.triage'',
      ''debug.postmortem.check_prereqs'', ''debug.postmortem.list_dumps'', ''debug.postmortem.fetch'',
      ''debug.introspect.write'']"

definition transport_destructive_permissions :: "(string \<times> string list) list" where
  "transport_destructive_permissions = [(''transport.inject_break'', [''drop target kernel into the debugger''])]"

definition introspect_destructive_permissions :: "(string \<times> string list) list" where
  "introspect_destructive_permissions =
     [(''debug.introspect.run'', [''mutate live kernel state via drgn write APIs''])]"

definition target_destructive_permissions :: "(string \<times> string list) list" where
  "target_destructive_permissions =
     [(''target.boot'',
        [''define MCP-owned libvirt domains'', ''update MCP-owned libvirt domains'',
         ''start MCP-owned libvirt domains'', ''stop MCP-owned libvirt domains'',
         ''destroy MCP-owned libvirt domains'']),
      (''target.run_tests'', [''execute caller-supplied commands over target SSH''])]"

definition missing_destructive_permissions ::
    "(string \<times> string list) list \<Rightarrow> string \<Rightarrow> string list \<Rightarrow> string list" where
  "missing_destructive_permissions table operation acknowledged =
     (case map_of table operation of
        None \<Rightarrow> [] | Some needed \<Rightarrow> filter (\<lambda>p. p \<notin> set acknowledged) needed)"

subsection \<open>Profiles\<close>

datatype mutability = Read_only | Copy_on_write | Mutable

datatype access_method = Access_ssh | Access_serial | Access_ssh_and_serial | Access_none

datatype source_kind = Local_path | Builder | Prebuilt | Url

record build_profile =
  bp_name :: string
  bp_architecture :: string
  bp_targets :: "string list"
  command_timeout_seconds :: int
  required_tools :: "string list"
  bp_jobs :: "int option"
  bp_make_variables :: "(string \<times> string) list"
  bp_config_lines :: "string list"
  bp_base_config :: "string list"

definition at_least_one :: "string \<Rightarrow> int \<Rightarrow> (config_error, unit) result" where
  "at_least_one field n = require (1 \<le> n) (Field_out_of_range field)"

definition discard :: "('e, 'a) result \<Rightarrow> ('e, unit) result" where
  "discard m = rthen m (Inr ())"

definition make_build_profile :: "build_profile \<Rightarrow> (config_error, build_profile) result" where
  "make_build_profile p = rthen (check_all
     [require (bp_targets p \<noteq> []) (Field_out_of_range ''targets''),
      discard (validate_make_targets (bp_targets p)),
      at_least_one ''command_timeout_seconds'' (command_timeout_seconds p),
      (case bp_jobs p of None \<Rightarrow> Inr () | Some j \<Rightarrow> at_least_one ''jobs'' j),
      discard (validate_make_variable_map (bp_make_variables p)),
      discard (validate_config_line_tokens (bp_config_lines p)),
      discard (validate_make_targets (bp_base_config p))]) (Inr p)"

definition effective_required_tools :: "build_profile \<Rightarrow> string list" where
  "effective_required_tools p = ''make'' # filter (\<lambda>t. t \<noteq> ''make'') (required_tools p)"

record build_overrides =
  bo_make_variables :: "(string \<times> string) list"
  bo_config_lines :: "string list"
  bo_base_config :: "string list"

definition make_build_overrides :: "build_overrides \<Rightarrow> (config_error, build_overrides) result" where
  "make_build_overrides o1 = rthen (check_all
     [discard (validate_make_variable_map (bo_make_variables o1)),
      discard (validate_config_line_tokens (bo_config_lines o1)),
      discard (validate_make_targets (bo_base_config o1))]) (Inr o1)"

record test_command =
  tc_name :: string
  argv :: "string list"
  tc_timeout :: "int option"
  tc_required :: bool

definition validate_label :: "string \<Rightarrow> (config_error, unit) result" where
  "validate_label s = require (re_match safe_label_pattern s \<noteq> None) (Name_not_safe s)"

fun validate_argv :: "string list \<Rightarrow> (config_error, unit) result" where
  "validate_argv [] = Inr ()"
| "validate_argv (a # as) =
     (if a = [] then Inl Argv_empty_entry
      else if has_control_character a then Inl Argv_control
      else validate_argv as)"

definition make_test_command :: "test_command \<Rightarrow> (config_error, test_command) result" where
  "make_test_command c = rthen (check_all
     [validate_label (tc_name c), require (argv c \<noteq> []) (Field_out_of_range ''argv''), validate_argv (argv c),
      (case tc_timeout c of None \<Rightarrow> Inr () | Some t \<Rightarrow> at_least_one ''timeout_seconds'' t)]) (Inr c)"

record test_suite_profile =
  ts_name :: string
  ts_commands :: "test_command list"
  ts_timeout :: int
  stop_on_failure :: bool
  collect_dmesg :: bool

definition make_test_suite :: "test_suite_profile \<Rightarrow> (config_error, test_suite_profile) result" where
  "make_test_suite p = rthen (check_all
     [validate_label (ts_name p), require (ts_commands p \<noteq> []) (Field_out_of_range ''commands''),
      check_all (map (\<lambda>c. discard (make_test_command c)) (ts_commands p)),
      at_least_one ''timeout_seconds'' (ts_timeout p)]) (Inr p)"

record rootfs_profile =
  rp_name :: string
  rp_source :: string
  rp_source_kind :: source_kind
  rp_mutability :: mutability
  rp_access :: access_method
  rp_marker :: "string option"
  rp_ssh_host :: "string option"
  rp_ssh_port :: int
  rp_ssh_user :: "string option"
  rp_ssh_key_ref :: "string option"
  rp_ssh_options :: "(string \<times> string) list"

definition valid_port :: "int \<Rightarrow> (config_error, unit) result" where
  "valid_port n = require (1 \<le> n \<and> n \<le> 65535) (Field_out_of_range ''ssh_port'')"

definition make_rootfs_profile :: "rootfs_profile \<Rightarrow> (config_error, rootfs_profile) result" where
  "make_rootfs_profile p = rthen (check_all
     [discard (validate_optional_ssh_text (rp_ssh_host p)), valid_port (rp_ssh_port p),
      discard (validate_optional_ssh_text (rp_ssh_user p)), discard (validate_optional_ssh_text (rp_ssh_key_ref p)),
      discard (validate_ssh_options_map (rp_ssh_options p))]) (Inr p)"

record rootfs_overrides =
  ro_mutability :: "mutability option"
  ro_access :: "access_method option"
  ro_marker :: "string option"
  ro_ssh_host :: "string option"
  ro_ssh_port :: "int option"
  ro_ssh_user :: "string option"
  ro_ssh_key_ref :: "string option"
  ro_ssh_options :: "(string \<times> string) list option"

definition validate_marker :: "string option \<Rightarrow> (config_error, unit) result" where
  "validate_marker v = (case v of
     Some s \<Rightarrow> require (s \<noteq> [] \<and> \<not> has_control_character s) Marker_invalid | None \<Rightarrow> Inr ())"

definition make_rootfs_overrides :: "rootfs_overrides \<Rightarrow> (config_error, rootfs_overrides) result" where
  "make_rootfs_overrides v = rthen (check_all
     [validate_marker (ro_marker v), discard (validate_optional_ssh_text (ro_ssh_host v)),
      (case ro_ssh_port v of None \<Rightarrow> Inr () | Some n \<Rightarrow> valid_port n),
      discard (validate_optional_ssh_text (ro_ssh_user v)), discard (validate_optional_ssh_text (ro_ssh_key_ref v)),
      (case ro_ssh_options v of None \<Rightarrow> Inr () | Some m \<Rightarrow> discard (validate_ssh_options_map m))]) (Inr v)"

text \<open>
  \<open>as_profile_update\<close>: the fields that are set, as what \<open>model_copy(update=...)\<close> makes of a
  profile with them.
\<close>

definition as_profile_update :: "rootfs_overrides \<Rightarrow> rootfs_profile \<Rightarrow> rootfs_profile" where
  "as_profile_update v p = p\<lparr>
     rp_mutability := case_option (rp_mutability p) id (ro_mutability v),
     rp_access := case_option (rp_access p) id (ro_access v),
     rp_marker := case_option (rp_marker p) Some (ro_marker v),
     rp_ssh_host := case_option (rp_ssh_host p) Some (ro_ssh_host v),
     rp_ssh_port := case_option (rp_ssh_port p) id (ro_ssh_port v),
     rp_ssh_user := case_option (rp_ssh_user p) Some (ro_ssh_user v),
     rp_ssh_key_ref := case_option (rp_ssh_key_ref p) Some (ro_ssh_key_ref v),
     rp_ssh_options := case_option (rp_ssh_options p) id (ro_ssh_options v)\<rparr>"

record target_profile =
  tp_name :: string
  tp_architecture :: string
  tp_target_ref :: "string option"
  tp_kernel_args :: "string list"
  tp_timeout :: int
  debug_gdbstub :: bool
  tp_endpoint :: string
  wait_for_debugger :: bool
  tp_libvirt_uri :: "string option"

definition make_target_profile :: "target_profile \<Rightarrow> (config_error, target_profile) result" where
  "make_target_profile p = rthen (check_all
     [discard (validate_kernel_arg_tokens (tp_kernel_args p)), at_least_one ''timeout_seconds'' (tp_timeout p),
      require (wait_for_debugger p \<longrightarrow> debug_gdbstub p) Wait_requires_gdbstub]) (Inr p)"

record boot_overrides =
  bv_kernel_args :: "string list"
  bv_rootfs_source :: "string option"
  bv_rootfs :: "rootfs_overrides option"
  bv_wait :: "bool option"

definition make_boot_overrides :: "boot_overrides \<Rightarrow> (config_error, boot_overrides) result" where
  "make_boot_overrides v = rthen (check_all
     [discard (validate_kernel_arg_tokens (bv_kernel_args v)),
      (case bv_rootfs_source v of
         Some s \<Rightarrow> require (s \<noteq> [] \<and> \<not> has_control_character s) Rootfs_source_invalid | None \<Rightarrow> Inr ()),
      (case bv_rootfs v of None \<Rightarrow> Inr () | Some r \<Rightarrow> discard (make_rootfs_overrides r))]) (Inr v)"

definition has_rootfs_field_overrides :: "boot_overrides \<Rightarrow> bool" where
  "has_rootfs_field_overrides v = (case bv_rootfs v of
     None \<Rightarrow> False
   | Some r \<Rightarrow> ro_mutability r \<noteq> None \<or> ro_access r \<noteq> None \<or> ro_marker r \<noteq> None \<or> ro_ssh_host r \<noteq> None \<or>
       ro_ssh_port r \<noteq> None \<or> ro_ssh_user r \<noteq> None \<or> ro_ssh_key_ref r \<noteq> None \<or> ro_ssh_options r \<noteq> None)"

record debug_profile =
  dp_name :: string
  enabled_operations :: "string list"

definition make_debug_profile :: "debug_profile \<Rightarrow> (config_error, debug_profile) result" where
  "make_debug_profile p =
     (case List.find (\<lambda>op. op \<notin> set allowed_debug_operations) (enabled_operations p) of
        Some op \<Rightarrow> Inl (Unsupported_debug_operation op) | None \<Rightarrow> Inr p)"

text \<open>\<open>profile_keys_match_names\<close>, for each of the five maps of \<open>ServerConfig\<close>.\<close>

definition keys_match_names :: "('p \<Rightarrow> string) \<Rightarrow> (string \<times> 'p) list \<Rightarrow> (config_error, unit) result" where
  "keys_match_names name_of_profile m =
     check_all (map (\<lambda>(k, p). require (k = name_of_profile p) (Key_mismatch k)) m)"

end
