(* ===== verification/ConfigProps.thy ===== *)
theory ConfigProps
  imports Config
begin

text \<open>The properties of the configuration validators and of the merges of overrides.\<close>

subsection \<open>Kernel arguments\<close>

text \<open>
  How the kernel splits its command line: at spaces outside double quotes, a quote toggling;
  \<open>acc\<close> is the token being read, reversed.
\<close>

fun cmdline_words :: "bool \<Rightarrow> string \<Rightarrow> string \<Rightarrow> string list" where
  "cmdline_words quoted acc [] = (if acc = [] then [] else [rev acc])"
| "cmdline_words quoted acc (c # cs) =
     (if c = CHR '' '' \<and> \<not> quoted then (if acc = [] then [] else [rev acc]) @ cmdline_words False [] cs
      else cmdline_words (quoted \<noteq> (c = CHR 0x22)) (c # acc) cs)"

definition kernel_arg_ok :: "string \<Rightarrow> bool" where
  "kernel_arg_ok t \<longleftrightarrow> re_match kernel_arg_pattern t \<noteq> None \<or> re_match kernel_arg_quoted_pattern t \<noteq> None"

lemma validate_kernel_args_from_iff:
  "validate_kernel_args_from seen ts = Inr u \<longleftrightarrow>
     (\<forall>t \<in> set ts. kernel_arg_ok t) \<and> distinct (map key_of ts) \<and> key_of ` set ts \<inter> seen = {}"
  by (induction ts arbitrary: seen) (auto simp: kernel_arg_ok_def)

lemma validate_kernel_arg_tokens_iff:
  "validate_kernel_arg_tokens ts = Inr r \<longleftrightarrow>
     r = ts \<and> (\<forall>t \<in> set ts. kernel_arg_ok t) \<and> distinct (map key_of ts)"
  by (auto simp: validate_kernel_arg_tokens_def validate_kernel_args_from_iff)

text \<open>An accepted token has no blank and no quote outside one pair of quotes at its end.\<close>

definition open_text :: "string \<Rightarrow> bool" where
  "open_text t \<longleftrightarrow> (\<forall>c \<in> set t. c \<noteq> CHR '' '' \<and> c \<noteq> CHR 0x22)"

lemma token_chars:
  "letter_or_digit c \<Longrightarrow> c \<noteq> CHR '' '' \<and> c \<noteq> CHR 0x22"
  by (auto simp: letter_or_digit_def upper_az_def lower_az_def is_digit_def Let_def)

lemma arg_chars:
  "letter_or_digit c \<or> one_of ''_.:=,/+%@-'' c \<Longrightarrow> c \<noteq> CHR '' '' \<and> c \<noteq> CHR 0x22"
  "letter_or_digit c \<or> one_of ''_.:/+%@-'' c \<Longrightarrow> c \<noteq> CHR '' '' \<and> c \<noteq> CHR 0x22"
  using token_chars [of c] by (auto simp: one_of_def)

lemma kernel_arg_shape:
  assumes "kernel_arg_ok t"
  shows "t \<noteq> [] \<and> (open_text t \<or>
    (\<exists>k v. t = k @ [CHR ''='', CHR 0x22] @ v @ [CHR 0x22] \<and> open_text k \<and> (\<forall>c \<in> set v. c \<noteq> CHR 0x22)))"
proof -
  have plain: "t \<noteq> [] \<and> open_text t" if q: "rmatch kernel_arg_pattern ([], t, []) \<noteq> []"
  proof -
    obtain c u where t: "t = c # u" and c: "letter_or_digit c \<or> c = CHR ''_''"
      and u: "\<forall>x \<in> set u. letter_or_digit x \<or> one_of ''_.:=,/+%@-'' x"
      using q unfolding kernel_arg_pattern_def token_rx_def rx_ne by blast
    have "c \<noteq> CHR '' '' \<and> c \<noteq> CHR 0x22" using c token_chars by auto
    moreover have "x \<noteq> CHR '' '' \<and> x \<noteq> CHR 0x22" if "x \<in> set u" for x
      using u that arg_chars(1) by blast
    ultimately show ?thesis by (simp add: t open_text_def)
  qed
  have quoted: "t \<noteq> [] \<and> (\<exists>k v. t = k @ [CHR ''='', CHR 0x22] @ v @ [CHR 0x22] \<and> open_text k \<and> (\<forall>c \<in> set v. c \<noteq> CHR 0x22))"
    if q: "rmatch kernel_arg_quoted_pattern ([], t, []) \<noteq> []"
  proof -
    obtain c u v where t: "t = c # u @ [CHR ''='', CHR 0x22] @ v @ [CHR 0x22]"
      and c: "letter_or_digit c \<or> c = CHR ''_''" and u: "\<forall>x \<in> set u. letter_or_digit x \<or> one_of ''_.:/+%@-'' x"
      and v: "\<forall>x \<in> set v. printable_unquoted x"
      using q unfolding kernel_arg_quoted_pattern_def rx_ne by (elim exE conjE) simp
    have "c \<noteq> CHR '' '' \<and> c \<noteq> CHR 0x22" using c token_chars by auto
    moreover have "x \<noteq> CHR '' '' \<and> x \<noteq> CHR 0x22" if "x \<in> set u" for x
      using u that arg_chars(2) by blast
    ultimately have "open_text (c # u)" by (simp add: open_text_def)
    moreover have "\<forall>x \<in> set v. x \<noteq> CHR 0x22" using v by (auto simp: printable_unquoted_def Let_def)
    ultimately show ?thesis unfolding t by (intro conjI exI [of _ "c # u"] exI [of _ v]) simp_all
  qed
  from assms plain quoted show ?thesis unfolding kernel_arg_ok_def re_match_ne by blast
qed

lemma cmdline_open: "open_text u \<Longrightarrow> cmdline_words False acc (u @ rest) = cmdline_words False (rev u @ acc) rest"
  by (induction u arbitrary: acc) (auto simp: open_text_def)

lemma cmdline_quoted:
  "\<forall>c \<in> set v. c \<noteq> CHR 0x22 \<Longrightarrow> cmdline_words True acc (v @ rest) = cmdline_words True (rev v @ acc) rest"
  by (induction v arbitrary: acc) auto

lemma cmdline_token:
  assumes "kernel_arg_ok t"
  shows "cmdline_words False [] (t @ rest) = cmdline_words False (rev t) rest"
  using kernel_arg_shape [OF assms]
proof (elim conjE disjE exE)
  assume "open_text t"
  then show ?thesis by (simp add: cmdline_open)
next
  fix k v assume "t = k @ [CHR ''='', CHR 0x22] @ v @ [CHR 0x22]" "open_text k" "\<forall>c \<in> set v. c \<noteq> CHR 0x22"
  then show ?thesis by (simp add: cmdline_open cmdline_quoted)
qed

lemma cmdline_join:
  "\<forall>t \<in> set ts. kernel_arg_ok t \<Longrightarrow> cmdline_words False [] (join_with (CHR '' '') ts) = ts"
proof (induction ts)
  case Nil
  then show ?case by (simp add: join_with_def)
next
  case (Cons t ts)
  have ne: "t \<noteq> []" using kernel_arg_shape [of t] Cons.prems by simp
  show ?case
  proof (cases ts)
    case Nil
    with Cons.prems ne cmdline_token [of t "[]"] show ?thesis by (simp add: join_with_def)
  next
    case (Cons q qs)
    have "join_with (CHR '' '') (t # ts) = t @ CHR '' '' # join_with (CHR '' '') ts"
      by (simp add: join_with_def Cons)
    then show ?thesis
      using Cons.prems Cons.IH ne \<open>\<forall>t \<in> set (t # ts). kernel_arg_ok t\<close>
        cmdline_token [of t "CHR '' '' # join_with (CHR '' '') ts"] by simp
  qed
qed

text \<open>The last token of a key, as the kernel reads an argument.\<close>

definition arg_of :: "string \<Rightarrow> string list \<Rightarrow> string option" where
  "arg_of k ts = List.find (\<lambda>t. key_of t = k) ts"

lemma find_app: "List.find P (xs @ ys) = (case List.find P xs of None \<Rightarrow> List.find P ys | Some x \<Rightarrow> Some x)"
  by (induction xs) auto

lemma find_filter_key:
  "k \<notin> S \<Longrightarrow> List.find (\<lambda>t. f t = k) (filter (\<lambda>t. f t \<notin> S) ts) = List.find (\<lambda>t. f t = k) ts"
  "k \<in> S \<Longrightarrow> List.find (\<lambda>t. f t = k) (filter (\<lambda>t. f t \<notin> S) ts) = None"
  by (induction ts) auto

text \<open>The law both merges share: overrides win, everything else stays, keys stay distinct.\<close>

lemma merge_keys:
  assumes "distinct (map f base)" "distinct (map f over)"
  defines "merged \<equiv> filter (\<lambda>t. f t \<notin> f ` set over) base @ over"
  shows "distinct (map f merged)"
    and "List.find (\<lambda>t. f t = k) merged =
      (case List.find (\<lambda>t. f t = k) over of Some t \<Rightarrow> Some t | None \<Rightarrow> List.find (\<lambda>t. f t = k) base)"
proof -
  have "distinct (map f (filter (\<lambda>t. f t \<notin> f ` set over) base))"
    using assms(1) by (simp add: distinct_map_filter)
  then show "distinct (map f merged)" using assms(2) by (auto simp: merged_def)
  show "List.find (\<lambda>t. f t = k) merged =
      (case List.find (\<lambda>t. f t = k) over of Some t \<Rightarrow> Some t | None \<Rightarrow> List.find (\<lambda>t. f t = k) base)"
  proof (cases "k \<in> f ` set over")
    case True
    then have "List.find (\<lambda>t. f t = k) over \<noteq> None" by (auto simp: find_None_all)
    with True show ?thesis
      by (auto simp: merged_def find_app find_filter_key(2) [OF True] split: option.splits)
  next
    case False
    then have "List.find (\<lambda>t. f t = k) over = None" by (auto simp: find_None_all)
    with False show ?thesis
      by (simp add: merged_def find_app find_filter_key(1) [OF False] split: option.splits)
  qed
qed

text \<open>C19: the kernel reads the arguments that were meant. Two validated lists of kernel
  arguments merge into a list that validates again; each key has its override's token, or
  else its base token; and joining the result with spaces and splitting it the way the
  kernel does, quotes included, gives back exactly the merged tokens, so no token can
  smuggle in another argument.\<close>

theorem merged_kernel_args_kept_apart:
  assumes "validate_kernel_arg_tokens base = Inr b" "validate_kernel_arg_tokens over = Inr v"
  defines "merged \<equiv> merge_kernel_args base over"
  shows "validate_kernel_arg_tokens merged = Inr merged \<and>
    (\<forall>k. arg_of k merged = (case arg_of k over of Some t \<Rightarrow> Some t | None \<Rightarrow> arg_of k base)) \<and>
    cmdline_words False [] (join_with (CHR '' '') merged) = merged"
proof -
  have ok: "\<forall>t \<in> set merged. kernel_arg_ok t"
    using assms(1,2) by (auto simp: validate_kernel_arg_tokens_iff merged_def merge_kernel_args_def Let_def)
  have "distinct (map key_of base)" "distinct (map key_of over)"
    using assms(1,2) by (simp_all add: validate_kernel_arg_tokens_iff)
  note keys = merge_keys [OF this]
  show ?thesis
    using ok keys cmdline_join [OF ok]
    unfolding arg_of_def merged_def merge_kernel_args_def Let_def validate_kernel_arg_tokens_iff by blast
qed

lemma merged_kernel_args_kept_apart_witness:
  "merge_kernel_args [''root=/dev/vda'', ''quiet''] [''dyndbg='' @ [CHR 0x22] @ ''file a.c +p'' @ [CHR 0x22], ''root=/dev/vdb'']
     = [''quiet'', ''dyndbg='' @ [CHR 0x22] @ ''file a.c +p'' @ [CHR 0x22], ''root=/dev/vdb''] \<and>
   arg_of ''root'' (merge_kernel_args [''root=/dev/vda'', ''quiet''] [''dyndbg='' @ [CHR 0x22] @ ''file a.c +p'' @ [CHR 0x22], ''root=/dev/vdb''])
     = Some ''root=/dev/vdb''"
proof -
  let ?base = "[''root=/dev/vda'', ''quiet'']"
  let ?over = "[''dyndbg='' @ [CHR 0x22] @ ''file a.c +p'' @ [CHR 0x22], ''root=/dev/vdb'']"
  have "validate_kernel_arg_tokens ?base = Inr ?base" "validate_kernel_arg_tokens ?over = Inr ?over"
    by code_simp+
  from merged_kernel_args_kept_apart [OF this]
  have "arg_of ''root'' (merge_kernel_args ?base ?over) =
      (case arg_of ''root'' ?over of Some t \<Rightarrow> Some t | None \<Rightarrow> arg_of ''root'' ?base)" by blast
  moreover have "arg_of ''root'' ?over = Some ''root=/dev/vdb''" by code_simp
  moreover have "merge_kernel_args ?base ?over =
      [''quiet'', ''dyndbg='' @ [CHR 0x22] @ ''file a.c +p'' @ [CHR 0x22], ''root=/dev/vdb'']" by code_simp
  ultimately show ?thesis by simp
qed

subsection \<open>Configuration lines\<close>

lemma validate_config_lines_from_iff:
  "validate_config_lines_from seen ls = Inr u \<longleftrightarrow>
     (\<forall>l \<in> set ls. re_match config_line_pattern l \<noteq> None) \<and> distinct (map config_symbol ls) \<and>
     config_symbol ` set ls \<inter> seen = {}"
  by (induction ls arbitrary: seen) auto

text \<open>The same law for the lines of a kernel configuration.\<close>

lemma merged_config_lines_valid:
  assumes "validate_config_line_tokens base = Inr b" "validate_config_line_tokens over = Inr v"
  shows "validate_config_line_tokens (merge_config_lines base over) = Inr (merge_config_lines base over) \<and>
    (\<forall>k. List.find (\<lambda>l. config_symbol l = k) (merge_config_lines base over) =
      (case List.find (\<lambda>l. config_symbol l = k) over of
         Some l \<Rightarrow> Some l | None \<Rightarrow> List.find (\<lambda>l. config_symbol l = k) base))"
proof -
  have iff: "validate_config_line_tokens ls = Inr r \<longleftrightarrow>
      r = ls \<and> (\<forall>l \<in> set ls. re_match config_line_pattern l \<noteq> None) \<and> distinct (map config_symbol ls)" for ls r
    by (auto simp: validate_config_line_tokens_def validate_config_lines_from_iff)
  have "distinct (map config_symbol base)" "distinct (map config_symbol over)"
    using assms by (simp_all add: iff)
  note keys = merge_keys [OF this]
  have "\<forall>l \<in> set (merge_config_lines base over). re_match config_line_pattern l \<noteq> None"
    using assms by (auto simp: iff merge_config_lines_def Let_def)
  with keys show ?thesis unfolding iff merge_config_lines_def Let_def by blast
qed

subsection \<open>Overrides\<close>

definition ssh_text_ok :: "string option \<Rightarrow> bool" where
  "ssh_text_ok v \<longleftrightarrow> (case v of Some s \<Rightarrow> s \<noteq> [] \<and> \<not> has_control_character s | None \<Rightarrow> True)"

definition ssh_map_ok :: "(string \<times> string) list \<Rightarrow> bool" where
  "ssh_map_ok m \<longleftrightarrow> (\<forall>kv \<in> set m. validate_ssh_option kv = Inr ())"

lemma ssh_validators:
  "discard (validate_optional_ssh_text v) = Inr u \<longleftrightarrow> ssh_text_ok v"
  "discard (validate_ssh_options_map m) = Inr u \<longleftrightarrow> ssh_map_ok m"
  by (auto simp: discard_def validate_optional_ssh_text_def ssh_text_ok_def validate_ssh_options_map_def
      ssh_map_ok_def split: option.splits)

lemma make_rootfs_profile_iff:
  "make_rootfs_profile p = Inr q \<longleftrightarrow>
     q = p \<and> ssh_text_ok (rp_ssh_host p) \<and> valid_port (rp_ssh_port p) = Inr () \<and>
     ssh_text_ok (rp_ssh_user p) \<and> ssh_text_ok (rp_ssh_key_ref p) \<and> ssh_map_ok (rp_ssh_options p)"
  by (auto simp: make_rootfs_profile_def ssh_validators)

lemma make_rootfs_overrides_ssh:
  "make_rootfs_overrides v = Inr w \<Longrightarrow>
     ssh_text_ok (ro_ssh_host v) \<and> (\<forall>n. ro_ssh_port v = Some n \<longrightarrow> valid_port n = Inr ()) \<and>
     ssh_text_ok (ro_ssh_user v) \<and> ssh_text_ok (ro_ssh_key_ref v) \<and>
     (\<forall>m. ro_ssh_options v = Some m \<longrightarrow> ssh_map_ok m)"
  by (clarsimp simp: make_rootfs_overrides_def ssh_validators split: option.splits)

lemma ssh_text_override: "ssh_text_ok a \<Longrightarrow> ssh_text_ok v \<Longrightarrow> ssh_text_ok (case_option a Some v)"
  by (cases v) simp_all

text \<open>C20: an override cannot make a profile invalid. Applying validated root file system
  overrides to a validated profile - \<open>model_copy\<close> itself validates nothing - gives a
  profile that validates, keeps its name and source, and an override that sets nothing
  changes nothing.\<close>

theorem overrides_keep_profile_valid:
  assumes "make_rootfs_profile p = Inr p" "make_rootfs_overrides v = Inr v"
  shows "make_rootfs_profile (as_profile_update v p) = Inr (as_profile_update v p) \<and>
    rp_name (as_profile_update v p) = rp_name p \<and> rp_source (as_profile_update v p) = rp_source p \<and>
    (\<not> has_rootfs_field_overrides \<lparr>bv_kernel_args = [], bv_rootfs_source = None, bv_rootfs = Some v, bv_wait = None\<rparr>
       \<longrightarrow> as_profile_update v p = p)"
proof -
  note ok = assms(1) [unfolded make_rootfs_profile_iff]
  note new = make_rootfs_overrides_ssh [OF assms(2)]
  have "make_rootfs_profile (as_profile_update v p) = Inr (as_profile_update v p)"
    unfolding make_rootfs_profile_iff using ok new
    by (simp add: as_profile_update_def ssh_text_override split: option.splits)
  moreover have "as_profile_update v p = p"
    if "\<not> has_rootfs_field_overrides \<lparr>bv_kernel_args = [], bv_rootfs_source = None, bv_rootfs = Some v, bv_wait = None\<rparr>"
    using that by (simp add: has_rootfs_field_overrides_def as_profile_update_def)
  ultimately show ?thesis by (simp add: as_profile_update_def)
qed

definition ex_rootfs :: rootfs_profile where
  "ex_rootfs = \<lparr>rp_name = ''minimal'', rp_source = ''/img'', rp_source_kind = Builder, rp_mutability = Copy_on_write,
     rp_access = Access_ssh, rp_marker = None, rp_ssh_host = Some ''127.0.0.1'', rp_ssh_port = 22,
     rp_ssh_user = Some ''root'', rp_ssh_key_ref = None, rp_ssh_options = []\<rparr>"

definition ex_overrides :: rootfs_overrides where
  "ex_overrides = \<lparr>ro_mutability = None, ro_access = None, ro_marker = None, ro_ssh_host = None,
     ro_ssh_port = Some 2222, ro_ssh_user = None, ro_ssh_key_ref = None,
     ro_ssh_options = Some [(''ConnectTimeout'', ''5'')]\<rparr>"

lemma overrides_keep_profile_valid_witness:
  "make_rootfs_profile (as_profile_update ex_overrides ex_rootfs) = Inr (as_profile_update ex_overrides ex_rootfs) \<and>
   rp_ssh_port (as_profile_update ex_overrides ex_rootfs) = 2222"
proof -
  have "make_rootfs_profile ex_rootfs = Inr ex_rootfs" "make_rootfs_overrides ex_overrides = Inr ex_overrides"
    by code_simp+
  from overrides_keep_profile_valid [OF this] show ?thesis by (simp add: as_profile_update_def ex_overrides_def)
qed

end
