(* ===== verification/Store.thy ===== *)
theory Store
  imports Registry Config Paths
begin

text \<open>
  Models \<open>src/kdive/artifacts/manifest.py\<close> and \<open>src/kdive/artifacts/store.py\<close>, with the run
  records of \<open>src/kdive/domain.py\<close>: the manifest of a run, and the store that keeps one
  directory per run, takes lock files and replaces manifests. An operation is a function of
  the store that returns or raises and gives the new store; which operating system calls
  fail in it is a parameter, as are the clock and the random run id.
\<close>

subsection \<open>The manifest\<close>

datatype step_status = PENDING | RUNNING | SUCCEEDED | FAILED | SKIPPED | CANCELED

record run_step =
  step_name :: string
  step_state :: step_status
  step_provider :: "string option"

record step_result =
  sr_step_name :: string
  sr_status :: step_status
  sr_summary :: string
  sr_artifacts :: "artifact_ref list"
  sr_details :: "(string \<times> raw) list"

record run_request =
  source_path :: string
  rq_build_profile :: string
  rq_target_profile :: string
  rq_rootfs_profile :: string
  rq_debug_profile :: "string option"
  rq_test_suite :: "string option"
  rq_run_id :: "string option"
  rq_build_overrides :: "build_overrides option"
  rq_boot_overrides :: "boot_overrides option"

record boot_attempt =
  ba_attempt :: int
  ba_target_profile :: target_profile
  ba_rootfs_profile :: rootfs_profile
  ba_status :: step_status
  ba_started_at :: int

record run_manifest =
  schema_version :: int
  rm_run_id :: string
  rm_created_at :: int
  rm_request :: run_request
  steps :: "run_step list"
  step_results :: "(string \<times> step_result) list"
  cleanup_state :: string
  rm_build_profile :: "build_profile option"
  rm_target_profile :: "target_profile option"
  rm_rootfs_profile :: "rootfs_profile option"
  boot_attempts :: "boot_attempt list"

definition planned_steps :: "run_step list" where
  "planned_steps =
     \<lparr>step_name = ''create_run'', step_state = SUCCEEDED, step_provider = Some ''local-artifacts''\<rparr> #
     map (\<lambda>n. \<lparr>step_name = n, step_state = PENDING, step_provider = None\<rparr>)
       [''build'', ''boot'', ''run_tests'', ''collect_artifacts'', ''debug'']"

definition create_manifest ::
    "int \<Rightarrow> string \<Rightarrow> run_request \<Rightarrow> build_profile option \<Rightarrow> target_profile option \<Rightarrow> rootfs_profile option \<Rightarrow> run_manifest" where
  "create_manifest now run_id req bp tp rp =
     \<lparr>schema_version = 3, rm_run_id = run_id, rm_created_at = now, rm_request = req, steps = planned_steps,
      step_results = [], cleanup_state = ''not_started'', rm_build_profile = bp, rm_target_profile = tp,
      rm_rootfs_profile = rp, boot_attempts = []\<rparr>"

definition with_step_result :: "step_result \<Rightarrow> bool \<Rightarrow> run_manifest \<Rightarrow> run_manifest" where
  "with_step_result res replace_succeeded m =
     (let clone = m\<lparr>step_results := dict_set (sr_step_name res) res (step_results m),
          steps := map (\<lambda>s. if step_name s = sr_step_name res then s\<lparr>step_state := sr_status res\<rparr> else s) (steps m)\<rparr>
      in case map_of (step_results m) (sr_step_name res) of
           Some existing \<Rightarrow> if sr_status existing = SUCCEEDED \<and> \<not> replace_succeeded then m else clone
         | None \<Rightarrow> clone)"

datatype store_error =
    Manifest_locked string
  | Lock_failed string
  | Run_exists string
  | Run_create_failed string
  | Manifest_unreadable string
  | Manifest_write_failed string
  | Step_already_recorded string
  | Path_refused safety_error
  | Root_create_failed
  | Lock_dir_failed string
  | Raw_os_error
  | Value_error string

definition append_step_result :: "step_result \<Rightarrow> run_manifest \<Rightarrow> (store_error, run_manifest) result" where
  "append_step_result res m =
     (if map_of (step_results m) (sr_step_name res) \<noteq> None then Inl (Value_error (sr_step_name res))
      else Inr (m\<lparr>step_results := dict_set (sr_step_name res) res (step_results m)\<rparr>))"

definition with_boot_attempt :: "boot_attempt \<Rightarrow> run_manifest \<Rightarrow> run_manifest" where
  "with_boot_attempt a m = m\<lparr>boot_attempts := boot_attempts m @ [a]\<rparr>"

subsection \<open>The store\<close>

record run_dir =
  subdirs :: "string list"
  sensitive_private :: bool
  manifest_file :: "run_manifest disk_file option"
  temp_left :: bool
  run_locks :: "string list"

record store =
  root_exists :: bool
  runs :: "(string \<times> run_dir) list"
  target_locks :: "string list"

datatype fs_call =
    Mkdir_root | Mkdir_run | Mkdir_run_raced | Mkdir_sub string | Chmod_sensitive | Read_manifest
  | Write_temp | Replace_manifest | Unlink_temp | Open_lock | Write_lock

type_synonym faults = "fs_call \<Rightarrow> bool"

type_synonym 'a store_op = "store \<Rightarrow> (store_error, 'a) result \<times> store"

definition artifact_subdirs :: "string list" where
  "artifact_subdirs = [''inputs'', ''logs'', ''build'', ''target'', ''tests'', ''debug'', ''summaries'', ''sensitive'']"

definition checked_run_id :: "string \<Rightarrow> (store_error, string) result" where
  "checked_run_id run_id = (case validate_run_id run_id of Inl e \<Rightarrow> Inl (Path_refused e) | Inr r \<Rightarrow> Inr r)"

definition run_at :: "string \<Rightarrow> store \<Rightarrow> run_dir option" where
  "run_at run_id s = map_of (runs s) run_id"

definition put_run :: "string \<Rightarrow> run_dir \<Rightarrow> store \<Rightarrow> store" where
  "put_run run_id d s = s\<lparr>runs := dict_set run_id d (runs s)\<rparr>"

definition drop_run :: "string \<Rightarrow> store \<Rightarrow> store" where
  "drop_run run_id s = s\<lparr>runs := dict_pop run_id (runs s)\<rparr>"

text \<open>
  \<open>ArtifactStore.__init__\<close>: the root passes the path policy, then is created; creating it
  when it exists changes nothing.
\<close>

definition new_store :: "host \<Rightarrow> path \<Rightarrow> path list \<Rightarrow> path list \<Rightarrow> bool \<Rightarrow> faults \<Rightarrow> path store_op" where
  "new_store h root sources sensitives create_root faults s =
     (case validate_artifact_root h root sources sensitives of
        Inl e \<Rightarrow> (Inl (Path_refused e), s)
      | Inr p \<Rightarrow>
          if \<not> create_root then (Inr p, s)
          else if faults Mkdir_root then (Inl Root_create_failed, s)
          else (Inr p, s\<lparr>root_exists := True\<rparr>))"

text \<open>
  \<open>_file_lock\<close> of a run: exclusive creation, the body, removal in \<open>finally\<close>. Writing the
  process id is inside the \<open>try\<close> and what it raises is not translated.
\<close>

definition with_run_lock :: "string \<Rightarrow> string \<Rightarrow> string \<Rightarrow> faults \<Rightarrow> 'a store_op \<Rightarrow> 'a store_op" where
  "with_run_lock name locked run_id faults body s =
     (case run_at run_id s of
        None \<Rightarrow> (Inl (Lock_failed name), s)
      | Some d \<Rightarrow>
          if name \<in> set (run_locks d) then (Inl (Manifest_locked locked), s)
          else if faults Open_lock then (Inl (Lock_failed name), s)
          else let taken = put_run run_id (d\<lparr>run_locks := name # run_locks d\<rparr>) s;
                   (r, s') = (if faults Write_lock then (Inl Raw_os_error, taken) else body taken)
               in (r, (case run_at run_id s' of
                         None \<Rightarrow> s'
                       | Some d' \<Rightarrow> put_run run_id (d'\<lparr>run_locks := removeAll name (run_locks d')\<rparr>) s')))"

definition manifest_lock :: "string \<Rightarrow> faults \<Rightarrow> 'a store_op \<Rightarrow> 'a store_op" where
  "manifest_lock = with_run_lock ''.manifest.lock'' ''manifest is locked''"

text \<open>The other locks of a run, by name.\<close>

definition build_lock :: "string \<Rightarrow> faults \<Rightarrow> 'a store_op \<Rightarrow> 'a store_op" where
  "build_lock run_id faults body s = (case checked_run_id run_id of
     Inl e \<Rightarrow> (Inl e, s) | Inr r \<Rightarrow> with_run_lock ''.build.lock'' ''build is locked'' r faults body s)"

definition boot_lock :: "string \<Rightarrow> faults \<Rightarrow> 'a store_op \<Rightarrow> 'a store_op" where
  "boot_lock run_id faults body s = (case checked_run_id run_id of
     Inl e \<Rightarrow> (Inl e, s) | Inr r \<Rightarrow> with_run_lock ''.boot.lock'' ''boot is locked'' r faults body s)"

definition tests_lock :: "string \<Rightarrow> faults \<Rightarrow> 'a store_op \<Rightarrow> 'a store_op" where
  "tests_lock run_id faults body s = (case checked_run_id run_id of
     Inl e \<Rightarrow> (Inl e, s) | Inr r \<Rightarrow> with_run_lock ''.tests.lock'' ''tests are locked'' r faults body s)"

definition collect_lock :: "string \<Rightarrow> faults \<Rightarrow> 'a store_op \<Rightarrow> 'a store_op" where
  "collect_lock run_id faults body s = (case checked_run_id run_id of
     Inl e \<Rightarrow> (Inl e, s) | Inr r \<Rightarrow> with_run_lock ''.collect.lock'' ''artifact collection is locked'' r faults body s)"

definition postmortem_fetch_lock :: "string \<Rightarrow> faults \<Rightarrow> 'a store_op \<Rightarrow> 'a store_op" where
  "postmortem_fetch_lock run_id faults body s = (case checked_run_id run_id of
     Inl e \<Rightarrow> (Inl e, s) | Inr r \<Rightarrow> with_run_lock ''.postmortem-fetch.lock'' ''postmortem fetch is locked'' r faults body s)"

definition debug_lock :: "string \<Rightarrow> faults \<Rightarrow> 'a store_op \<Rightarrow> 'a store_op" where
  "debug_lock run_id faults body s = (case checked_run_id run_id of
     Inl e \<Rightarrow> (Inl e, s) | Inr r \<Rightarrow> with_run_lock ''.debug.lock'' ''debug is locked'' r faults body s)"

definition load_manifest :: "string \<Rightarrow> faults \<Rightarrow> store \<Rightarrow> (store_error, run_manifest) result" where
  "load_manifest run_id faults s =
     rbind (checked_run_id run_id) (\<lambda>r.
       case run_at r s of
         None \<Rightarrow> Inl (Manifest_unreadable r)
       | Some d \<Rightarrow>
           (if faults Read_manifest then Inl (Manifest_unreadable r)
            else case manifest_file d of Some (Parsed m) \<Rightarrow> Inr m | _ \<Rightarrow> Inl (Manifest_unreadable r)))"

text \<open>
  \<open>_write_manifest\<close>: a temporary file, then \<open>os.replace\<close>; a failure removes the temporary
  file, and only its absence is suppressed there.
\<close>

definition write_manifest :: "string \<Rightarrow> run_manifest \<Rightarrow> faults \<Rightarrow> unit store_op" where
  "write_manifest run_id m faults s =
     (case run_at run_id s of
        None \<Rightarrow> (Inl (Manifest_write_failed run_id), s)
      | Some d \<Rightarrow>
          if faults Write_temp \<or> faults Replace_manifest
          then if faults Unlink_temp
               then (Inl Raw_os_error, put_run run_id (d\<lparr>temp_left := True\<rparr>) s)
               else (Inl (Manifest_write_failed run_id), put_run run_id (d\<lparr>temp_left := False\<rparr>) s)
          else (Inr (), put_run run_id (d\<lparr>manifest_file := Some (Parsed m), temp_left := False\<rparr>) s))"

definition sub_fault :: "faults \<Rightarrow> bool" where
  "sub_fault faults \<longleftrightarrow> (\<exists>d \<in> set artifact_subdirs. faults (Mkdir_sub d)) \<or> faults Chmod_sensitive"

text \<open>
  \<open>create_run\<close>. The handlers catch \<open>OSError\<close> only: a directory made before a failing
  \<open>mkdir\<close> or \<open>chmod\<close> is removed, one made before a failing manifest write is not.
\<close>

definition create_run ::
    "int \<Rightarrow> string \<Rightarrow> run_request \<Rightarrow> build_profile option \<Rightarrow> target_profile option \<Rightarrow> rootfs_profile option
      \<Rightarrow> faults \<Rightarrow> run_manifest store_op" where
  "create_run now fresh_id req bp tp rp faults s =
     (case checked_run_id (case rq_run_id req of Some i \<Rightarrow> if i = [] then fresh_id else i | None \<Rightarrow> fresh_id) of
        Inl e \<Rightarrow> (Inl e, s)
      | Inr run_id \<Rightarrow>
          if run_at run_id s \<noteq> None \<or> faults Mkdir_run_raced then (Inl (Run_exists run_id), s)
          else if \<not> root_exists s \<or> faults Mkdir_run then (Inl (Run_create_failed run_id), s)
          else if sub_fault faults then (Inl (Run_create_failed run_id), drop_run run_id s)
          else let m = create_manifest now run_id (req\<lparr>rq_run_id := Some run_id\<rparr>) bp tp rp;
                   made = put_run run_id \<lparr>subdirs = artifact_subdirs, sensitive_private = True,
                     manifest_file = None, temp_left = False, run_locks = []\<rparr> s;
                   (w, s') = write_manifest run_id m faults made
               in (case w of
                     Inr _ \<Rightarrow> (Inr m, s')
                   | Inl Raw_os_error \<Rightarrow> (Inl (Run_create_failed run_id), drop_run run_id s')
                   | Inl e \<Rightarrow> (Inl e, s')))"

text \<open>The body of \<open>record_step_result\<close> under the lock.\<close>

definition updated_manifest :: "step_result \<Rightarrow> bool \<Rightarrow> bool \<Rightarrow> run_manifest \<Rightarrow> (store_error, run_manifest) result" where
  "updated_manifest res replace_succeeded append_only m =
     (if append_only
      then (case append_step_result res m of
              Inl _ \<Rightarrow> Inl (Step_already_recorded (sr_step_name res)) | Inr u \<Rightarrow> Inr u)
      else Inr (with_step_result res replace_succeeded m))"

definition record_step_body :: "string \<Rightarrow> step_result \<Rightarrow> bool \<Rightarrow> bool \<Rightarrow> faults \<Rightarrow> run_manifest store_op" where
  "record_step_body run_id res replace_succeeded append_only faults s =
     (case rbind (load_manifest run_id faults s) (\<lambda>m.
             rbind (updated_manifest res replace_succeeded append_only m) (\<lambda>u. Inr (m, u))) of
        Inl e \<Rightarrow> (Inl e, s)
      | Inr (m, u) \<Rightarrow>
          if u \<noteq> m
          then (case write_manifest run_id u faults s of (Inl e, s') \<Rightarrow> (Inl e, s') | (Inr _, s') \<Rightarrow> (Inr u, s'))
          else (Inr u, s))"

definition record_step_result :: "string \<Rightarrow> step_result \<Rightarrow> bool \<Rightarrow> bool \<Rightarrow> faults \<Rightarrow> run_manifest store_op" where
  "record_step_result run_id res replace_succeeded append_only faults s =
     (if append_only \<and> replace_succeeded then (Inl (Value_error ''append''), s)
      else case checked_run_id run_id of
          Inl e \<Rightarrow> (Inl e, s)
        | Inr r \<Rightarrow> manifest_lock r faults (record_step_body r res replace_succeeded append_only faults) s)"

definition record_boot_attempt :: "string \<Rightarrow> boot_attempt \<Rightarrow> step_result \<Rightarrow> faults \<Rightarrow> run_manifest store_op" where
  "record_boot_attempt run_id att res faults s =
     (case checked_run_id run_id of
        Inl e \<Rightarrow> (Inl e, s)
      | Inr r \<Rightarrow> manifest_lock r faults (\<lambda>s1.
          case load_manifest r faults s1 of
            Inl e \<Rightarrow> (Inl e, s1)
          | Inr m \<Rightarrow>
              let u = with_step_result res True (with_boot_attempt att m) in
              (case write_manifest r u faults s1 of
                 (Inl e, s2) \<Rightarrow> (Inl e, s2) | (Inr _, s2) \<Rightarrow> (Inr u, s2))) s)"

text \<open>
  \<open>record_step_with_retry\<close>: only a lock held by another writer is retried; \<open>env\<close> is what
  other writers do to the store while the loop sleeps before each further attempt.
\<close>

fun retry_loop ::
    "string \<Rightarrow> step_result \<Rightarrow> bool \<Rightarrow> bool \<Rightarrow> faults \<Rightarrow> (nat \<Rightarrow> store \<Rightarrow> store) \<Rightarrow> nat \<Rightarrow> unit store_op" where
  "retry_loop run_id res app rep faults env 0 s = (Inr (), s)"
| "retry_loop run_id res app rep faults env (Suc left) s =
     (case record_step_result run_id res rep app faults s of
        (Inr _, s') \<Rightarrow> (Inr (), s')
      | (Inl e, s') \<Rightarrow>
          if e \<noteq> Manifest_locked ''manifest is locked'' \<or> left = 0 then (Inl e, s')
          else retry_loop run_id res app rep faults env left (env left s'))"

definition record_step_with_retry ::
    "string \<Rightarrow> step_result \<Rightarrow> bool \<Rightarrow> bool \<Rightarrow> faults \<Rightarrow> (nat \<Rightarrow> store \<Rightarrow> store) \<Rightarrow> nat \<Rightarrow> unit store_op" where
  "record_step_with_retry run_id res app rep faults env attempts = retry_loop run_id res app rep faults env attempts"

definition record_append_only_terminal_step ::
    "string \<Rightarrow> step_result \<Rightarrow> faults \<Rightarrow> (nat \<Rightarrow> store \<Rightarrow> store) \<Rightarrow> unit store_op" where
  "record_append_only_terminal_step run_id res faults env =
     record_step_with_retry run_id res True False faults env 5"

subsection \<open>Target locks\<close>

definition safe_lock_char :: "char \<Rightarrow> bool" where
  "safe_lock_char c \<longleftrightarrow> run_id_char c"

definition safe_lock_name :: "(string \<Rightarrow> string) \<Rightarrow> string \<Rightarrow> string" where
  "safe_lock_name sha256_hex value =
     (if value \<noteq> [] \<and> list_all safe_lock_char value then value else sha256_hex value)"

text \<open>\<open>target_lock\<close> in the private lock directory, whose resolution may fail.\<close>

definition target_lock ::
    "(string \<Rightarrow> string) \<Rightarrow> (string, unit) result \<Rightarrow> string \<Rightarrow> faults \<Rightarrow> 'a store_op \<Rightarrow> 'a store_op" where
  "target_lock sha256_hex lock_dir target_ref faults body s =
     (case lock_dir of
        Inl msg \<Rightarrow> (Inl (Lock_dir_failed msg), s)
      | Inr _ \<Rightarrow>
          let name = ''target-'' @ safe_lock_name sha256_hex target_ref @ ''.lock'' in
          if name \<in> set (target_locks s) then (Inl (Manifest_locked ''target domain is locked''), s)
          else if faults Open_lock then (Inl (Lock_failed name), s)
          else let taken = s\<lparr>target_locks := name # target_locks s\<rparr>;
                   (r, s') = (if faults Write_lock then (Inl Raw_os_error, taken) else body taken)
               in (r, s'\<lparr>target_locks := removeAll name (target_locks s')\<rparr>))"

end
