(* ===== verification/StoreProps.thy ===== *)
theory StoreProps
  imports Store
begin

text \<open>
  The properties of the manifest and the store: what one recording changes, what any
  history of calls keeps, and what a failing creation leaves behind.
\<close>

subsection \<open>Runs as a map\<close>

lemma run_at_put [simp]: "run_at k (put_run k' d s) = (if k = k' then Some d else run_at k s)"
  by (simp add: run_at_def put_run_def dict_set_lookup)

lemma run_at_drop [simp]: "run_at k (drop_run k' s) = (if k = k' then None else run_at k s)"
  by (simp add: run_at_def drop_run_def dict_pop_lookup)

lemma put_run_fields [simp]:
  "root_exists (put_run k d s) = root_exists s" "target_locks (put_run k d s) = target_locks s"
  by (simp_all add: put_run_def)

text \<open>What a manifest operation may change of a store: the manifest and temporary file of one run.\<close>

definition only_manifest :: "string \<Rightarrow> store \<Rightarrow> store \<Rightarrow> bool" where
  "only_manifest k s s' \<longleftrightarrow>
     root_exists s' = root_exists s \<and> target_locks s' = target_locks s \<and>
     (\<forall>j. j \<noteq> k \<longrightarrow> run_at j s' = run_at j s) \<and>
     (\<forall>d. run_at k s = Some d \<longrightarrow> (\<exists>mf t. run_at k s' = Some (d\<lparr>manifest_file := mf, temp_left := t\<rparr>))) \<and>
     (run_at k s = None \<longrightarrow> run_at k s' = None)"

lemma only_manifest_refl [simp]: "only_manifest k s s"
proof -
  have "\<exists>mf t. d = d\<lparr>manifest_file := mf, temp_left := t\<rparr>" for d :: run_dir
    by (intro exI [of _ "manifest_file d"] exI [of _ "temp_left d"]) simp
  then show ?thesis by (simp add: only_manifest_def)
qed

text \<open>The manifest file of a run, and what \<open>load_manifest\<close> reads of it.\<close>

definition manifest_of :: "string \<Rightarrow> store \<Rightarrow> run_manifest disk_file option" where
  "manifest_of k s = (case run_at k s of None \<Rightarrow> None | Some d \<Rightarrow> manifest_file d)"

lemma load_manifest_Inr:
  "load_manifest k f s = Inr m \<Longrightarrow> validate_run_id k = Inr k \<Longrightarrow> manifest_of k s = Some (Parsed m)"
  by (auto simp: load_manifest_def checked_run_id_def manifest_of_def split: option.splits if_splits disk_file.splits)

lemma checked_run_id_Inr: "checked_run_id k = Inr r \<longleftrightarrow> r = k \<and> validate_run_id k = Inr k"
  by (auto simp: checked_run_id_def validate_run_id_def split: if_splits)

lemma write_manifest_effect:
  assumes "write_manifest k m f s = (r, s')"
  shows "only_manifest k s s'" and "r = Inr u \<Longrightarrow> manifest_of k s' = Some (Parsed m)"
    and "r = Inl e \<Longrightarrow> manifest_of k s' = manifest_of k s"
proof -
  have keep: "only_manifest k s (put_run k (d\<lparr>temp_left := t\<rparr>) s)" if "run_at k s = Some d" for d t
  proof -
    have "\<exists>mf t'. d\<lparr>temp_left := t\<rparr> = d\<lparr>manifest_file := mf, temp_left := t'\<rparr>"
      by (intro exI [of _ "manifest_file d"] exI [of _ t]) simp
    with that show ?thesis by (auto simp: only_manifest_def)
  qed
  have new: "only_manifest k s (put_run k (d\<lparr>manifest_file := mf, temp_left := t\<rparr>) s)" if "run_at k s = Some d" for d mf t
    using that by (auto simp: only_manifest_def)
  show "only_manifest k s s'"
    using assms keep new by (auto simp: write_manifest_def split: option.splits if_splits)
  show "r = Inr u \<Longrightarrow> manifest_of k s' = Some (Parsed m)" "r = Inl e \<Longrightarrow> manifest_of k s' = manifest_of k s"
    using assms by (auto simp: write_manifest_def manifest_of_def split: option.splits if_splits)
qed

text \<open>A body that changes only a manifest, run under the manifest lock, does so overall.\<close>

lemma locked_effect:
  assumes run: "manifest_lock k f body s = (r, s')"
    and body: "\<And>t. only_manifest k t (snd (body t))"
  shows "only_manifest k s s'" and
    "(\<exists>e. r = Inl e \<and> manifest_of k s' = manifest_of k s) \<or>
     (\<exists>t t'. body t = (r, t') \<and> only_manifest k t t' \<and> manifest_of k t = manifest_of k s \<and> manifest_of k s' = manifest_of k t')"
proof -
  define name where "name = ''.manifest.lock''"
  have both: "only_manifest k s s' \<and> ((\<exists>e. r = Inl e \<and> manifest_of k s' = manifest_of k s) \<or>
     (\<exists>t t'. body t = (r, t') \<and> only_manifest k t t' \<and> manifest_of k t = manifest_of k s \<and> manifest_of k s' = manifest_of k t'))"
  proof (cases "\<exists>d. run_at k s = Some d \<and> name \<notin> set (run_locks d) \<and> \<not> f Open_lock")
    case False
    then have "s' = s \<and> (\<exists>e. r = Inl e)"
      using run by (auto simp: manifest_lock_def with_run_lock_def name_def split: option.splits if_splits)
    then show ?thesis by auto
  next
    case True
    then obtain d where d: "run_at k s = Some d" "name \<notin> set (run_locks d)" "\<not> f Open_lock" by blast
    define taken where "taken = put_run k (d\<lparr>run_locks := name # run_locks d\<rparr>) s"
    obtain r' t' where rt: "(if f Write_lock then (Inl Raw_os_error, taken) else body taken) = (r', t')"
      by (rule prod.exhaust)
    have om: "only_manifest k taken t'"
      using rt body [of taken] by (auto split: if_splits)
    obtain mf tl where t': "run_at k t' = Some (d\<lparr>run_locks := name # run_locks d, manifest_file := mf, temp_left := tl\<rparr>)"
      using om by (auto simp: only_manifest_def taken_def)
    have res: "r = r'" "s' = put_run k (d\<lparr>manifest_file := mf, temp_left := tl\<rparr>) t'"
      using run d rt [unfolded taken_def name_def] t' by (simp_all add: manifest_lock_def with_run_lock_def name_def taken_def Let_def)
    have mt: "manifest_of k taken = manifest_of k s" "manifest_of k s' = manifest_of k t'"
      using d t' by (simp_all add: manifest_of_def taken_def res)
    have "only_manifest k s s'"
      using om d by (auto simp: only_manifest_def res taken_def)
    moreover have "(\<exists>e. r = Inl e \<and> manifest_of k s' = manifest_of k s) \<or>
     (\<exists>t t'. body t = (r, t') \<and> only_manifest k t t' \<and> manifest_of k t = manifest_of k s \<and> manifest_of k s' = manifest_of k t')"
    proof (cases "f Write_lock")
      case True
      with rt mt res show ?thesis by auto
    next
      case False
      with rt om mt res show ?thesis by auto
    qed
    ultimately show ?thesis by blast
  qed
  then show "only_manifest k s s'" and
    "(\<exists>e. r = Inl e \<and> manifest_of k s' = manifest_of k s) \<or>
     (\<exists>t t'. body t = (r, t') \<and> only_manifest k t t' \<and> manifest_of k t = manifest_of k s \<and> manifest_of k s' = manifest_of k t')"
    by blast+
qed

lemma record_step_body_effect:
  assumes "record_step_body k res rep app f t = (r, t')"
  shows "only_manifest k t t'"
    and "r = Inl e \<Longrightarrow> manifest_of k t' = manifest_of k t"
    and "r = Inr u \<Longrightarrow> validate_run_id k = Inr k \<Longrightarrow>
      manifest_of k t' = Some (Parsed u) \<and>
      (\<exists>m. manifest_of k t = Some (Parsed m) \<and> updated_manifest res rep app m = Inr u)"
  using assms
  by (auto simp: record_step_body_def split: sum.splits prod.splits if_splits
      dest: write_manifest_effect load_manifest_Inr)

lemma recording_effect:
  assumes "record_step_result k res rep app f s = (r, s')"
  shows "only_manifest k s s' \<and>
    (\<forall>e. r = Inl e \<longrightarrow> manifest_of k s' = manifest_of k s) \<and>
    (\<forall>u. r = Inr u \<longrightarrow> manifest_of k s' = Some (Parsed u) \<and>
      (\<exists>m. manifest_of k s = Some (Parsed m) \<and> updated_manifest res rep app m = Inr u))"
proof (cases "(app \<and> rep) \<or> validate_run_id k \<noteq> Inr k")
  case True
  then have "s' = s \<and> (\<exists>e. r = Inl e)"
    using assms by (auto simp: record_step_result_def checked_run_id_Inr split: sum.splits if_splits)
  then show ?thesis by auto
next
  case False
  let ?body = "record_step_body k res rep app f"
  have v: "validate_run_id k = Inr k" using False by blast
  then have chk: "checked_run_id k = Inr k" by (simp add: checked_run_id_Inr)
  have run: "manifest_lock k f ?body s = (r, s')"
    using assms False unfolding record_step_result_def chk sum.case by auto
  have keep: "only_manifest k t (snd (?body t))" for t
    by (rule record_step_body_effect(1) [OF surjective_pairing])
  have raised: "manifest_of k s' = manifest_of k s" if "r = Inl e" for e
    using locked_effect(2) [OF run keep] record_step_body_effect(2) that by metis
  have returned: "manifest_of k s' = Some (Parsed u) \<and>
      (\<exists>m. manifest_of k s = Some (Parsed m) \<and> updated_manifest res rep app m = Inr u)" if "r = Inr u" for u
    using locked_effect(2) [OF run keep] record_step_body_effect(3) [OF _ _ v] that by (metis sum.distinct(1))
  from locked_effect(1) [OF run keep] raised returned show ?thesis by blast
qed


subsection \<open>Histories\<close>

datatype store_call =
    Create int string run_request "build_profile option" "target_profile option" "rootfs_profile option" faults
  | Record string step_result bool bool faults
  | Boot string boot_attempt step_result faults

fun run_call :: "store_call \<Rightarrow> store \<Rightarrow> store" where
  "run_call (Create now fresh req bp tp rp f) s = snd (create_run now fresh req bp tp rp f s)"
| "run_call (Record k res rep app f) s = snd (record_step_result k res rep app f s)"
| "run_call (Boot k att res f) s = snd (record_boot_attempt k att res f s)"

text \<open>The calls that may overwrite the succeeded result of a step.\<close>

fun overwrites :: "string \<Rightarrow> string \<Rightarrow> store_call \<Rightarrow> bool" where
  "overwrites k n (Create now fresh req bp tp rp f) = False"
| "overwrites k n (Record j res rep app f) = (j = k \<and> rep \<and> sr_step_name res = n)"
| "overwrites k n (Boot j att res f) = (j = k \<and> sr_step_name res = n)"

definition manifest_grows :: "(string \<Rightarrow> bool) \<Rightarrow> run_manifest \<Rightarrow> run_manifest \<Rightarrow> bool" where
  "manifest_grows may_change m m' \<longleftrightarrow>
     dom (map_of (step_results m)) \<subseteq> dom (map_of (step_results m')) \<and>
     (\<exists>more. boot_attempts m' = boot_attempts m @ more) \<and>
     (\<forall>n x. map_of (step_results m) n = Some x \<and> sr_status x = SUCCEEDED \<and> \<not> may_change n \<longrightarrow>
        map_of (step_results m') n = Some x)"

lemma manifest_grows_refl [simp]: "manifest_grows P m m"
  by (simp add: manifest_grows_def)

lemma manifest_grows_trans:
  assumes "manifest_grows P m m1" "manifest_grows Q m1 m2"
  shows "manifest_grows (\<lambda>n. P n \<or> Q n) m m2"
proof -
  have "\<exists>more. boot_attempts m2 = boot_attempts m @ more"
    using assms by (auto simp: manifest_grows_def)
  with assms show ?thesis unfolding manifest_grows_def by blast
qed

lemma with_step_result_grows:
  "manifest_grows (\<lambda>n. rep \<and> sr_step_name res = n) m (with_step_result res rep m)"
  by (auto simp: manifest_grows_def with_step_result_def Let_def dict_set_lookup split: option.splits)

lemma updated_manifest_grows:
  "updated_manifest res rep app m = Inr u \<Longrightarrow> manifest_grows (\<lambda>n. rep \<and> sr_step_name res = n) m u"
  using with_step_result_grows [of rep res m]
  by (auto simp: updated_manifest_def append_step_result_def manifest_grows_def dict_set_lookup
      split: if_splits sum.splits)

lemma create_run_keeps:
  assumes "run_at k s \<noteq> None"
  shows "run_at k (snd (create_run now fresh req bp tp rp f s)) = run_at k s"
  using assms
  by (auto simp: create_run_def write_manifest_def Let_def split: sum.splits option.splits store_error.splits prod.splits if_splits)

lemma boot_attempt_effect:
  assumes "record_boot_attempt k att res f s = (r, s')" "manifest_of k s = Some (Parsed m)"
  shows "\<exists>m'. manifest_of k s' = Some (Parsed m') \<and> manifest_grows (\<lambda>n. sr_step_name res = n) m m'"
proof (cases "validate_run_id k = Inr k")
  case False
  then have "s' = s" using assms by (auto simp: record_boot_attempt_def checked_run_id_Inr split: sum.splits)
  with assms show ?thesis by auto
next
  case True
  then have chk: "checked_run_id k = Inr k" by (simp add: checked_run_id_Inr)
  define body where "body = (\<lambda>s1. case load_manifest k f s1 of
      Inl e \<Rightarrow> (Inl e, s1)
    | Inr m \<Rightarrow> let u = with_step_result res True (with_boot_attempt att m) in
        (case write_manifest k u f s1 of (Inl e, s2) \<Rightarrow> (Inl e, s2) | (Inr _, s2) \<Rightarrow> (Inr u, s2)))"
  have run: "manifest_lock k f body s = (r, s')"
    using assms(1) chk unfolding record_boot_attempt_def body_def by simp
  have keep: "only_manifest k t (snd (body t))" for t
    by (auto simp: body_def Let_def split: sum.splits prod.splits dest: write_manifest_effect(1))
  have grow: "manifest_grows (\<lambda>n. sr_step_name res = n) m1 (with_step_result res True (with_boot_attempt att m1))" for m1
  proof -
    have "manifest_grows (\<lambda>n. False) m1 (with_boot_attempt att m1)"
      by (simp add: manifest_grows_def with_boot_attempt_def)
    from manifest_grows_trans [OF this with_step_result_grows [of True res]] show ?thesis by simp
  qed
  have eff: "\<exists>m'. manifest_of k t' = Some (Parsed m') \<and> manifest_grows (\<lambda>n. sr_step_name res = n) m m'"
    if b: "body t = (r', t')" and t: "manifest_of k t = Some (Parsed m)" for t r' t'
  proof (cases "load_manifest k f t")
    case (Inl e)
    with b t show ?thesis by (auto simp: body_def)
  next
    case (Inr m1)
    then have "m1 = m" using load_manifest_Inr [OF Inr True] t by simp
    with Inr b t grow [of m] show ?thesis
      by (auto simp: body_def Let_def split: sum.splits prod.splits dest: write_manifest_effect)
  qed
  from locked_effect(2) [OF run keep] show ?thesis
  proof (elim disjE exE conjE)
    fix t t' assume "body t = (r, t')" "manifest_of k t = manifest_of k s" "manifest_of k s' = manifest_of k t'"
    with eff assms(2) show ?thesis by metis
  qed (use assms(2) in auto)
qed

lemma recording_grows:
  assumes "record_step_result k res rep app f s = (r, s')" "manifest_of k s = Some (Parsed m)"
  shows "\<exists>m'. manifest_of k s' = Some (Parsed m') \<and> manifest_grows (\<lambda>n. rep \<and> sr_step_name res = n) m m'"
proof (cases "validate_run_id k = Inr k \<and> \<not> (app \<and> rep)")
  case False
  then have "s' = s"
    using assms by (auto simp: record_step_result_def checked_run_id_Inr split: sum.splits if_splits)
  with assms show ?thesis by auto
next
  case True
  then have v: "validate_run_id k = Inr k" and chk: "checked_run_id k = Inr k"
    by (simp_all add: checked_run_id_Inr)
  have run: "manifest_lock k f (record_step_body k res rep app f) s = (r, s')"
    using assms True unfolding record_step_result_def chk sum.case by auto
  have keep: "only_manifest k t (snd (record_step_body k res rep app f t))" for t
    by (rule record_step_body_effect(1) [OF surjective_pairing])
  have "(\<exists>e. r = Inl e) \<and> manifest_of k s' = Some (Parsed m) \<or>
     (\<exists>u. manifest_of k s' = Some (Parsed u) \<and> updated_manifest res rep app m = Inr u)"
  proof (cases r)
    case (Inl e)
    then show ?thesis
      using locked_effect(2) [OF run keep] record_step_body_effect(2) assms(2) by metis
  next
    case (Inr u)
    then obtain t t' where t: "record_step_body k res rep app f t = (Inr u, t')" "manifest_of k t = manifest_of k s"
      "manifest_of k s' = manifest_of k t'"
      using locked_effect(2) [OF run keep] by auto
    with record_step_body_effect(3) [OF t(1) refl v] assms(2) show ?thesis by auto
  qed
  then show ?thesis using updated_manifest_grows by fastforce
qed

lemma only_manifest_other: "only_manifest j s s' \<Longrightarrow> k \<noteq> j \<Longrightarrow> manifest_of k s' = manifest_of k s"
  by (simp add: only_manifest_def manifest_of_def)

lemma boot_attempt_other:
  assumes "record_boot_attempt j att res f s = (r, s')" "k \<noteq> j"
  shows "manifest_of k s' = manifest_of k s"
proof (cases "checked_run_id j")
  case (Inl e)
  with assms show ?thesis by (simp add: record_boot_attempt_def)
next
  case (Inr i)
  then have i: "i = j" by (simp add: checked_run_id_Inr)
  define body where "body = (\<lambda>s1. case load_manifest j f s1 of
      Inl e \<Rightarrow> (Inl e, s1)
    | Inr m \<Rightarrow> let u = with_step_result res True (with_boot_attempt att m) in
        (case write_manifest j u f s1 of (Inl e, s2) \<Rightarrow> (Inl e, s2) | (Inr _, s2) \<Rightarrow> (Inr u, s2)))"
  have run: "manifest_lock j f body s = (r, s')"
    using assms(1) Inr i unfolding record_boot_attempt_def body_def by simp
  have "only_manifest j t (snd (body t))" for t
    by (auto simp: body_def Let_def split: sum.splits prod.splits dest: write_manifest_effect(1))
  from locked_effect(1) [OF run this] assms(2) show ?thesis by (rule only_manifest_other)
qed

lemma call_grows:
  assumes "manifest_of k s = Some (Parsed m)"
  shows "\<exists>m'. manifest_of k (run_call c s) = Some (Parsed m') \<and> manifest_grows (\<lambda>n. overwrites k n c) m m'"
proof (cases c)
  case (Create now fresh req bp tp rp f)
  have "run_at k s \<noteq> None" using assms by (auto simp: manifest_of_def split: option.splits)
  from create_run_keeps [OF this] assms Create show ?thesis by (auto simp: manifest_of_def)
next
  case (Record j res rep app f)
  obtain r s' where rec: "record_step_result j res rep app f s = (r, s')" by (rule prod.exhaust)
  show ?thesis
  proof (cases "j = k")
    case True
    with recording_grows [OF rec] assms Record rec show ?thesis by simp
  next
    case False
    then have "manifest_of k s' = manifest_of k s"
      using recording_effect [OF rec] by (intro only_manifest_other) auto
    with assms Record rec show ?thesis by auto
  qed
next
  case (Boot j att res f)
  obtain r s' where rec: "record_boot_attempt j att res f s = (r, s')" by (rule prod.exhaust)
  show ?thesis
  proof (cases "j = k")
    case True
    with boot_attempt_effect [of k att res f s] rec assms Boot show ?thesis by simp
  next
    case False
    with boot_attempt_other [OF rec] assms Boot rec show ?thesis by auto
  qed
qed

lemma manifest_grows_weaken: "manifest_grows P m m' \<Longrightarrow> (\<And>n. P n \<Longrightarrow> Q n) \<Longrightarrow> manifest_grows Q m m'"
  by (auto simp: manifest_grows_def)

text \<open>C22: the manifest of a run only grows. From a readable manifest, whatever calls of the
  store follow - on this run or others, by any client, with any failing system call - the
  manifest stays readable, no recorded step disappears, the boot attempts keep their order
  and only gain new ones at the end, and a succeeded step keeps its result unless a call
  that was told to replace succeeded results, or a boot attempt, names that very step.\<close>

theorem manifest_history_only_grows:
  assumes "manifest_of k s = Some (Parsed m)"
  shows "\<exists>m'. manifest_of k (fold run_call calls s) = Some (Parsed m') \<and>
    dom (map_of (step_results m)) \<subseteq> dom (map_of (step_results m')) \<and>
    (\<exists>more. boot_attempts m' = boot_attempts m @ more) \<and>
    (\<forall>n x. map_of (step_results m) n = Some x \<and> sr_status x = SUCCEEDED \<and> (\<forall>c \<in> set calls. \<not> overwrites k n c)
      \<longrightarrow> map_of (step_results m') n = Some x)"
proof -
  have "\<exists>m'. manifest_of k (fold run_call calls s) = Some (Parsed m') \<and>
      manifest_grows (\<lambda>n. \<exists>c \<in> set calls. overwrites k n c) m m'"
    using assms
  proof (induction calls arbitrary: s m)
    case (Cons c calls)
    obtain m1 where m1: "manifest_of k (run_call c s) = Some (Parsed m1)" "manifest_grows (\<lambda>n. overwrites k n c) m m1"
      using call_grows [OF Cons.prems] by blast
    obtain m' where "manifest_of k (fold run_call calls (run_call c s)) = Some (Parsed m')"
      "manifest_grows (\<lambda>n. \<exists>c \<in> set calls. overwrites k n c) m1 m'"
      using Cons.IH [OF m1(1)] by blast
    with manifest_grows_trans [OF m1(2)] show ?case
      by (auto intro: manifest_grows_weaken)
  qed simp
  then show ?thesis unfolding manifest_grows_def by blast
qed

subsection \<open>A run\<close>

definition ex_run_request :: run_request where
  "ex_run_request = \<lparr>source_path = ''/src'', rq_build_profile = ''b'', rq_target_profile = ''t'',
     rq_rootfs_profile = ''f'', rq_debug_profile = None, rq_test_suite = None, rq_run_id = Some ''r1'',
     rq_build_overrides = None, rq_boot_overrides = None\<rparr>"

definition ex_empty_store :: store where
  "ex_empty_store = \<lparr>root_exists = True, runs = [], target_locks = []\<rparr>"

definition ex_step :: "step_status \<Rightarrow> string \<Rightarrow> step_result" where
  "ex_step st summary = \<lparr>sr_step_name = ''build'', sr_status = st, sr_summary = summary,
     sr_artifacts = [], sr_details = []\<rparr>"

abbreviation no_faults :: faults where
  "no_faults \<equiv> \<lambda>_. False"

definition ex_manifest :: run_manifest where
  "ex_manifest = create_manifest 0 ''r1'' ex_run_request None None None"

definition ex_run :: run_dir where
  "ex_run = \<lparr>subdirs = artifact_subdirs, sensitive_private = True, manifest_file = Some (Parsed ex_manifest),
     temp_left = False, run_locks = []\<rparr>"

definition ex_store :: store where
  "ex_store = \<lparr>root_exists = True, runs = [(''r1'', ex_run)], target_locks = []\<rparr>"

lemma ex_run_id: "validate_run_id ''r1'' = Inr ''r1''"
  by code_simp

lemmas ex_store_defs = ex_store_def ex_run_def ex_empty_store_def run_at_def put_run_def drop_run_def
  checked_run_id_def ex_run_id write_manifest_def

lemma ex_created:
  "create_run 0 ''x'' ex_run_request None None None no_faults ex_empty_store = (Inr ex_manifest, ex_store)"
  by (simp add: create_run_def ex_store_defs ex_run_request_def sub_fault_def ex_manifest_def Let_def)

text \<open>Recording a step, and recording over a succeeded one.\<close>

definition ex_built :: run_manifest where
  "ex_built = with_step_result (ex_step SUCCEEDED ''ok'') False ex_manifest"

lemma ex_recorded:
  "record_step_result ''r1'' (ex_step SUCCEEDED ''ok'') False False no_faults ex_store =
     (Inr ex_built, ex_store\<lparr>runs := [(''r1'', ex_run\<lparr>manifest_file := Some (Parsed ex_built)\<rparr>)]\<rparr>)"
proof -
  have "ex_built \<noteq> ex_manifest" by code_simp
  then show ?thesis
    by (simp add: record_step_result_def ex_store_defs manifest_lock_def with_run_lock_def record_step_body_def
        load_manifest_def updated_manifest_def ex_built_def)
qed


lemma manifest_history_only_grows_witness:
  "\<exists>m'. manifest_of ''r1'' (fold run_call [Record ''r1'' (ex_step FAILED ''again'') False False no_faults] (snd
      (record_step_result ''r1'' (ex_step SUCCEEDED ''ok'') False False no_faults ex_store))) = Some (Parsed m') \<and>
    map_of (step_results m') ''build'' = Some (ex_step SUCCEEDED ''ok'')"
proof -
  let ?s = "snd (record_step_result ''r1'' (ex_step SUCCEEDED ''ok'') False False no_faults ex_store)"
  have m: "manifest_of ''r1'' ?s = Some (Parsed ex_built)"
    by (simp add: ex_recorded manifest_of_def run_at_def)
  have "map_of (step_results ex_built) ''build'' = Some (ex_step SUCCEEDED ''ok'')"
    "sr_status (ex_step SUCCEEDED ''ok'') = SUCCEEDED"
    by (simp_all add: ex_built_def with_step_result_def ex_manifest_def create_manifest_def ex_step_def)
  with manifest_history_only_grows [OF m, of "[Record ''r1'' (ex_step FAILED ''again'') False False no_faults]"]
  show ?thesis by auto
qed

text \<open>a creation that fails late keeps its name. When the directories of a new run can be
  made but its manifest cannot be written, \<open>create_run\<close> raises the manifest error - which is
  not an \<open>OSError\<close>, so the clean-up does not run - and leaves the directory without a
  manifest: every later creation of that run is refused as existing, and every recording
  fails, whereas a failing \<open>mkdir\<close> or \<open>chmod\<close> leaves the run absent.\<close>

theorem failed_creation_keeps_directory:
  assumes "validate_run_id k = Inr k" "rq_run_id req = Some k" "run_at k s = None" "root_exists s"
    and "\<not> f Mkdir_run" "\<not> f Mkdir_run_raced"
  shows "(\<not> sub_fault f \<and> (f Write_temp \<or> f Replace_manifest) \<and> \<not> f Unlink_temp \<longrightarrow>
      (\<exists>s' d. create_run now fresh req bp tp rp f s = (Inl (Manifest_write_failed k), s') \<and>
        run_at k s' = Some d \<and> manifest_file d = None \<and>
        (\<forall>now' fresh' g. fst (create_run now' fresh' req bp tp rp g s') = Inl (Run_exists k)) \<and>
        (\<forall>res rep app g. \<exists>e. fst (record_step_result k res rep app g s') = Inl e)))
    \<and> (sub_fault f \<longrightarrow> create_run now fresh req bp tp rp f s = (Inl (Run_create_failed k), drop_run k s))"
proof (intro conjI impI)
  have k: "k \<noteq> []" using assms(1) by (auto simp: validate_run_id_def re_match_def re_at_None run_id_pattern_def match_cls_def)
  have chk: "checked_run_id k = Inr k" using assms(1) by (simp add: checked_run_id_Inr)
  show "create_run now fresh req bp tp rp f s = (Inl (Run_create_failed k), drop_run k s)" if "sub_fault f"
    using that assms(2-6) k chk unfolding create_run_def by simp
  assume fs: "\<not> sub_fault f \<and> (f Write_temp \<or> f Replace_manifest) \<and> \<not> f Unlink_temp"
  define d where "d = \<lparr>subdirs = artifact_subdirs, sensitive_private = True, manifest_file = None,
    temp_left = False, run_locks = []\<rparr>"
  define s' where "s' = put_run k d (put_run k d s)"
  have made: "create_run now fresh req bp tp rp f s = (Inl (Manifest_write_failed k), s')"
    using fs assms(2-6) k chk unfolding create_run_def s'_def d_def
    by (simp add: write_manifest_def Let_def)
  have at: "run_at k s' = Some d" by (simp add: s'_def)
  have again: "fst (create_run now' fresh' req bp tp rp g s') = Inl (Run_exists k)" for now' fresh' g
    using assms(2) k chk at unfolding create_run_def by simp
  have "\<exists>e. fst (record_step_result k res rep app g s') = Inl e" for res rep app g
  proof -
    obtain r s2 where rec: "record_step_result k res rep app g s' = (r, s2)" by (rule prod.exhaust)
    have "manifest_of k s' = None" by (simp add: manifest_of_def at d_def)
    with recording_effect [OF rec] rec show ?thesis by (cases r) auto
  qed
  with made at again show "\<exists>s' d. create_run now fresh req bp tp rp f s = (Inl (Manifest_write_failed k), s') \<and>
        run_at k s' = Some d \<and> manifest_file d = None \<and>
        (\<forall>now' fresh' g. fst (create_run now' fresh' req bp tp rp g s') = Inl (Run_exists k)) \<and>
        (\<forall>res rep app g. \<exists>e. fst (record_step_result k res rep app g s') = Inl e)"
    by (intro exI [of _ s'] exI [of _ d]) (simp add: d_def)
qed

lemma failed_creation_keeps_directory_witness:
  "\<exists>s' d. create_run 0 ''x'' ex_run_request None None None (\<lambda>c. c = Write_temp) ex_empty_store
      = (Inl (Manifest_write_failed ''r1''), s') \<and> run_at ''r1'' s' = Some d"
proof -
  have "\<not> sub_fault (\<lambda>c. c = Write_temp)" by (simp add: sub_fault_def)
  then show ?thesis
    using failed_creation_keeps_directory [of "''r1''" ex_run_request ex_empty_store "\<lambda>c. c = Write_temp" 0 "''x''" None None None]
    by (auto simp: ex_run_id ex_run_request_def ex_empty_store_def run_at_def)
qed

end
