(* ===== verification/Redaction.thy ===== *)
theory Redaction
  imports PyRegex TransportState Secrets
begin

text \<open>
  Models \<open>src/kdive/safety/redaction.py\<close>, the masking of secret values and of
  \<open>key=value\<close> texts in everything that is returned, stored or logged, and
  \<open>artifacts/redaction.py\<close>. The registry's snapshot is a frozen set, whose iteration order
  is arbitrary: an enumeration of it is an argument. Values are the \<open>raw\<close> data of
  \<open>TransportState\<close>; a record of the logging module is its rendered texts. Case-insensitive
  matching, \<open>\s\<close> and \<open>\b\<close> are read on ASCII.
\<close>

definition redaction_text :: string where
  "redaction_text = ''[REDACTED]''"

subsection \<open>The patterns\<close>

definition name_char :: "char \<Rightarrow> bool" where
  "name_char c \<longleftrightarrow> letter_or_digit c \<or> c = CHR ''_'' \<or> c = CHR ''-''"

text \<open>A literal under \<open>(?i)\<close>, given in lower case.\<close>

primrec ci_lit :: "string \<Rightarrow> char rx" where
  "ci_lit [] = RAssert (\<lambda>b a. True)"
| "ci_lit (c # cs) = RSeq (RCls (\<lambda>x. lower_char x = c)) (ci_lit cs)"

definition secret_word :: "char rx" where
  "secret_word =
     RAlt (ci_lit ''password'') (RAlt (ci_lit ''passwd'') (RAlt (ci_lit ''token'')
       (RAlt (RSeq (ci_lit ''api'') (RSeq (rx_opt (RCls (\<lambda>c. c = CHR ''_'' \<or> c = CHR ''-''))) (ci_lit ''key'')))
         (ci_lit ''secret''))))"

definition secret_name :: "char rx" where
  "secret_name = RSeq (RStar (RCls name_char)) (RSeq secret_word (RStar (RCls name_char)))"

definition separator :: "char rx" where
  "separator = RSeq (RStar (RCls py_space)) (RSeq (RCls (\<lambda>c. c = CHR ''='' \<or> c = CHR '':'')) (RStar (RCls py_space)))"

definition word_boundary :: "string \<Rightarrow> string \<Rightarrow> bool" where
  "word_boundary b a \<longleftrightarrow> (b \<noteq> [] \<and> word_char (hd b)) \<noteq> (a \<noteq> [] \<and> word_char (hd a))"

definition key_value_pattern :: "char rx" where
  "key_value_pattern = RSeq (RAssert word_boundary)
     (RSeq (RCap 1 secret_name) (RSeq (RCap 2 separator) (RCap 3 (rx_plus (RCls (\<lambda>c. \<not> py_space c))))))"

subsection \<open>\<open>Redactor\<close>\<close>

record redactor =
  secret_values :: "string list"

definition make_redactor :: "string list \<Rightarrow> string list option \<Rightarrow> redactor" where
  "make_redactor process_snapshot given =
     (let merged = process_snapshot @ (case given of None \<Rightarrow> [] | Some vs \<Rightarrow> vs)
      in \<lparr>secret_values = filter (\<lambda>v. v \<noteq> []) merged\<rparr>)"

fun replace_values :: "string list \<Rightarrow> string \<Rightarrow> string" where
  "replace_values [] t = t"
| "replace_values (v # vs) t = replace_values vs (replace_all v redaction_text t)"

definition mask_match :: "char rx_state \<Rightarrow> string" where
  "mask_match m = group_of 1 m @ group_of 2 m @ redaction_text"

definition redact_text :: "redactor \<Rightarrow> string \<Rightarrow> string" where
  "redact_text rd text = re_sub key_value_pattern mask_match [] (replace_values (secret_values rd) text)"

text \<open>\<open>str(key)\<close>: the text of a key.\<close>

fun key_text :: "raw_key \<Rightarrow> string" where
  "key_text (KStr k) = k"
| "key_text (KOther t) = t"

definition secret_key :: "raw_key \<Rightarrow> bool" where
  "secret_key k \<longleftrightarrow> re_search secret_word (key_text k) \<noteq> None"

definition marked_sensitive :: "(raw_key \<times> raw) list \<Rightarrow> bool" where
  "marked_sensitive items \<longleftrightarrow> map_of items (KStr ''sensitive'') = Some (RawBool True)"

fun redact_value :: "redactor \<Rightarrow> raw \<Rightarrow> raw"
  and redact_items :: "redactor \<Rightarrow> bool \<Rightarrow> (raw_key \<times> raw) list \<Rightarrow> (raw_key \<times> raw) list"
  and redact_seq :: "redactor \<Rightarrow> raw list \<Rightarrow> raw list" where
  "redact_value rd (RawStr s) = RawStr (redact_text rd s)"
| "redact_value rd (RawMap items) = RawMap (redact_items rd (marked_sensitive items) items)"
| "redact_value rd (RawList xs) = RawList (redact_seq rd xs)"
| "redact_value rd (RawTuple xs) = RawTuple (redact_seq rd xs)"
| "redact_value rd RawNone = RawNone"
| "redact_value rd (RawBool b) = RawBool b"
| "redact_value rd (RawInt i) = RawInt i"
| "redact_value rd (RawFloat m e) = RawFloat m e"
| "redact_value rd RawNonFinite = RawNonFinite"
| "redact_value rd (RawOther t) = RawOther t"
| "redact_items rd sensitive [] = []"
| "redact_items rd sensitive ((k, v) # items) =
     (k, if sensitive \<and> k = KStr ''path'' \<or> secret_key k then RawStr redaction_text else redact_value rd v)
       # redact_items rd sensitive items"
| "redact_seq rd [] = []"
| "redact_seq rd (x # xs) = redact_value rd x # redact_seq rd xs"

definition redact_mapping :: "redactor \<Rightarrow> (raw_key \<times> raw) list \<Rightarrow> raw" where
  "redact_mapping rd items = redact_value rd (RawMap items)"

subsection \<open>\<open>redacted_artifacts\<close>\<close>

definition dump_artifact :: "artifact_ref \<Rightarrow> raw" where
  "dump_artifact a = RawMap [(KStr ''path'', RawStr (ar_path a)), (KStr ''kind'', RawStr (ar_kind a)),
     (KStr ''sensitive'', RawBool (ar_sensitive a)),
     (KStr ''description'', case ar_description a of None \<Rightarrow> RawNone | Some d \<Rightarrow> RawStr d)]"

text \<open>\<open>ArtifactRef.model_validate\<close> on a mapping with the four fields.\<close>

fun artifact_of :: "raw \<Rightarrow> artifact_ref option" where
  "artifact_of (RawMap items) =
     (case (map_of items (KStr ''path''), map_of items (KStr ''kind''), map_of items (KStr ''sensitive''),
            map_of items (KStr ''description'')) of
        (Some (RawStr p), Some (RawStr k), Some (RawBool s), Some RawNone) \<Rightarrow>
          Some \<lparr>ar_path = p, ar_kind = k, ar_sensitive = s, ar_description = None\<rparr>
      | (Some (RawStr p), Some (RawStr k), Some (RawBool s), Some (RawStr d)) \<Rightarrow>
          Some \<lparr>ar_path = p, ar_kind = k, ar_sensitive = s, ar_description = Some d\<rparr>
      | _ \<Rightarrow> None)"
| "artifact_of _ = None"

definition redacted_artifacts :: "artifact_ref list \<Rightarrow> redactor \<Rightarrow> artifact_ref option list" where
  "redacted_artifacts artifacts rd = map (\<lambda>a. artifact_of (redact_value rd (dump_artifact a))) artifacts"

subsection \<open>\<open>SecretRedactionFilter\<close>\<close>

text \<open>
  What the filter reads of a log record: the rendering of the message, which raises on bad
  formatting and then falls back on a text of the raw message and arguments; the formatted
  traceback of a pending exception; the texts stored already.
\<close>

record log_record =
  lr_rendered :: "string option"
  lr_fallback :: string
  lr_exc_info :: "string option"
  lr_exc_text :: "string option"
  lr_stack_info :: "string option"

record log_output =
  lo_msg :: string
  lo_exc_text :: "string option"
  lo_stack_info :: "string option"

record redaction_filter =
  cached_version :: int
  cached_redactor :: redactor

definition new_filter :: "string list \<Rightarrow> redaction_filter" where
  "new_filter process_snapshot = \<lparr>cached_version = -1, cached_redactor = make_redactor process_snapshot None\<rparr>"

definition current_redactor ::
  "string list \<Rightarrow> (string set \<Rightarrow> string list) \<Rightarrow> secret_registry \<Rightarrow> redaction_filter \<Rightarrow> redactor \<times> redaction_filter" where
  "current_redactor process_snapshot enum r f =
     (if int (sr_version r) \<noteq> cached_version f
      then let rd = make_redactor process_snapshot (Some (enum (snapshot r)))
           in (rd, f\<lparr>cached_redactor := rd, cached_version := int (sr_version r)\<rparr>)
      else (cached_redactor f, f))"

text \<open>An absent or empty text is left as it is.\<close>

definition redact_present :: "redactor \<Rightarrow> string option \<Rightarrow> string option" where
  "redact_present rd t = (case t of None \<Rightarrow> None | Some s \<Rightarrow> if s = [] then Some s else Some (redact_text rd s))"

definition filter_record ::
  "string list \<Rightarrow> (string set \<Rightarrow> string list) \<Rightarrow> secret_registry \<Rightarrow> log_record \<Rightarrow> redaction_filter
     \<Rightarrow> log_output \<times> redaction_filter" where
  "filter_record process_snapshot enum r rec f =
     (let (rd, f') = current_redactor process_snapshot enum r f;
          message = (case lr_rendered rec of Some m \<Rightarrow> m | None \<Rightarrow> lr_fallback rec);
          exc_text = (case lr_exc_info rec of Some t \<Rightarrow> Some t | None \<Rightarrow> lr_exc_text rec)
      in (\<lparr>lo_msg = redact_text rd message, lo_exc_text = redact_present rd exc_text,
           lo_stack_info = redact_present rd (lr_stack_info rec)\<rparr>, f'))"

subsection \<open>Masking a text\<close>

text \<open>\<open>masks s t\<close>: \<open>t\<close> is \<open>s\<close> with some disjoint pieces replaced by the mark.\<close>

inductive masks :: "string \<Rightarrow> string \<Rightarrow> bool" where
  masks_Nil: "masks [] []"
| masks_keep: "masks s t \<Longrightarrow> masks (c # s) (c # t)"
| masks_hide: "masks s t \<Longrightarrow> masks (u @ s) (redaction_text @ t)"

lemma masks_refl: "masks s s"
  by (induction s) (auto intro: masks.intros)

lemma masks_keep_list: "masks s t \<Longrightarrow> masks (u @ s) (u @ t)"
  by (induction u) (auto intro: masks.intros)

text \<open>
  The values for which masking can be complete: a value with a bracket can be put together
  across a mark, and one inside the mark itself is written by it.
\<close>

definition maskable :: "string \<Rightarrow> bool" where
  "maskable v \<longleftrightarrow> v \<noteq> [] \<and> CHR ''['' \<notin> set v \<and> CHR '']'' \<notin> set v \<and> \<not> contains_sub v ''REDACTED''"

lemma masks_prefix:
  assumes "masks s t" and "CHR ''['' \<notin> set v" and "starts_with v t"
  shows "starts_with v s"
  using assms
proof (induction arbitrary: v rule: masks.induct)
  case (masks_keep s t c)
  then show ?case by (cases v) auto
next
  case (masks_hide s t u)
  then have "v = []"
    by (cases v) (auto simp: redaction_text_def)
  then show ?case by simp
qed simp

lemma append_eq_long:
  assumes "xs @ ys = zs @ ws" and "length zs \<le> length xs"
  shows "\<exists>us. xs = zs @ us \<and> ws = us @ ys"
  using assms by (auto simp: append_eq_append_conv2)

lemma not_across_mark:
  assumes "maskable v" and "contains_sub v (redaction_text @ t)"
  shows "contains_sub v t"
proof -
  from assms(2) obtain a b where ab: "redaction_text @ t = a @ v @ b"
    unfolding contains_sub_iff by blast
  have v: "v \<noteq> []" "CHR ''['' \<notin> set v" "CHR '']'' \<notin> set v" "\<not> contains_sub v ''REDACTED''"
    using assms(1) by (auto simp: maskable_def)
  have mark: "redaction_text = CHR ''['' # ''REDACTED'' @ [CHR '']'']"
    by (simp add: redaction_text_def)
  show ?thesis
  proof (cases "length redaction_text \<le> length a")
    case True
    from append_eq_long [OF ab [symmetric] True] obtain us where "a = redaction_text @ us" "t = us @ v @ b"
      by blast
    then show ?thesis unfolding contains_sub_iff by blast
  next
    case short: False
    show ?thesis
    proof (cases a)
      case Nil
      with ab v(1,2) show ?thesis
        by (cases v) (auto simp: mark)
    next
      case (Cons x xs)
      with ab have tail: "''REDACTED'' @ CHR '']'' # t = xs @ v @ b"
        by (simp add: mark)
      have "length xs \<le> length ''REDACTED''"
        using short Cons by (simp add: mark)
      from append_eq_long [OF tail this] obtain us
        where us: "''REDACTED'' = xs @ us" "v @ b = us @ CHR '']'' # t" by blast
      have "length v \<le> length us"
      proof (rule ccontr)
        assume "\<not> length v \<le> length us"
        then obtain w where "v = us @ w" "CHR '']'' # t = w @ b" "w \<noteq> []"
          using append_eq_long [OF us(2)] by fastforce
        then show False using v(3) by (cases w) auto
      qed
      then obtain w where "us = v @ w"
        using append_eq_long [OF us(2) [symmetric]] by blast
      with us(1) have "contains_sub v ''REDACTED''"
        unfolding contains_sub_iff by blast
      with v(4) show ?thesis by contradiction
    qed
  qed
qed

lemma masks_uncovers:
  assumes "masks s t" and "maskable v" and "contains_sub v t"
  shows "contains_sub v s"
  using assms
proof (induction rule: masks.induct)
  case (masks_keep s t c)
  then have "CHR ''['' \<notin> set v" by (simp add: maskable_def)
  from masks_keep.prems(2) consider "starts_with v (c # t)" | "contains_sub v t" by auto
  then show ?case
  proof cases
    case 1
    then show ?thesis
      using masks_prefix [OF masks.masks_keep [OF masks_keep.hyps] \<open>CHR ''['' \<notin> set v\<close>] by simp
  next
    case 2
    then show ?thesis using masks_keep by simp
  qed
next
  case (masks_hide s t u)
  then have "contains_sub v s"
    using not_across_mark by blast
  then show ?case
    unfolding contains_sub_iff by (metis append.assoc)
qed

lemma replace_masks: "masks s (replace_all v redaction_text s)"
proof (induction v redaction_text s rule: replace_all.induct)
  case (2 old c cs)
  show ?case
  proof (cases "old \<noteq> [] \<and> starts_with old (c # cs)")
    case True
    then obtain t where t: "c # cs = old @ t" by (auto simp: starts_with_iff)
    then have "masks t (replace_all old redaction_text t)"
      using 2(1) [OF True] by simp
    then show ?thesis
      using True masks_hide [of t "replace_all old redaction_text t" old] by (simp add: t [symmetric]) (simp add: t)
  next
    case False
    then show ?thesis using 2(2) by (auto intro: masks_keep)
  qed
qed (simp add: masks_Nil)

lemma replaced_gone:
  assumes "maskable v"
  shows "\<not> contains_sub v (replace_all v redaction_text s)"
  using assms
proof (induction v redaction_text s rule: replace_all.induct)
  case (1 old)
  then show ?case by (simp add: maskable_def)
next
  case (2 old c cs)
  have br: "CHR ''['' \<notin> set old" using 2(3) by (simp add: maskable_def)
  show ?case
  proof (cases "old \<noteq> [] \<and> starts_with old (c # cs)")
    case True
    then show ?thesis
      using 2(1) [OF True 2(3)] not_across_mark [OF 2(3)] by auto
  next
    case False
    then have no: "\<not> starts_with old (c # cs)" using 2(3) by (simp add: maskable_def)
    have "masks (c # cs) (c # replace_all old redaction_text cs)"
      by (intro masks.intros replace_masks)
    then have "\<not> starts_with old (c # replace_all old redaction_text cs)"
      using masks_prefix [OF _ br] no by blast
    then show ?thesis
      using no 2(2) [OF False 2(3)] by simp
  qed
qed

lemma replace_values_uncovers:
  assumes "maskable v" and "contains_sub v (replace_values vs s)"
  shows "contains_sub v s"
  using assms(2)
proof (induction vs arbitrary: s)
  case (Cons w vs)
  then have "contains_sub v (replace_all w redaction_text s)" by simp
  then show ?case by (rule masks_uncovers [OF replace_masks assms(1)])
qed simp

lemma replace_values_gone:
  assumes "maskable v" and "v \<in> set vs"
  shows "\<not> contains_sub v (replace_values vs s)"
  using assms(2)
proof (induction vs arbitrary: s)
  case (Cons w vs)
  show ?case
  proof (cases "v \<in> set vs")
    case True
    with Cons.IH show ?thesis by simp
  next
    case False
    with Cons.prems have "w = v" by simp
    then show ?thesis
      using replace_values_uncovers [OF assms(1)] replaced_gone [OF assms(1)] by auto
  qed
qed simp

subsection \<open>Masking key and value texts\<close>

lemma cap_free_ci_lit [simp]: "cap_free (ci_lit l)"
  by (induction l) auto

lemma cap_free_parts: "cap_free secret_name" "cap_free separator"
  by (simp_all add: secret_name_def secret_word_def separator_def)

lemma match_parts:
  assumes "re_at key_value_pattern b a = Some (b', a', cs)"
  shows "\<exists>u v w. a = u @ v @ w @ a' \<and> b' = rev (u @ v @ w) @ b \<and> mask_match (b', a', cs) = u @ v @ redaction_text"
proof -
  from re_at_SomeD [OF assms] have "(b', a', cs) \<in> set (rmatch key_value_pattern (b, a, []))" .
  then have "(b', a', cs) \<in> set (rmatch (RSeq (RCap 1 secret_name)
      (RSeq (RCap 2 separator) (RCap 3 (rx_plus (RCls (\<lambda>c. \<not> py_space c)))))) (b, a, []))"
    by (auto simp: key_value_pattern_def split: if_splits)
  from three_groups [OF cap_free_parts _ this]
  obtain u v w where "a = u @ v @ w @ a'" "b' = rev (u @ v @ w) @ b" "cs = [(3, w), (2, v), (1, u)]"
    by auto
  then show ?thesis
    by (intro exI [of _ u] exI [of _ v] exI [of _ w]) (simp add: mask_match_def group_of_def)
qed

lemma re_sub_masks: "masks s (re_sub key_value_pattern mask_match b s)"
proof (induction key_value_pattern mask_match b s rule: re_sub.induct)
  case (1 b)
  then show ?case by (simp add: masks_Nil)
next
  case (2 b x xs)
  show ?case
  proof (cases "re_at key_value_pattern b (x # xs)")
    case None
    then show ?thesis
      using 2(1) [OF None] by (simp add: re_sub.simps(2) masks_keep)
  next
    case (Some st)
    obtain b' a' cs where st: "st = (b', a', cs)" by (cases st)
    show ?thesis
    proof (cases "length a' < length (x # xs)")
      case True
      from match_parts [OF Some [unfolded st]] obtain u v w
        where m: "x # xs = u @ v @ w @ a'" "mask_match (b', a', cs) = u @ v @ redaction_text" by blast
      have "masks a' (re_sub key_value_pattern mask_match b' a')"
        using 2(2) Some st True by simp
      then have "masks ((u @ v) @ w @ a') ((u @ v) @ redaction_text @ re_sub key_value_pattern mask_match b' a')"
        by (intro masks_keep_list masks_hide)
      moreover have "re_sub key_value_pattern mask_match b (x # xs) =
          mask_match (b', a', cs) @ re_sub key_value_pattern mask_match b' a'"
        using Some st True by (simp add: re_sub.simps(2))
      ultimately show ?thesis by (simp add: m)
    next
      case False
      have "masks xs (re_sub key_value_pattern mask_match (x # b) xs)"
        using 2(3) Some st False by simp
      then show ?thesis
        using Some st False by (simp add: re_sub.simps(2) masks_keep)
    qed
  qed
qed

text \<open>No maskable value of the redactor is in a redacted text.\<close>

lemma redact_text_gone:
  assumes "maskable v" and "v \<in> set (secret_values rd)"
  shows "\<not> contains_sub v (redact_text rd s)"
proof
  assume "contains_sub v (redact_text rd s)"
  then have "contains_sub v (replace_values (secret_values rd) s)"
    unfolding redact_text_def by (rule masks_uncovers [OF re_sub_masks assms(1)])
  then show False
    using replace_values_gone [OF assms] by contradiction
qed

text \<open>A text without \<open>=\<close> and \<open>:\<close> has no key and value to mask.\<close>

lemma separator_needs:
  assumes "(b', a', cs') \<in> set (rmatch separator (b, a, cs))"
  shows "\<exists>c \<in> set a. c = CHR ''='' \<or> c = CHR '':''"
proof -
  from assms obtain b1 a1 c1 b2 a2 c2 where st: "(b1, a1, c1) \<in> set (rmatch (RStar (RCls py_space)) (b, a, cs))"
      "(b2, a2, c2) \<in> set (rmatch (RCls (\<lambda>c. c = CHR ''='' \<or> c = CHR '':'')) (b1, a1, c1))"
    unfolding separator_def seq_ways by blast
  obtain u where "a = u @ a1"
    using eatsD [OF rmatch_eats [of False] st(1)] by blast
  then have "set a1 \<subseteq> set a" by simp
  from st(2) obtain c xs where c: "a1 = c # xs" "c = CHR ''='' \<or> c = CHR '':''"
    by (cases a1) (auto simp: match_cls_def split: if_splits)
  have "c \<in> set a" using \<open>set a1 \<subseteq> set a\<close> c(1) by simp
  with c(2) show ?thesis by blast
qed

lemma no_separator_no_match:
  assumes "CHR ''='' \<notin> set a" "CHR '':'' \<notin> set a"
  shows "re_at key_value_pattern b a = None"
proof (rule ccontr)
  assume "re_at key_value_pattern b a \<noteq> None"
  then obtain st where "re_at key_value_pattern b a = Some st" by blast
  from re_at_SomeD [OF this] obtain b0 a0 c0 b1 a1 c1 b2 a2 c2 where st0:
    "(b0, a0, c0) \<in> set (rmatch (RAssert word_boundary) (b, a, []))"
    "(b1, a1, c1) \<in> set (rmatch (RCap 1 secret_name) (b0, a0, c0))"
    "(b2, a2, c2) \<in> set (rmatch (RCap 2 separator) (b1, a1, c1))"
    unfolding key_value_pattern_def seq_ways by blast
  then have st: "(b1, a1, c1) \<in> set (rmatch (RCap 1 secret_name) (b, a, []))"
    "(b2, a2, c2) \<in> set (rmatch (RCap 2 separator) (b1, a1, c1))"
    by (auto split: if_splits)
  have "set a1 \<subseteq> set a"
    using eatsD [OF rmatch_eats [of False] st(1)] by auto
  moreover from st(2) obtain c3 where "(b2, a2, c3) \<in> set (rmatch separator (b1, a1, c1))" by auto
  from separator_needs [OF this] obtain c where "c \<in> set a1" "c = CHR ''='' \<or> c = CHR '':''" by blast
  ultimately show False using assms by auto
qed

lemma re_sub_plain:
  "CHR ''='' \<notin> set s \<Longrightarrow> CHR '':'' \<notin> set s \<Longrightarrow> re_sub key_value_pattern mask_match b s = s"
proof (induction s arbitrary: b)
  case (Cons c s)
  then show ?case
    using no_separator_no_match [of "c # s" b] by (simp add: re_sub.simps(2))
qed simp

lemma redact_text_plain:
  assumes "CHR ''='' \<notin> set (replace_values (secret_values rd) s)"
    and "CHR '':'' \<notin> set (replace_values (secret_values rd) s)"
  shows "redact_text rd s = replace_values (secret_values rd) s"
  using re_sub_plain [OF assms] by (simp add: redact_text_def)

end
