(* ===== verification/RedactionProps.thy ===== *)
theory RedactionProps
  imports Redaction "HOL-Library.List_Lexorder" "HOL-Library.Char_ord"
begin

text \<open>
  What masking achieves: on structured values, on the records of a log whose filter keeps
  the redactor until the registry changes, and on artifact references; and where it leaves
  a piece of a secret visible.
\<close>

subsection \<open>The strings of a value\<close>

fun strings_of :: "raw \<Rightarrow> string set"
  and strings_items :: "(raw_key \<times> raw) list \<Rightarrow> string set"
  and strings_seq :: "raw list \<Rightarrow> string set" where
  "strings_of (RawStr s) = {s}"
| "strings_of (RawMap items) = strings_items items"
| "strings_of (RawList xs) = strings_seq xs"
| "strings_of (RawTuple xs) = strings_seq xs"
| "strings_of _ = {}"
| "strings_items [] = {}"
| "strings_items ((k, v) # items) = strings_of v \<union> strings_items items"
| "strings_seq [] = {}"
| "strings_seq (x # xs) = strings_of x \<union> strings_seq xs"

text \<open>A value with the content of its strings and the values of masked items taken out.\<close>

fun skeleton :: "raw \<Rightarrow> raw"
  and skeleton_items :: "bool \<Rightarrow> (raw_key \<times> raw) list \<Rightarrow> (raw_key \<times> raw) list"
  and skeleton_seq :: "raw list \<Rightarrow> raw list" where
  "skeleton (RawStr s) = RawStr []"
| "skeleton (RawMap items) = RawMap (skeleton_items (marked_sensitive items) items)"
| "skeleton (RawList xs) = RawList (skeleton_seq xs)"
| "skeleton (RawTuple xs) = RawTuple (skeleton_seq xs)"
| "skeleton RawNone = RawNone"
| "skeleton (RawBool b) = RawBool b"
| "skeleton (RawInt i) = RawInt i"
| "skeleton (RawFloat m e) = RawFloat m e"
| "skeleton RawNonFinite = RawNonFinite"
| "skeleton (RawOther t) = RawOther t"
| "skeleton_items sensitive [] = []"
| "skeleton_items sensitive ((k, v) # items) =
     (k, if sensitive \<and> k = KStr ''path'' \<or> secret_key k then RawStr [] else skeleton v)
       # skeleton_items sensitive items"
| "skeleton_seq [] = []"
| "skeleton_seq (x # xs) = skeleton x # skeleton_seq xs"

text \<open>Every item that must be masked is.\<close>

fun masked_inside :: "raw \<Rightarrow> bool"
  and masked_items :: "bool \<Rightarrow> (raw_key \<times> raw) list \<Rightarrow> bool"
  and masked_seq :: "raw list \<Rightarrow> bool" where
  "masked_inside (RawMap items) = masked_items (marked_sensitive items) items"
| "masked_inside (RawList xs) = masked_seq xs"
| "masked_inside (RawTuple xs) = masked_seq xs"
| "masked_inside _ = True"
| "masked_items sensitive [] = True"
| "masked_items sensitive ((k, v) # items) =
     ((if sensitive \<and> k = KStr ''path'' \<or> secret_key k then v = RawStr redaction_text else masked_inside v)
       \<and> masked_items sensitive items)"
| "masked_seq [] = True"
| "masked_seq (x # xs) = (masked_inside x \<and> masked_seq xs)"

lemma not_secret_sensitive: "\<not> secret_key (KStr ''sensitive'')"
  unfolding secret_key_def re_search_def by code_simp

lemma redact_items_sensitive:
  "map_of (redact_items rd sens items) (KStr ''sensitive'') = Some (RawBool True) \<longleftrightarrow>
   map_of items (KStr ''sensitive'') = Some (RawBool True)"
proof (induction items)
  case (Cons kv items)
  obtain k v where "kv = (k, v)" by (cases kv)
  with Cons show ?case
    using not_secret_sensitive by (cases v) auto
qed simp

lemma redact_keeps_marked: "marked_sensitive (redact_items rd sens items) = marked_sensitive items"
  by (simp add: marked_sensitive_def redact_items_sensitive)

lemma redact_skeleton:
  "skeleton (redact_value rd x) = skeleton x"
  "skeleton_items sens (redact_items rd sens items) = skeleton_items sens items"
  "skeleton_seq (redact_seq rd xs) = skeleton_seq xs"
  by (induction rd x and rd sens items and rd xs rule: redact_value_redact_items_redact_seq.induct)
    (auto simp: redact_keeps_marked)

lemma redact_masks_items:
  "masked_inside (redact_value rd x)"
  "masked_items sens (redact_items rd sens items)"
  "masked_seq (redact_seq rd xs)"
  by (induction rd x and rd sens items and rd xs rule: redact_value_redact_items_redact_seq.induct)
    (auto simp: redact_keeps_marked)

lemma mark_not_maskable: "maskable v \<Longrightarrow> \<not> contains_sub v redaction_text"
  using not_across_mark [of v "[]"] by (auto simp: maskable_def)

lemma redact_strings_gone:
  assumes "maskable v" and "v \<in> set (secret_values rd)"
  shows "\<forall>s \<in> strings_of (redact_value rd x). \<not> contains_sub v s"
    and "\<forall>s \<in> strings_items (redact_items rd sens items). \<not> contains_sub v s"
    and "\<forall>s \<in> strings_seq (redact_seq rd xs). \<not> contains_sub v s"
  using assms
  by (induction rd x and rd sens items and rd xs rule: redact_value_redact_items_redact_seq.induct)
    (auto simp: redact_text_gone mark_not_maskable)



subsection \<open>Artifact references\<close>

lemma plain_fields: "\<not> secret_key (KStr ''path'')" "\<not> secret_key (KStr ''kind'')" "\<not> secret_key (KStr ''description'')"
  unfolding secret_key_def re_search_def by code_simp+

definition redacted_artifact :: "redactor \<Rightarrow> artifact_ref \<Rightarrow> artifact_ref" where
  "redacted_artifact rd a = \<lparr>ar_path = if ar_sensitive a then redaction_text else redact_text rd (ar_path a),
     ar_kind = redact_text rd (ar_kind a), ar_sensitive = ar_sensitive a,
     ar_description = map_option (redact_text rd) (ar_description a)\<rparr>"

lemma redacted_artifact_eq: "artifact_of (redact_value rd (dump_artifact a)) = Some (redacted_artifact rd a)"
  using plain_fields not_secret_sensitive
  by (cases "ar_description a"; cases "ar_sensitive a")
    (simp_all add: dump_artifact_def marked_sensitive_def redacted_artifact_def)

text \<open>artifact references stay artifact references. \<open>redacted_artifacts\<close> of any list
  gives as many valid references with the same flags; the path of a sensitive one is the
  mark, and no field holds a maskable secret.\<close>

theorem artifacts_redacted:
  assumes "maskable v" and "v \<in> set (secret_values rd)"
  shows "\<exists>out. redacted_artifacts arts rd = map Some out \<and> map ar_sensitive out = map ar_sensitive arts
    \<and> (\<forall>a \<in> set out. (ar_sensitive a \<longrightarrow> ar_path a = redaction_text) \<and> \<not> contains_sub v (ar_path a)
        \<and> \<not> contains_sub v (ar_kind a) \<and> (\<forall>d. ar_description a = Some d \<longrightarrow> \<not> contains_sub v d))"
proof (intro exI conjI)
  show "redacted_artifacts arts rd = map Some (map (redacted_artifact rd) arts)"
    by (simp add: redacted_artifacts_def redacted_artifact_eq)
  show "map ar_sensitive (map (redacted_artifact rd) arts) = map ar_sensitive arts"
    by (simp add: redacted_artifact_def)
  show "\<forall>a \<in> set (map (redacted_artifact rd) arts). (ar_sensitive a \<longrightarrow> ar_path a = redaction_text) \<and> \<not> contains_sub v (ar_path a)
        \<and> \<not> contains_sub v (ar_kind a) \<and> (\<forall>d. ar_description a = Some d \<longrightarrow> \<not> contains_sub v d)"
    using redact_text_gone [OF assms] mark_not_maskable [OF assms(1)]
    by (auto simp: redacted_artifact_def)
qed

theorem artifacts_redacted_witness:
  "\<exists>out. redacted_artifacts [\<lparr>ar_path = ''/run/hunter2'', ar_kind = ''log'', ar_sensitive = True, ar_description = None\<rparr>]
      (make_redactor [''hunter2''] None) = map Some out \<and> ar_path (hd out) = redaction_text"
proof -
  let ?rd = "make_redactor [''hunter2''] None"
  let ?a = "\<lparr>ar_path = ''/run/hunter2'', ar_kind = ''log'', ar_sensitive = True, ar_description = None\<rparr>"
  have rd: "maskable ''hunter2''" "''hunter2'' \<in> set (secret_values ?rd)"
    by (simp_all add: maskable_def make_redactor_def)
  from artifacts_redacted [OF rd, of "[?a]"] obtain out where out: "redacted_artifacts [?a] ?rd = map Some out"
      "map ar_sensitive out = map ar_sensitive [?a]"
    and path: "\<forall>a \<in> set out. ar_sensitive a \<longrightarrow> ar_path a = redaction_text" by blast
  from out(2) path have "ar_path (hd out) = redaction_text"
    by (cases out) auto
  with out(1) show ?thesis by blast
qed

subsection \<open>The log\<close>

datatype log_event =
    Register_value "string option" "string option"
  | Release_values "string option"
  | Resolve_references "string \<rightharpoonup> secret_reference" backends "string option" "string list"
  | Log_record "string list" log_record

text \<open>A history of the registry and of what is logged; each output with the registry at its time.\<close>

fun log_run ::
  "(string set \<Rightarrow> string list) \<Rightarrow> log_event list \<Rightarrow> secret_registry \<Rightarrow> redaction_filter
     \<Rightarrow> (secret_registry \<times> log_output) list" where
  "log_run enum [] r f = []"
| "log_run enum (Register_value v s # es) r f = log_run enum es (register_secret v s r) f"
| "log_run enum (Release_values s # es) r f = log_run enum es (release_scope s r) f"
| "log_run enum (Resolve_references defs bes s refs # es) r f = log_run enum es (snd (resolve defs bes s refs r)) f"
| "log_run enum (Log_record ps rec # es) r f =
     (let (out, f') = filter_record ps enum r rec f in (r, out) # log_run enum es r f')"

definition log_shows :: "log_output \<Rightarrow> string \<Rightarrow> bool" where
  "log_shows out v \<longleftrightarrow> contains_sub v (lo_msg out) \<or> (\<exists>t. lo_exc_text out = Some t \<and> contains_sub v t)
     \<or> (\<exists>t. lo_stack_info out = Some t \<and> contains_sub v t)"

definition filter_fresh :: "secret_registry \<Rightarrow> redaction_filter \<Rightarrow> bool" where
  "filter_fresh r f \<longleftrightarrow> secrets_ok r \<and> cached_version f \<le> int (sr_version r)
     \<and> (cached_version f = int (sr_version r) \<longrightarrow> snapshot r \<subseteq> set (secret_values (cached_redactor f)))"

lemma filter_fresh_newer:
  assumes "filter_fresh r f" and "secrets_ok r'"
    and "sr_version r < sr_version r' \<or> sr_version r' = sr_version r \<and> snapshot r' = snapshot r"
  shows "filter_fresh r' f"
  using assms by (auto simp: filter_fresh_def)

lemma register_version:
  "sr_version r < sr_version (register_secret v s r) \<or> register_secret v s r = r"
  by (auto simp: register_secret_def Let_def split: option.splits)

lemma release_version:
  "sr_version r < sr_version (release_scope s r)
   \<or> sr_version (release_scope s r) = sr_version r \<and> snapshot (release_scope s r) = snapshot r"
  by (auto simp: release_scope_def Let_def snapshot_def split: option.splits)

lemma resolve_loop_version:
  "sr_version r < sr_version (snd (resolve_loop defs bes s refs res r)) \<or> snd (resolve_loop defs bes s refs res r) = r"
proof (induction refs arbitrary: res r)
  case (Cons ref refs)
  have step: "sr_version r < sr_version (snd (resolve_loop defs bes s refs res' (register_secret v s r)))
     \<or> snd (resolve_loop defs bes s refs res' (register_secret v s r)) = r" for res' v
    using Cons.IH [of "register_secret v s r" res'] register_version [of r v s] by auto
  show ?case
    using Cons.IH step by (simp split: option.splits sum.splits if_splits)
qed simp

lemma snapshot_finite: "secrets_ok r \<Longrightarrow> finite (snapshot r) \<and> [] \<notin> snapshot r"
  by (simp add: snapshot_eq secrets_ok_def [of r])

lemma filter_record_masks:
  assumes enum: "\<forall>S. finite S \<longrightarrow> set (enum S) = S" and fresh: "filter_fresh r f"
    and run: "filter_record ps enum r rec f = (out, f')"
  shows "filter_fresh r f' \<and> (\<forall>v \<in> snapshot r. maskable v \<longrightarrow> \<not> log_shows out v)"
proof -
  obtain rd where cur: "current_redactor ps enum r f = (rd, f')"
    using run by (auto simp: filter_record_def Let_def split: prod.splits)
  have fin: "finite (snapshot r)" "[] \<notin> snapshot r"
    using fresh snapshot_finite by (auto simp: filter_fresh_def)
  have all: "snapshot r \<subseteq> set (secret_values rd)" and fresh': "filter_fresh r f'"
    using cur fresh enum fin
    by (auto simp: current_redactor_def filter_fresh_def make_redactor_def Let_def split: if_splits)
  have "\<not> log_shows out v" if "v \<in> snapshot r" "maskable v" for v
  proof -
    have gone: "\<not> contains_sub v (redact_text rd t)" for t
      using redact_text_gone [OF that(2)] all that(1) by blast
    have "\<not> contains_sub v t" if "redact_present rd x = Some t" for x t
      using that gone \<open>maskable v\<close>
      by (auto simp: redact_present_def maskable_def split: option.splits if_splits)
    then show ?thesis
      using run gone by (auto simp: filter_record_def cur log_shows_def)
  qed
  with fresh' show ?thesis by blast
qed

lemma log_run_masks:
  assumes "\<forall>S. finite S \<longrightarrow> set (enum S) = S" and "filter_fresh r f"
    and "(r', out) \<in> set (log_run enum es r f)" and "v \<in> snapshot r'" and "maskable v"
  shows "\<not> log_shows out v"
  using assms(2,3)
proof (induction es arbitrary: r f)
  case (Cons e es)
  have ok: "secrets_ok r" using Cons.prems(1) by (simp add: filter_fresh_def)
  show ?case
  proof (cases e)
    case (Register_value w s)
    have "filter_fresh (register_secret w s r) f"
      using filter_fresh_newer [OF Cons.prems(1) secrets_ok_register [OF ok], of w s] register_version [of r w s] by auto
    with Cons Register_value show ?thesis by simp
  next
    case (Release_values s)
    have "filter_fresh (release_scope s r) f"
      using filter_fresh_newer [OF Cons.prems(1) secrets_ok_release [OF ok]] release_version [of r s] by blast
    with Cons Release_values show ?thesis by simp
  next
    case (Resolve_references defs bes s refs)
    let ?r = "snd (resolve defs bes s refs r)"
    have "secrets_ok ?r"
      using resolve_loop_masked [OF ok, of defs bes s refs Map.empty "fst (resolve defs bes s refs r)" ?r]
      by (simp add: resolve_def)
    then have "filter_fresh ?r f"
      using filter_fresh_newer [OF Cons.prems(1), of ?r] resolve_loop_version [of r defs bes s refs Map.empty]
      unfolding resolve_def by auto
    with Cons Resolve_references show ?thesis by simp
  next
    case (Log_record ps rec)
    obtain o' f' where run: "filter_record ps enum r rec f = (o', f')" by fastforce
    note masks = filter_record_masks [OF assms(1) Cons.prems(1) run]
    from Cons.prems(2) Log_record run consider "r' = r" "out = o'" | "(r', out) \<in> set (log_run enum es r f')"
      by auto
    then show ?thesis
    proof cases
      case 1
      with masks assms(4,5) show ?thesis by blast
    next
      case 2
      with masks Cons.IH show ?thesis by blast
    qed
  qed
qed simp

text \<open>C24: the log never shows a registered secret. From the start of the process, whatever
  is registered, resolved, released and logged in whatever order, no record that passes the
  filter shows - in its message, its traceback or its stack - a maskable secret that is
  registered when it is logged; keeping the redactor between changes of the registry loses
  none.\<close>

theorem log_never_shows_secret:
  assumes "\<forall>S. finite S \<longrightarrow> set (enum S) = S"
    and "(r, out) \<in> set (log_run enum events new_secret_registry (new_filter ps))"
    and "v \<in> snapshot r" and "maskable v"
  shows "\<not> log_shows out v"
proof (rule log_run_masks [OF assms(1) _ assms(2-4)])
  show "filter_fresh new_secret_registry (new_filter ps)"
    using secrets_ok_new by (simp add: filter_fresh_def new_filter_def)
qed

definition ex_record :: "string \<Rightarrow> log_record" where
  "ex_record t = \<lparr>lr_rendered = Some t, lr_fallback = [], lr_exc_info = None, lr_exc_text = None, lr_stack_info = None\<rparr>"

theorem log_never_shows_secret_witness:
  "let r1 = register_secret (Some ''hunter2'') None new_secret_registry;
       (out, f) = filter_record [] sorted_list_of_set r1 (ex_record ''pw hunter2'') (new_filter [])
   in \<not> log_shows out ''hunter2''"
proof -
  let ?r = "register_secret (Some ''hunter2'') None new_secret_registry"
  obtain out f where run: "filter_record [] sorted_list_of_set ?r (ex_record ''pw hunter2'') (new_filter []) = (out, f)"
    by fastforce
  have mem: "(?r, out) \<in> set (log_run sorted_list_of_set
      [Register_value (Some ''hunter2'') None, Log_record [] (ex_record ''pw hunter2'')] new_secret_registry (new_filter []))"
    by (simp add: run)
  have "\<not> log_shows out ''hunter2''"
    by (rule log_never_shows_secret [OF _ mem]) (simp_all add: register_snapshot secrets_ok_new maskable_def)
  then show ?thesis by (simp add: run)
qed

subsection \<open>What stays visible\<close>

text \<open>A secret that begins with another one: when the shorter value comes first in the
  arbitrary order of the snapshot, the rest of the longer one is left in the text.\<close>

theorem shorter_secret_uncovers_longer:
  "redact_text (make_redactor [''abc'', ''abcdefgh''] None) ''x abcdefgh'' = ''x [REDACTED]defgh''
   \<and> redact_text (make_redactor [''abcdefgh'', ''abc''] None) ''x abcdefgh'' = ''x [REDACTED]''"
  by (simp add: redact_text_plain make_redactor_def redaction_text_def)

text \<open>The keys of a mapping are never masked.\<close>

theorem mapping_keys_not_redacted:
  "redact_mapping (make_redactor [''hunter2''] None) [(KStr ''hunter2'', RawInt 1)] = RawMap [(KStr ''hunter2'', RawInt 1)]"
  by code_simp

end
