(* ===== verification/GdbMi.thy ===== *)
theory GdbMi
  imports Redaction FileTree IpAddress "HOL-Library.List_Lexorder" "HOL-Library.Char_ord" Complex_Main
begin

text \<open>
  Models \<open>src/kdive/providers/local/debug/gdb_mi.py\<close>: the records of gdb's machine interface,
  the engine that drives one gdb child over it, and the registry of live engines. The child
  is the injectable controller of the source: functions on a world that answer or raise. So
  are the transcript file, the clock and the backoff sleep. An attachment is the records
  seen so far beside that world. An error keeps its category and its details; its message
  is left out. Timeouts are the rational values of the floats. A text cut to 4096 characters
  is cut to 4096 bytes here.
\<close>

subsection \<open>Errors and records\<close>

type_synonym dict_items = "(raw_key \<times> raw) list"

datatype mi_failure =
    Gdb_mi_error error_category "(string \<times> raw) list"
  | Other_exception string

definition validation_error :: mi_failure where
  "validation_error = Other_exception ''ValidationError''"

record mi_record =
  mr_type :: string
  mr_message :: "string option"
  mr_payload :: raw
  mr_token :: "int option"
  mr_stream :: "string option"

fun opt_text :: "raw \<Rightarrow> string option option" where
  "opt_text RawNone = Some None"
| "opt_text (RawStr s) = Some (Some s)"
| "opt_text _ = None"

fun opt_int :: "raw \<Rightarrow> int option option" where
  "opt_int RawNone = Some None"
| "opt_int (RawInt i) = Some (Some i)"
| "opt_int _ = None"

fun text_key :: "raw_key \<Rightarrow> bool" where
  "text_key (KStr k) = True"
| "text_key (KOther t) = False"

text \<open>The declared type of a payload: a dict with text keys, a list, a text or nothing.\<close>

fun payload_value :: "raw \<Rightarrow> raw option" where
  "payload_value RawNone = Some RawNone"
| "payload_value (RawStr s) = Some (RawStr s)"
| "payload_value (RawMap items) = (if \<forall>(k, v) \<in> set items. text_key k then Some (RawMap items) else None)"
| "payload_value (RawList xs) = Some (RawList xs)"
| "payload_value (RawTuple xs) = Some (RawList xs)"
| "payload_value _ = None"

text \<open>A field that may be absent, read by \<open>f\<close>.\<close>

definition field_of :: "(raw \<Rightarrow> 'a option) \<Rightarrow> string \<Rightarrow> dict_items \<Rightarrow> 'a option" where
  "field_of f k items = (case map_of items (KStr k) of None \<Rightarrow> f RawNone | Some v \<Rightarrow> f v)"

definition from_raw :: "dict_items \<Rightarrow> (mi_failure, mi_record) result" where
  "from_raw item =
     (case (map_of item (KStr ''type''), field_of opt_text ''message'' item, field_of payload_value ''payload'' item,
            field_of opt_int ''token'' item, field_of opt_text ''stream'' item) of
        (Some (RawStr t), Some m, Some p, Some k, Some s) \<Rightarrow>
          Inr \<lparr>mr_type = t, mr_message = m, mr_payload = p, mr_token = k, mr_stream = s\<rparr>
      | _ \<Rightarrow> Inl validation_error)"

fun records_from :: "dict_items list \<Rightarrow> (mi_failure, mi_record list) result" where
  "records_from [] = Inr []"
| "records_from (x # xs) = rbind (from_raw x) (\<lambda>r. rbind (records_from xs) (\<lambda>rs. Inr (r # rs)))"

definition first_result :: "mi_record list \<Rightarrow> mi_record option" where
  "first_result rs = List.find (\<lambda>r. mr_type r = ''result'') rs"

definition mi_prompt :: string where
  "mi_prompt = ''(gdb)''"

text \<open>Parsing a transcript; the parser of a line is pygdbmi's.\<close>

fun parse_mi_lines :: "(string \<Rightarrow> dict_items) \<Rightarrow> string list \<Rightarrow> (mi_failure, mi_record list) result" where
  "parse_mi_lines parse_response [] = Inr []"
| "parse_mi_lines parse_response (line # lines) =
     (let stripped = strip line in
      if stripped = [] \<or> stripped = mi_prompt then parse_mi_lines parse_response lines
      else rbind (from_raw (parse_response stripped)) (\<lambda>r.
           rbind (parse_mi_lines parse_response lines) (\<lambda>rs. Inr (r # rs))))"

definition parse_mi_records :: "(string \<Rightarrow> dict_items) \<Rightarrow> string \<Rightarrow> (mi_failure, mi_record list) result" where
  "parse_mi_records parse_response text = parse_mi_lines parse_response (splitlines text)"

definition opt_raw :: "string option \<Rightarrow> raw" where
  "opt_raw t = (case t of None \<Rightarrow> RawNone | Some s \<Rightarrow> RawStr s)"

definition opt_raw_int :: "int option \<Rightarrow> raw" where
  "opt_raw_int t = (case t of None \<Rightarrow> RawNone | Some i \<Rightarrow> RawInt i)"

definition dump_record :: "mi_record \<Rightarrow> raw" where
  "dump_record r = RawMap [(KStr ''type'', RawStr (mr_type r)), (KStr ''message'', opt_raw (mr_message r)),
     (KStr ''payload'', mr_payload r), (KStr ''token'', opt_raw_int (mr_token r)), (KStr ''stream'', opt_raw (mr_stream r))]"

subsection \<open>The controller\<close>

text \<open>What pygdbmi answers to a call.\<close>

datatype gdb_reply = Gdb_timeout | Gdb_raises string | Gdb_records "dict_items list"

definition mi_command_timeout_sec :: rat where
  "mi_command_timeout_sec = 10"

definition timeout_error :: "string \<Rightarrow> mi_failure" where
  "timeout_error command = Gdb_mi_error INFRASTRUCTURE_FAILURE
     [(''code'', RawStr ''transport_stall''), (''command'', RawStr command), (''timeout_seconds'', RawFloat 10 0)]"

definition pygdbmi_write :: "(string \<Rightarrow> 'w \<Rightarrow> gdb_reply \<times> 'w) \<Rightarrow> string \<Rightarrow> 'w \<Rightarrow> (mi_failure, dict_items list) result \<times> 'w" where
  "pygdbmi_write gdb command w =
     (case gdb command w of
        (Gdb_timeout, w') \<Rightarrow> (Inl (timeout_error command), w')
      | (Gdb_raises x, w') \<Rightarrow> (Inl (Other_exception x), w')
      | (Gdb_records rs, w') \<Rightarrow> (Inr rs, w'))"

definition pygdbmi_read :: "('w \<Rightarrow> gdb_reply \<times> 'w) \<Rightarrow> 'w \<Rightarrow> (mi_failure, dict_items list) result \<times> 'w" where
  "pygdbmi_read gdb w =
     (case gdb w of
        (Gdb_timeout, w') \<Rightarrow> (Inr [], w')
      | (Gdb_raises x, w') \<Rightarrow> (Inl (Other_exception x), w')
      | (Gdb_records rs, w') \<Rightarrow> (Inr rs, w'))"

record 'w mi_env =
  ctl_write :: "string \<Rightarrow> 'w \<Rightarrow> (mi_failure, dict_items list) result \<times> 'w"
  ctl_read :: "'w \<Rightarrow> (mi_failure, dict_items list) result \<times> 'w"
  ctl_exit :: "'w \<Rightarrow> (mi_failure, unit) result \<times> 'w"
  start_gdb :: "string list \<Rightarrow> 'w \<Rightarrow> (mi_failure, unit) result \<times> 'w"
  append_entry :: "raw \<Rightarrow> 'w \<Rightarrow> (mi_failure, unit) result \<times> 'w"
  backoff :: "'w \<Rightarrow> 'w"
  observed_at :: "'w \<Rightarrow> string"
  gdb_path :: "string option"
  mi_host :: host
  mi_redactor :: redactor
  mapped_aware :: bool
  py_repr :: "raw \<Rightarrow> string"

subsection \<open>Operations on an attachment\<close>

type_synonym 'w mi_state = "mi_record list \<times> 'w"

type_synonym ('w, 'a) mi_op = "'w mi_state \<Rightarrow> (mi_failure, 'a) result \<times> 'w mi_state"

definition mi_lift :: "(mi_failure, 'a) result \<Rightarrow> ('w, 'a) mi_op" where
  "mi_lift r st = (r, st)"

abbreviation mi_ret :: "'a \<Rightarrow> ('w, 'a) mi_op" where
  "mi_ret x \<equiv> mi_lift (Inr x)"

abbreviation mi_raise :: "mi_failure \<Rightarrow> ('w, 'a) mi_op" where
  "mi_raise e \<equiv> mi_lift (Inl e)"

definition mi_bind :: "('w, 'a) mi_op \<Rightarrow> ('a \<Rightarrow> ('w, 'b) mi_op) \<Rightarrow> ('w, 'b) mi_op" where
  "mi_bind m f st = (case m st of (Inl e, st') \<Rightarrow> (Inl e, st') | (Inr x, st') \<Rightarrow> f x st')"

definition mi_io :: "('w \<Rightarrow> (mi_failure, 'a) result \<times> 'w) \<Rightarrow> ('w, 'a) mi_op" where
  "mi_io f st = (case f (snd st) of (r, w') \<Rightarrow> (r, (fst st, w')))"

definition mi_extend :: "mi_record list \<Rightarrow> ('w, unit) mi_op" where
  "mi_extend rs st = (Inr (), (fst st @ rs, snd st))"

definition append_transcript :: "'w mi_env \<Rightarrow> string \<Rightarrow> mi_record list \<Rightarrow> ('w, unit) mi_op" where
  "append_transcript env command rs =
     mi_io (\<lambda>w. append_entry env (redact_value (mi_redactor env)
       (RawMap [(KStr ''observed_at'', RawStr (observed_at env w)), (KStr ''command'', RawStr command),
          (KStr ''records'', RawList (map dump_record rs))])) w)"

definition write_command :: "'w mi_env \<Rightarrow> string \<Rightarrow> ('w, mi_record list) mi_op" where
  "write_command env command =
     mi_bind (mi_io (ctl_write env command)) (\<lambda>items.
     mi_bind (mi_lift (records_from items)) (\<lambda>rs.
     mi_bind (mi_extend rs) (\<lambda>_.
     mi_bind (append_transcript env command rs) (\<lambda>_. mi_ret rs))))"

definition run_command :: "'w mi_env \<Rightarrow> string \<Rightarrow> ('w, mi_record list) mi_op" where
  "run_command env command =
     mi_bind (write_command env command) (\<lambda>rs.
       case first_result rs of
         Some r \<Rightarrow> if mr_message r = Some ''error''
                   then mi_raise (Gdb_mi_error DEBUG_ATTACH_FAILURE [(''command'', RawStr command),
                          (''payload'', redact_value (mi_redactor env) (mr_payload r))])
                   else mi_ret rs
       | None \<Rightarrow> mi_ret rs)"

text \<open>The dict a response carries, and its text fields.\<close>

fun dict_of :: "raw \<Rightarrow> dict_items" where
  "dict_of (RawMap items) = items"
| "dict_of _ = []"

fun list_of :: "raw \<Rightarrow> raw list" where
  "list_of (RawList xs) = xs"
| "list_of _ = []"

definition result_dict :: "mi_record list \<Rightarrow> dict_items" where
  "result_dict rs = (case first_result rs of Some r \<Rightarrow> dict_of (mr_payload r) | None \<Rightarrow> [])"

definition get_field :: "string \<Rightarrow> dict_items \<Rightarrow> raw" where
  "get_field k items = (case map_of items (KStr k) of None \<Rightarrow> RawNone | Some v \<Rightarrow> v)"

definition text_field :: "string \<Rightarrow> dict_items \<Rightarrow> string option" where
  "text_field k items = (case get_field k items of RawStr s \<Rightarrow> Some s | _ \<Rightarrow> None)"

subsection \<open>Stops and frames\<close>

record frame =
  fr_level :: "int option"
  fr_func :: "string option"
  fr_addr :: "string option"
  fr_file :: "string option"
  fr_line :: "int option"

record stop_record =
  st_reason :: "string option"
  st_bkptno :: "string option"
  st_thread :: "string option"
  st_frame :: "frame option"
  st_timed_out :: bool

text \<open>\<open>int(value)\<close> of a text that is dashes and digits; it raises when there are several dashes.\<close>

definition int_field :: "string \<Rightarrow> dict_items \<Rightarrow> (mi_failure, int option) result" where
  "int_field k items =
     (case text_field k items of
        None \<Rightarrow> Inr None
      | Some t \<Rightarrow> let digits = dropWhile (\<lambda>c. c = CHR ''-'') t in
          if digits \<noteq> [] \<and> list_all is_digit digits
          then (case py_int t of None \<Rightarrow> Inl (Other_exception ''ValueError'') | Some i \<Rightarrow> Inr (Some i))
          else Inr None)"

definition frame_from :: "dict_items \<Rightarrow> (mi_failure, frame) result" where
  "frame_from items =
     rbind (int_field ''level'' items) (\<lambda>level. rbind (int_field ''line'' items) (\<lambda>line.
       Inr \<lparr>fr_level = level, fr_func = text_field ''func'' items, fr_addr = text_field ''addr'' items,
            fr_file = text_field ''file'' items, fr_line = line\<rparr>))"

definition terminal_stop_reasons :: "string list" where
  "terminal_stop_reasons = [''exited'', ''exited-normally'', ''exited-signalled'']"

definition stop_record_from :: "mi_record \<Rightarrow> (mi_failure, stop_record) result" where
  "stop_record_from r =
     (let payload = dict_of (mr_payload r); reason = text_field ''reason'' payload in
      if \<exists>t \<in> set terminal_stop_reasons. reason = Some t
      then Inl (Gdb_mi_error DEBUG_ATTACH_FAILURE [(''code'', RawStr ''session_exited''), (''reason'', opt_raw reason)])
      else rbind (case get_field ''frame'' payload of
               RawMap items \<Rightarrow> rbind (frame_from items) (\<lambda>f. Inr (Some f)) | _ \<Rightarrow> Inr None) (\<lambda>f.
           Inr \<lparr>st_reason = reason, st_bkptno = text_field ''bkptno'' payload,
                st_thread = text_field ''stopped-threads'' payload, st_frame = f, st_timed_out = False\<rparr>))"

definition dump_frame :: "frame \<Rightarrow> raw" where
  "dump_frame f = RawMap [(KStr ''level'', opt_raw_int (fr_level f)), (KStr ''func'', opt_raw (fr_func f)),
     (KStr ''addr'', opt_raw (fr_addr f)), (KStr ''file'', opt_raw (fr_file f)), (KStr ''line'', opt_raw_int (fr_line f))]"

definition dump_stop :: "stop_record \<Rightarrow> raw" where
  "dump_stop s = RawMap [(KStr ''reason'', opt_raw (st_reason s)), (KStr ''bkptno'', opt_raw (st_bkptno s)),
     (KStr ''stopped_thread'', opt_raw (st_thread s)),
     (KStr ''frame'', case st_frame s of None \<Rightarrow> RawNone | Some f \<Rightarrow> dump_frame f),
     (KStr ''timed_out'', RawBool (st_timed_out s))]"

text \<open>\<open>model_validate\<close> of such a dict.\<close>

definition frame_of :: "dict_items \<Rightarrow> frame option" where
  "frame_of items =
     (case (field_of opt_int ''level'' items, field_of opt_text ''func'' items, field_of opt_text ''addr'' items,
            field_of opt_text ''file'' items, field_of opt_int ''line'' items) of
        (Some lv, Some fn, Some ad, Some fi, Some li) \<Rightarrow>
          Some \<lparr>fr_level = lv, fr_func = fn, fr_addr = ad, fr_file = fi, fr_line = li\<rparr>
      | _ \<Rightarrow> None)"

fun opt_frame :: "raw \<Rightarrow> frame option option" where
  "opt_frame RawNone = Some None"
| "opt_frame (RawMap items) = map_option Some (frame_of items)"
| "opt_frame _ = None"

fun bool_value :: "raw \<Rightarrow> bool option" where
  "bool_value (RawBool b) = Some b"
| "bool_value _ = None"

definition stop_of :: "raw \<Rightarrow> stop_record option" where
  "stop_of v =
     (let items = dict_of v in
      case (field_of opt_text ''reason'' items, field_of opt_text ''bkptno'' items, field_of opt_text ''stopped_thread'' items,
            field_of opt_frame ''frame'' items, field_of bool_value ''timed_out'' items) of
        (Some re, Some bk, Some th, Some fr, Some ti) \<Rightarrow>
          Some \<lparr>st_reason = re, st_bkptno = bk, st_thread = th, st_frame = fr, st_timed_out = ti\<rparr>
      | _ \<Rightarrow> None)"

definition redact_stop :: "redactor \<Rightarrow> stop_record \<Rightarrow> (mi_failure, stop_record) result" where
  "redact_stop rd s = (case stop_of (redact_value rd (dump_stop s)) of
     None \<Rightarrow> Inl validation_error | Some s' \<Rightarrow> Inr s')"

subsection \<open>Execution control\<close>

definition stop_poll_slice_sec :: rat where
  "stop_poll_slice_sec = 1 / 2"

definition interrupt_stop_timeout_sec :: rat where
  "interrupt_stop_timeout_sec = 10"

definition max_interactive_wait_sec :: int where
  "max_interactive_wait_sec = 60"

text \<open>\<open>int(x)\<close> of a float.\<close>

definition truncate_rat :: "rat \<Rightarrow> int" where
  "truncate_rat q = (if 0 \<le> q then \<lfloor>q\<rfloor> else \<lceil>q\<rceil>)"

definition poll_slices :: "rat \<Rightarrow> nat" where
  "poll_slices timeout = nat (max 1 (truncate_rat (timeout / stop_poll_slice_sec) + 1))"

definition is_stopped :: "mi_record \<Rightarrow> bool" where
  "is_stopped r \<longleftrightarrow> mr_message r = Some ''stopped''"

definition read_slice :: "'w mi_env \<Rightarrow> ('w, mi_record list) mi_op" where
  "read_slice env =
     mi_bind (mi_io (ctl_read env)) (\<lambda>items.
     mi_bind (mi_lift (records_from items)) (\<lambda>rs.
     mi_bind (mi_extend rs) (\<lambda>_.
     mi_bind (if rs \<noteq> [] then append_transcript env ''<read>'' rs else mi_ret ()) (\<lambda>_. mi_ret rs))))"

fun poll_stop :: "'w mi_env \<Rightarrow> nat \<Rightarrow> ('w, stop_record option) mi_op" where
  "poll_stop env 0 = mi_ret None"
| "poll_stop env (Suc n) =
     mi_bind (read_slice env) (\<lambda>rs.
       case List.find is_stopped rs of
         Some r \<Rightarrow> mi_lift (rbind (stop_record_from r) (\<lambda>s. Inr (Some s)))
       | None \<Rightarrow> poll_stop env n)"

definition wait_for_stop :: "'w mi_env \<Rightarrow> rat \<Rightarrow> ('w, stop_record option) mi_op" where
  "wait_for_stop env timeout = poll_stop env (poll_slices timeout)"

definition interrupt :: "'w mi_env \<Rightarrow> ('w, stop_record option) mi_op" where
  "interrupt env =
     mi_bind (write_command env ''-exec-interrupt'') (\<lambda>_.
     mi_bind (wait_for_stop env interrupt_stop_timeout_sec) (\<lambda>stop.
       case stop of None \<Rightarrow> mi_ret None
       | Some s \<Rightarrow> mi_lift (rbind (redact_stop (mi_redactor env) s) (\<lambda>s'. Inr (Some s')))))"

definition bounded_wait :: "rat \<Rightarrow> int" where
  "bounded_wait timeout =
     (let requested = if timeout \<noteq> 0 then \<lceil>timeout\<rceil> else max_interactive_wait_sec
      in max 1 (min requested max_interactive_wait_sec))"

definition stall_error :: "string \<Rightarrow> mi_failure" where
  "stall_error verb = Gdb_mi_error INFRASTRUCTURE_FAILURE [(''code'', RawStr ''transport_stall''), (''verb'', RawStr verb)]"

definition resume :: "'w mi_env \<Rightarrow> string \<Rightarrow> rat \<Rightarrow> ('w, stop_record) mi_op" where
  "resume env verb timeout =
     mi_bind (run_command env verb) (\<lambda>_.
     mi_bind (wait_for_stop env (of_int (bounded_wait timeout))) (\<lambda>stop.
       case stop of
         Some s \<Rightarrow> mi_lift (redact_stop (mi_redactor env) s)
       | None \<Rightarrow>
           mi_bind (interrupt env) (\<lambda>interrupted.
             case interrupted of
               None \<Rightarrow> mi_raise (stall_error verb)
             | Some s \<Rightarrow> mi_lift (redact_stop (mi_redactor env) (s\<lparr>st_timed_out := True\<rparr>)))))"

definition continue_execution :: "'w mi_env \<Rightarrow> rat \<Rightarrow> ('w, stop_record) mi_op" where
  "continue_execution env t = resume env ''-exec-continue'' t"

definition step_line :: "'w mi_env \<Rightarrow> rat \<Rightarrow> ('w, stop_record) mi_op" where
  "step_line env t = resume env ''-exec-step'' t"

definition next_line :: "'w mi_env \<Rightarrow> rat \<Rightarrow> ('w, stop_record) mi_op" where
  "next_line env t = resume env ''-exec-next'' t"

definition finish_frame :: "'w mi_env \<Rightarrow> rat \<Rightarrow> ('w, stop_record) mi_op" where
  "finish_frame env t = resume env ''-exec-finish'' t"

text \<open>Teardown: every step is tried, whatever the ones before it did.\<close>

definition resume_inferior :: "'w mi_env \<Rightarrow> 'w \<Rightarrow> bool \<times> 'w" where
  "resume_inferior env w =
     (let w1 = snd (ctl_write env ''-exec-continue'' w);
          w2 = snd (ctl_write env ''-target-disconnect'' w1);
          w3 = snd (ctl_exit env w2)
      in (True, w3))"

subsection \<open>Attach\<close>

definition as_attach_failure :: "error_category \<Rightarrow> (string \<times> raw) list \<Rightarrow> mi_failure" where
  "as_attach_failure c d =
     (if c = DEBUG_ATTACH_FAILURE \<and> map_of d ''code'' \<noteq> Some (RawStr ''transport_stall'') then Gdb_mi_error c d
      else Gdb_mi_error DEBUG_ATTACH_FAILURE (filter (\<lambda>(k, v). k \<noteq> ''code'') d))"

definition connect_retry_count :: nat where
  "connect_retry_count = 3"

definition connect_command :: "string \<Rightarrow> int \<Rightarrow> string" where
  "connect_command host port = ''-target-select remote '' @ host @ '':'' @ show_int port"

fun connect_attempts :: "'w mi_env \<Rightarrow> string \<Rightarrow> nat \<Rightarrow> ('w, unit) mi_op" where
  "connect_attempts env command 0 st = (Inl (Gdb_mi_error DEBUG_ATTACH_FAILURE []), st)"
| "connect_attempts env command (Suc n) st =
     (case run_command env command st of
        (Inr _, st') \<Rightarrow> (Inr (), st')
      | (Inl (Gdb_mi_error c d), (rs, w)) \<Rightarrow>
          if n > 0 then connect_attempts env command n (rs, backoff env w)
          else (Inl (as_attach_failure c d), (rs, w))
      | (Inl (Other_exception x), st') \<Rightarrow> (Inl (Other_exception x), st'))"

definition connect_with_retry :: "'w mi_env \<Rightarrow> string \<Rightarrow> int \<Rightarrow> ('w, unit) mi_op" where
  "connect_with_retry env host port = connect_attempts env (connect_command host port) connect_retry_count"

definition rsp_remote_timeout_sec :: int where
  "rsp_remote_timeout_sec = 30"

definition validate_rsp_host :: "bool \<Rightarrow> string \<Rightarrow> (mi_failure, unit) result" where
  "validate_rsp_host aware h = require (loopback_literal aware h) (Gdb_mi_error CONFIGURATION_ERROR [])"

definition validate_endpoint :: "bool \<Rightarrow> endpoint option \<Rightarrow> (mi_failure, string \<times> int) result" where
  "validate_endpoint aware e =
     (case e of
        Some (TcpEndpoint h p) \<Rightarrow> rthen (validate_rsp_host aware h) (Inr (h, p))
      | Some (UnixSocketEndpoint s m) \<Rightarrow> Inl (Gdb_mi_error CONFIGURATION_ERROR [(''rsp_endpoint'', RawStr ''unix'')])
      | None \<Rightarrow> Inl (Gdb_mi_error CONFIGURATION_ERROR [(''rsp_endpoint'', RawNone)]))"

definition mi_path :: "string \<Rightarrow> (mi_failure, string) result" where
  "mi_path text =
     (if \<exists>c \<in> set text. c = CHR 0x09 \<or> c = CHR 0x0D \<or> c = CHR 0x0A then Inl (Gdb_mi_error CONFIGURATION_ERROR [])
      else Inr (replace_all '' '' (CHR 0x5C # '' '') (replace_all [CHR 0x5C] [CHR 0x5C, CHR 0x5C] text)))"

definition resolve_vmlinux :: "host \<Rightarrow> path \<Rightarrow> (mi_failure, path) result" where
  "resolve_vmlinux h p =
     (case rbind (expanduser h p) (resolve_path h) of
        Inl _ \<Rightarrow> Inl (Other_exception ''RuntimeError'')
      | Inr q \<Rightarrow> if is_file h q then Inr q
                 else Inl (Gdb_mi_error CONFIGURATION_ERROR [(''vmlinux_path'', RawStr (str_path p))]))"

definition attach_steps :: "'w mi_env \<Rightarrow> string \<Rightarrow> int \<Rightarrow> path \<Rightarrow> ('w, unit) mi_op" where
  "attach_steps env h p vmlinux =
     mi_bind (run_command env ''-gdb-set confirm off'') (\<lambda>_.
     mi_bind (run_command env ''-gdb-set pagination off'') (\<lambda>_.
     mi_bind (run_command env ''-gdb-set mi-async on'') (\<lambda>_.
     mi_bind (mi_lift (mi_path (str_path vmlinux))) (\<lambda>mp.
     mi_bind (run_command env (''-file-exec-and-symbols '' @ mp)) (\<lambda>_.
     mi_bind (run_command env (''-gdb-set remotetimeout '' @ show_int rsp_remote_timeout_sec)) (\<lambda>_.
     connect_with_retry env h p))))))"

record attachment =
  at_host :: string
  at_port :: int
  at_records :: "mi_record list"

definition attach_inputs :: "'w mi_env \<Rightarrow> endpoint option \<Rightarrow> path \<Rightarrow> (mi_failure, (string \<times> int) \<times> string \<times> path) result" where
  "attach_inputs env e vmlinux =
     rbind (validate_endpoint (mapped_aware env) e) (\<lambda>hp.
     rbind (case gdb_path env of
              None \<Rightarrow> Inl (Gdb_mi_error MISSING_DEPENDENCY [(''missing_tools'', RawList [RawStr ''gdb''])])
            | Some g \<Rightarrow> Inr g) (\<lambda>g.
     rbind (resolve_vmlinux (mi_host env) vmlinux) (\<lambda>v. Inr (hp, g, v))))"

definition attach :: "'w mi_env \<Rightarrow> endpoint option \<Rightarrow> path \<Rightarrow> 'w \<Rightarrow> (mi_failure, attachment) result \<times> 'w" where
  "attach env e vmlinux w =
     (case attach_inputs env e vmlinux of
        Inl err \<Rightarrow> (Inl err, w)
      | Inr ((h, p), g, v) \<Rightarrow>
          (case start_gdb env [g, ''--nx'', ''--quiet'', ''--interpreter=mi3''] w of
             (Inl err, w1) \<Rightarrow> (Inl err, w1)
           | (Inr _, w1) \<Rightarrow>
               (case attach_steps env h p v ([], w1) of
                  (Inl (Gdb_mi_error c d), (rs, w2)) \<Rightarrow> (Inl (as_attach_failure c d), snd (ctl_exit env w2))
                | (Inl (Other_exception x), (rs, w2)) \<Rightarrow> (Inl (Other_exception x), w2)
                | (Inr _, (rs, w2)) \<Rightarrow> (Inr \<lparr>at_host = h, at_port = p, at_records = rs\<rparr>, w2))))"

definition probe_read :: "attachment \<Rightarrow> (mi_failure, mi_record) result" where
  "probe_read a =
     (case List.find (\<lambda>r. mr_type r = ''result'' \<and> mr_message r = Some ''connected'') (at_records a) of
        Some r \<Rightarrow> Inr r
      | None \<Rightarrow> Inl (Gdb_mi_error DEBUG_ATTACH_FAILURE
                  [(''rsp_endpoint'', RawStr (at_host a @ '':'' @ show_int (at_port a)))]))"

subsection \<open>Patterns of the arguments\<close>

definition ident_start :: "char \<Rightarrow> bool" where
  "ident_start c \<longleftrightarrow> upper_az c \<or> lower_az c \<or> c = CHR ''_''"

text \<open>\<open>^[first][rest]*$\<close>: the dollar also matches before a final newline.\<close>

definition dollar_rx :: "(char \<Rightarrow> bool) \<Rightarrow> (char \<Rightarrow> bool) \<Rightarrow> char rx" where
  "dollar_rx P Q = RSeq (RCls P) (RSeq (RStar (RCls Q)) (RAssert (at_dollar (CHR 0x0A))))"

definition matches_rx :: "char rx \<Rightarrow> string \<Rightarrow> bool" where
  "matches_rx r s \<longleftrightarrow> re_match r s \<noteq> None"

definition symbol_name_rx :: "char rx" where
  "symbol_name_rx = dollar_rx ident_start word_char"

definition register_rx :: "char rx" where
  "register_rx = dollar_rx (\<lambda>c. upper_az c \<or> lower_az c) word_char"

definition break_id_rx :: "char rx" where
  "break_id_rx = dollar_rx is_digit is_digit"

definition hex_address_rx :: "char rx" where
  "hex_address_rx = RSeq (rx_lit ''0x'') (dollar_rx (\<lambda>c. hex_digit c \<noteq> None) (\<lambda>c. hex_digit c \<noteq> None))"

definition section_char :: "char \<Rightarrow> bool" where
  "section_char c \<longleftrightarrow> word_char c \<or> c = CHR ''.''"

definition section_name_rx :: "char rx" where
  "section_name_rx = RSeq (rx_lit ''.'') (dollar_rx section_char section_char)"

definition canonical_probe_symbol :: string where
  "canonical_probe_symbol = ''linux_banner''"

abbreviation config_failure :: "(string \<times> raw) list \<Rightarrow> mi_failure" where
  "config_failure d \<equiv> Gdb_mi_error CONFIGURATION_ERROR d"

definition mi_guard :: "bool \<Rightarrow> (string \<times> raw) list \<Rightarrow> ('w, unit) mi_op" where
  "mi_guard b d = mi_lift (require b (config_failure d))"

subsection \<open>Symbols and expressions\<close>

text \<open>The text value of an evaluated expression.\<close>

definition value_of :: "mi_record list \<Rightarrow> (string \<times> raw) list \<Rightarrow> (mi_failure, string) result" where
  "value_of rs d = (case text_field ''value'' (result_dict rs) of
     None \<Rightarrow> Inl (Gdb_mi_error DEBUG_ATTACH_FAILURE d) | Some v \<Rightarrow> Inr v)"

definition resolve_symbol :: "'w mi_env \<Rightarrow> string \<Rightarrow> ('w, string) mi_op" where
  "resolve_symbol env name =
     mi_bind (mi_guard (matches_rx symbol_name_rx name) [(''symbol'', RawStr name)]) (\<lambda>_.
     mi_bind (run_command env (''-data-evaluate-expression '' @ [CHR 0x22, CHR ''&''] @ name @ [CHR 0x22])) (\<lambda>rs.
     mi_lift (value_of rs [(''symbol'', RawStr name)])))"

definition evaluate_expression :: "'w mi_env \<Rightarrow> string \<Rightarrow> ('w, string) mi_op" where
  "evaluate_expression env quoted =
     mi_bind (run_command env (''-data-evaluate-expression '' @ quoted)) (\<lambda>rs.
     mi_lift (value_of rs [(''expr'', RawStr quoted)]))"

definition quoted :: "string \<Rightarrow> string" where
  "quoted s = [CHR 0x22] @ s @ [CHR 0x22]"

definition read_symbol :: "'w mi_env \<Rightarrow> string \<Rightarrow> ('w, raw) mi_op" where
  "read_symbol env symbol =
     mi_bind (mi_guard (matches_rx symbol_name_rx symbol) [(''symbol'', RawStr symbol)]) (\<lambda>_.
     mi_bind (evaluate_expression env (quoted symbol)) (\<lambda>v.
     mi_ret (redact_value (mi_redactor env)
       (RawMap [(KStr ''symbol'', RawStr symbol), (KStr ''value'', RawStr v)]))))"

definition evaluate_inspector :: "'w mi_env \<Rightarrow> string \<Rightarrow> dict_items \<Rightarrow> ('w, raw) mi_op" where
  "evaluate_inspector env inspector arguments =
     (if inspector = ''kernel_version'' then
        mi_bind (evaluate_expression env (quoted canonical_probe_symbol)) (\<lambda>v.
        mi_ret (redact_value (mi_redactor env)
          (RawMap [(KStr ''inspector'', RawStr inspector), (KStr ''kernel_version'', RawStr v)])))
      else if inspector = ''symbol_address'' then
        (case text_field ''symbol'' arguments of
           None \<Rightarrow> mi_raise (config_failure [])
         | Some symbol \<Rightarrow>
             mi_bind (mi_guard (matches_rx symbol_name_rx symbol) []) (\<lambda>_.
             mi_bind (resolve_symbol env symbol) (\<lambda>v.
             mi_ret (redact_value (mi_redactor env)
               (RawMap [(KStr ''inspector'', RawStr inspector), (KStr ''symbol'', RawStr symbol),
                  (KStr ''address'', RawStr v)])))))
      else mi_raise (config_failure [(''inspector'', RawStr inspector)]))"

subsection \<open>Modules\<close>

definition console_ko :: "string \<Rightarrow> (mi_failure, string) result" where
  "console_ko text =
     (if \<exists>c \<in> set text. c \<in> {CHR '' '', CHR 0x09, CHR 0x0D, CHR 0x0A, CHR 0x22}
      then Inl (config_failure [(''ko_path'', RawStr text)]) else Inr text)"

definition check_sections :: "string \<Rightarrow> (string \<times> string) list \<Rightarrow> (mi_failure, unit) result" where
  "check_sections name sections =
     check_all (map (\<lambda>(section, address).
       require (matches_rx section_name_rx section \<and> matches_rx hex_address_rx address)
         (config_failure [(''module'', RawStr name), (''section'', RawStr section)])) sections)"

definition section_arguments :: "(string \<times> string) list \<Rightarrow> string" where
  "section_arguments sections =
     concat (map (\<lambda>s. '' -s '' @ s @ '' '' @ the (map_of sections s))
       (filter (\<lambda>s. s \<noteq> ''.text'') (sort (map fst sections))))"

definition add_symbol_file :: "string \<Rightarrow> string \<Rightarrow> (string \<times> string) list \<Rightarrow> string" where
  "add_symbol_file ko text_address sections =
     ''-interpreter-exec console '' @ quoted (''add-symbol-file '' @ ko @ '' '' @ text_address @ section_arguments sections)"

record loaded_module =
  lm_name :: string
  lm_sections :: "(string \<times> string) list"

fun text_items :: "dict_items \<Rightarrow> (string \<times> string) list option" where
  "text_items [] = Some []"
| "text_items ((KStr k, RawStr v) # xs) = map_option (\<lambda>ys. (k, v) # ys) (text_items xs)"
| "text_items _ = None"

definition loaded_module_of :: "raw \<Rightarrow> (mi_failure, loaded_module) result" where
  "loaded_module_of v =
     (case (get_field ''name'' (dict_of v), get_field ''sections'' (dict_of v)) of
        (RawStr n, RawMap items) \<Rightarrow>
          (case text_items items of Some ss \<Rightarrow> Inr \<lparr>lm_name = n, lm_sections = ss\<rparr> | None \<Rightarrow> Inl validation_error)
      | _ \<Rightarrow> Inl validation_error)"

definition load_module_symbols ::
  "'w mi_env \<Rightarrow> string \<Rightarrow> string \<Rightarrow> (string \<times> string) list \<Rightarrow> ('w, loaded_module) mi_op" where
  "load_module_symbols env name ko_path sections =
     (case map_of sections ''.text'' of
        None \<Rightarrow> mi_raise (config_failure [(''module'', RawStr name)])
      | Some text_address \<Rightarrow>
          mi_bind (mi_lift (check_sections name sections)) (\<lambda>_.
          mi_bind (mi_lift (console_ko ko_path)) (\<lambda>ko.
          mi_bind (run_command env (add_symbol_file ko text_address sections)) (\<lambda>_.
          mi_lift (loaded_module_of (redact_value (mi_redactor env)
            (RawMap [(KStr ''name'', RawStr name),
               (KStr ''sections'', RawMap (map (\<lambda>(s, a). (KStr s, RawStr a)) sections))])))))))"

subsection \<open>Breakpoints and watchpoints\<close>

record breakpoint_ref =
  bp_number :: string
  bp_type :: "string option"
  bp_addr :: "string option"
  bp_func :: "string option"
  bp_what :: "string option"

text \<open>\<open>str(value)\<close>.\<close>

definition py_str :: "(raw \<Rightarrow> string) \<Rightarrow> raw \<Rightarrow> string" where
  "py_str repr v = (case v of RawStr s \<Rightarrow> s | RawNone \<Rightarrow> ''None'' | _ \<Rightarrow> repr v)"

definition breakpoint_of :: "raw \<Rightarrow> (mi_failure, breakpoint_ref) result" where
  "breakpoint_of v =
     (let items = dict_of v in
      case (get_field ''number'' items, field_of opt_text ''type'' items, field_of opt_text ''addr'' items,
            field_of opt_text ''func'' items, field_of opt_text ''what'' items) of
        (RawStr n, Some ty, Some ad, Some fn, Some wh) \<Rightarrow>
          Inr \<lparr>bp_number = n, bp_type = ty, bp_addr = ad, bp_func = fn, bp_what = wh\<rparr>
      | _ \<Rightarrow> Inl validation_error)"

definition breakpoint_ref_from :: "'w mi_env \<Rightarrow> dict_items \<Rightarrow> (mi_failure, breakpoint_ref) result" where
  "breakpoint_ref_from env entry =
     breakpoint_of (redact_value (mi_redactor env)
       (RawMap [(KStr ''number'', RawStr (py_str (py_repr env) (get_field ''number'' entry))),
          (KStr ''type'', opt_raw (text_field ''type'' entry)), (KStr ''addr'', opt_raw (text_field ''addr'' entry)),
          (KStr ''func'', opt_raw (text_field ''func'' entry)), (KStr ''what'', opt_raw (text_field ''what'' entry))]))"

definition breakpoint_result :: "'w mi_env \<Rightarrow> mi_record list \<Rightarrow> string \<Rightarrow> (mi_failure, breakpoint_ref) result" where
  "breakpoint_result env rs key =
     (case get_field key (result_dict rs) of
        RawMap entry \<Rightarrow> breakpoint_ref_from env entry
      | _ \<Rightarrow> Inl (Gdb_mi_error DEBUG_ATTACH_FAILURE [(''command_key'', RawStr key)]))"

definition set_breakpoint :: "'w mi_env \<Rightarrow> string \<Rightarrow> ('w, breakpoint_ref) mi_op" where
  "set_breakpoint env location =
     mi_bind (mi_guard (matches_rx symbol_name_rx location) [(''location'', RawStr location)]) (\<lambda>_.
     mi_bind (run_command env (''-break-insert -h '' @ location)) (\<lambda>rs.
     mi_lift (breakpoint_result env rs ''bkpt'')))"

definition set_watchpoint :: "'w mi_env \<Rightarrow> string \<Rightarrow> ('w, breakpoint_ref) mi_op" where
  "set_watchpoint env expression =
     mi_bind (mi_guard (matches_rx symbol_name_rx expression) [(''expression'', RawStr expression)]) (\<lambda>_.
     mi_bind (run_command env (''-break-watch '' @ expression)) (\<lambda>rs.
     mi_lift (breakpoint_result env rs ''wpt'')))"

definition clear_breakpoint :: "'w mi_env \<Rightarrow> string \<Rightarrow> ('w, unit) mi_op" where
  "clear_breakpoint env number =
     mi_bind (mi_guard (matches_rx break_id_rx number) [(''number'', RawStr number)]) (\<lambda>_.
     mi_bind (run_command env (''-break-delete '' @ number)) (\<lambda>_. mi_ret ()))"

definition clear_watchpoint :: "'w mi_env \<Rightarrow> string \<Rightarrow> ('w, unit) mi_op" where
  "clear_watchpoint env number = clear_breakpoint env number"

fun collect_results :: "(mi_failure, 'a) result list \<Rightarrow> (mi_failure, 'a list) result" where
  "collect_results [] = Inr []"
| "collect_results (x # xs) = rbind x (\<lambda>y. rbind (collect_results xs) (\<lambda>ys. Inr (y # ys)))"

text \<open>The dicts under a key of the rows that are dicts.\<close>

definition row_entries :: "string \<Rightarrow> raw list \<Rightarrow> dict_items list" where
  "row_entries key rows =
     concat (map (\<lambda>row. case get_field key (dict_of row) of RawMap entry \<Rightarrow> [entry] | _ \<Rightarrow> []) rows)"

definition list_breakpoints :: "'w mi_env \<Rightarrow> ('w, breakpoint_ref list) mi_op" where
  "list_breakpoints env =
     mi_bind (run_command env ''-break-list'') (\<lambda>rs.
       let table = dict_of (get_field ''BreakpointTable'' (result_dict rs));
           rows = list_of (get_field ''body'' table)
       in mi_lift (collect_results (map (breakpoint_ref_from env) (row_entries ''bkpt'' rows))))"

subsection \<open>Stack, registers and memory\<close>

definition frame_row :: "raw \<Rightarrow> dict_items option" where
  "frame_row row =
     (case row of
        RawMap items \<Rightarrow> Some (case get_field ''frame'' items of RawMap wrapped \<Rightarrow> wrapped | _ \<Rightarrow> items)
      | _ \<Rightarrow> None)"

definition backtrace :: "'w mi_env \<Rightarrow> ('w, frame list) mi_op" where
  "backtrace env =
     mi_bind (run_command env ''-stack-list-frames'') (\<lambda>rs.
       mi_lift (collect_results (map (\<lambda>items. frame_from (dict_of (redact_value (mi_redactor env) (RawMap items))))
         (List.map_filter frame_row (list_of (get_field ''stack'' (result_dict rs)))))))"

record variable =
  va_name :: string
  va_value :: "string option"

definition max_response_snippet :: nat where
  "max_response_snippet = 4096"

definition variable_of :: "raw \<Rightarrow> (mi_failure, variable) result" where
  "variable_of v =
     (case (get_field ''name'' (dict_of v), field_of opt_text ''value'' (dict_of v)) of
        (RawStr n, Some t) \<Rightarrow> Inr \<lparr>va_name = n, va_value = t\<rparr>
      | _ \<Rightarrow> Inl validation_error)"

definition variable_row :: "redactor \<Rightarrow> raw \<Rightarrow> (mi_failure, variable) result option" where
  "variable_row rd row =
     (case text_field ''name'' (dict_of row) of
        None \<Rightarrow> None
      | Some n \<Rightarrow> Some (variable_of (redact_value rd
          (RawMap [(KStr ''name'', RawStr n),
             (KStr ''value'', opt_raw (map_option (take max_response_snippet) (text_field ''value'' (dict_of row))))]))))"

definition list_variables :: "'w mi_env \<Rightarrow> ('w, variable list) mi_op" where
  "list_variables env =
     mi_bind (run_command env ''-stack-list-variables --all-values'') (\<lambda>rs.
       mi_lift (collect_results (List.map_filter (variable_row (mi_redactor env))
         (list_of (get_field ''variables'' (result_dict rs))))))"

text \<open>A dict keyed by the numbers of the rows; a list or dict as a key raises.\<close>

fun hashable :: "raw \<Rightarrow> bool" where
  "hashable (RawMap items) = False"
| "hashable (RawList xs) = False"
| "hashable _ = True"

definition row_dicts :: "raw list \<Rightarrow> dict_items list" where
  "row_dicts rows = concat (map (\<lambda>row. case row of RawMap items \<Rightarrow> [items] | _ \<Rightarrow> []) rows)"

definition by_number :: "raw list \<Rightarrow> (mi_failure, (raw \<times> raw) list) result" where
  "by_number rows =
     (let pairs = map (\<lambda>items. (get_field ''number'' items, get_field ''value'' items)) (row_dicts rows)
      in if \<forall>(k, v) \<in> set pairs. hashable k then Inr (rev pairs) else Inl (Other_exception ''TypeError''))"

definition index_of :: "string \<Rightarrow> raw list \<Rightarrow> nat option" where
  "index_of name names = find_char (RawStr name) names"

fun pick_registers :: "raw list \<Rightarrow> (raw \<times> raw) list \<Rightarrow> string list \<Rightarrow> (string \<times> raw) list \<Rightarrow> (string \<times> raw) list" where
  "pick_registers names numbers [] acc = acc"
| "pick_registers names numbers (n # ns) acc =
     (case index_of n names of
        None \<Rightarrow> pick_registers names numbers ns acc
      | Some i \<Rightarrow>
          (case map_of numbers (RawStr (show_nat i)) of
             None \<Rightarrow> pick_registers names numbers ns acc
           | Some v \<Rightarrow> pick_registers names numbers ns (dict_set n v acc)))"

definition read_registers :: "'w mi_env \<Rightarrow> string list \<Rightarrow> ('w, raw) mi_op" where
  "read_registers env names =
     mi_bind (mi_guard (names \<noteq> []) []) (\<lambda>_.
     mi_bind (mi_guard (\<forall>n \<in> set names. matches_rx register_rx n) []) (\<lambda>_.
     mi_bind (run_command env ''-data-list-register-names'') (\<lambda>rs1.
     mi_bind (run_command env ''-data-list-register-values x'') (\<lambda>rs2.
     mi_bind (mi_lift (by_number (list_of (get_field ''register-values'' (result_dict rs2))))) (\<lambda>numbers.
       let registers = pick_registers (list_of (get_field ''register-names'' (result_dict rs1))) numbers names []
       in mi_ret (redact_value (mi_redactor env)
            (RawMap [(KStr ''registers'', RawMap (map (\<lambda>(n, v). (KStr n, v)) registers))])))))))"

definition max_memory_read_bytes :: int where
  "max_memory_read_bytes = 4096"

definition memory_command :: "int \<Rightarrow> int \<Rightarrow> string" where
  "memory_command address byte_count =
     ''-data-read-memory-bytes 0x'' @ show_hex (nat address) @ '' '' @ show_int byte_count"

definition read_memory :: "'w mi_env \<Rightarrow> int \<Rightarrow> int \<Rightarrow> ('w, raw) mi_op" where
  "read_memory env address byte_count =
     mi_bind (mi_guard (0 \<le> address \<and> address \<le> 0xFFFFFFFFFFFFFFFF) []) (\<lambda>_.
     mi_bind (mi_guard (1 \<le> byte_count \<and> byte_count \<le> max_memory_read_bytes) []) (\<lambda>_.
     mi_bind (run_command env (memory_command address byte_count)) (\<lambda>rs.
     mi_ret (redact_value (mi_redactor env)
       (RawMap [(KStr ''address'', RawStr (''0x'' @ show_hex (nat address))), (KStr ''byte_count'', RawInt byte_count),
          (KStr ''memory'', case map_of (result_dict rs) (KStr ''memory'') of None \<Rightarrow> RawList [] | Some m \<Rightarrow> m)])))))"

subsection \<open>The registry of live engines\<close>

type_synonym live_sessions = "(string \<times> attachment) list"

definition session_register :: "string \<Rightarrow> attachment \<Rightarrow> live_sessions \<Rightarrow> live_sessions" where
  "session_register sid a ls = dict_set sid a ls"

definition session_get :: "string \<Rightarrow> live_sessions \<Rightarrow> attachment option" where
  "session_get sid ls = map_of ls sid"

definition session_require :: "string \<Rightarrow> live_sessions \<Rightarrow> (mi_failure, attachment) result" where
  "session_require sid ls =
     (case session_get sid ls of
        Some a \<Rightarrow> Inr a
      | None \<Rightarrow> Inl (config_failure [(''code'', RawStr ''no_live_session''), (''debug_session_id'', RawStr sid)]))"

definition session_reap :: "string \<Rightarrow> live_sessions \<Rightarrow> attachment option \<times> live_sessions" where
  "session_reap sid ls = (map_of ls sid, dict_pop sid ls)"

end
