(* ===== verification/DebugOps.thy ===== *)
theory DebugOps
  imports GdbMi
begin

text \<open>
  Models the requests of \<open>src/kdive/debug/contracts.py\<close> and their dispatch onto a live engine in
  \<open>debug/operations.py\<close>. A request class is a constructor, its class attributes are functions.
\<close>

datatype debug_request =
    Read_registers "string list"
  | Read_symbol string
  | Read_memory int int
  | Evaluate string dict_items
  | Set_breakpoint string
  | Set_watchpoint string
  | Clear_breakpoint string
  | Clear_watchpoint string
  | List_breakpoints
  | Backtrace
  | List_variables
  | Continue_request "int option"
  | Step_request "int option"
  | Next_request "int option"
  | Finish_request "int option"
  | Interrupt_request "int option"

fun profile_operation :: "debug_request \<Rightarrow> string" where
  "profile_operation (Read_registers _) = ''debug.read_registers''"
| "profile_operation (Read_symbol _) = ''debug.read_symbol''"
| "profile_operation (Read_memory _ _) = ''debug.read_memory''"
| "profile_operation (Evaluate _ _) = ''debug.evaluate''"
| "profile_operation (Set_breakpoint _) = ''debug.set_breakpoint''"
| "profile_operation (Set_watchpoint _) = ''debug.set_watchpoint''"
| "profile_operation (Clear_breakpoint _) = ''debug.clear_breakpoint''"
| "profile_operation (Clear_watchpoint _) = ''debug.clear_watchpoint''"
| "profile_operation List_breakpoints = ''debug.list_breakpoints''"
| "profile_operation Backtrace = ''debug.backtrace''"
| "profile_operation List_variables = ''debug.list_variables''"
| "profile_operation (Continue_request _) = ''debug.continue''"
| "profile_operation (Step_request _) = ''debug.step''"
| "profile_operation (Next_request _) = ''debug.next''"
| "profile_operation (Finish_request _) = ''debug.finish''"
| "profile_operation (Interrupt_request _) = ''debug.interrupt''"

fun persist_manifest :: "debug_request \<Rightarrow> bool" where
  "persist_manifest (Set_breakpoint _) = True"
| "persist_manifest (Set_watchpoint _) = True"
| "persist_manifest (Clear_breakpoint _) = True"
| "persist_manifest (Clear_watchpoint _) = True"
| "persist_manifest (Continue_request _) = True"
| "persist_manifest (Step_request _) = True"
| "persist_manifest (Next_request _) = True"
| "persist_manifest (Finish_request _) = True"
| "persist_manifest (Interrupt_request _) = True"
| "persist_manifest _ = False"

fun requires_admission_fence :: "debug_request \<Rightarrow> bool" where
  "requires_admission_fence (Read_registers _) = False"
| "requires_admission_fence (Read_symbol _) = False"
| "requires_admission_fence (Read_memory _ _) = False"
| "requires_admission_fence (Evaluate _ _) = False"
| "requires_admission_fence _ = True"

fun breakpoint_mutator :: "debug_request \<Rightarrow> bool" where
  "breakpoint_mutator (Set_breakpoint _) = True"
| "breakpoint_mutator (Set_watchpoint _) = True"
| "breakpoint_mutator (Clear_breakpoint _) = True"
| "breakpoint_mutator (Clear_watchpoint _) = True"
| "breakpoint_mutator _ = False"

definition execution_timeout :: "int option \<Rightarrow> rat" where
  "execution_timeout t = of_int (case t of None \<Rightarrow> max_interactive_wait_sec | Some n \<Rightarrow> n)"

definition dump_breakpoint :: "breakpoint_ref \<Rightarrow> raw" where
  "dump_breakpoint b = RawMap [(KStr ''number'', RawStr (bp_number b)), (KStr ''type'', opt_raw (bp_type b)),
     (KStr ''addr'', opt_raw (bp_addr b)), (KStr ''func'', opt_raw (bp_func b)), (KStr ''what'', opt_raw (bp_what b)),
     (KStr ''enabled'', RawNone)]"

definition dump_variable :: "variable \<Rightarrow> raw" where
  "dump_variable v = RawMap [(KStr ''name'', RawStr (va_name v)), (KStr ''value'', opt_raw (va_value v))]"

definition stopped_data :: "stop_record \<Rightarrow> raw" where
  "stopped_data s = RawMap [(KStr ''stop'', dump_stop s), (KStr ''current_execution_state'', RawStr ''stopped'')]"

definition mi_map :: "('a \<Rightarrow> 'b) \<Rightarrow> ('w, 'a) mi_op \<Rightarrow> ('w, 'b) mi_op" where
  "mi_map f m = mi_bind m (\<lambda>x. mi_ret (f x))"

fun engine_op_data :: "'w mi_env \<Rightarrow> debug_request \<Rightarrow> ('w, raw) mi_op" where
  "engine_op_data env (Read_registers names) = read_registers env names"
| "engine_op_data env (Read_symbol s) = read_symbol env s"
| "engine_op_data env (Read_memory a n) =
     (if a < 0 then mi_raise (config_failure [])
      else if \<not> (0 < n \<and> n \<le> max_memory_read_bytes) then mi_raise (config_failure [])
      else read_memory env a n)"
| "engine_op_data env (Evaluate i args) = evaluate_inspector env i args"
| "engine_op_data env (Set_breakpoint s) =
     mi_map (\<lambda>b. RawMap [(KStr ''breakpoint'', dump_breakpoint b)]) (set_breakpoint env s)"
| "engine_op_data env (Set_watchpoint s) =
     mi_map (\<lambda>b. RawMap [(KStr ''breakpoint'', dump_breakpoint b)]) (set_watchpoint env s)"
| "engine_op_data env (Clear_breakpoint b) = mi_map (\<lambda>_. RawMap []) (clear_breakpoint env b)"
| "engine_op_data env (Clear_watchpoint b) = mi_map (\<lambda>_. RawMap []) (clear_watchpoint env b)"
| "engine_op_data env List_breakpoints =
     mi_map (\<lambda>bs. RawMap [(KStr ''breakpoints'', RawList (map dump_breakpoint bs))]) (list_breakpoints env)"
| "engine_op_data env Backtrace =
     mi_map (\<lambda>fs. RawMap [(KStr ''frames'', RawList (map dump_frame fs))]) (backtrace env)"
| "engine_op_data env List_variables =
     mi_map (\<lambda>vs. RawMap [(KStr ''variables'', RawList (map dump_variable vs))]) (list_variables env)"
| "engine_op_data env (Continue_request t) = mi_map stopped_data (continue_execution env (execution_timeout t))"
| "engine_op_data env (Step_request t) = mi_map stopped_data (step_line env (execution_timeout t))"
| "engine_op_data env (Next_request t) = mi_map stopped_data (next_line env (execution_timeout t))"
| "engine_op_data env (Finish_request t) = mi_map stopped_data (finish_frame env (execution_timeout t))"
| "engine_op_data env (Interrupt_request t) =
     mi_raise (config_failure [(''operation'', RawStr (profile_operation (Interrupt_request t)))])"

end
