(* ===== verification/GdbMiTap.thy ===== *)
theory GdbMiTap
  imports DebugOps RedactionProps
begin

text \<open>
  What the engine does to gdb, for any controller: a tap around the controller records the
  commands, the transcript entries, the reads and the exits, and each operation of the
  engine is bounded in them.
\<close>

subsection \<open>A controller with a tap\<close>

record 'w tap =
  tap_commands :: "string list"
  tap_entries :: "raw list"
  tap_reads :: nat
  tap_exits :: nat
  tap_world :: 'w

definition tapped :: "('a \<times> 'w) \<Rightarrow> 'w tap \<Rightarrow> 'a \<times> 'w tap" where
  "tapped x t = (fst x, t\<lparr>tap_world := snd x\<rparr>)"

definition traced :: "'w mi_env \<Rightarrow> 'w tap mi_env" where
  "traced env = \<lparr>
     ctl_write = (\<lambda>c t. tapped (ctl_write env c (tap_world t)) (t\<lparr>tap_commands := tap_commands t @ [c]\<rparr>)),
     ctl_read = (\<lambda>t. tapped (ctl_read env (tap_world t)) (t\<lparr>tap_reads := Suc (tap_reads t)\<rparr>)),
     ctl_exit = (\<lambda>t. tapped (ctl_exit env (tap_world t)) (t\<lparr>tap_exits := Suc (tap_exits t)\<rparr>)),
     start_gdb = (\<lambda>argv t. tapped (start_gdb env argv (tap_world t)) t),
     append_entry = (\<lambda>e t. tapped (append_entry env e (tap_world t)) (t\<lparr>tap_entries := tap_entries t @ [e]\<rparr>)),
     backoff = (\<lambda>t. t\<lparr>tap_world := backoff env (tap_world t)\<rparr>),
     observed_at = (\<lambda>t. observed_at env (tap_world t)),
     gdb_path = gdb_path env, mi_host = mi_host env, mi_redactor = mi_redactor env,
     mapped_aware = mapped_aware env, py_repr = py_repr env\<rparr>"

lemma traced_simps [simp]:
  "mi_redactor (traced env) = mi_redactor env" "mi_host (traced env) = mi_host env"
  "gdb_path (traced env) = gdb_path env" "mapped_aware (traced env) = mapped_aware env"
  "py_repr (traced env) = py_repr env"
  by (simp_all add: traced_def)

text \<open>An operation that writes only commands in \<open>C\<close>, stores only entries in \<open>E\<close>, reads at most
  \<open>n\<close> times and never exits.\<close>

definition tap_ok :: "(string \<Rightarrow> bool) \<Rightarrow> (raw \<Rightarrow> bool) \<Rightarrow> nat \<Rightarrow> ('w tap, 'a) mi_op \<Rightarrow> bool" where
  "tap_ok C E n op \<longleftrightarrow> (\<forall>rs t. \<exists>cs es k t'. snd (snd (op (rs, t))) = t' \<and>
     tap_commands t' = tap_commands t @ cs \<and> (\<forall>c \<in> set cs. C c) \<and>
     tap_entries t' = tap_entries t @ es \<and> (\<forall>e \<in> set es. E e) \<and>
     tap_reads t' = tap_reads t + k \<and> k \<le> n \<and> tap_exits t' = tap_exits t)"

named_theorems tap

lemma tap_lift [tap]: "tap_ok C E n (mi_lift r)"
  by (simp add: tap_ok_def mi_lift_def)

lemma tap_extend [tap]: "tap_ok C E n (mi_extend rs)"
  by (simp add: tap_ok_def mi_extend_def)

lemma tap_more: "tap_ok C E n op \<Longrightarrow> n \<le> m \<Longrightarrow> tap_ok C E m op"
  unfolding tap_ok_def by (meson order_trans)

lemma tap_bind_sum:
  assumes "tap_ok C E n m" and "\<And>x. tap_ok C E k (f x)"
  shows "tap_ok C E (n + k) (mi_bind m f)"
  unfolding tap_ok_def
proof (intro allI)
  fix rs t
  obtain r rs1 t1 where m: "m (rs, t) = (r, (rs1, t1))" by (metis prod_cases3)
  obtain cs es j where a: "tap_commands t1 = tap_commands t @ cs" "\<forall>c \<in> set cs. C c"
      "tap_entries t1 = tap_entries t @ es" "\<forall>e \<in> set es. E e"
      "tap_reads t1 = tap_reads t + j" "j \<le> n" "tap_exits t1 = tap_exits t"
    using assms(1) m unfolding tap_ok_def by (metis snd_conv)
  show "\<exists>cs es j t'. snd (snd (mi_bind m f (rs, t))) = t' \<and>
     tap_commands t' = tap_commands t @ cs \<and> (\<forall>c \<in> set cs. C c) \<and>
     tap_entries t' = tap_entries t @ es \<and> (\<forall>e \<in> set es. E e) \<and>
     tap_reads t' = tap_reads t + j \<and> j \<le> n + k \<and> tap_exits t' = tap_exits t"
  proof (cases r)
    case (Inl e)
    then show ?thesis using a m by (intro exI [of _ cs] exI [of _ es] exI [of _ j]) (simp add: mi_bind_def)
  next
    case (Inr x)
    obtain cs' es' j' t2 where b: "snd (snd (f x (rs1, t1))) = t2" "tap_commands t2 = tap_commands t1 @ cs'"
        "\<forall>c \<in> set cs'. C c" "tap_entries t2 = tap_entries t1 @ es'" "\<forall>e \<in> set es'. E e"
        "tap_reads t2 = tap_reads t1 + j'" "j' \<le> k" "tap_exits t2 = tap_exits t1"
      using assms(2) unfolding tap_ok_def by metis
    then show ?thesis
      using a m Inr
      by (intro exI [of _ "cs @ cs'"] exI [of _ "es @ es'"] exI [of _ "j + j'"]) (auto simp: mi_bind_def)
  qed
qed

text \<open>For the operations that do not read: the bound of the rest is that of the whole.\<close>

lemma tap_bind [tap]: "tap_ok C E 0 m \<Longrightarrow> (\<And>x. tap_ok C E n (f x)) \<Longrightarrow> tap_ok C E n (mi_bind m f)"
  using tap_bind_sum [of C E 0 m n f] by simp

lemma tap_map [tap]: "tap_ok C E n m \<Longrightarrow> tap_ok C E n (mi_map f m)"
  using tap_bind_sum [of C E n m 0 "\<lambda>x. mi_ret (f x)"] tap_lift unfolding mi_map_def by fastforce

lemma tap_write: "C c \<Longrightarrow> tap_ok C E n (mi_io (ctl_write (traced env) c))"
  by (auto simp: tap_ok_def mi_io_def traced_def tapped_def split: prod.splits)

lemma tap_read: "tap_ok C E 1 (mi_io (ctl_read (traced env)))"
  by (auto simp: tap_ok_def mi_io_def traced_def tapped_def split: prod.splits)

text \<open>What is stored is redacted.\<close>

definition clean :: "redactor \<Rightarrow> raw \<Rightarrow> bool" where
  "clean rd x \<longleftrightarrow> (\<forall>v \<in> set (secret_values rd). maskable v \<longrightarrow> (\<forall>s \<in> strings_of x. \<not> contains_sub v s))"

lemma clean_redacted [simp]: "clean rd (redact_value rd x)"
  using redact_strings_gone(1) unfolding clean_def by blast

lemma tap_append: "tap_ok C (clean (mi_redactor env)) n (append_transcript (traced env) c rs)"
  unfolding tap_ok_def
proof (intro allI)
  fix rs0 :: "mi_record list" and t :: "'a tap"
  let ?e = "redact_value (mi_redactor env) (RawMap [(KStr ''observed_at'', RawStr (observed_at env (tap_world t))),
     (KStr ''command'', RawStr c), (KStr ''records'', RawList (map dump_record rs))])"
  let ?t = "t\<lparr>tap_entries := tap_entries t @ [?e], tap_world := snd (append_entry env ?e (tap_world t))\<rparr>"
  have "snd (snd (append_transcript (traced env) c rs (rs0, t))) = ?t"
    by (simp add: append_transcript_def mi_io_def traced_def tapped_def split: prod.splits del: redact_value.simps)
  then show "\<exists>cs es k t'. snd (snd (append_transcript (traced env) c rs (rs0, t))) = t' \<and>
     tap_commands t' = tap_commands t @ cs \<and> (\<forall>c \<in> set cs. C c) \<and>
     tap_entries t' = tap_entries t @ es \<and> (\<forall>e \<in> set es. clean (mi_redactor env) e) \<and>
     tap_reads t' = tap_reads t + k \<and> k \<le> n \<and> tap_exits t' = tap_exits t"
    by (intro exI [of _ "[]"] exI [of _ "[?e]"] exI [of _ 0] exI [of _ ?t]) (simp del: redact_value.simps)
qed

lemma tap_write_command [tap]: "C c \<Longrightarrow> tap_ok C (clean (mi_redactor env)) n (write_command (traced env) c)"
  unfolding write_command_def by (intro tap tap_write tap_append)

lemma tap_run [tap]: "C c \<Longrightarrow> tap_ok C (clean (mi_redactor env)) n (run_command (traced env) c)"
  unfolding run_command_def
  by (intro tap) (simp_all add: tap_lift split: option.splits)

lemma tap_read_slice: "tap_ok C (clean (mi_redactor env)) 1 (read_slice (traced env))"
proof -
  have "tap_ok C (clean (mi_redactor env)) (1 + 0) (read_slice (traced env))"
    unfolding read_slice_def
    by (rule tap_bind_sum [OF tap_read]) (auto intro!: tap tap_append)
  then show ?thesis by simp
qed

lemma tap_poll: "tap_ok C (clean (mi_redactor env)) n (poll_stop (traced env) n)"
proof (induction n)
  case (Suc n)
  have "tap_ok C (clean (mi_redactor env)) (1 + n) (poll_stop (traced env) (Suc n))"
    unfolding poll_stop.simps
    by (rule tap_bind_sum [OF tap_read_slice]) (use Suc in \<open>auto intro: tap_lift split: option.splits\<close>)
  then show ?case by simp
qed (simp add: tap_lift)

lemma tap_wait: "tap_ok C (clean (mi_redactor env)) (poll_slices t) (wait_for_stop (traced env) t)"
  unfolding wait_for_stop_def by (rule tap_poll)

lemma interrupt_slices: "poll_slices interrupt_stop_timeout_sec = 21"
  by (simp add: poll_slices_def interrupt_stop_timeout_sec_def stop_poll_slice_sec_def truncate_rat_def)

lemma tap_interrupt:
  assumes "C ''-exec-interrupt''"
  shows "tap_ok C (clean (mi_redactor env)) 21 (interrupt (traced env))"
proof -
  have "tap_ok C (clean (mi_redactor env)) (0 + (21 + 0)) (interrupt (traced env))"
    unfolding interrupt_def
    by (rule tap_bind_sum, rule tap_write_command, rule assms, rule tap_bind_sum,
        rule tap_wait [of C env interrupt_stop_timeout_sec, unfolded interrupt_slices])
      (auto intro: tap_lift split: option.splits)
  then show ?thesis by simp
qed

lemma bounded_slices: "poll_slices (of_int (bounded_wait t)) \<le> 121"
proof -
  have b: "1 \<le> bounded_wait t" "bounded_wait t \<le> 60"
    by (auto simp: bounded_wait_def max_interactive_wait_sec_def Let_def)
  have "truncate_rat (of_int (bounded_wait t) / stop_poll_slice_sec) = 2 * bounded_wait t"
  proof -
    have "of_int (bounded_wait t) / stop_poll_slice_sec = (of_int (2 * bounded_wait t) :: rat)"
      by (simp add: stop_poll_slice_sec_def)
    then show ?thesis using b floor_of_int [of "2 * bounded_wait t", where 'a = rat] by (simp add: truncate_rat_def)
  qed
  then show ?thesis using b by (simp add: poll_slices_def)
qed

lemma tap_resume [tap]:
  assumes "C verb" "C ''-exec-interrupt''"
  shows "tap_ok C (clean (mi_redactor env)) 142 (resume (traced env) verb t)"
proof -
  have wait: "tap_ok C (clean (mi_redactor env)) 121 (wait_for_stop (traced env) (of_int (bounded_wait t)))"
    by (rule tap_more [OF tap_wait bounded_slices])
  have rest: "tap_ok C (clean (mi_redactor env)) 21 (case stop of
         Some s \<Rightarrow> mi_lift (redact_stop (mi_redactor (traced env)) s)
       | None \<Rightarrow>
           mi_bind (interrupt (traced env)) (\<lambda>interrupted.
             case interrupted of
               None \<Rightarrow> mi_raise (stall_error verb)
             | Some s \<Rightarrow> mi_lift (redact_stop (mi_redactor (traced env)) (s\<lparr>st_timed_out := True\<rparr>))))" for stop
  proof (cases stop)
    case None
    have "tap_ok C (clean (mi_redactor env)) (21 + 0) (mi_bind (interrupt (traced env)) (\<lambda>interrupted.
             case interrupted of
               None \<Rightarrow> mi_raise (stall_error verb)
             | Some s \<Rightarrow> mi_lift (redact_stop (mi_redactor (traced env)) (s\<lparr>st_timed_out := True\<rparr>))))"
      by (rule tap_bind_sum, rule tap_interrupt, rule assms) (auto intro: tap_lift split: option.splits)
    with None show ?thesis by (simp only: option.case add_0_right)
  qed (simp add: tap_lift)
  have "tap_ok C (clean (mi_redactor env)) (0 + (121 + 21)) (resume (traced env) verb t)"
    unfolding resume_def by (intro tap_bind_sum tap_run assms(1) wait rest)
  then show ?thesis by simp
qed

lemma tap_guarded [tap]: "(b \<Longrightarrow> tap_ok C E n (f ())) \<Longrightarrow> tap_ok C E n (mi_bind (mi_guard b d) f)"
  by (cases b) (auto simp: tap_ok_def mi_guard_def mi_bind_def mi_lift_def)

subsection \<open>The commands of a client\<close>

text \<open>A text a client chose, as it may stand in a command: word characters, and at most one
  newline behind them.\<close>

definition plain_argument :: "string \<Rightarrow> bool" where
  "plain_argument s \<longleftrightarrow> (\<exists>w. w \<noteq> [] \<and> (\<forall>c \<in> set w. word_char c) \<and> (s = w \<or> s = w @ [CHR 0x0A]))"

definition fixed_commands :: "string list" where
  "fixed_commands = [''-exec-continue'', ''-exec-step'', ''-exec-next'', ''-exec-finish'', ''-exec-interrupt'',
     ''-break-list'', ''-stack-list-frames'', ''-stack-list-variables --all-values'', ''-data-list-register-names'',
     ''-data-list-register-values x'', ''-data-evaluate-expression '' @ quoted canonical_probe_symbol]"

definition client_command :: "string \<Rightarrow> bool" where
  "client_command c \<longleftrightarrow> c \<in> set fixed_commands
     \<or> (\<exists>a. plain_argument a \<and> c \<in> {''-break-insert -h '' @ a, ''-break-watch '' @ a, ''-break-delete '' @ a,
          ''-data-evaluate-expression '' @ quoted a, ''-data-evaluate-expression '' @ quoted (CHR ''&'' # a)})
     \<or> (\<exists>a n. 0 \<le> a \<and> a < 2 ^ 64 \<and> 1 \<le> n \<and> n \<le> 4096 \<and> c = memory_command a n)"

lemma dollar_match:
  "matches_rx (dollar_rx P Q) s \<longleftrightarrow>
     (\<exists>x w. P x \<and> (\<forall>c \<in> set w. Q c) \<and> (s = x # w \<or> s = x # w @ [CHR 0x0A]))"
  unfolding matches_rx_def re_match_ne dollar_rx_def rx_ne by auto

lemma symbol_plain: "matches_rx symbol_name_rx s \<Longrightarrow> plain_argument s"
proof -
  assume "matches_rx symbol_name_rx s"
  then obtain x w where "ident_start x" "\<forall>c \<in> set w. word_char c" "s = x # w \<or> s = x # w @ [CHR 0x0A]"
    unfolding symbol_name_rx_def dollar_match by blast
  then show "plain_argument s"
    unfolding plain_argument_def
    by (intro exI [of _ "x # w"]) (auto simp: ident_start_def word_char_def letter_or_digit_def)
qed

lemma break_id_plain: "matches_rx break_id_rx s \<Longrightarrow> plain_argument s"
proof -
  assume "matches_rx break_id_rx s"
  then obtain x w where "is_digit x" "\<forall>c \<in> set w. is_digit c" "s = x # w \<or> s = x # w @ [CHR 0x0A]"
    unfolding break_id_rx_def dollar_match by blast
  then show "plain_argument s"
    unfolding plain_argument_def
    by (intro exI [of _ "x # w"]) (auto simp: word_char_def letter_or_digit_def)
qed

lemma client_fixed [simp]: "c \<in> set fixed_commands \<Longrightarrow> client_command c"
  by (simp add: client_command_def)

lemma client_plain [intro]:
  "plain_argument a \<Longrightarrow> client_command (''-break-insert -h '' @ a)"
  "plain_argument a \<Longrightarrow> client_command (''-break-watch '' @ a)"
  "plain_argument a \<Longrightarrow> client_command (''-break-delete '' @ a)"
  "plain_argument a \<Longrightarrow> client_command (''-data-evaluate-expression '' @ quoted a)"
  "plain_argument a \<Longrightarrow> client_command (''-data-evaluate-expression '' @ quoted (CHR ''&'' # a))"
  unfolding client_command_def by blast+

lemma client_memory: "0 \<le> a \<Longrightarrow> a \<le> 0xFFFFFFFFFFFFFFFF \<Longrightarrow> 1 \<le> n \<Longrightarrow> n \<le> max_memory_read_bytes \<Longrightarrow>
    client_command (memory_command a n)"
  unfolding client_command_def max_memory_read_bytes_def by (intro disjI2 exI conjI) (auto simp: eval_nat_numeral)

lemma fixed_members:
  "''-exec-continue'' \<in> set fixed_commands" "''-exec-step'' \<in> set fixed_commands" "''-exec-next'' \<in> set fixed_commands"
  "''-exec-finish'' \<in> set fixed_commands" "''-exec-interrupt'' \<in> set fixed_commands" "''-break-list'' \<in> set fixed_commands"
  "''-stack-list-frames'' \<in> set fixed_commands" "''-stack-list-variables --all-values'' \<in> set fixed_commands"
  "''-data-list-register-names'' \<in> set fixed_commands" "''-data-list-register-values x'' \<in> set fixed_commands"
  "''-data-evaluate-expression '' @ quoted canonical_probe_symbol \<in> set fixed_commands"
  by (simp_all add: fixed_commands_def)

lemma quoted_amp: "''-data-evaluate-expression '' @ [CHR 0x22, CHR ''&''] @ s @ [CHR 0x22] =
    ''-data-evaluate-expression '' @ quoted (CHR ''&'' # s)"
  by (simp add: quoted_def)

lemma tap_resolve_symbol [tap]: "tap_ok client_command (clean (mi_redactor env)) n (resolve_symbol (traced env) s)"
  unfolding resolve_symbol_def quoted_amp
  by (intro tap client_plain symbol_plain)

lemma tap_evaluate [tap]: "client_command (''-data-evaluate-expression '' @ q) \<Longrightarrow>
    tap_ok client_command (clean (mi_redactor env)) n (evaluate_expression (traced env) q)"
  unfolding evaluate_expression_def by (intro tap)

lemma tap_read_symbol [tap]: "tap_ok client_command (clean (mi_redactor env)) n (read_symbol (traced env) s)"
  unfolding read_symbol_def by (intro tap client_plain symbol_plain)

lemma tap_inspector [tap]:
  "tap_ok client_command (clean (mi_redactor env)) n (evaluate_inspector (traced env) i args)"
proof -
  have version: "tap_ok client_command (clean (mi_redactor env)) n
      (mi_bind (evaluate_expression (traced env) (quoted canonical_probe_symbol)) (\<lambda>v. mi_ret (g v)))" for g
    by (intro tap client_fixed fixed_members)
  have address: "tap_ok client_command (clean (mi_redactor env)) n
      (mi_bind (mi_guard b d) (\<lambda>_. mi_bind (resolve_symbol (traced env) symbol) (\<lambda>v. mi_ret (g v))))" for b d symbol g
    by (intro tap)
  show ?thesis
    unfolding evaluate_inspector_def
    by (simp only: version address tap_lift split: if_splits option.splits) simp
qed

lemma tap_set_breakpoint [tap]: "tap_ok client_command (clean (mi_redactor env)) n (set_breakpoint (traced env) s)"
  unfolding set_breakpoint_def by (intro tap client_plain symbol_plain)

lemma tap_set_watchpoint [tap]: "tap_ok client_command (clean (mi_redactor env)) n (set_watchpoint (traced env) s)"
  unfolding set_watchpoint_def by (intro tap client_plain symbol_plain)

lemma tap_clear_breakpoint [tap]: "tap_ok client_command (clean (mi_redactor env)) n (clear_breakpoint (traced env) s)"
  unfolding clear_breakpoint_def by (intro tap client_plain break_id_plain)

lemma tap_clear_watchpoint [tap]: "tap_ok client_command (clean (mi_redactor env)) n (clear_watchpoint (traced env) s)"
  unfolding clear_watchpoint_def by (rule tap)

lemma tap_list_breakpoints [tap]: "tap_ok client_command (clean (mi_redactor env)) n (list_breakpoints (traced env))"
  unfolding list_breakpoints_def Let_def by (intro tap client_fixed fixed_members)

lemma tap_backtrace [tap]: "tap_ok client_command (clean (mi_redactor env)) n (backtrace (traced env))"
  unfolding backtrace_def by (intro tap client_fixed fixed_members)

lemma tap_list_variables [tap]: "tap_ok client_command (clean (mi_redactor env)) n (list_variables (traced env))"
  unfolding list_variables_def by (intro tap client_fixed fixed_members)

lemma tap_read_registers [tap]: "tap_ok client_command (clean (mi_redactor env)) n (read_registers (traced env) names)"
  unfolding read_registers_def Let_def by (intro tap client_fixed fixed_members)

lemma tap_read_memory [tap]: "tap_ok client_command (clean (mi_redactor env)) n (read_memory (traced env) a b)"
  unfolding read_memory_def
  by (rule tap_guarded, rule tap_guarded, intro tap client_memory) auto

lemma tap_op_data: "tap_ok client_command (clean (mi_redactor env)) 142 (engine_op_data (traced env) req)"
proof (cases req)
  case (Read_memory a b)
  then show ?thesis by (simp add: tap_lift tap_read_memory)
qed (simp_all only: engine_op_data.simps continue_execution_def step_line_def next_line_def finish_frame_def,
    (intro tap client_fixed fixed_members)+)

end
