(* ===== verification/GdbMiProps.thy ===== *)
theory GdbMiProps
  imports GdbMiTap "HOL-Library.Sublist"
begin

text \<open>
  Properties of the gdb engine for any controller: what a client can make it write, what it
  gives back and stores, and when it reports a stop.
\<close>

subsection \<open>What an operation gives\<close>

definition gives :: "('w, 'a) mi_op \<Rightarrow> ('a \<Rightarrow> bool) \<Rightarrow> bool" where
  "gives op Q \<longleftrightarrow> (\<forall>st x st'. op st = (Inr x, st') \<longrightarrow> Q x)"

named_theorems gives

lemma gives_lift: "(\<And>x. r = Inr x \<Longrightarrow> Q x) \<Longrightarrow> gives (mi_lift r) Q"
  by (auto simp: gives_def mi_lift_def)

lemma gives_ret [gives]: "Q x \<Longrightarrow> gives (mi_ret x) Q"
  by (auto simp: gives_def mi_lift_def)

lemma gives_raise [gives]: "gives (mi_raise e) Q"
  by (auto simp: gives_def mi_lift_def)

lemma gives_bind [gives]: "(\<And>x. gives (f x) Q) \<Longrightarrow> gives (mi_bind m f) Q"
  by (auto simp: gives_def mi_bind_def split: prod.splits sum.splits)

lemma gives_map: "gives m P \<Longrightarrow> (\<And>x. P x \<Longrightarrow> Q (f x)) \<Longrightarrow> gives (mi_map f m) Q"
  by (fastforce simp: gives_def mi_map_def mi_bind_def mi_lift_def split: prod.splits sum.splits)

lemma collect_resultsD: "collect_results xs = Inr ys \<Longrightarrow> y \<in> set ys \<Longrightarrow> Inr y \<in> set xs"
  by (induction xs arbitrary: ys) auto

subsection \<open>Clean data\<close>

lemma strings_opt [simp]: "strings_of (opt_raw t) = set_option t"
  by (cases t) (auto simp: opt_raw_def)

lemma strings_opt_int [simp]: "strings_of (opt_raw_int t) = {}"
  by (cases t) (auto simp: opt_raw_int_def)

lemma strings_item: "map_of items k = Some v \<Longrightarrow> strings_of v \<subseteq> strings_items items"
  by (induction items) (auto split: if_splits)

lemma opt_text_strings: "opt_text v = Some t \<Longrightarrow> set_option t \<subseteq> strings_of v"
  by (cases v) auto

lemma field_text_strings: "field_of opt_text k items = Some t \<Longrightarrow> set_option t \<subseteq> strings_items items"
  using strings_item opt_text_strings
  by (force simp: field_of_def split: option.splits)

lemma get_field_strings: "strings_of (get_field k items) \<subseteq> strings_items items"
  using strings_item by (force simp: get_field_def split: option.splits)

lemma text_field_strings: "set_option (text_field k items) \<subseteq> strings_items items"
  using get_field_strings [of k items] by (auto simp: text_field_def split: raw.splits)

lemma dict_of_strings: "strings_items (dict_of v) \<subseteq> strings_of v"
  by (cases v) auto

lemma breakpoint_strings:
  assumes "breakpoint_of v = Inr b" shows "strings_of (dump_breakpoint b) \<subseteq> strings_of v"
proof -
  let ?items = "dict_of v"
  obtain n ty ad fn wh where f: "get_field ''number'' ?items = RawStr n" "field_of opt_text ''type'' ?items = Some ty"
      "field_of opt_text ''addr'' ?items = Some ad" "field_of opt_text ''func'' ?items = Some fn"
      "field_of opt_text ''what'' ?items = Some wh"
      "b = \<lparr>bp_number = n, bp_type = ty, bp_addr = ad, bp_func = fn, bp_what = wh\<rparr>"
    using assms by (auto simp: breakpoint_of_def Let_def split: raw.splits option.splits)
  show ?thesis
    using get_field_strings [of "''number''" ?items] f(1,6) field_text_strings [OF f(2)] field_text_strings [OF f(3)]
      field_text_strings [OF f(4)] field_text_strings [OF f(5)] dict_of_strings [of v]
    by (auto simp: dump_breakpoint_def)
qed

lemma variable_strings:
  assumes "variable_of v = Inr x" shows "strings_of (dump_variable x) \<subseteq> strings_of v"
proof -
  obtain n t where f: "get_field ''name'' (dict_of v) = RawStr n" "field_of opt_text ''value'' (dict_of v) = Some t"
      "x = \<lparr>va_name = n, va_value = t\<rparr>"
    using assms by (auto simp: variable_of_def split: raw.splits option.splits)
  show ?thesis
    using get_field_strings [of "''name''" "dict_of v"] f(1,3) field_text_strings [OF f(2)] dict_of_strings [of v]
    by (auto simp: dump_variable_def)
qed

lemma frame_from_strings:
  assumes "frame_from items = Inr f" shows "strings_of (dump_frame f) \<subseteq> strings_items items"
proof -
  obtain lv li where "f = \<lparr>fr_level = lv, fr_func = text_field ''func'' items, fr_addr = text_field ''addr'' items,
      fr_file = text_field ''file'' items, fr_line = li\<rparr>"
    using assms by (auto simp: frame_from_def)
  then show ?thesis
    using text_field_strings [of _ items] by (auto simp: dump_frame_def)
qed

lemma frame_of_strings:
  assumes "frame_of items = Some f" shows "strings_of (dump_frame f) \<subseteq> strings_items items"
proof -
  obtain lv fn ad fi li where f: "field_of opt_text ''func'' items = Some fn" "field_of opt_text ''addr'' items = Some ad"
      "field_of opt_text ''file'' items = Some fi"
      "f = \<lparr>fr_level = lv, fr_func = fn, fr_addr = ad, fr_file = fi, fr_line = li\<rparr>"
    using assms by (auto simp: frame_of_def split: option.splits)
  show ?thesis
    using f(4) field_text_strings [OF f(1)] field_text_strings [OF f(2)] field_text_strings [OF f(3)]
    by (auto simp: dump_frame_def)
qed

lemma opt_frame_strings:
  assumes "opt_frame v = Some (Some f)" shows "strings_of (dump_frame f) \<subseteq> strings_of v"
  using assms frame_of_strings by (cases v) auto

lemma stop_strings:
  assumes "stop_of v = Some s" shows "strings_of (dump_stop s) \<subseteq> strings_of v"
proof -
  let ?items = "dict_of v"
  obtain re bk th fr ti where f: "field_of opt_text ''reason'' ?items = Some re" "field_of opt_text ''bkptno'' ?items = Some bk"
      "field_of opt_text ''stopped_thread'' ?items = Some th" "field_of opt_frame ''frame'' ?items = Some fr"
      "s = \<lparr>st_reason = re, st_bkptno = bk, st_thread = th, st_frame = fr, st_timed_out = ti\<rparr>"
    using assms by (auto simp: stop_of_def Let_def split: option.splits)
  have "strings_of (case fr of None \<Rightarrow> RawNone | Some f \<Rightarrow> dump_frame f) \<subseteq> strings_items ?items"
  proof (cases fr)
    case (Some g)
    with f(4) obtain w where "map_of ?items (KStr ''frame'') = Some w" "opt_frame w = Some (Some g)"
      by (auto simp: field_of_def split: option.splits)
    with Some strings_item opt_frame_strings show ?thesis by force
  qed simp
  then show ?thesis
    using f(5) field_text_strings [OF f(1)] field_text_strings [OF f(2)] field_text_strings [OF f(3)] dict_of_strings [of v]
    by (auto simp: dump_stop_def)
qed

lemma clean_subset: "clean rd v \<Longrightarrow> strings_of x \<subseteq> strings_of v \<Longrightarrow> clean rd x"
  unfolding clean_def by blast

lemma clean_stop: "redact_stop rd s = Inr s' \<Longrightarrow> clean rd (dump_stop s')"
  using clean_subset [OF clean_redacted stop_strings] by (auto simp: redact_stop_def split: option.splits)

lemma clean_breakpoint: "breakpoint_ref_from env e = Inr b \<Longrightarrow> clean (mi_redactor env) (dump_breakpoint b)"
  unfolding breakpoint_ref_from_def by (rule clean_subset [OF clean_redacted breakpoint_strings])

lemma clean_list: "(\<And>x. x \<in> set xs \<Longrightarrow> clean rd x) \<Longrightarrow> clean rd (RawMap [(k, RawList xs)])"
proof -
  have "strings_seq xs = (\<Union>x \<in> set xs. strings_of x)" by (induction xs) auto
  then show "(\<And>x. x \<in> set xs \<Longrightarrow> clean rd x) \<Longrightarrow> clean rd (RawMap [(k, RawList xs)])"
    by (auto simp: clean_def)
qed

lemma clean_single: "clean rd x \<Longrightarrow> clean rd (RawMap [(k, x)])"
  by (simp add: clean_def)

lemma gives_breakpoint: "gives (mi_lift (breakpoint_result env rs key)) (\<lambda>b. clean (mi_redactor env) (dump_breakpoint b))"
  by (rule gives_lift) (auto simp: breakpoint_result_def clean_breakpoint split: raw.splits)

lemma gives_resume: "gives (resume env verb t) (\<lambda>s. clean (mi_redactor env) (dump_stop s))"
  unfolding resume_def
  by (intro gives) (auto intro!: gives gives_lift clean_stop split: option.splits)

text \<open>The data of every operation is clean; beside the redacted stop an execution verb gives the fixed
  text of the state it is in.\<close>

definition op_data_clean :: "redactor \<Rightarrow> raw \<Rightarrow> bool" where
  "op_data_clean rd d \<longleftrightarrow> clean rd d \<or> (\<exists>s. d = stopped_data s \<and> clean rd (dump_stop s))"

lemma op_data_redacted: "op_data_clean rd (redact_value rd x)"
  by (simp add: op_data_clean_def del: redact_value.simps)

lemma gives_op_data: "gives (engine_op_data env req) (op_data_clean (mi_redactor env))"
proof (cases req)
  case (Read_registers names)
  then show ?thesis
    by (auto simp: read_registers_def Let_def simp del: redact_value.simps intro!: gives op_data_redacted)
next
  case (Read_symbol s)
  then show ?thesis
    by (auto simp: read_symbol_def simp del: redact_value.simps intro!: gives op_data_redacted)
next
  case (Read_memory a n)
  then show ?thesis
    by (auto simp: read_memory_def simp del: redact_value.simps intro!: gives op_data_redacted)
next
  case (Evaluate i args)
  then show ?thesis
    by (auto simp: evaluate_inspector_def simp del: redact_value.simps intro!: gives op_data_redacted split: option.splits)
next
  case (Set_breakpoint s)
  have "gives (set_breakpoint env s) (\<lambda>b. clean (mi_redactor env) (dump_breakpoint b))"
    unfolding set_breakpoint_def by (intro gives gives_breakpoint)
  with Set_breakpoint show ?thesis
    by (auto simp: op_data_clean_def intro!: gives_map clean_single)
next
  case (Set_watchpoint s)
  have "gives (set_watchpoint env s) (\<lambda>b. clean (mi_redactor env) (dump_breakpoint b))"
    unfolding set_watchpoint_def by (intro gives gives_breakpoint)
  with Set_watchpoint show ?thesis
    by (auto simp: op_data_clean_def intro!: gives_map clean_single)
next
  case (Clear_breakpoint b)
  then show ?thesis
    by (auto simp: mi_map_def op_data_clean_def clean_def intro!: gives)
next
  case (Clear_watchpoint b)
  then show ?thesis
    by (auto simp: mi_map_def op_data_clean_def clean_def intro!: gives)
next
  case List_breakpoints
  have "gives (list_breakpoints env) (\<lambda>bs. \<forall>b \<in> set bs. clean (mi_redactor env) (dump_breakpoint b))"
    unfolding list_breakpoints_def Let_def
    by (intro gives gives_lift ballI) (auto dest!: collect_resultsD simp: clean_breakpoint)
  with List_breakpoints show ?thesis
    by (auto simp: op_data_clean_def intro!: gives_map clean_list)
next
  case Backtrace
  have "gives (backtrace env) (\<lambda>fs. \<forall>f \<in> set fs. clean (mi_redactor env) (dump_frame f))"
    unfolding backtrace_def
  proof (intro gives gives_lift ballI)
    fix rs fs f
    assume "collect_results (map (\<lambda>items. frame_from (dict_of (redact_value (mi_redactor env) (RawMap items))))
        (List.map_filter frame_row (list_of (get_field ''stack'' (result_dict rs))))) = Inr fs" "f \<in> set fs"
    from collect_resultsD [OF this] obtain items
      where "frame_from (dict_of (redact_value (mi_redactor env) (RawMap items))) = Inr f"
      by (auto simp del: redact_value.simps)
    then show "clean (mi_redactor env) (dump_frame f)"
      using clean_subset [OF clean_redacted] frame_from_strings dict_of_strings by (meson subset_trans)
  qed
  with Backtrace show ?thesis
    by (auto simp: op_data_clean_def intro!: gives_map clean_list)
next
  case List_variables
  have "gives (list_variables env) (\<lambda>vs. \<forall>v \<in> set vs. clean (mi_redactor env) (dump_variable v))"
    unfolding list_variables_def
  proof (intro gives gives_lift ballI)
    fix rs vs v
    assume "collect_results (List.map_filter (variable_row (mi_redactor env))
        (list_of (get_field ''variables'' (result_dict rs)))) = Inr vs" "v \<in> set vs"
    from collect_resultsD [OF this] obtain row where "variable_row (mi_redactor env) row = Some (Inr v)"
      by (auto simp: map_filter_def)
    then obtain x where "variable_of (redact_value (mi_redactor env) x) = Inr v"
      by (auto simp: variable_row_def simp del: redact_value.simps split: option.splits)
    then show "clean (mi_redactor env) (dump_variable v)"
      by (rule clean_subset [OF clean_redacted variable_strings])
  qed
  with List_variables show ?thesis
    by (auto simp: op_data_clean_def intro!: gives_map clean_list)
qed (auto simp: continue_execution_def step_line_def next_line_def finish_frame_def op_data_clean_def
      intro!: gives gives_map [OF gives_resume])

subsection \<open>Clients\<close>


text \<open>A controller that answers every command in the same way and every poll in the same way.\<close>

definition canned :: "(mi_failure, dict_items list) result \<Rightarrow> (mi_failure, dict_items list) result \<Rightarrow> (mi_failure, unit) result
    \<Rightarrow> unit mi_env" where
  "canned answer poll stored = \<lparr>ctl_write = (\<lambda>c w. (answer, w)), ctl_read = (\<lambda>w. (poll, w)), ctl_exit = (\<lambda>w. (Inr (), w)),
     start_gdb = (\<lambda>argv w. (Inr (), w)), append_entry = (\<lambda>e w. (stored, w)), backoff = (\<lambda>w. w),
     observed_at = (\<lambda>w. ''now''), gdb_path = Some ''/usr/bin/gdb'',
     mi_host = \<lparr>tree = [([''vmlinux''], File)], cwd = [], home_of = Map.empty\<rparr>,
     mi_redactor = \<lparr>secret_values = [''hunter2'']\<rparr>, mapped_aware = False, py_repr = (\<lambda>v. [])\<rparr>"

definition new_tap :: "'w \<Rightarrow> 'w tap" where
  "new_tap w = \<lparr>tap_commands = [], tap_entries = [], tap_reads = 0, tap_exits = 0, tap_world = w\<rparr>"

definition done_item :: dict_items where
  "done_item = [(KStr ''type'', RawStr ''result''), (KStr ''message'', RawStr ''done'')]"


text \<open>A command that is written is written once, and nothing is read or exited for it.\<close>

lemma run_command_taps:
  "tap_commands (snd (snd (run_command (traced env) c (rs, t)))) = tap_commands t @ [c]
   \<and> tap_exits (snd (snd (run_command (traced env) c (rs, t)))) = tap_exits t"
proof -
  have "tap_commands (snd (snd (write_command (traced env) c (rs, t)))) = tap_commands t @ [c]
   \<and> tap_exits (snd (snd (write_command (traced env) c (rs, t)))) = tap_exits t"
    by (simp add: write_command_def mi_bind_def mi_io_def mi_lift_def mi_extend_def append_transcript_def traced_def
      tapped_def del: redact_value.simps split: prod.splits sum.splits)
  then show ?thesis
    by (auto simp: run_command_def mi_bind_def [of "write_command (traced env) c"] mi_lift_def split: prod.splits sum.splits option.splits)
qed

text \<open>The dollar of the patterns lets a final newline through, which ends the command early.\<close>

theorem newline_splits_command:
  "tap_commands (snd (snd (engine_op_data (traced env) (Set_breakpoint [CHR ''a'', CHR 0x0A]) (rs, t)))) =
     tap_commands t @ [''-break-insert -h '' @ [CHR ''a'', CHR 0x0A]]"
proof -
  have "matches_rx symbol_name_rx [CHR ''a'', CHR 0x0A]"
    unfolding symbol_name_rx_def dollar_match
    by (intro exI [of _ "CHR ''a''"] exI [of _ "[]"]) (simp add: ident_start_def lower_az_def)
  then show ?thesis
    using run_command_taps [of env "''-break-insert -h '' @ [CHR ''a'', CHR 0x0A]" rs t]
    by (auto simp: set_breakpoint_def mi_map_def mi_bind_def mi_guard_def mi_lift_def split: prod.splits sum.splits)
qed

subsection \<open>Stops\<close>

lemma plain_stop_keys:
  "\<not> secret_key (KStr ''reason'')" "\<not> secret_key (KStr ''bkptno'')" "\<not> secret_key (KStr ''stopped_thread'')"
  "\<not> secret_key (KStr ''frame'')" "\<not> secret_key (KStr ''timed_out'')"
  unfolding secret_key_def re_search_def by code_simp+

lemma plain_frame_keys:
  "\<not> secret_key (KStr ''level'')" "\<not> secret_key (KStr ''func'')" "\<not> secret_key (KStr ''addr'')"
  "\<not> secret_key (KStr ''file'')" "\<not> secret_key (KStr ''line'')"
  unfolding secret_key_def re_search_def by code_simp+

definition masked_frame :: "redactor \<Rightarrow> frame \<Rightarrow> frame" where
  "masked_frame rd f = \<lparr>fr_level = fr_level f, fr_func = map_option (redact_text rd) (fr_func f),
     fr_addr = map_option (redact_text rd) (fr_addr f), fr_file = map_option (redact_text rd) (fr_file f), fr_line = fr_line f\<rparr>"

definition masked_stop :: "redactor \<Rightarrow> stop_record \<Rightarrow> stop_record" where
  "masked_stop rd s = \<lparr>st_reason = map_option (redact_text rd) (st_reason s), st_bkptno = map_option (redact_text rd) (st_bkptno s),
     st_thread = map_option (redact_text rd) (st_thread s), st_frame = map_option (masked_frame rd) (st_frame s),
     st_timed_out = st_timed_out s\<rparr>"

lemma redact_opt_raw [simp]: "redact_value rd (opt_raw t) = opt_raw (map_option (redact_text rd) t)"
  by (cases t) (simp_all add: opt_raw_def)

lemma redact_opt_int [simp]: "redact_value rd (opt_raw_int t) = opt_raw_int t"
  by (cases t) (simp_all add: opt_raw_int_def)

lemma opt_text_raw [simp]: "opt_text (opt_raw t) = Some t"
  by (cases t) (simp_all add: opt_raw_def)

lemma opt_int_raw [simp]: "opt_int (opt_raw_int t) = Some t"
  by (cases t) (simp_all add: opt_raw_int_def)

lemma redact_dump_frame: "redact_value rd (dump_frame f) = dump_frame (masked_frame rd f)"
  by (simp add: dump_frame_def masked_frame_def marked_sensitive_def plain_frame_keys)

lemma frame_of_dump: "opt_frame (dump_frame f) = Some (Some f)"
  by (simp add: dump_frame_def frame_of_def field_of_def)

lemma redact_stop_eq: "redact_stop rd s = Inr (masked_stop rd s)"
  by (cases "st_frame s")
    (simp_all add: redact_stop_def dump_stop_def stop_of_def field_of_def Let_def marked_sensitive_def plain_stop_keys
      redact_dump_frame frame_of_dump masked_stop_def)

text \<open>Records are only added.\<close>

definition adds :: "('w, 'a) mi_op \<Rightarrow> bool" where
  "adds op \<longleftrightarrow> (\<forall>rs w. \<exists>extra. fst (snd (op (rs, w))) = rs @ extra)"

lemma adds_lift: "adds (mi_lift r)"
  by (simp add: adds_def mi_lift_def)

lemma adds_io: "adds (mi_io f)"
  by (simp add: adds_def mi_io_def split: prod.splits)

lemma adds_extend: "adds (mi_extend rs)"
  by (simp add: adds_def mi_extend_def)

lemma adds_bind: "adds m \<Longrightarrow> (\<And>x. adds (f x)) \<Longrightarrow> adds (mi_bind m f)"
  unfolding adds_def
proof (intro allI)
  fix rs w
  assume a: "\<forall>rs w. \<exists>extra. fst (snd (m (rs, w))) = rs @ extra" "\<And>x. \<forall>rs w. \<exists>extra. fst (snd (f x (rs, w))) = rs @ extra"
  obtain r rs1 w1 where m: "m (rs, w) = (r, (rs1, w1))" by (metis prod_cases3)
  obtain extra where "rs1 = rs @ extra" using a(1) m by (metis fst_conv snd_conv)
  then show "\<exists>extra. fst (snd (mi_bind m f (rs, w))) = rs @ extra"
    using m a(2) by (cases r) (auto simp: mi_bind_def, metis append.assoc)
qed

lemma adds_write: "adds (write_command env c)"
  unfolding write_command_def append_transcript_def by (intro adds_bind adds_io adds_lift adds_extend)

lemma adds_run: "adds (run_command env c)"
  unfolding run_command_def by (intro adds_bind adds_write) (auto intro: adds_lift split: option.splits)

lemma read_slice_adds: "read_slice env (rs, w) = (Inr xs, (rs', w')) \<Longrightarrow> rs' = rs @ xs"
  by (auto simp: read_slice_def mi_bind_def mi_io_def mi_lift_def mi_extend_def append_transcript_def
    simp del: redact_value.simps split: prod.splits sum.splits if_splits)

lemma adds_read: "adds (read_slice env)"
  unfolding read_slice_def append_transcript_def
  by (intro adds_bind adds_io adds_lift adds_extend) (simp add: adds_io adds_lift)

lemma bind_InrD: "mi_bind m f st = (Inr y, st') \<Longrightarrow> \<exists>x st1. m st = (Inr x, st1) \<and> f x st1 = (Inr y, st')"
  by (auto simp: mi_bind_def split: prod.splits sum.splits)

lemma addsD: "adds op \<Longrightarrow> op (rs, w) = (r, (rs', w')) \<Longrightarrow> \<exists>extra. rs' = rs @ extra"
  unfolding adds_def by (metis fst_conv snd_conv)

definition stop_received :: "mi_record list \<Rightarrow> mi_record list \<Rightarrow> stop_record \<Rightarrow> bool" where
  "stop_received rs rs' s \<longleftrightarrow> (\<exists>extra. rs' = rs @ extra \<and> (\<exists>r \<in> set extra. is_stopped r \<and> stop_record_from r = Inr s))"

lemma stop_received_later: "stop_received rs1 rs' s \<Longrightarrow> rs1 = rs @ extra \<Longrightarrow> stop_received rs rs' s"
  by (auto simp: stop_received_def)

lemma poll_stop_received:
  "poll_stop env n (rs, w) = (Inr (Some s), (rs', w')) \<Longrightarrow> stop_received rs rs' s"
proof (induction n arbitrary: rs w)
  case (Suc n)
  from bind_InrD [OF Suc.prems [unfolded poll_stop.simps]] obtain xs rs1 w1 where
    slice: "read_slice env (rs, w) = (Inr xs, (rs1, w1))" and
    rest: "(case List.find is_stopped xs of
         Some r \<Rightarrow> mi_lift (rbind (stop_record_from r) (\<lambda>s. Inr (Some s)))
       | None \<Rightarrow> poll_stop env n) (rs1, w1) = (Inr (Some s), (rs', w'))"
    by (metis surj_pair)
  have rs1: "rs1 = rs @ xs" by (rule read_slice_adds [OF slice])
  show ?case
  proof (cases "List.find is_stopped xs")
    case None
    with rest have "poll_stop env n (rs1, w1) = (Inr (Some s), (rs', w'))" by simp
    from stop_received_later [OF Suc.IH [OF this] rs1] show ?thesis .
  next
    case (Some r)
    with rest have "stop_record_from r = Inr s" "rs' = rs1" by (auto simp: mi_lift_def)
    moreover have "r \<in> set xs" "is_stopped r" using find_Some_mem [OF Some] by blast+
    ultimately show ?thesis using rs1 by (auto simp: stop_received_def)
  qed
qed (simp add: mi_lift_def)

lemma adds_poll: "adds (poll_stop env n)"
  by (induction n) (auto intro!: adds_bind adds_read adds_lift split: option.splits)

lemma interrupt_received:
  assumes "interrupt env (rs, w) = (Inr (Some s), (rs', w'))"
  shows "\<exists>s0. stop_received rs rs' s0 \<and> s = masked_stop (mi_redactor env) s0"
proof -
  from bind_InrD [OF assms [unfolded interrupt_def]] obtain x rs1 w1 where
    a: "write_command env ''-exec-interrupt'' (rs, w) = (Inr x, (rs1, w1))" and
    b: "mi_bind (wait_for_stop env interrupt_stop_timeout_sec) (\<lambda>stop.
       case stop of None \<Rightarrow> mi_ret None
       | Some s \<Rightarrow> mi_lift (rbind (redact_stop (mi_redactor env) s) (\<lambda>s'. Inr (Some s')))) (rs1, w1) = (Inr (Some s), (rs', w'))"
    by (metis surj_pair)
  from bind_InrD [OF b] obtain stop rs2 w2 where
    c: "wait_for_stop env interrupt_stop_timeout_sec (rs1, w1) = (Inr stop, (rs2, w2))" and
    d: "(case stop of None \<Rightarrow> mi_ret None
       | Some s \<Rightarrow> mi_lift (rbind (redact_stop (mi_redactor env) s) (\<lambda>s'. Inr (Some s')))) (rs2, w2) = (Inr (Some s), (rs', w'))"
    by (metis surj_pair)
  from d obtain s0 where s0: "stop = Some s0" "s = masked_stop (mi_redactor env) s0" "rs' = rs2"
    by (auto simp: mi_lift_def redact_stop_eq split: option.splits)
  have "stop_received rs1 rs' s0"
    using poll_stop_received [OF c [unfolded wait_for_stop_def s0(1)]] s0(3) by simp
  moreover obtain extra where "rs1 = rs @ extra" using addsD [OF adds_write a] by blast
  ultimately show ?thesis using stop_received_later s0(2) by blast
qed

text \<open>C26: a stop that is reported was received. When an execution verb returns, whatever gdb
  answered, a \<open>stopped\<close> record that is not a terminal one arrived after the verb was written,
  and what is returned is that record, masked; it is marked as timed out only when it came
  after the wait had run out and an interrupt was sent.\<close>

theorem reported_stop_was_received:
  assumes "resume env verb timeout (rs, w) = (Inr s, (rs', w'))"
  shows "\<exists>s0. stop_received rs rs' s0 \<and> (s = masked_stop (mi_redactor env) s0
      \<or> s = masked_stop (mi_redactor env) (masked_stop (mi_redactor env) s0\<lparr>st_timed_out := True\<rparr>)
        \<and> (\<exists>rs1 w1 w2 rs2. poll_stop env (poll_slices (of_int (bounded_wait timeout))) (rs1, w1) = (Inr None, (rs2, w2))
             \<and> stop_received rs2 rs' s0))"
proof -
  let ?rest = "\<lambda>stop. case stop of
         Some s \<Rightarrow> mi_lift (redact_stop (mi_redactor env) s)
       | None \<Rightarrow> mi_bind (interrupt env) (\<lambda>interrupted.
             case interrupted of
               None \<Rightarrow> mi_raise (stall_error verb)
             | Some s \<Rightarrow> mi_lift (redact_stop (mi_redactor env) (s\<lparr>st_timed_out := True\<rparr>)))"
  from bind_InrD [OF assms [unfolded resume_def]] obtain x rs1 w1 where
    a: "run_command env verb (rs, w) = (Inr x, (rs1, w1))" and
    b: "mi_bind (wait_for_stop env (of_int (bounded_wait timeout))) ?rest (rs1, w1) = (Inr s, (rs', w'))"
    by (metis surj_pair)
  from bind_InrD [OF b] obtain stop rs2 w2 where
    c: "poll_stop env (poll_slices (of_int (bounded_wait timeout))) (rs1, w1) = (Inr stop, (rs2, w2))" and
    d: "?rest stop (rs2, w2) = (Inr s, (rs', w'))"
    unfolding wait_for_stop_def by (metis surj_pair)
  obtain m1 where m1: "rs1 = rs @ m1" using addsD [OF adds_run a] by blast
  obtain m2 where m2: "rs2 = rs1 @ m2" using addsD [OF adds_poll c] by blast
  show ?thesis
  proof (cases stop)
    case (Some s0)
    then have "s = masked_stop (mi_redactor env) s0" "rs' = rs2"
      using d by (auto simp: mi_lift_def redact_stop_eq)
    moreover have "stop_received rs rs2 s0"
      by (rule stop_received_later [OF poll_stop_received [OF c [unfolded Some]] m1])
    ultimately show ?thesis by blast
  next
    case None
    from bind_InrD [OF d [unfolded None option.case]] obtain i rs3 w3 where
      e: "interrupt env (rs2, w2) = (Inr i, (rs3, w3))" and
      f: "(case i of None \<Rightarrow> mi_raise (stall_error verb)
             | Some s \<Rightarrow> mi_lift (redact_stop (mi_redactor env) (s\<lparr>st_timed_out := True\<rparr>))) (rs3, w3) = (Inr s, (rs', w'))"
      by (metis surj_pair)
    from f obtain s1 where s1: "i = Some s1" "s = masked_stop (mi_redactor env) (s1\<lparr>st_timed_out := True\<rparr>)" "rs' = rs3"
      by (auto simp: mi_lift_def redact_stop_eq split: option.splits)
    from interrupt_received [OF e [unfolded s1(1)]] s1(3) obtain s0
      where s0: "stop_received rs2 rs' s0" "s1 = masked_stop (mi_redactor env) s0" by blast
    have "stop_received rs rs' s0" using stop_received_later [OF s0(1), of rs "m1 @ m2"] m1 m2 by simp
    moreover have "\<exists>rs1 w1 w2 rs2. poll_stop env (poll_slices (of_int (bounded_wait timeout))) (rs1, w1) = (Inr None, (rs2, w2))
             \<and> stop_received rs2 rs' s0"
      using c None s0(1) by blast
    ultimately show ?thesis using s1(2) s0(2) by blast
  qed
qed

definition stopped_item :: dict_items where
  "stopped_item = [(KStr ''type'', RawStr ''notify''), (KStr ''message'', RawStr ''stopped''),
     (KStr ''payload'', RawMap [(KStr ''reason'', RawStr ''breakpoint-hit'')])]"

theorem reported_stop_was_received_witness:
  "\<exists>s rs w. resume (canned (Inr [done_item]) (Inr [stopped_item]) (Inr ())) ''-exec-step'' 5 ([], ()) = (Inr s, (rs, w))
     \<and> (\<exists>s0. stop_received [] rs s0)"
proof -
  let ?env = "canned (Inr [done_item]) (Inr [stopped_item]) (Inr ())"
  obtain n where n: "poll_slices (of_int (bounded_wait 5)) = Suc n"
    by (cases "poll_slices (of_int (bounded_wait 5))") (simp_all add: poll_slices_def)
  have "\<exists>s rs w. resume ?env ''-exec-step'' 5 ([], ()) = (Inr s, (rs, w))"
    by (simp add: resume_def wait_for_stop_def n mi_bind_def run_command_def write_command_def read_slice_def mi_io_def
      mi_lift_def mi_extend_def append_transcript_def canned_def from_raw_def field_of_def done_item_def stopped_item_def
      first_result_def is_stopped_def stop_record_from_def Let_def text_field_def get_field_def terminal_stop_reasons_def
      redact_stop_eq del: redact_value.simps)
  then obtain s rs w where run: "resume ?env ''-exec-step'' 5 ([], ()) = (Inr s, (rs, w))" by blast
  with reported_stop_was_received [OF run] show ?thesis by blast
qed

end
