(* ===== verification/GdbAttach.thy ===== *)
theory GdbAttach
  imports GdbMiProps
begin

text \<open>
  What an attach of the gdb engine writes, when it reports what, and what it leaves behind.
\<close>

subsection \<open>Attach\<close>

definition attach_setup :: "string \<Rightarrow> string list" where
  "attach_setup mp = [''-gdb-set confirm off'', ''-gdb-set pagination off'', ''-gdb-set mi-async on'',
     ''-file-exec-and-symbols '' @ mp, ''-gdb-set remotetimeout '' @ show_int rsp_remote_timeout_sec]"

text \<open>The commands an operation adds: some of \<open>A\<close> when it fails, of \<open>B\<close> when it returns; gdb is not exited.\<close>

definition writes :: "string list set \<Rightarrow> string list set \<Rightarrow> ('w tap, 'a) mi_op \<Rightarrow> bool" where
  "writes A B op \<longleftrightarrow> (\<forall>rs t. \<exists>cs. tap_commands (snd (snd (op (rs, t)))) = tap_commands t @ cs
     \<and> tap_exits (snd (snd (op (rs, t)))) = tap_exits t \<and> (if isl (fst (op (rs, t))) then cs \<in> A else cs \<in> B))"

lemma writes_lift: "(\<And>e. r = Inl e \<Longrightarrow> [] \<in> A) \<Longrightarrow> (\<And>x. r = Inr x \<Longrightarrow> [] \<in> B) \<Longrightarrow> writes A B (mi_lift r)"
  by (cases r) (auto simp: writes_def mi_lift_def)

lemma writes_run:
  assumes "\<And>x. writes {cs. c # cs \<in> A} {cs. c # cs \<in> B} (f x)" and "[c] \<in> A"
  shows "writes A B (mi_bind (run_command (traced env) c) f)"
  unfolding writes_def
proof (intro allI)
  fix rs and t
  obtain r rs1 t1 where run: "run_command (traced env) c (rs, t) = (r, (rs1, t1))" by (metis prod_cases3)
  have t1: "tap_commands t1 = tap_commands t @ [c]" "tap_exits t1 = tap_exits t"
    using run_command_taps [of env c rs t] by (simp_all add: run)
  show "\<exists>cs. tap_commands (snd (snd (mi_bind (run_command (traced env) c) f (rs, t)))) = tap_commands t @ cs
     \<and> tap_exits (snd (snd (mi_bind (run_command (traced env) c) f (rs, t)))) = tap_exits t
     \<and> (if isl (fst (mi_bind (run_command (traced env) c) f (rs, t))) then cs \<in> A else cs \<in> B)"
  proof (cases r)
    case (Inl e)
    then show ?thesis using run t1 assms(2) by (simp add: mi_bind_def)
  next
    case (Inr x)
    from assms(1) [of x, unfolded writes_def, rule_format, of rs1 t1] obtain cs where
        "tap_commands (snd (snd (f x (rs1, t1)))) = tap_commands t1 @ cs"
        "tap_exits (snd (snd (f x (rs1, t1)))) = tap_exits t1"
        "if isl (fst (f x (rs1, t1))) then c # cs \<in> A else c # cs \<in> B"
      by (auto split: if_splits)
    then show ?thesis using run Inr t1 by (intro exI [of _ "c # cs"]) (simp add: mi_bind_def)
  qed
qed

lemma writes_lift_bind:
  assumes "\<And>e. r = Inl e \<Longrightarrow> [] \<in> A" and "\<And>x. r = Inr x \<Longrightarrow> writes A B (f x)"
  shows "writes A B (mi_bind (mi_lift r) f)"
proof (cases r)
  case (Inl e)
  then have "mi_bind (mi_lift r) f = mi_lift (Inl e)" by (auto simp: mi_bind_def mi_lift_def)
  then show ?thesis using assms(1) [OF Inl] writes_lift [of "Inl e" A B] by simp
next
  case (Inr x)
  then have "mi_bind (mi_lift r) f = f x" by (auto simp: mi_bind_def mi_lift_def)
  then show ?thesis using assms(2) [OF Inr] by simp
qed

lemma writes_connect: "writes {replicate k c |k. k \<le> n} {replicate k c |k. 1 \<le> k \<and> k \<le> n} (connect_attempts (traced env) c n)"
proof (induction n)
  case 0
  show ?case by (simp add: writes_def)
next
  case (Suc n)
  let ?A = "\<lambda>n. {replicate k c |k. k \<le> n}" and ?B = "\<lambda>n. {replicate k c |k. 1 \<le> k \<and> k \<le> n}"
  have more_A: "c # cs \<in> ?A (Suc n)" if "cs \<in> ?A n" for cs
    using that by (auto intro: exI [of _ "Suc _"])
  have more_B: "c # cs \<in> ?B (Suc n)" if "cs \<in> ?B n" for cs
    using that by (auto intro: exI [of _ "Suc _"])
  have one: "[c] \<in> ?A (Suc n)" "[c] \<in> ?B (Suc n)"
    by (auto intro: exI [of _ 1])
  show ?case
    unfolding writes_def
  proof (intro allI)
    fix rs and t
    obtain r rs1 t1 where run: "run_command (traced env) c (rs, t) = (r, (rs1, t1))" by (metis prod_cases3)
    have t1: "tap_commands t1 = tap_commands t @ [c]" "tap_exits t1 = tap_exits t"
      using run_command_taps [of env c rs t] by (simp_all add: run)
    let ?w = "backoff (traced env) t1"
    have slept: "tap_commands ?w = tap_commands t1" "tap_exits ?w = tap_exits t1"
      by (simp_all add: traced_def)
    let ?op = "connect_attempts (traced env) c (Suc n) (rs, t)"
    show "\<exists>cs. tap_commands (snd (snd ?op)) = tap_commands t @ cs \<and> tap_exits (snd (snd ?op)) = tap_exits t
       \<and> (if isl (fst ?op) then cs \<in> ?A (Suc n) else cs \<in> ?B (Suc n))"
    proof (cases "\<exists>e d. r = Inl (Gdb_mi_error e d) \<and> n > 0")
      case True
      then have op: "?op = connect_attempts (traced env) c n (rs1, ?w)"
        using run by auto
      from Suc.IH [unfolded writes_def, rule_format, of rs1 ?w] obtain cs where
        "tap_commands (snd (snd ?op)) = tap_commands t @ c # cs" "tap_exits (snd (snd ?op)) = tap_exits t"
        "if isl (fst ?op) then cs \<in> ?A n else cs \<in> ?B n"
        unfolding op slept t1 by (elim exE conjE) simp
      then show ?thesis
        using more_A more_B by (intro exI [of _ "c # cs"]) (auto simp del: connect_attempts.simps)
    next
      case False
      then have "snd (snd ?op) = t1" using run by (auto split: sum.splits mi_failure.splits)
      then show ?thesis
        using t1 one by (intro exI [of _ "[c]"]) (auto simp del: connect_attempts.simps)
    qed
  qed
qed

lemma writes_mono: "writes A B op \<Longrightarrow> A \<subseteq> A' \<Longrightarrow> B \<subseteq> B' \<Longrightarrow> writes A' B' op"
  unfolding writes_def by (metis subsetD)

lemma writes_attach_steps:
  "writes {cs. \<exists>mp k rest. attach_setup mp @ replicate k (connect_command h p) = cs @ rest \<and> k \<le> connect_retry_count}
     {attach_setup mp @ replicate k (connect_command h p) |mp k. 1 \<le> k \<and> k \<le> connect_retry_count}
     (attach_steps (traced env) h p v)"
proof -
  let ?A = "{cs. \<exists>mp k rest. attach_setup mp @ replicate k (connect_command h p) = cs @ rest \<and> k \<le> connect_retry_count}"
  have pre: "take n (attach_setup mp) \<in> ?A" for n mp
    by (rule CollectI, rule exI [of _ mp], rule exI [of _ 0], rule exI [of _ "drop n (attach_setup mp)"]) simp
  have tail: "writes {cs. attach_setup mp @ cs \<in> ?A} {cs. attach_setup mp @ cs \<in>
        {attach_setup mp @ replicate k (connect_command h p) |mp k. 1 \<le> k \<and> k \<le> connect_retry_count}}
     (connect_with_retry (traced env) h p)" for mp
    unfolding connect_with_retry_def by (rule writes_mono [OF writes_connect]) blast+
  show ?thesis
    unfolding attach_steps_def
  proof (intro writes_run writes_lift_bind, goal_cases)
    case (1 x y z e)
    then show ?case using pre [of 3] by (simp add: attach_setup_def)
  next
    case (2 x y z mp u w)
    then show ?case using tail [of mp] by (simp add: attach_setup_def)
  next
    case (3 x y z mp u)
    then show ?case using pre [of 5 mp] by (simp add: attach_setup_def)
  next
    case (4 x y z mp)
    then show ?case using pre [of 4 mp] by (simp add: attach_setup_def)
  next
    case (5 x y)
    then show ?case using pre [of 3] by (simp add: attach_setup_def)
  next
    case (6 x)
    then show ?case using pre [of 2] by (simp add: attach_setup_def)
  next
    case 7
    then show ?case using pre [of 1] by (simp add: attach_setup_def)
  qed
qed

lemma attach_failure_tag:
  "as_attach_failure c d = Gdb_mi_error c' d' \<Longrightarrow>
     c' = DEBUG_ATTACH_FAILURE \<and> map_of d' ''code'' \<noteq> Some (RawStr ''transport_stall'')"
proof -
  have "map_of (filter (\<lambda>(k, v). k \<noteq> ''code'') d) ''code'' = None"
    by (induction d) auto
  then show "as_attach_failure c d = Gdb_mi_error c' d' \<Longrightarrow> ?thesis"
    by (auto simp: as_attach_failure_def split: if_splits)
qed

lemma as_attach_failure_gdb: "\<exists>c' d'. as_attach_failure c d = Gdb_mi_error c' d'"
  by (simp add: as_attach_failure_def)


text \<open>A transcript that cannot be written makes the attach raise with gdb started and never exited.\<close>

theorem transcript_failure_leaves_gdb:
  "case attach (traced (canned (Inr [done_item]) (Inr []) (Inl (Other_exception ''OSError''))))
       (Some (TcpEndpoint ''127.0.0.1'' 1234)) (Path True [''vmlinux'']) (new_tap ()) of
     (r, t') \<Rightarrow> r = Inl (Other_exception ''OSError'') \<and> tap_exits t' = 0 \<and> tap_commands t' = [''-gdb-set confirm off'']"
proof -
  let ?env = "traced (canned (Inr [done_item]) (Inr []) (Inl (Other_exception ''OSError'')))"
  have e: "validate_endpoint False (Some (TcpEndpoint ''127.0.0.1'' 1234)) = Inr (''127.0.0.1'', 1234)"
    by (simp add: validate_endpoint_def validate_rsp_host_def loopback_127_0_0_1)
  have v: "resolve_vmlinux \<lparr>tree = [([''vmlinux''], File)], cwd = [], home_of = Map.empty\<rparr> (Path True [''vmlinux'']) =
      Inr (Path True [''vmlinux''])"
    by code_simp
  have inputs: "attach_inputs ?env (Some (TcpEndpoint ''127.0.0.1'' 1234)) (Path True [''vmlinux'']) =
      Inr ((''127.0.0.1'', 1234), ''/usr/bin/gdb'', Path True [''vmlinux''])"
    by (simp add: attach_inputs_def canned_def e v)
  show ?thesis
    unfolding attach_def inputs
    by (simp add: attach_steps_def mi_bind_def run_command_def write_command_def mi_io_def mi_lift_def mi_extend_def
      append_transcript_def canned_def traced_def tapped_def new_tap_def from_raw_def field_of_def done_item_def
      del: redact_value.simps)
qed

end
