(* ===== verification/CrashCmd.thy ===== *)
theory CrashCmd
  imports Redaction FileTree Lifecycle
begin

text \<open>
  Models the batch mode of the crash utility under \<open>src/kdive/postmortem/crash/\<close>:
  \<open>commands.py\<close> (which command lines are let through), \<open>batch.py\<close> (the script fed to crash
  and the collection of the per-command output files) and \<open>parsers.py\<close> (the parsers of
  crash's output). A text is its UTF-8 bytes, the classes of the patterns are read on ASCII.
  A parser that raises gives \<open>None\<close>.
\<close>

subsection \<open>The standard library\<close>

text \<open>\<open>bytes.decode("utf-8", errors="replace")\<close>: the longest part of a sequence that could
  still become a character is replaced as one.\<close>

definition byte_in :: "nat \<Rightarrow> nat \<Rightarrow> char \<Rightarrow> bool" where
  "byte_in lo hi c \<longleftrightarrow> lo \<le> (of_char c :: nat) \<and> (of_char c :: nat) \<le> hi"

definition replacement_char :: string where
  "replacement_char = [CHR 0xEF, CHR 0xBF, CHR 0xBD]"

text \<open>What must follow a byte: the ranges of the continuation bytes, or \<open>None\<close> for a byte that
  starts no character.\<close>

definition continuation_of :: "char \<Rightarrow> (nat \<times> nat) list option" where
  "continuation_of c =
     (let cont = (0x80, 0xBF) in
      if byte_in 0 0x7F c then Some []
      else if byte_in 0xC2 0xDF c then Some [cont]
      else if byte_in 0xE0 0xE0 c then Some [(0xA0, 0xBF), cont]
      else if byte_in 0xED 0xED c then Some [(0x80, 0x9F), cont]
      else if byte_in 0xE1 0xEF c then Some [cont, cont]
      else if byte_in 0xF0 0xF0 c then Some [(0x90, 0xBF), cont, cont]
      else if byte_in 0xF1 0xF3 c then Some [cont, cont, cont]
      else if byte_in 0xF4 0xF4 c then Some [(0x80, 0x8F), cont, cont]
      else None)"

text \<open>How many of the expected continuation bytes are there.\<close>

fun matching :: "(nat \<times> nat) list \<Rightarrow> string \<Rightarrow> nat" where
  "matching ((lo, hi) # rs) (c # cs) = (if byte_in lo hi c then Suc (matching rs cs) else 0)"
| "matching _ _ = 0"

function decode_replace :: "string \<Rightarrow> string" where
  "decode_replace [] = []"
| "decode_replace (c # cs) =
     (case continuation_of c of
        None \<Rightarrow> replacement_char @ decode_replace cs
      | Some rs \<Rightarrow>
          let n = matching rs cs in
          (if n = length rs then c # take n cs else replacement_char) @ decode_replace (drop n cs))"
  by pat_completeness auto
termination by (relation "measure length") auto

lemma matching_le: "matching rs cs \<le> length cs"
  by (induction rs cs rule: matching.induct) auto

lemma decode_replace_length: "length (decode_replace s) \<le> 3 * length s"
proof (induction s rule: decode_replace.induct)
  case (2 c cs)
  show ?case
  proof (cases "continuation_of c")
    case None
    with 2 show ?thesis by (simp add: replacement_char_def)
  next
    case (Some rs)
    have "length (decode_replace (drop (matching rs cs) cs)) \<le> 3 * length (drop (matching rs cs) cs)"
      using 2(2) [OF Some refl] by simp
    with Some matching_le [of rs cs] show ?thesis
      by (auto simp: Let_def replacement_char_def)
  qed
qed simp

lemma decode_replace_ascii: "list_all (byte_in 0 0x7F) s \<Longrightarrow> decode_replace s = s"
  by (induction s) (auto simp: continuation_of_def Let_def)

text \<open>\<open>int(s)\<close> refuses more than 4300 digits.\<close>

definition parse_int :: "string \<Rightarrow> int option" where
  "parse_int s = (if 4300 < length (filter is_digit s) then None else py_int s)"

text \<open>
  \<open>float\<close> of a plain decimal: the nearest double, ties to even, as mantissa and exponent.
\<close>

fun bit_count :: "nat \<Rightarrow> nat" where
  "bit_count n = (if n = 0 then 0 else Suc (bit_count (n div 2)))"

declare bit_count.simps [simp del]

definition div_even :: "nat \<Rightarrow> nat \<Rightarrow> nat" where
  "div_even a b =
     (let q = a div b; r = a mod b
      in if 2 * r < b \<or> 2 * r = b \<and> even q then q else Suc q)"

definition scaled :: "nat \<Rightarrow> nat \<Rightarrow> int \<Rightarrow> nat \<times> nat" where
  "scaled a b e = (if 0 \<le> e then (a, b * 2 ^ nat e) else (a * 2 ^ nat (- e), b))"

definition nearest_double :: "nat \<Rightarrow> nat \<Rightarrow> raw" where
  "nearest_double a b =
     (if a = 0 then RawFloat 0 0
      else let e0 = int (bit_count a) - int (bit_count b) - 53;
               (a0, b0) = scaled a b e0;
               e = max (-1074) (if 2 ^ 53 * b0 \<le> a0 then e0 + 1 else e0);
               (a1, b1) = scaled a b e;
               m = div_even a1 b1
           in if 0 \<le> e \<and> 2 ^ 1024 \<le> m * 2 ^ nat e then RawNonFinite else RawFloat (int m) e)"

definition py_float :: "string \<Rightarrow> raw" where
  "py_float s =
     (case partition_at (CHR ''.'') s of
        None \<Rightarrow> nearest_double (dec_value s) 1
      | Some (whole, decimals) \<Rightarrow> nearest_double (dec_value (whole @ decimals)) (10 ^ length decimals))"

text \<open>\<open>repr\<close> of a text without control characters.\<close>

definition repr_text :: "string \<Rightarrow> string" where
  "repr_text s =
     (let quote = (if CHR 0x27 \<in> set s \<and> CHR 0x22 \<notin> set s then CHR 0x22 else CHR 0x27) in
      [quote] @ concat (map (\<lambda>c. if c = CHR 0x5C \<or> c = quote then [CHR 0x5C, c] else [c]) s) @ [quote])"

subsection \<open>\<open>commands.py\<close>\<close>

definition deny_chars :: "string list" where
  "deny_chars = [''|'', ''>'', ''<'', [CHR 0x60], ''$('', '';'', ''&'']"

definition control_char :: "char \<Rightarrow> bool" where
  "control_char c \<longleftrightarrow> (of_char c :: nat) < 32 \<or> (of_char c :: nat) = 127"

definition modules_path_char :: "char \<Rightarrow> bool" where
  "modules_path_char c \<longleftrightarrow> letter_or_digit c \<or> one_of ''._/-'' c"

definition modules_path_re :: "char rx" where
  "modules_path_re = RSeq (rx_plus (RCls modules_path_char)) (RAssert (at_dollar (CHR 0x0A)))"

text \<open>The reasons for refusing a command; the source gives them as texts.\<close>

datatype rejection =
    Empty_command
  | Control_character
  | Shell_escape
  | Disallowed_metacharacter string
  | Verb_not_allowed string

definition crash_command_rejection_reason :: "string \<Rightarrow> string list \<Rightarrow> rejection option" where
  "crash_command_rejection_reason command allowlist =
     (let stripped = strip command in
      if stripped = [] then Some Empty_command
      else if list_ex control_char command then Some Control_character
      else if hd stripped = CHR ''!'' then Some Shell_escape
      else case List.find (\<lambda>token. contains_sub token command) deny_chars of
          Some token \<Rightarrow> Some (Disallowed_metacharacter token)
        | None \<Rightarrow>
            let verb = py_lower (hd (words stripped)) in
            if verb \<notin> set allowlist then Some (Verb_not_allowed verb) else None)"

definition validate_modules_path :: "string \<Rightarrow> bool" where
  "validate_modules_path path \<longleftrightarrow> re_match modules_path_re path \<noteq> None"

subsection \<open>\<open>batch.py\<close>\<close>

definition MOD_LOAD_FILENAME :: string where
  "MOD_LOAD_FILENAME = ''mod-load.out''"

text \<open>\<open>f"{index:04d}"\<close>.\<close>

definition pad4_nat :: "nat \<Rightarrow> string" where
  "pad4_nat n = (let d = show_nat n in replicate (4 - length d) (CHR ''0'') @ d)"

definition redirect_filename :: "nat \<Rightarrow> string" where
  "redirect_filename index = ''cmd-'' @ pad4_nat index @ ''.out''"

text \<open>\<open>output_dir / name\<close> as text.\<close>

definition in_dir :: "path \<Rightarrow> string \<Rightarrow> string" where
  "in_dir dir name = str_path (join_path dir (Path False [name]))"

definition newline :: char where
  "newline = CHR 0x0A"

definition script_lines :: "string list \<Rightarrow> path \<Rightarrow> string option \<Rightarrow> string list" where
  "script_lines commands output_dir modules_path =
     (case modules_path of
        None \<Rightarrow> []
      | Some m \<Rightarrow> [''mod -S '' @ m @ '' > '' @ in_dir output_dir MOD_LOAD_FILENAME])
     @ map (\<lambda>(index, command). command @ '' > '' @ in_dir output_dir (redirect_filename index))
         (List.enumerate 0 commands)
     @ [''exit'']"

definition build_command_script :: "string list \<Rightarrow> path \<Rightarrow> string option \<Rightarrow> string" where
  "build_command_script commands output_dir modules_path =
     join_with newline (script_lines commands output_dir modules_path) @ [newline]"

text \<open>The files of a directory that are regular files, by name, with their bytes.\<close>

type_synonym dir_files = "string \<Rightarrow> string option"

definition read_capped :: "string \<Rightarrow> nat \<Rightarrow> string \<times> bool" where
  "read_capped content cap =
     (let data = take (cap + 1) content in
      if length data > cap then (decode_replace (take cap data), True) else (decode_replace data, False))"

datatype capture = Captured | Output_truncated | Not_captured

record out_segment =
  seg_command :: string
  seg_raw :: "string option"
  seg_capture :: capture

fun collect_from :: "dir_files \<Rightarrow> nat \<Rightarrow> nat \<Rightarrow> nat \<Rightarrow> nat \<Rightarrow> string list \<Rightarrow> out_segment list \<times> bool" where
  "collect_from files per_cmd_cap total_cap index running [] = ([], False)"
| "collect_from files per_cmd_cap total_cap index running (command # rest) =
     (case files (redirect_filename index) of
        None \<Rightarrow>
          let (segs, t) = collect_from files per_cmd_cap total_cap (Suc index) running rest
          in (\<lparr>seg_command = command, seg_raw = None, seg_capture = Not_captured\<rparr> # segs, t)
      | Some content \<Rightarrow>
          if total_cap \<le> running
          then let (segs, t) = collect_from files per_cmd_cap total_cap (Suc index) running rest
               in (\<lparr>seg_command = command, seg_raw = None, seg_capture = Output_truncated\<rparr> # segs, True)
          else let (txt, hit_cap) = read_capped content (min per_cmd_cap (total_cap - running));
                   (segs, t) = collect_from files per_cmd_cap total_cap (Suc index) (running + length txt) rest
               in (\<lparr>seg_command = command, seg_raw = Some txt,
                    seg_capture = (if hit_cap then Output_truncated else Captured)\<rparr> # segs, hit_cap \<or> t))"

definition collect_command_outputs :: "dir_files \<Rightarrow> string list \<Rightarrow> nat \<Rightarrow> nat \<Rightarrow> out_segment list \<times> bool" where
  "collect_command_outputs files commands per_cmd_cap total_cap =
     collect_from files per_cmd_cap total_cap 0 0 commands"

subsection \<open>\<open>parsers.py\<close>\<close>

definition not_newline :: "char \<Rightarrow> bool" where
  "not_newline c \<longleftrightarrow> c \<noteq> newline"

definition spaces :: "char rx" where
  "spaces = RStar (RCls py_space)"

definition spaces1 :: "char rx" where
  "spaces1 = rx_plus (RCls py_space)"

definition visible1 :: "char rx" where
  "visible1 = rx_plus (RCls (\<lambda>c. \<not> py_space c))"

definition digits1 :: "char rx" where
  "digits1 = rx_plus (RCls is_digit)"

text \<open>\<open>PID:\s*(\d+).*?COMMAND:\s*"([^"]*)"\<close>.\<close>

definition bt_header :: "char rx" where
  "bt_header =
     RSeq (rx_lit ''PID:'') (RSeq spaces (RSeq (RCap 1 digits1)
       (RSeq (RLazy (RCls not_newline)) (RSeq (rx_lit ''COMMAND:'') (RSeq spaces
         (RSeq (RCls (\<lambda>c. c = CHR 0x22)) (RSeq (RCap 2 (RStar (RCls (\<lambda>c. c \<noteq> CHR 0x22))))
           (RCls (\<lambda>c. c = CHR 0x22)))))))))"

text \<open>\<open>#(\d+)\s+\[\w+\]\s+(\S+)\s+at\s+(\S+)\<close>.\<close>

definition bt_frame :: "char rx" where
  "bt_frame =
     RSeq (rx_lit ''#'') (RSeq (RCap 1 digits1) (RSeq spaces1
       (RSeq (rx_lit ''['') (RSeq (rx_plus (RCls word_char)) (RSeq (rx_lit '']'') (RSeq spaces1
         (RSeq (RCap 2 visible1) (RSeq spaces1 (RSeq (rx_lit ''at'') (RSeq spaces1 (RCap 3 visible1)))))))))))"

text \<open>\<open>^\[\s*(\d+\.\d+)\]\s?(.*)$\<close>.\<close>

definition log_line :: "char rx" where
  "log_line =
     RSeq (rx_lit ''['') (RSeq spaces (RSeq (RCap 1 (RSeq digits1 (RSeq (rx_lit ''.'') digits1)))
       (RSeq (rx_lit '']'') (RSeq (rx_opt (RCls py_space)) (RSeq (RCap 2 (RStar (RCls not_newline)))
         (RAssert (at_dollar newline)))))))"

text \<open>The dict of a frame line, \<open>Some None\<close> for a line that is none.\<close>

definition bt_frame_of :: "string \<Rightarrow> raw option option" where
  "bt_frame_of line =
     (case re_search bt_frame line of
        None \<Rightarrow> Some None
      | Some m \<Rightarrow> map_option (\<lambda>l. Some (RawMap
          [(KStr ''level'', RawInt l), (KStr ''symbol'', RawStr (group_of 2 m)),
           (KStr ''pc_addr'', RawStr (group_of 3 m))])) (parse_int (group_of 1 m)))"

text \<open>A loop that appends what each line gives and stops at the first line that raises.\<close>

fun gather :: "('l \<Rightarrow> 'a option option) \<Rightarrow> 'l list \<Rightarrow> 'a list option" where
  "gather f [] = Some []"
| "gather f (l # ls) =
     (case f l of
        None \<Rightarrow> None
      | Some r \<Rightarrow> map_option (\<lambda>rest. (case r of None \<Rightarrow> rest | Some x \<Rightarrow> x # rest)) (gather f ls))"

definition parse_bt :: "string \<Rightarrow> raw option" where
  "parse_bt text =
     (let header = re_search bt_header text;
          head = (case header of
              None \<Rightarrow> Some []
            | Some m \<Rightarrow> map_option (\<lambda>p. [(KStr ''pid'', RawInt p), (KStr ''command'', RawStr (group_of 2 m))])
                (parse_int (group_of 1 m)))
      in case head of
          None \<Rightarrow> None
        | Some items \<Rightarrow> map_option (\<lambda>frames.
            RawMap ([(KStr ''parsed'', RawBool True), (KStr ''frames'', RawList frames)] @ items))
            (gather bt_frame_of (splitlines text)))"

definition ps_process :: "string \<Rightarrow> raw option option" where
  "ps_process line =
     (let fields = words (strip (dropWhile (\<lambda>c. c = CHR ''>'') line)) in
      if length fields < 9 \<or> \<not> list_all is_digit (fields ! 0) then Some None
      else case (parse_int (fields ! 0), parse_int (fields ! 1)) of
          (Some pid, Some ppid) \<Rightarrow> Some (Some (RawMap
             [(KStr ''pid'', RawInt pid), (KStr ''ppid'', RawInt ppid), (KStr ''cpu'', RawStr (fields ! 2)),
              (KStr ''task_addr'', RawStr (fields ! 3)), (KStr ''st'', RawStr (fields ! 4)),
              (KStr ''comm'', RawStr (strip_by (one_of ''[]'') (last fields)))]))
        | _ \<Rightarrow> None)"

definition parse_ps :: "string \<Rightarrow> raw option" where
  "parse_ps text =
     map_option (\<lambda>ps. RawMap [(KStr ''parsed'', RawBool True), (KStr ''processes'', RawList ps)])
       (gather ps_process (splitlines text))"

fun sys_entries :: "string list \<Rightarrow> (raw_key \<times> raw) list \<Rightarrow> (raw_key \<times> raw) list" where
  "sys_entries [] d = d"
| "sys_entries (line # rest) d =
     (case partition_at (CHR '':'') line of
        None \<Rightarrow> sys_entries rest d
      | Some (key, value) \<Rightarrow>
          sys_entries rest
            (if strip key = [] then d
             else dict_set (KStr (strip key)) (RawStr (strip_by (\<lambda>c. c = CHR 0x22) (strip value))) d))"

definition parse_sys :: "string \<Rightarrow> raw option" where
  "parse_sys text =
     Some (RawMap [(KStr ''parsed'', RawBool True), (KStr ''system'', RawMap (sys_entries (splitlines text) []))])"

definition log_entry :: "string \<Rightarrow> raw option option" where
  "log_entry line =
     (case re_match log_line line of
        Some m \<Rightarrow> Some (Some (RawMap [(KStr ''ts'', py_float (group_of 1 m)), (KStr ''text'', RawStr (group_of 2 m))]))
      | None \<Rightarrow>
          if line \<noteq> [] then Some (Some (RawMap [(KStr ''ts'', RawNone), (KStr ''text'', RawStr line)]))
          else Some None)"

definition parse_log :: "string \<Rightarrow> raw option" where
  "parse_log text =
     map_option (\<lambda>ls. RawMap [(KStr ''parsed'', RawBool True), (KStr ''lines'', RawList ls)])
       (gather log_entry (splitlines text))"

definition numeric_field :: "string \<Rightarrow> bool" where
  "numeric_field token = (let t = filter (\<lambda>c. c \<noteq> CHR '','') token in t \<noteq> [] \<and> list_all is_digit t)"

definition join_spaces :: "string list \<Rightarrow> string" where
  "join_spaces = join_with (CHR '' '')"

fun kmem_entries :: "string list \<Rightarrow> (raw_key \<times> raw) list \<Rightarrow> (raw_key \<times> raw) list" where
  "kmem_entries [] d = d"
| "kmem_entries (line # rest) d =
     (let fields = words line;
          label_parts = takeWhile (\<lambda>t. \<not> numeric_field t) fields;
          remaining = drop (length label_parts) fields
      in kmem_entries rest
          (if length fields < 2 \<or> label_parts = [] \<or> remaining = [] then d
           else dict_set (KStr (join_spaces label_parts))
             (RawMap [(KStr ''pages'', RawStr (hd remaining)), (KStr ''detail'', RawStr (join_spaces (tl remaining)))])
             d))"

definition parse_kmem_i :: "string \<Rightarrow> raw option" where
  "parse_kmem_i text =
     Some (RawMap [(KStr ''parsed'', RawBool True), (KStr ''memory'', RawMap (kmem_entries (splitlines text) []))])"

definition crash_parsers :: "(string \<times> (string \<Rightarrow> raw option)) list" where
  "crash_parsers = [(''bt'', parse_bt), (''ps'', parse_ps), (''sys'', parse_sys), (''log'', parse_log)]"

definition dispatch_key :: "string \<Rightarrow> string option" where
  "dispatch_key command =
     (case words (strip command) of
        [] \<Rightarrow> None
      | t # ts \<Rightarrow>
          let verb = py_lower t in
          if verb = ''kmem'' \<and> ts \<noteq> [] \<and> hd ts = ''-i'' then Some ''kmem -i''
          else if verb \<in> set (map fst crash_parsers) then Some verb else None)"

definition not_parsed :: "string \<Rightarrow> raw \<Rightarrow> raw" where
  "not_parsed reason r =
     RawMap [(KStr ''parsed'', RawBool False), (KStr ''reason'', RawStr reason), (KStr ''raw'', r)]"

definition parse_command :: "string \<Rightarrow> string \<Rightarrow> raw" where
  "parse_command command raw_text =
     (let key = dispatch_key command;
          parser = (if key = Some ''kmem -i'' then Some parse_kmem_i
                    else map_of crash_parsers (case key of None \<Rightarrow> [] | Some k \<Rightarrow> k))
      in case parser of
          None \<Rightarrow> not_parsed ''unknown_command'' (RawStr raw_text)
        | Some p \<Rightarrow> (case p raw_text of Some r \<Rightarrow> r | None \<Rightarrow> not_parsed ''parse_failed'' (RawStr raw_text)))"

end
