(* ===== verification/Postmortem.thy ===== *)
theory Postmortem
  imports CrashCmd Store Elf
begin

text \<open>
  Models \<open>src/kdive/postmortem/crash/handler.py\<close>: the host-side batch run of the crash utility
  over a stored vmcore. What the call meets is its environment: the file tree, the readers of
  build ids, the fresh call id, the runner, which file operations raise \<open>OSError\<close>, the clock.
  The result is what the call returns or raises, the store, and what it wrote for the agent.
  A response keeps its category, details, data and artifacts; its messages are left out.
\<close>

subsection \<open>Responses\<close>

type_synonym fields = "(string \<times> raw) list"

datatype tool_response =
    Tool_success fields "artifact_ref list"
  | Tool_failure error_category fields "artifact_ref list"

fun resp_ok :: "tool_response \<Rightarrow> bool" where
  "resp_ok (Tool_success data arts) = True"
| "resp_ok (Tool_failure cat details arts) = False"

datatype call_raised =
    Store_raised store_error
  | Path_raised path_error
  | Reader_raised elf_raised
  | File_operation_raised
  | Type_error
  | Validation_raised

text \<open>The store errors that are \<open>ManifestStateError\<close>, with their category.\<close>

definition manifest_state_error :: "store_error \<Rightarrow> error_category option" where
  "manifest_state_error e =
     (case e of
        Path_refused (Path_error p) \<Rightarrow> None
      | Path_refused r \<Rightarrow> Some CONFIGURATION_ERROR
      | Run_exists r \<Rightarrow> Some CONFIGURATION_ERROR
      | Raw_os_error \<Rightarrow> None
      | Value_error m \<Rightarrow> None
      | _ \<Rightarrow> Some INFRASTRUCTURE_FAILURE)"

definition crash_config_failure :: "string \<Rightarrow> tool_response" where
  "crash_config_failure code = Tool_failure CONFIGURATION_ERROR [(''code'', RawStr code)] []"

subsection \<open>The request\<close>

record crash_request =
  cq_run_id :: string
  cq_vmcore_ref :: string
  cq_vmlinux_ref :: string
  cq_modules_ref :: "string option"
  cq_commands :: "string list"
  cq_timeout :: int

definition opt_raw :: "string option \<Rightarrow> raw" where
  "opt_raw v = (case v of None \<Rightarrow> RawNone | Some s \<Rightarrow> RawStr s)"

definition dump_crash_request :: "crash_request \<Rightarrow> raw" where
  "dump_crash_request q = RawMap
     [(KStr ''run_id'', RawStr (cq_run_id q)), (KStr ''vmcore_ref'', RawStr (cq_vmcore_ref q)),
      (KStr ''vmlinux_ref'', RawStr (cq_vmlinux_ref q)), (KStr ''modules_ref'', opt_raw (cq_modules_ref q)),
      (KStr ''commands'', RawList (map RawStr (cq_commands q))), (KStr ''timeout_seconds'', RawInt (cq_timeout q))]"

definition MAX_CRASH_COMMANDS :: nat where
  "MAX_CRASH_COMMANDS = 64"

definition CRASH_SCRIPT_BYTE_CAP :: nat where
  "CRASH_SCRIPT_BYTE_CAP = 64 * 1024"

definition CRASH_PER_CMD_CAP :: nat where
  "CRASH_PER_CMD_CAP = 1 * 1024 * 1024"

definition CRASH_STDOUT_CAP :: nat where
  "CRASH_STDOUT_CAP = 8 * 1024 * 1024"

definition MAX_POSTMORTEM_CRASH_CALLS_PER_RUN :: nat where
  "MAX_POSTMORTEM_CRASH_CALLS_PER_RUN = 1000"

definition CRASH_COMMAND_ALLOWLIST :: "string list" where
  "CRASH_COMMAND_ALLOWLIST =
     [''bt'', ''ps'', ''log'', ''kmem'', ''sys'', ''mod'', ''struct'', ''union'', ''p'', ''rd'', ''vtop'',
      ''task'', ''files'', ''vm'', ''net'', ''dev'', ''irq'', ''mach'', ''runq'', ''mount'', ''swap'',
      ''timer'', ''dis'', ''sym'', ''list'', ''tree'', ''search'', ''foreach'', ''help'']"

fun first_rejected :: "string list \<Rightarrow> (string \<times> rejection) option" where
  "first_rejected [] = None"
| "first_rejected (c # cs) =
     (case crash_command_rejection_reason c CRASH_COMMAND_ALLOWLIST of
        Some r \<Rightarrow> Some (c, r) | None \<Rightarrow> first_rejected cs)"

text \<open>The text of a reason.\<close>

fun rejection_text :: "rejection \<Rightarrow> string" where
  "rejection_text Empty_command = ''empty command''"
| "rejection_text Control_character = ''command contains a newline or control character''"
| "rejection_text Shell_escape = ''shell escape ('' @ repr_text ''!'' @ '') is not permitted''"
| "rejection_text (Disallowed_metacharacter t) = ''disallowed metacharacter '' @ repr_text t"
| "rejection_text (Verb_not_allowed v) = ''verb '' @ repr_text v @ '' is not in the crash command allowlist''"

definition validate_crash_commands :: "string list \<Rightarrow> tool_response option" where
  "validate_crash_commands commands =
     (if commands = [] \<or> MAX_CRASH_COMMANDS < length commands then Some (crash_config_failure ''invalid_commands'')
      else let stripped = map strip commands in
        if \<not> distinct stripped then Some (crash_config_failure ''invalid_commands'')
        else if CRASH_SCRIPT_BYTE_CAP < sum_list (map length stripped)
        then Some (crash_config_failure ''invalid_commands'')
        else case first_rejected stripped of
            Some (c, r) \<Rightarrow> Some (Tool_failure CONFIGURATION_ERROR
              [(''code'', RawStr ''command_not_permitted''), (''command'', RawStr c),
               (''reason'', RawStr (rejection_text r))] [])
          | None \<Rightarrow> None)"

subsection \<open>The vmcore and its kernel\<close>

type_synonym id_reader = "path \<Rightarrow> (elf_raised, string) result"

definition crash_build_id_fail_loud ::
    "path \<Rightarrow> path \<Rightarrow> id_reader \<Rightarrow> id_reader \<Rightarrow> (call_raised, (tool_response, string) result) result" where
  "crash_build_id_fail_loud vmcore_path vmlinux_p vmcore_reader vmlinux_reader =
     (case vmlinux_reader vmlinux_p of
        Inl (Build_id_read_error f) \<Rightarrow> Inr (Inl (crash_config_failure ''vmlinux_build_id_unreadable''))
      | Inl e \<Rightarrow> Inl (Reader_raised e)
      | Inr expected \<Rightarrow>
          if re_match build_id_re expected = None
          then Inr (Inl (crash_config_failure ''vmlinux_build_id_unreadable''))
          else case vmcore_reader vmcore_path of
              Inl Vmcore_format_unsupported \<Rightarrow> Inr (Inl (crash_config_failure ''vmcore_format_unsupported''))
            | Inl (Vmcore_build_id_absent f) \<Rightarrow> Inr (Inl (crash_config_failure ''provenance_unverifiable''))
            | Inl (Vmcore_build_id_error f) \<Rightarrow> Inr (Inl (crash_config_failure ''vmcore_build_id_unreadable''))
            | Inl e \<Rightarrow> Inl (Reader_raised e)
            | Inr observed \<Rightarrow>
                if observed \<noteq> expected then Inr (Inl (crash_config_failure ''provenance_mismatch''))
                else Inr (Inr observed))"

record vmcore_context =
  vc_manifest :: run_manifest
  vc_run_dir :: path
  vc_vmcore :: path
  vc_vmlinux :: path
  vc_modules :: "string option"
  vc_build_id :: string

record read_env =
  re_host :: host
  re_root :: path
  re_vmcore_reader :: id_reader
  re_vmlinux_reader :: id_reader
  re_faults :: faults

text \<open>\<open>store.run_dir(run_id) / "manifest.json"\<close> is a file.\<close>

definition has_manifest :: "string \<Rightarrow> store \<Rightarrow> bool" where
  "has_manifest run_id s =
     (case run_at run_id s of None \<Rightarrow> False | Some d \<Rightarrow> manifest_file d \<noteq> None)"

text \<open>The store and the manifest: what they raise, a refusal, or the run's directory and manifest.\<close>

definition open_run ::
    "read_env \<Rightarrow> string \<Rightarrow> store \<Rightarrow> (call_raised, (tool_response, path \<times> run_manifest) result) result" where
  "open_run env run_id s =
     (case rbind (fst (new_store (re_host env) (re_root env) [] [] False (re_faults env) s)) (\<lambda>root.
             rbind (checked_run_id run_id) (\<lambda>r.
               if \<not> has_manifest r s then Inr None
               else rbind (load_manifest run_id (re_faults env) s) (\<lambda>m.
                 Inr (Some (join_path root (Path False [r]), m))))) of
        Inr None \<Rightarrow> Inr (Inl (crash_config_failure ''run_not_found''))
      | Inr (Some found) \<Rightarrow> Inr (Inr found)
      | Inl e \<Rightarrow>
          (case manifest_state_error e of
             None \<Rightarrow> Inl (Store_raised e) | Some c \<Rightarrow> Inr (Inl (Tool_failure c [] []))))"

definition resolve_postmortem_vmcore_context ::
    "read_env \<Rightarrow> crash_request \<Rightarrow> store \<Rightarrow> (call_raised, (tool_response, vmcore_context) result) result" where
  "resolve_postmortem_vmcore_context env q s =
     rbind (open_run env (cq_run_id q) s) (\<lambda>opened.
     case opened of
       Inl failure \<Rightarrow> Inr (Inl failure)
     | Inr (run_dir, manifest) \<Rightarrow>
       if \<not> (5 \<le> cq_timeout q \<and> cq_timeout q \<le> 300) then Inr (Inl (crash_config_failure ''invalid_timeout''))
       else case resolve_symbols (re_host env)
           \<lparr>kp_build_id = [], kp_release = [], vmlinux_ref = cq_vmlinux_ref q, modules_ref = cq_modules_ref q,
            kp_cmdline = [], config_ref = None\<rparr> run_dir of
         Inl (Symbol_path_error e) \<Rightarrow> Inl (Path_raised e)
       | Inl e \<Rightarrow> Inr (Inl (crash_config_failure ''symbol_resolution_failed''))
       | Inr resolved \<Rightarrow>
         (case confine_run_relative (re_host env) (cq_vmcore_ref q) run_dir of
            Inl (Path_error e) \<Rightarrow> Inl (Path_raised e)
          | Inl e \<Rightarrow> Inr (Inl (crash_config_failure ''vmcore_not_found''))
          | Inr vmcore \<Rightarrow>
            if \<not> is_file (re_host env) vmcore then Inr (Inl (crash_config_failure ''vmcore_not_found''))
            else let modules = map_option str_path (modules_path resolved) in
              if modules \<noteq> None \<and> \<not> validate_modules_path (the modules)
              then Inr (Inl (crash_config_failure ''modules_path_unsafe''))
              else rbind (crash_build_id_fail_loud vmcore (vmlinux_path resolved) (re_vmcore_reader env)
                     (re_vmlinux_reader env)) (\<lambda>r. Inr (rbind r (\<lambda>build_id.
                       Inr \<lparr>vc_manifest = manifest, vc_run_dir = run_dir, vc_vmcore = vmcore,
                            vc_vmlinux = vmlinux_path resolved, vc_modules = modules, vc_build_id = build_id\<rparr>)))))"

subsection \<open>Running the batch\<close>

record ssh_outcome =
  exit_status :: int
  timed_out :: bool
  cancelled :: bool
  stdin_failed :: bool
  oversized_output :: bool

datatype file_operation = Make_workspace | Write_request | Tighten_outputs | Read_outputs | Write_artifacts

datatype written = Json raw | Text string

text \<open>
  The environment of a whole call. The runner gets the argument vector and the script, and
  raises an exception of the named type or gives the result and the files left in the
  sensitive directory of the call. \<open>ce_others\<close> is what other writers do to the store between
  two attempts to record a step.
\<close>

record crash_env =
  ce_read :: read_env
  ce_process_secrets :: "string list"
  ce_call_id :: string
  ce_fails :: "file_operation \<Rightarrow> bool"
  ce_runner :: "string list \<Rightarrow> string \<Rightarrow> (string, ssh_outcome \<times> dir_files) result"
  ce_others :: "nat \<Rightarrow> store \<Rightarrow> store"
  ce_started :: string
  ce_finished :: string
  ce_duration :: int

type_synonym 'a crash_op = "store \<Rightarrow> (call_raised, 'a) result \<times> store \<times> (string \<times> written) list"

definition under :: "path \<Rightarrow> string list \<Rightarrow> path" where
  "under dir names = join_path dir (Path False names)"

definition agent_dir :: "path \<Rightarrow> string \<Rightarrow> path" where
  "agent_dir run_dir call_id = under run_dir [''debug'', ''postmortem'', ''crash'', call_id]"

definition sensitive_call_dir :: "path \<Rightarrow> string \<Rightarrow> path" where
  "sensitive_call_dir run_dir call_id = under run_dir [''sensitive'', ''debug'', ''postmortem'', ''crash'', call_id]"

definition crash_argv :: "vmcore_context \<Rightarrow> crash_request \<Rightarrow> string list" where
  "crash_argv ctx q =
     [''prlimit'', ''--fsize='' @ show_nat CRASH_PER_CMD_CAP, ''timeout'', ''--kill-after=2s'',
      show_int (cq_timeout q) @ ''s'', ''crash'', ''-s'', str_path (vc_vmlinux ctx), str_path (vc_vmcore ctx)]"

text \<open>\<open>^postmortem\.crash:[0-9a-f]{32}$\<close>.\<close>

fun rx_times :: "nat \<Rightarrow> 'c rx \<Rightarrow> 'c rx \<Rightarrow> 'c rx" where
  "rx_times 0 r k = k"
| "rx_times (Suc n) r k = RSeq r (rx_times n r k)"

definition crash_step_re :: "char rx" where
  "crash_step_re =
     RSeq (rx_lit ''postmortem.crash:'') (rx_times 32 (RCls is_lower_hex) (RAssert (at_dollar newline)))"

definition crash_step_name :: "string \<Rightarrow> string" where
  "crash_step_name call_id = ''postmortem.crash:'' @ call_id"

definition crash_calls :: "run_manifest \<Rightarrow> nat" where
  "crash_calls m = length (filter (\<lambda>(n, _). re_match crash_step_re n \<noteq> None) (step_results m))"

text \<open>Recording a step is retried while the manifest is locked, five attempts in all.\<close>

definition record_terminal_crash_result :: "crash_env \<Rightarrow> string \<Rightarrow> step_result \<Rightarrow> unit store_op" where
  "record_terminal_crash_result env run_id res =
     retry_loop run_id res True False (re_faults (ce_read env)) (ce_others env) 5"

definition answer_recorded ::
    "crash_env \<Rightarrow> string \<Rightarrow> step_result \<Rightarrow> tool_response \<Rightarrow> (string \<times> written) list \<Rightarrow> tool_response crash_op" where
  "answer_recorded env run_id res resp writes s =
     (case record_terminal_crash_result env run_id res s of
        (Inl e, s') \<Rightarrow> (Inl (Store_raised e), s', writes)
      | (Inr _, s') \<Rightarrow> (Inr resp, s', writes))"

definition runner_exception ::
    "crash_env \<Rightarrow> string \<Rightarrow> path \<Rightarrow> string \<Rightarrow> (string \<times> written) list \<Rightarrow> tool_response crash_op" where
  "runner_exception env run_id run_dir exn writes =
     (let arts = [\<lparr>ar_path = str_path (under (agent_dir run_dir (ce_call_id env)) [''request.json'']),
                    ar_kind = ''application/json'', ar_sensitive = False, ar_description = None\<rparr>]
      in answer_recorded env run_id
          \<lparr>sr_step_name = crash_step_name (ce_call_id env), sr_status = FAILED,
           sr_summary = ''postmortem crash failed before runner finalization'', sr_artifacts = arts,
           sr_details = [(''call_id'', RawStr (ce_call_id env)), (''code'', RawStr ''postmortem_crash_failed''),
             (''exception_type'', RawStr exn), (''duration_ms'', RawInt (ce_duration env))]\<rparr>
          (Tool_failure INFRASTRUCTURE_FAILURE
            [(''code'', RawStr ''postmortem_crash_failed''), (''call_id'', RawStr (ce_call_id env)),
             (''exception_type'', RawStr exn)] arts)
          writes)"

subsection \<open>Finishing a call\<close>

definition crash_runner_terminal_failure :: "ssh_outcome \<Rightarrow> (string \<times> string) option" where
  "crash_runner_terminal_failure r =
     (if oversized_output r then Some (''oversized_output'', ''crash session stdout exceeded the cap'')
      else if cancelled r then Some (''crash_cancelled'', ''crash call cancelled'')
      else if stdin_failed r then Some (''crash_stdin_failure'', ''crash command script not fully written'')
      else if timed_out r \<or> exit_status r = 124 then Some (''crash_timeout'', ''crash run exceeded the timeout'')
      else None)"

definition record_crash_infra_failure ::
    "crash_env \<Rightarrow> string \<Rightarrow> string \<Rightarrow> string \<Rightarrow> (string \<times> written) list \<Rightarrow> tool_response crash_op" where
  "record_crash_infra_failure env run_id code message writes =
     answer_recorded env run_id
       \<lparr>sr_step_name = crash_step_name (ce_call_id env), sr_status = FAILED, sr_summary = message, sr_artifacts = [],
        sr_details = [(''call_id'', RawStr (ce_call_id env)), (''code'', RawStr code),
          (''duration_ms'', RawInt (ce_duration env))]\<rparr>
       (Tool_failure INFRASTRUCTURE_FAILURE [(''code'', RawStr code), (''call_id'', RawStr (ce_call_id env))] [])
       writes"

record parsed_output =
  po_results :: "(raw_key \<times> raw) list"
  po_transcript :: string
  po_truncated :: bool
  po_all_not_captured :: bool

definition segment_result :: "redactor \<Rightarrow> out_segment \<Rightarrow> raw" where
  "segment_result rd seg =
     (let txt = redact_text rd (case seg_raw seg of None \<Rightarrow> [] | Some t \<Rightarrow> t) in
      case seg_capture seg of
        Not_captured \<Rightarrow> not_parsed ''not_captured'' RawNone
      | Output_truncated \<Rightarrow> not_parsed ''output_truncated'' (RawStr txt)
      | Captured \<Rightarrow> redact_value rd (parse_command (seg_command seg) txt))"

definition transcript_part :: "redactor \<Rightarrow> out_segment \<Rightarrow> string" where
  "transcript_part rd seg =
     ''$ '' @ seg_command seg @ [newline] @ redact_text rd (case seg_raw seg of None \<Rightarrow> [] | Some t \<Rightarrow> t)"

fun join_text :: "string \<Rightarrow> string list \<Rightarrow> string" where
  "join_text sep [] = []"
| "join_text sep [p] = p"
| "join_text sep (p # ps) = p @ sep @ join_text sep ps"

definition parse_crash_outputs :: "dir_files \<Rightarrow> string list \<Rightarrow> redactor \<Rightarrow> parsed_output" where
  "parse_crash_outputs files commands rd =
     (let (segments, truncated) = collect_command_outputs files commands CRASH_PER_CMD_CAP CRASH_STDOUT_CAP in
      \<lparr>po_results = fold (\<lambda>seg. dict_set (KStr (seg_command seg)) (segment_result rd seg)) segments [],
       po_transcript = join_text [newline, newline]
         (map (transcript_part rd) (filter (\<lambda>seg. seg_capture seg \<noteq> Not_captured) segments)),
       po_truncated = truncated,
       po_all_not_captured = list_all (\<lambda>seg. seg_capture seg = Not_captured) segments\<rparr>)"

text \<open>\<open>text[:n]\<close> on characters.\<close>

fun take_chars :: "nat \<Rightarrow> string \<Rightarrow> string" where
  "take_chars n [] = []"
| "take_chars n (c # cs) =
     (if byte_in 0x80 0xBF c then c # take_chars n cs
      else if n = 0 then [] else c # take_chars (n - 1) cs)"

definition crash_module_symbol_status :: "dir_files \<Rightarrow> redactor \<Rightarrow> bool \<Rightarrow> raw option" where
  "crash_module_symbol_status files rd modules_requested =
     (if \<not> modules_requested then None
      else let found = files MOD_LOAD_FILENAME;
               mod_text = (case found of None \<Rightarrow> [] | Some b \<Rightarrow> decode_replace b);
               status = (if found \<noteq> None \<and> \<not> contains_sub ''cannot'' (py_lower mod_text)
                         then ''loaded'' else ''load_failed'')
           in Some (RawMap [(KStr ''requested'', RawBool True), (KStr ''status'', RawStr status),
                (KStr ''detail'', RawStr (redact_text rd (take_chars 512 mod_text)))]))"

definition agent_artifact :: "string \<Rightarrow> string \<Rightarrow> string \<Rightarrow> artifact_ref" where
  "agent_artifact call_id name kind =
     \<lparr>ar_path = str_path (Path False [''debug'', ''postmortem'', ''crash'', call_id, name]), ar_kind = kind,
      ar_sensitive = False, ar_description = None\<rparr>"

definition crash_artifacts :: "string \<Rightarrow> artifact_ref list" where
  "crash_artifacts call_id =
     [agent_artifact call_id ''transcript.txt'' ''crash_transcript'',
      agent_artifact call_id ''parsed.json'' ''crash_parsed_json'']"

definition crash_success_response ::
    "crash_env \<Rightarrow> string \<Rightarrow> string \<Rightarrow> ssh_outcome \<Rightarrow> string list \<Rightarrow> parsed_output \<Rightarrow> raw option
      \<Rightarrow> (string \<times> written) list \<Rightarrow> tool_response crash_op" where
  "crash_success_response env run_id build_id r commands parsed module_symbols writes =
     answer_recorded env run_id
       \<lparr>sr_step_name = crash_step_name (ce_call_id env), sr_status = SUCCEEDED,
        sr_summary = ''crash batch: '' @ show_nat (length commands) @ '' command(s)'',
        sr_artifacts = crash_artifacts (ce_call_id env),
        sr_details = [(''call_id'', RawStr (ce_call_id env)), (''vmcore_build_id'', RawStr build_id),
          (''duration_ms'', RawInt (ce_duration env))]\<rparr>
       (Tool_success
         ([(''call_id'', RawStr (ce_call_id env)), (''vmcore_build_id'', RawStr build_id),
           (''results'', RawMap (po_results parsed)), (''truncated'', RawBool (po_truncated parsed)),
           (''crash_exit_code'', RawInt (exit_status r)), (''started_at'', RawStr (ce_started env)),
           (''finished_at'', RawStr (ce_finished env)), (''duration_ms'', RawInt (ce_duration env))]
          @ (case module_symbols of None \<Rightarrow> [] | Some v \<Rightarrow> [(''module_symbols'', v)]))
         (crash_artifacts (ce_call_id env)))
       writes"

definition finalize_crash_call ::
    "crash_env \<Rightarrow> redactor \<Rightarrow> string \<Rightarrow> vmcore_context \<Rightarrow> ssh_outcome \<Rightarrow> dir_files \<Rightarrow> string list
      \<Rightarrow> (string \<times> written) list \<Rightarrow> tool_response crash_op" where
  "finalize_crash_call env rd run_id ctx r files commands writes s =
     (case crash_runner_terminal_failure r of
        Some (code, message) \<Rightarrow> record_crash_infra_failure env run_id code message writes s
      | None \<Rightarrow>
          if ce_fails env Read_outputs then (Inl File_operation_raised, s, writes)
          else let parsed = parse_crash_outputs files commands rd in
            if po_all_not_captured parsed \<and> exit_status r \<noteq> 0
            then record_crash_infra_failure env run_id ''crash_open_failure''
                   ''crash produced no command output (could not open the pair)'' writes s
            else let module_symbols = crash_module_symbol_status files rd (vc_modules ctx \<noteq> None) in
              if ce_fails env Write_artifacts then (Inl File_operation_raised, s, writes)
              else crash_success_response env run_id (vc_build_id ctx) r commands parsed module_symbols
                     (writes @ [(''transcript.txt'', Text (redact_text rd (po_transcript parsed))),
                                (''parsed.json'', Json (RawMap (po_results parsed)))]) s)"

text \<open>The \<open>sensitive\<close> directory of the run is there and private, or the refusal.\<close>

definition sensitive_refusal :: "string \<Rightarrow> store \<Rightarrow> tool_response option" where
  "sensitive_refusal run_id s =
     (case run_at run_id s of
        None \<Rightarrow> Some (crash_config_failure ''sensitive_dir_missing'')
      | Some d \<Rightarrow>
          if ''sensitive'' \<notin> set (subdirs d) then Some (crash_config_failure ''sensitive_dir_missing'')
          else if \<not> sensitive_private d then Some (crash_config_failure ''sensitive_dir_too_permissive'')
          else None)"

definition debug_postmortem_crash_handler :: "crash_env \<Rightarrow> crash_request \<Rightarrow> tool_response crash_op" where
  "debug_postmortem_crash_handler env q s =
     (case resolve_postmortem_vmcore_context (ce_read env) q s of
        Inl e \<Rightarrow> (Inl e, s, [])
      | Inr (Inl failure) \<Rightarrow> (Inr failure, s, [])
      | Inr (Inr ctx) \<Rightarrow>
        (case validate_crash_commands (cq_commands q) of
           Some failure \<Rightarrow> (Inr failure, s, [])
         | None \<Rightarrow>
           if MAX_POSTMORTEM_CRASH_CALLS_PER_RUN \<le> crash_calls (vc_manifest ctx)
           then (Inr (crash_config_failure ''manifest_call_budget_exhausted''), s, [])
           else case sensitive_refusal (cq_run_id q) s of
             Some failure \<Rightarrow> (Inr failure, s, [])
           | None \<Rightarrow>
             if ce_fails env Make_workspace \<or> ce_fails env Write_request then (Inl File_operation_raised, s, [])
             else
               let commands = map strip (cq_commands q);
                   script = build_command_script commands (sensitive_call_dir (vc_run_dir ctx) (ce_call_id env))
                     (vc_modules ctx);
                   rd = make_redactor (ce_process_secrets env) (Some []);
                   writes = [(''request.json'', Json (redact_value rd (dump_crash_request q)))]
               in (case ce_runner env (crash_argv ctx q) script of
                     Inl exn \<Rightarrow> runner_exception env (cq_run_id q) (vc_run_dir ctx) exn writes s
                   | Inr (r, files) \<Rightarrow>
                       if ce_fails env Tighten_outputs then (Inl File_operation_raised, s, writes)
                       else finalize_crash_call env rd (cq_run_id q) ctx r files commands writes s)))"

end
