(* ===== verification/Triage.thy ===== *)
theory Triage
  imports Postmortem
begin

text \<open>
  Models \<open>src/kdive/postmortem/triage/assemble.py\<close>, \<open>triage/handlers.py\<close> and the report of
  \<open>postmortem/models.py\<close>: one report composed of a crash call and two drgn helper calls. The
  two handlers are arguments: operations on the store that return a response or raise an
  exception of the named type. \<open>None\<close> stands for a Python exception inside the assembly, on
  data of a shape neither handler produces; a declared field takes its declared type only.
\<close>

subsection \<open>\<open>assemble.py\<close>\<close>

definition panic_signatures :: "string list" where
  "panic_signatures =
     [''Kernel panic - not syncing'', ''Kernel panic'', ''Unable to handle kernel'', ''general protection fault'',
      ''kernel BUG at'', ''BUG:'', ''Oops'']"

fun truthy :: "raw \<Rightarrow> bool" where
  "truthy RawNone = False"
| "truthy (RawStr s) = (s \<noteq> [])"
| "truthy (RawBool b) = b"
| "truthy (RawInt i) = (i \<noteq> 0)"
| "truthy (RawFloat m e) = (m \<noteq> 0)"
| "truthy RawNonFinite = True"
| "truthy (RawMap items) = (items \<noteq> [])"
| "truthy (RawList xs) = (xs \<noteq> [])"
| "truthy (RawTuple xs) = (xs \<noteq> [])"
| "truthy (RawOther t) = True"

definition get_or_none :: "string \<Rightarrow> (raw_key \<times> raw) list \<Rightarrow> raw" where
  "get_or_none k items = (case map_of items (KStr k) of None \<Rightarrow> RawNone | Some v \<Rightarrow> v)"

text \<open>\<open>line.get("text") or ""\<close> of a log line, when it is a text.\<close>

fun line_text :: "raw \<Rightarrow> string option" where
  "line_text (RawMap items) =
     (let v = get_or_none ''text'' items in
      if \<not> truthy v then Some [] else case v of RawStr s \<Rightarrow> Some s | _ \<Rightarrow> None)"
| "line_text _ = None"

text \<open>The inner loop: the first line that holds the signature.\<close>

fun first_match :: "string \<Rightarrow> raw list \<Rightarrow> string option option" where
  "first_match sig [] = Some None"
| "first_match sig (line # rest) =
     (case line_text line of
        None \<Rightarrow> None
      | Some t \<Rightarrow> if contains_sub sig t then Some (Some t) else first_match sig rest)"

fun select_from :: "string list \<Rightarrow> raw list \<Rightarrow> string option option" where
  "select_from [] ls = Some None"
| "select_from (sig # sigs) ls =
     (case first_match sig ls of
        None \<Rightarrow> None | Some (Some t) \<Rightarrow> Some (Some t) | Some None \<Rightarrow> select_from sigs ls)"

definition select_panic_reason :: "raw list \<Rightarrow> string option option" where
  "select_panic_reason log_lines = select_from panic_signatures log_lines"

record source_outcome =
  so_ok :: bool
  so_reason :: "string option"
  so_data :: raw

record section_base =
  sec_ok :: bool
  sec_reason :: "string option"

record panic_section = section_base +
  pr_text :: "string option"

record task_section = section_base +
  ft_pid :: "int option"
  ft_command :: "string option"

record backtrace_section = section_base +
  bt_frames :: "raw list"

record dmesg_section = section_base +
  dm_entries :: "raw list"
  dm_truncated :: bool

record modules_section = section_base +
  md_modules :: "raw list"
  md_decode_errors :: int

record triage_report =
  tr_build_id :: string
  tr_panic :: panic_section
  tr_task :: task_section
  tr_backtrace :: backtrace_section
  tr_dmesg :: dmesg_section
  tr_modules :: modules_section

text \<open>\<open>list(v or [])\<close>, and such a list under \<open>list[dict[str, Any]]\<close>.\<close>

fun listed :: "raw \<Rightarrow> raw list option" where
  "listed (RawList xs) = Some xs"
| "listed (RawTuple xs) = Some xs"
| "listed v = (if truthy v then None else Some [])"

fun dict_row :: "raw \<Rightarrow> bool" where
  "dict_row (RawMap items) = (\<forall>(k, v) \<in> set items. case k of KStr _ \<Rightarrow> True | KOther _ \<Rightarrow> False)"
| "dict_row _ = False"

definition rows_of :: "raw \<Rightarrow> raw list option" where
  "rows_of v = (case listed v of None \<Rightarrow> None | Some xs \<Rightarrow> if list_all dict_row xs then Some xs else None)"

fun as_text :: "raw \<Rightarrow> string option option" where
  "as_text RawNone = Some None"
| "as_text (RawStr s) = Some (Some s)"
| "as_text _ = None"

fun as_int :: "raw \<Rightarrow> int option option" where
  "as_int RawNone = Some None"
| "as_int (RawInt i) = Some (Some i)"
| "as_int _ = None"

text \<open>\<open>int(v)\<close>.\<close>

fun int_of_raw :: "raw \<Rightarrow> int option" where
  "int_of_raw (RawInt i) = Some i"
| "int_of_raw (RawBool b) = Some (if b then 1 else 0)"
| "int_of_raw (RawFloat m e) =
     Some (if 0 \<le> e then m * 2 ^ nat e else sgn m * (\<bar>m\<bar> div 2 ^ nat (- e)))"
| "int_of_raw (RawStr s) = parse_int s"
| "int_of_raw _ = None"

definition failed_panic :: "string \<Rightarrow> panic_section" where
  "failed_panic reason = \<lparr>sec_ok = False, sec_reason = Some reason, pr_text = None\<rparr>"

definition failed_task :: "string \<Rightarrow> task_section" where
  "failed_task reason = \<lparr>sec_ok = False, sec_reason = Some reason, ft_pid = None, ft_command = None\<rparr>"

definition failed_backtrace :: "string \<Rightarrow> backtrace_section" where
  "failed_backtrace reason = \<lparr>sec_ok = False, sec_reason = Some reason, bt_frames = []\<rparr>"

text \<open>\<open>(v.get("reason") if isinstance(v, Mapping) else None) or missing\<close>.\<close>

definition reason_or :: "string \<Rightarrow> raw \<Rightarrow> string option" where
  "reason_or missing v =
     (case v of
        RawMap items \<Rightarrow>
          let r = get_or_none ''reason'' items in
          if \<not> truthy r then Some missing else (case r of RawStr s \<Rightarrow> Some s | _ \<Rightarrow> None)
      | _ \<Rightarrow> Some missing)"

text \<open>The items of a mapping whose \<open>parsed\<close> is true.\<close>

definition parsed_items :: "raw \<Rightarrow> (raw_key \<times> raw) list option" where
  "parsed_items v =
     (case v of RawMap items \<Rightarrow> if truthy (get_or_none ''parsed'' items) then Some items else None | _ \<Rightarrow> None)"

definition panic_part :: "raw \<Rightarrow> panic_section option" where
  "panic_part log =
     (case parsed_items log of
        Some items \<Rightarrow>
          (case listed (get_or_none ''lines'' items) of
             None \<Rightarrow> None
           | Some ls \<Rightarrow> map_option (\<lambda>t. \<lparr>sec_ok = True, sec_reason = None, pr_text = t\<rparr>) (select_panic_reason ls))
      | None \<Rightarrow> map_option failed_panic (reason_or ''log_missing'' log))"

definition backtrace_part :: "raw \<Rightarrow> (task_section \<times> backtrace_section) option" where
  "backtrace_part bt =
     (case parsed_items bt of
        Some items \<Rightarrow>
          (case (as_int (get_or_none ''pid'' items), as_text (get_or_none ''command'' items),
                 rows_of (get_or_none ''frames'' items)) of
             (Some pid, Some command, Some frames) \<Rightarrow>
               Some (\<lparr>sec_ok = True, sec_reason = None, ft_pid = pid, ft_command = command\<rparr>,
                     \<lparr>sec_ok = True, sec_reason = None, bt_frames = frames\<rparr>)
           | _ \<Rightarrow> None)
      | None \<Rightarrow> map_option (\<lambda>r. (failed_task r, failed_backtrace r)) (reason_or ''bt_missing'' bt))"

definition or_default :: "string option \<Rightarrow> string" where
  "or_default reason = (case reason of None \<Rightarrow> ''sub_call_failed'' | Some r \<Rightarrow> if r = [] then ''sub_call_failed'' else r)"

definition crash_sections :: "source_outcome \<Rightarrow> (panic_section \<times> task_section \<times> backtrace_section) option" where
  "crash_sections crash =
     (if \<not> so_ok crash
      then let reason = or_default (so_reason crash)
           in Some (failed_panic reason, failed_task reason, failed_backtrace reason)
      else case so_data crash of
          RawMap results \<Rightarrow>
            (case (panic_part (get_or_none ''log'' results), backtrace_part (get_or_none ''bt'' results)) of
               (Some panic, Some (task, backtrace)) \<Rightarrow> Some (panic, task, backtrace)
             | _ \<Rightarrow> None)
        | _ \<Rightarrow> None)"

definition dmesg_part :: "source_outcome \<Rightarrow> dmesg_section option" where
  "dmesg_part dmesg =
     (if so_ok dmesg
      then (case so_data dmesg of
              RawMap result \<Rightarrow>
                map_option (\<lambda>es. \<lparr>sec_ok = True, sec_reason = None, dm_entries = es,
                    dm_truncated = truthy (get_or_none ''truncated'' result)\<rparr>)
                  (rows_of (get_or_none ''entries'' result))
            | _ \<Rightarrow> None)
      else Some \<lparr>sec_ok = False, sec_reason = Some (or_default (so_reason dmesg)), dm_entries = [], dm_truncated = False\<rparr>)"

definition modules_part :: "source_outcome \<Rightarrow> modules_section option" where
  "modules_part modules =
     (if so_ok modules
      then (case so_data modules of
              RawMap result \<Rightarrow>
                (case (rows_of (get_or_none ''modules'' result),
                       case map_of result (KStr ''decode_errors'') of None \<Rightarrow> Some 0 | Some v \<Rightarrow> int_of_raw v) of
                   (Some ms, Some n) \<Rightarrow>
                     Some \<lparr>sec_ok = True, sec_reason = None, md_modules = ms, md_decode_errors = n\<rparr>
                 | _ \<Rightarrow> None)
            | _ \<Rightarrow> None)
      else Some \<lparr>sec_ok = False, sec_reason = Some (or_default (so_reason modules)), md_modules = [], md_decode_errors = 0\<rparr>)"

definition assemble_report ::
    "string \<Rightarrow> source_outcome \<Rightarrow> source_outcome \<Rightarrow> source_outcome \<Rightarrow> triage_report option" where
  "assemble_report build_id crash dmesg modules =
     (case (crash_sections crash, dmesg_part dmesg, modules_part modules) of
        (Some (panic, task, backtrace), Some d, Some m) \<Rightarrow>
          Some \<lparr>tr_build_id = build_id, tr_panic = panic, tr_task = task, tr_backtrace = backtrace,
                tr_dmesg = d, tr_modules = m\<rparr>
      | _ \<Rightarrow> None)"

definition any_section_ok :: "triage_report \<Rightarrow> bool" where
  "any_section_ok r \<longleftrightarrow>
     sec_ok (tr_panic r) \<or> sec_ok (tr_task r) \<or> sec_ok (tr_backtrace r) \<or> sec_ok (tr_dmesg r) \<or> sec_ok (tr_modules r)"

subsection \<open>The handler\<close>

definition triage_crash_commands :: "string list" where
  "triage_crash_commands = [''log'', ''bt'']"

definition field_or_none :: "string \<Rightarrow> fields \<Rightarrow> raw" where
  "field_or_none k fs = (case map_of fs k of None \<Rightarrow> RawNone | Some v \<Rightarrow> v)"

fun triage_subcall_id :: "tool_response \<Rightarrow> raw" where
  "triage_subcall_id (Tool_success data arts) =
     (case field_or_none ''call_id'' data of RawStr c \<Rightarrow> RawStr c | _ \<Rightarrow> RawNone)"
| "triage_subcall_id (Tool_failure cat details arts) =
     (case field_or_none ''call_id'' details of RawStr c \<Rightarrow> RawStr c | _ \<Rightarrow> RawNone)"

fun triage_reason :: "tool_response \<Rightarrow> string" where
  "triage_reason (Tool_success data arts) = ''sub_call_failed''"
| "triage_reason (Tool_failure cat details arts) =
     (case field_or_none ''code'' details of
        RawStr c \<Rightarrow> if c \<noteq> [] then c else ''sub_call_failed'' | _ \<Rightarrow> ''sub_call_failed'')"

definition triage_subcall_failure :: "string \<Rightarrow> string \<Rightarrow> tool_response" where
  "triage_subcall_failure code exn =
     Tool_failure INFRASTRUCTURE_FAILURE [(''code'', RawStr code), (''exception_type'', RawStr exn)] []"

fun outcome_of :: "string \<Rightarrow> tool_response \<Rightarrow> source_outcome" where
  "outcome_of key (Tool_success data arts) =
     \<lparr>so_ok = True, so_reason = None,
      so_data = (case map_of data key of None \<Rightarrow> RawMap [] | Some v \<Rightarrow> v)\<rparr>"
| "outcome_of key (Tool_failure cat details arts) =
     \<lparr>so_ok = False, so_reason = Some (triage_reason (Tool_failure cat details arts)), so_data = RawMap []\<rparr>"

definition triage_crash_outcome :: "tool_response \<Rightarrow> source_outcome" where
  "triage_crash_outcome r = outcome_of ''results'' r"

definition triage_drgn_outcome :: "tool_response \<Rightarrow> source_outcome" where
  "triage_drgn_outcome r = outcome_of ''result'' r"

type_synonym sub_handler = "crash_request \<Rightarrow> store \<Rightarrow> (string, tool_response) result \<times> store"

record sources =
  src_crash :: tool_response
  src_dmesg :: tool_response
  src_modules :: tool_response

definition normalized :: "string \<Rightarrow> (string, tool_response) result \<Rightarrow> tool_response" where
  "normalized code r = (case r of Inl exn \<Rightarrow> triage_subcall_failure code exn | Inr resp \<Rightarrow> resp)"

text \<open>The helper is called with its name.\<close>

definition run_triage_sources ::
    "sub_handler \<Rightarrow> (string \<Rightarrow> sub_handler) \<Rightarrow> crash_request \<Rightarrow> store \<Rightarrow> sources \<times> store" where
  "run_triage_sources crash_handler drgn_helper q s =
     (let (c, s1) = crash_handler (q\<lparr>cq_commands := triage_crash_commands\<rparr>) s;
          (d, s2) = drgn_helper ''dmesg'' (q\<lparr>cq_modules_ref := None\<rparr>) s1;
          (m, s3) = drgn_helper ''modules'' (q\<lparr>cq_modules_ref := None\<rparr>) s2
      in (\<lparr>src_crash = normalized ''postmortem_crash_failed'' c,
           src_dmesg = normalized ''offline_introspect_failed'' d,
           src_modules = normalized ''offline_introspect_failed'' m\<rparr>, s3))"

definition sub_call_ids :: "sources \<Rightarrow> raw" where
  "sub_call_ids src = RawMap
     [(KStr ''crash'', triage_subcall_id (src_crash src)), (KStr ''dmesg'', triage_subcall_id (src_dmesg src)),
      (KStr ''modules'', triage_subcall_id (src_modules src))]"

definition status_raw :: "bool \<Rightarrow> raw" where
  "status_raw ok = RawStr (if ok then ''ok'' else ''failed'')"

definition base_dump :: "'a section_base_scheme \<Rightarrow> string \<Rightarrow> (raw_key \<times> raw) list" where
  "base_dump sec source =
     [(KStr ''status'', status_raw (sec_ok sec)), (KStr ''reason'', opt_raw (sec_reason sec)),
      (KStr ''source'', RawStr source)]"

definition report_dump :: "triage_report \<Rightarrow> (raw_key \<times> raw) list" where
  "report_dump r =
     [(KStr ''vmcore_build_id'', RawStr (tr_build_id r)),
      (KStr ''panic_reason'', RawMap (base_dump (tr_panic r) ''crash'' @ [(KStr ''text'', opt_raw (pr_text (tr_panic r)))])),
      (KStr ''faulting_task'', RawMap (base_dump (tr_task r) ''crash'' @
         [(KStr ''pid'', case ft_pid (tr_task r) of None \<Rightarrow> RawNone | Some i \<Rightarrow> RawInt i),
          (KStr ''command'', opt_raw (ft_command (tr_task r)))])),
      (KStr ''backtrace'', RawMap (base_dump (tr_backtrace r) ''crash'' @
         [(KStr ''frames'', RawList (bt_frames (tr_backtrace r)))])),
      (KStr ''recent_dmesg'', RawMap (base_dump (tr_dmesg r) ''drgn'' @
         [(KStr ''entries'', RawList (dm_entries (tr_dmesg r))), (KStr ''truncated'', RawBool (dm_truncated (tr_dmesg r)))])),
      (KStr ''modules'', RawMap (base_dump (tr_modules r) ''drgn'' @
         [(KStr ''modules'', RawList (md_modules (tr_modules r))),
          (KStr ''decode_errors'', RawInt (md_decode_errors (tr_modules r)))]))]"

definition section_names :: "string list" where
  "section_names = [''panic_reason'', ''faulting_task'', ''backtrace'', ''recent_dmesg'', ''modules'']"

definition section_reasons :: "triage_report \<Rightarrow> raw" where
  "section_reasons r = RawMap
     [(KStr ''panic_reason'', opt_raw (sec_reason (tr_panic r))), (KStr ''faulting_task'', opt_raw (sec_reason (tr_task r))),
      (KStr ''backtrace'', opt_raw (sec_reason (tr_backtrace r))), (KStr ''recent_dmesg'', opt_raw (sec_reason (tr_dmesg r))),
      (KStr ''modules'', opt_raw (sec_reason (tr_modules r)))]"

text \<open>The items of a mapping as fields of a response.\<close>

fun fields_of :: "raw \<Rightarrow> fields" where
  "fields_of (RawMap items) = map (\<lambda>(k, v). (key_text k, v)) items"
| "fields_of _ = []"

definition record_terminal :: "crash_env \<Rightarrow> string \<Rightarrow> step_result \<Rightarrow> tool_response \<Rightarrow> (string \<times> written) list
    \<Rightarrow> tool_response crash_op" where
  "record_terminal env run_id res resp writes s =
     (case record_append_only_terminal_step run_id res (re_faults (ce_read env)) (ce_others env) s of
        (Inl e, s') \<Rightarrow> (Inl (Store_raised e), s', writes)
      | (Inr _, s') \<Rightarrow> (Inr resp, s', writes))"

definition record_failed_triage ::
    "crash_env \<Rightarrow> redactor \<Rightarrow> string \<Rightarrow> triage_report \<Rightarrow> sources \<Rightarrow> tool_response crash_op" where
  "record_failed_triage env rd run_id report src =
     record_terminal env run_id
       \<lparr>sr_step_name = ''postmortem.triage:'' @ ce_call_id env, sr_status = FAILED,
        sr_summary = ''triage: all sources failed'', sr_artifacts = [],
        sr_details = [(''code'', RawStr ''triage_all_sources_failed''), (''duration_ms'', RawInt (ce_duration env))]\<rparr>
       (Tool_failure INFRASTRUCTURE_FAILURE
          (fields_of (redact_value rd (RawMap
             [(KStr ''code'', RawStr ''triage_all_sources_failed''), (KStr ''sub_call_ids'', sub_call_ids src),
              (KStr ''section_reasons'', section_reasons report)]))) [])
       []"

text \<open>\<open>redacted_report[name]["status"] == "ok"\<close>.\<close>

definition status_ok :: "raw \<Rightarrow> string \<Rightarrow> bool" where
  "status_ok report name =
     (case report of
        RawMap items \<Rightarrow>
          (case get_or_none name items of RawMap sec \<Rightarrow> get_or_none ''status'' sec = RawStr ''ok'' | _ \<Rightarrow> False)
      | _ \<Rightarrow> False)"

definition python_bool :: "bool \<Rightarrow> string" where
  "python_bool b = (if b then ''True'' else ''False'')"

definition persist_successful_triage_report ::
    "crash_env \<Rightarrow> redactor \<Rightarrow> string \<Rightarrow> string \<Rightarrow> triage_report \<Rightarrow> sources \<Rightarrow> tool_response crash_op" where
  "persist_successful_triage_report env rd run_id build_id report src s =
     (let redacted = redact_value rd (RawMap (report_dump report));
          partial = (\<not> list_all (status_ok redacted) section_names);
          arts = [\<lparr>ar_path = str_path (Path False [''debug'', ''postmortem'', ''triage'', ce_call_id env, ''report.json'']),
                   ar_kind = ''triage_report_json'', ar_sensitive = False, ar_description = None\<rparr>]
      in if ce_fails env Write_artifacts then (Inl File_operation_raised, s, [])
         else record_terminal env run_id
           \<lparr>sr_step_name = ''postmortem.triage:'' @ ce_call_id env, sr_status = SUCCEEDED,
            sr_summary = ''triage report (partial='' @ python_bool partial @ '')'', sr_artifacts = arts,
            sr_details = [(''call_id'', RawStr (ce_call_id env)), (''vmcore_build_id'', RawStr build_id),
              (''partial'', RawBool partial), (''duration_ms'', RawInt (ce_duration env))]\<rparr>
           (Tool_success
              [(''call_id'', RawStr (ce_call_id env)), (''report'', redacted), (''partial'', RawBool partial),
               (''vmcore_build_id'', RawStr build_id), (''sub_call_ids'', sub_call_ids src),
               (''started_at'', RawStr (ce_started env)), (''finished_at'', RawStr (ce_finished env)),
               (''duration_ms'', RawInt (ce_duration env))] arts)
           [(''report.json'', Json redacted)] s)"

definition debug_postmortem_triage_handler ::
    "sub_handler \<Rightarrow> (string \<Rightarrow> sub_handler) \<Rightarrow> crash_env \<Rightarrow> crash_request \<Rightarrow> tool_response crash_op" where
  "debug_postmortem_triage_handler crash_handler drgn_helper env q s =
     (case resolve_postmortem_vmcore_context (ce_read env) q s of
        Inl e \<Rightarrow> (Inl e, s, [])
      | Inr (Inl failure) \<Rightarrow> (Inr failure, s, [])
      | Inr (Inr ctx) \<Rightarrow>
          let (src, s1) = run_triage_sources crash_handler drgn_helper q s;
              rd = make_redactor (ce_process_secrets env) (Some [])
          in (case assemble_report (vc_build_id ctx) (triage_crash_outcome (src_crash src))
                     (triage_drgn_outcome (src_dmesg src)) (triage_drgn_outcome (src_modules src)) of
                None \<Rightarrow> (Inl Validation_raised, s1, [])
              | Some report \<Rightarrow>
                  if \<not> any_section_ok report then record_failed_triage env rd (cq_run_id q) report src s1
                  else persist_successful_triage_report env rd (cq_run_id q) (vc_build_id ctx) report src s1))"

end
