(* ===== verification/CrashProps.thy ===== *)
theory CrashProps
  imports Postmortem StoreProps RedactionProps PathProps
begin

text \<open>
  The batch mode of crash: the script is the permitted commands and nothing else, one
  private output file per command; what is read back is bounded and complete; a call that
  answers ran on a verified pair and left its step in the manifest; nothing it hands on
  holds a secret.
\<close>

subsection \<open>File names\<close>

lemma dec_value_snoc: "dec_value (s @ [c]) = 10 * dec_value s + digit_value c"
  by (simp add: dec_value_def)

lemma digit_value_hex_char [simp]: "n < 10 \<Longrightarrow> digit_value (hex_char n) = n"
  by (simp add: digit_value_def hex_char_def)

lemma dec_value_show_nat [simp]: "dec_value (show_nat n) = n"
proof (induction n rule: show_nat.induct)
  case (1 n)
  show ?case
  proof (cases "n < 10")
    case True
    then show ?thesis by (simp add: show_nat.simps [of n] dec_value_def)
  next
    case False
    with 1 show ?thesis by (simp add: show_nat.simps [of n] dec_value_snoc)
  qed
qed

lemma is_digit_hex_char: "n < 10 \<Longrightarrow> is_digit (hex_char n)"
  by (simp add: is_digit_def hex_char_def)

lemma show_nat_digits: "list_all is_digit (show_nat n)"
proof (induction n rule: show_nat.induct)
  case (1 n)
  then show ?case by (subst show_nat.simps) (simp add: is_digit_hex_char)
qed

lemma dec_value_zeros: "dec_value (replicate k (CHR ''0'') @ s) = dec_value s"
  by (induction k) (simp_all add: dec_value_def digit_value_def)

lemma pad4_digits: "list_all is_digit (pad4_nat n)"
  using show_nat_digits [of n] by (auto simp: pad4_nat_def Let_def list_all_iff is_digit_def)

lemma pad4_inj: "pad4_nat m = pad4_nat n \<longleftrightarrow> m = n"
  by (metis dec_value_show_nat dec_value_zeros pad4_nat_def)

lemma redirect_inj [simp]: "redirect_filename m = redirect_filename n \<longleftrightarrow> m = n"
  by (simp add: redirect_filename_def pad4_inj)

lemma digit_not_newline: "is_digit c \<Longrightarrow> c \<noteq> newline"
  by (auto simp: is_digit_def newline_def)

lemma redirect_one_line: "newline \<notin> set (redirect_filename n)"
  using pad4_digits [of n] digit_not_newline by (auto simp: redirect_filename_def newline_def list_all_iff)

lemma redirect_not_mod_load: "redirect_filename n \<noteq> MOD_LOAD_FILENAME"
  by (simp add: redirect_filename_def MOD_LOAD_FILENAME_def)

subsection \<open>The script\<close>

lemma split_on_append: "c \<notin> set p \<Longrightarrow> split_on c (p @ c # s) = p # split_on c s"
  by (induction p) auto

lemma join_with_Cons: "qs \<noteq> [] \<Longrightarrow> join_with c (p # qs) = p @ c # join_with c qs"
  by (cases qs) (simp_all add: join_with_def)

lemma split_join_lines:
  assumes "\<forall>p \<in> set ps. c \<notin> set p" "ps \<noteq> []"
  shows "split_on c (join_with c ps @ [c]) = ps @ [[]]"
  using assms
proof (induction ps)
  case (Cons p ps)
  show ?case
  proof (cases "ps = []")
    case True
    with Cons show ?thesis by (simp add: join_with_def split_on_append)
  next
    case False
    with Cons show ?thesis by (simp add: join_with_Cons split_on_append)
  qed
qed simp

lemma join_with_set: "set (join_with c ps) \<subseteq> insert c (\<Union> (set ` set ps))"
  by (auto simp: join_with_def split: list.splits)

lemma in_dir_one_line:
  assumes "\<forall>p \<in> set (parts_of dir). newline \<notin> set p" "newline \<notin> set name"
  shows "newline \<notin> set (in_dir dir name)"
proof (cases dir)
  case (Path a ps)
  have "newline \<notin> set (join_with (CHR ''/'') (ps @ [name]))"
    using assms join_with_set [of "CHR ''/''" "ps @ [name]"] by (auto simp: Path newline_def)
  then show ?thesis by (simp add: Path in_dir_def str_path_def join_path_def newline_def)
qed

lemma join_with_last:
  "join_with c (ps @ [x]) = (if ps = [] then x else join_with c ps @ c # x)"
  by (cases ps) (simp_all add: join_with_def)

lemma in_dir_inj: "in_dir dir m = in_dir dir n \<longleftrightarrow> m = n"
  by (cases dir) (auto simp: in_dir_def str_path_def join_path_def join_with_last)

lemma permitted_command:
  assumes "crash_command_rejection_reason c allow = None"
  shows "newline \<notin> set c \<and> (\<forall>t \<in> set deny_chars. \<not> contains_sub t c) \<and> strip c \<noteq> [] \<and>
    hd (strip c) \<noteq> CHR ''!'' \<and> py_lower (hd (words (strip c))) \<in> set allow"
proof -
  have "list_ex control_char c \<longleftrightarrow> False" using assms
    by (auto simp: crash_command_rejection_reason_def Let_def split: if_splits)
  then have "newline \<notin> set c" by (auto simp: list_ex_iff control_char_def newline_def)
  with assms show ?thesis
    by (auto simp: crash_command_rejection_reason_def Let_def find_None_all split: if_splits option.splits)
qed

lemma first_rejected_None:
  "first_rejected cs = None \<longleftrightarrow> (\<forall>c \<in> set cs. crash_command_rejection_reason c CRASH_COMMAND_ALLOWLIST = None)"
  by (induction cs) (auto split: option.splits)

lemma validated_commands:
  "validate_crash_commands commands = None \<longleftrightarrow>
     commands \<noteq> [] \<and> length commands \<le> 64 \<and> distinct (map strip commands) \<and>
     sum_list (map (length \<circ> strip) commands) \<le> 65536 \<and>
     (\<forall>c \<in> set commands. crash_command_rejection_reason (strip c) CRASH_COMMAND_ALLOWLIST = None)"
  using first_rejected_None [of "map strip commands"]
  by (auto simp: validate_crash_commands_def MAX_CRASH_COMMANDS_def CRASH_SCRIPT_BYTE_CAP_def Let_def
      split: option.splits if_splits)

lemma map_enumerate: "map (\<lambda>(i, x). f i x) (List.enumerate k xs) = map (\<lambda>i. f (k + i) (xs ! i)) [0..<length xs]"
  by (rule nth_equalityI) (simp_all add: nth_enumerate_eq)

text \<open>C28: the script is the permitted commands and nothing else. When the commands pass
  validation, and neither the output directory nor the modules path holds a newline, crash
  reads exactly these lines: the module load if there is one, then the i-th command
  redirected to its own file, then \<open>exit\<close>. Each verb is in the allowlist, no line leaves
  crash by a shell escape, a pipe, a redirection or a substitution of the caller, and the
  files of two commands, and of the module load, differ.\<close>

theorem script_is_the_permitted_commands:
  assumes "validate_crash_commands commands = None"
    and "\<forall>p \<in> set (parts_of dir). newline \<notin> set p"
    and "\<forall>m. modules = Some m \<longrightarrow> newline \<notin> set m"
  shows "split_on newline (build_command_script (map strip commands) dir modules) =
      (case modules of None \<Rightarrow> [] | Some m \<Rightarrow> [''mod -S '' @ m @ '' > '' @ in_dir dir MOD_LOAD_FILENAME]) @
      map (\<lambda>i. strip (commands ! i) @ '' > '' @ in_dir dir (redirect_filename i)) [0..<length commands] @
      [''exit'', []]
    \<and> (\<forall>c \<in> set commands. py_lower (hd (words (strip (strip c)))) \<in> set CRASH_COMMAND_ALLOWLIST \<and>
        hd (strip (strip c)) \<noteq> CHR ''!'' \<and> (\<forall>t \<in> set deny_chars. \<not> contains_sub t (strip c)))
    \<and> distinct (in_dir dir MOD_LOAD_FILENAME # map (\<lambda>i. in_dir dir (redirect_filename i)) [0..<length commands])"
proof -
  define ls where "ls = script_lines (map strip commands) dir modules"
  have ls: "ls = (case modules of None \<Rightarrow> [] | Some m \<Rightarrow> [''mod -S '' @ m @ '' > '' @ in_dir dir MOD_LOAD_FILENAME]) @
      map (\<lambda>i. strip (commands ! i) @ '' > '' @ in_dir dir (redirect_filename i)) [0..<length commands] @ [''exit'']"
    by (auto simp: ls_def script_lines_def map_enumerate split: option.splits)
  have perm: "\<forall>c \<in> set commands. crash_command_rejection_reason (strip c) CRASH_COMMAND_ALLOWLIST = None"
    using assms(1) by (simp add: validated_commands)
  have out: "newline \<notin> set (in_dir dir (redirect_filename i))" for i
    by (rule in_dir_one_line [OF assms(2) redirect_one_line])
  have ml: "newline \<notin> set (in_dir dir MOD_LOAD_FILENAME)"
    by (rule in_dir_one_line [OF assms(2)]) (simp add: MOD_LOAD_FILENAME_def newline_def)
  have cmd: "newline \<notin> set (strip c)" if "c \<in> set commands" for c
    using permitted_command perm that by blast
  have "newline \<notin> set '' > ''" "newline \<notin> set ''exit''" "newline \<notin> set ''mod -S ''"
    by (simp_all add: newline_def)
  then have "\<forall>p \<in> set ls. newline \<notin> set p"
    unfolding ls using out ml cmd assms(3) by (auto split: option.splits)
  moreover have "ls \<noteq> []" by (simp add: ls)
  ultimately have "split_on newline (build_command_script (map strip commands) dir modules) = ls @ [[]]"
    unfolding build_command_script_def ls_def [symmetric] by (rule split_join_lines)
  moreover have "distinct (map (\<lambda>i. in_dir dir (redirect_filename i)) [0..<length commands])"
    by (simp add: distinct_map in_dir_inj inj_on_def)
  moreover have "in_dir dir MOD_LOAD_FILENAME \<notin> set (map (\<lambda>i. in_dir dir (redirect_filename i)) [0..<length commands])"
    using redirect_not_mod_load by (auto simp: in_dir_inj dest: sym)
  ultimately show ?thesis
    using permitted_command perm by (auto simp: ls)
qed

lemma permitted_examples:
  "crash_command_rejection_reason ''bt'' CRASH_COMMAND_ALLOWLIST = None"
  "crash_command_rejection_reason ''ps'' CRASH_COMMAND_ALLOWLIST = None"
  by code_simp+

theorem script_is_the_permitted_commands_witness:
  "split_on newline (build_command_script [''bt'', ''ps''] (Path True [''r'']) (Some ''/m'')) =
     [''mod -S /m > /r/mod-load.out'', ''bt > /r/cmd-0000.out'', ''ps > /r/cmd-0001.out'', ''exit'', []]"
proof -
  have st: "map strip ['' bt'', ''ps''] = [''bt'', ''ps'']" by code_simp
  have "validate_crash_commands ['' bt'', ''ps''] = None"
    using st permitted_examples by (simp add: validated_commands)
  moreover have "\<forall>p \<in> set (parts_of (Path True [''r''])). newline \<notin> set p"
    and "\<forall>m. Some ''/m'' = Some m \<longrightarrow> newline \<notin> set m"
    by (simp_all add: newline_def)
  ultimately have lines: "split_on newline (build_command_script (map strip ['' bt'', ''ps'']) (Path True [''r'']) (Some ''/m'')) =
    (case Some ''/m'' of None \<Rightarrow> [] | Some m \<Rightarrow> [''mod -S '' @ m @ '' > '' @ in_dir (Path True [''r'']) MOD_LOAD_FILENAME]) @
      map (\<lambda>i. strip (['' bt'', ''ps''] ! i) @ '' > '' @ in_dir (Path True [''r'']) (redirect_filename i))
        [0..<length ['' bt'', ''ps'']] @
      [''exit'', []]"
    using script_is_the_permitted_commands by blast
  have "\<dots> = [''mod -S /m > /r/mod-load.out'', ''bt > /r/cmd-0000.out'', ''ps > /r/cmd-0001.out'', ''exit'', []]"
    by code_simp
  with lines show ?thesis by (simp only: st)
qed

text \<open>The path check ends with \<open>$\<close>, which also matches before a final newline: such a path
  passes and cuts the load line in two.\<close>

theorem modules_path_newline_passes:
  "validate_modules_path (''/m'' @ [newline])"
  "take 2 (split_on newline (build_command_script [''bt''] (Path True [''r'']) (Some (''/m'' @ [newline])))) =
     [''mod -S /m'', '' > /r/mod-load.out'']"
  by code_simp+

subsection \<open>Reading the outputs back\<close>

definition raw_length :: "out_segment \<Rightarrow> nat" where
  "raw_length seg = (case seg_raw seg of None \<Rightarrow> 0 | Some t \<Rightarrow> length t)"

text \<open>A segment is what the file of its command justifies, under the cap of a command.\<close>

definition segment_ok :: "dir_files \<Rightarrow> nat \<Rightarrow> nat \<Rightarrow> out_segment \<Rightarrow> bool" where
  "segment_ok files per_cmd_cap index seg \<longleftrightarrow>
     (case files (redirect_filename index) of
        None \<Rightarrow> seg_capture seg = Not_captured \<and> seg_raw seg = None
      | Some bytes \<Rightarrow>
          seg_capture seg = Captured \<and> seg_raw seg = Some (decode_replace bytes) \<and> length bytes \<le> per_cmd_cap \<or>
          seg_capture seg = Output_truncated \<and>
            (\<forall>t. seg_raw seg = Some t \<longrightarrow> (\<exists>n. n < length bytes \<and> n \<le> per_cmd_cap \<and> t = decode_replace (take n bytes))))"

lemma read_capped_cases:
  "read_capped bytes cap =
     (if length bytes \<le> cap then (decode_replace bytes, False) else (decode_replace (take cap bytes), True))"
  by (auto simp: read_capped_def Let_def min_def)

lemma read_capped_length: "length (fst (read_capped bytes cap)) \<le> 3 * cap"
  using decode_replace_length [of bytes] decode_replace_length [of "take cap bytes"]
  by (auto simp: read_capped_cases)

lemma all_nth_Cons:
  "(\<forall>k < length (x # xs). P (i + k) ((x # xs) ! k)) \<longleftrightarrow> P i x \<and> (\<forall>k < length xs. P (Suc i + k) (xs ! k))"
  by (auto simp: All_less_Suc2)

lemma collect_from_spec:
  assumes "collect_from files p tot i r cs = (segs, t)"
  shows "map seg_command segs = cs
    \<and> (\<forall>k < length segs. segment_ok files p (i + k) (segs ! k))
    \<and> (t \<longleftrightarrow> (\<exists>g \<in> set segs. seg_capture g = Output_truncated))
    \<and> r + sum_list (map raw_length segs) \<le> max r (3 * tot)"
  using assms
proof (induction cs arbitrary: i r segs t)
  case (Cons c cs)
  note nth_head = all_nth_Cons [where P = "segment_ok files p"]
  show ?case
  proof (cases "files (redirect_filename i)")
    case None
    obtain ss u where rest: "collect_from files p tot (Suc i) r cs = (ss, u)" by fastforce
    from Cons.prems None rest have e: "segs = \<lparr>seg_command = c, seg_raw = None, seg_capture = Not_captured\<rparr> # ss" "t = u"
      by simp_all
    from Cons.IH [OF rest] show ?thesis
      unfolding e nth_head by (simp add: segment_ok_def [of _ _ i] None raw_length_def)
  next
    case (Some bytes)
    show ?thesis
    proof (cases "tot \<le> r")
      case True
      obtain ss u where rest: "collect_from files p tot (Suc i) r cs = (ss, u)" by fastforce
      from Cons.prems Some True rest
      have e: "segs = \<lparr>seg_command = c, seg_raw = None, seg_capture = Output_truncated\<rparr> # ss" "t"
        by simp_all
      from Cons.IH [OF rest] show ?thesis
        unfolding e nth_head by (simp add: segment_ok_def [of _ _ i] Some raw_length_def e(2))
    next
      case False
      obtain tx hit where rd: "read_capped bytes (min p (tot - r)) = (tx, hit)" by fastforce
      obtain ss u where rest: "collect_from files p tot (Suc i) (r + length tx) cs = (ss, u)" by fastforce
      from Cons.prems Some False rd rest
      have e: "segs = \<lparr>seg_command = c, seg_raw = Some tx,
          seg_capture = (if hit then Output_truncated else Captured)\<rparr> # ss" "t = (hit \<or> u)"
        by simp_all
      have "length tx \<le> 3 * min p (tot - r)" using read_capped_length [of bytes "min p (tot - r)"] rd by simp
      then have len: "r + length tx \<le> 3 * tot" using False by simp
      have ok: "segment_ok files p i (hd segs)"
        using rd by (auto simp: e segment_ok_def Some read_capped_cases split: if_splits
            intro!: exI [of _ "min p (tot - r)"])
      from Cons.IH [OF rest] ok len show ?thesis
        unfolding e nth_head by (auto simp: e raw_length_def)
    qed
  qed
qed simp

text \<open>C31: the outputs of a batch are read back in full or marked. Every command has one
  segment, in order; a segment is \<open>ok\<close> only with the whole content of its own file, within the
  cap of a command; what is cut is a proper prefix marked as truncated, the batch is
  truncated exactly when a segment is, and the texts together never exceed three times the
  tot cap, the growth of undecodable bytes included.\<close>

theorem outputs_bounded_and_marked:
  assumes "collect_command_outputs files commands per_cmd_cap total_cap = (segs, truncated)"
  shows "map seg_command segs = commands
    \<and> (\<forall>k < length segs. segment_ok files per_cmd_cap k (segs ! k))
    \<and> (truncated \<longleftrightarrow> (\<exists>g \<in> set segs. seg_capture g = Output_truncated))
    \<and> sum_list (map raw_length segs) \<le> 3 * total_cap"
  using collect_from_spec [OF assms [unfolded collect_command_outputs_def]] by simp

theorem outputs_bounded_and_marked_witness:
  "let files = (\<lambda>n. if n = ''cmd-0000.out'' then Some ''abcd'' else if n = ''cmd-0002.out'' then Some ''xy'' else None);
       r = collect_command_outputs files [''bt'', ''ps'', ''log''] 4 5
   in map seg_capture (fst r) = [Captured, Not_captured, Output_truncated] \<and> snd r \<and>
      sum_list (map raw_length (fst r)) \<le> 15"
proof -
  define files :: dir_files where
    "files = (\<lambda>n. if n = ''cmd-0000.out'' then Some ''abcd'' else if n = ''cmd-0002.out'' then Some ''xy'' else None)"
  have names: "redirect_filename 0 = ''cmd-0000.out''" "redirect_filename (Suc 0) = ''cmd-0001.out''"
    "redirect_filename (Suc (Suc 0)) = ''cmd-0002.out''"
    by code_simp+
  have read: "read_capped ''abcd'' (min 4 5) = (''abcd'', False)" "read_capped ''xy'' (min 4 1) = (''x'', True)"
    by code_simp+
  obtain segs t where r: "collect_command_outputs files [''bt'', ''ps'', ''log''] 4 5 = (segs, t)" by fastforce
  have "map seg_capture segs = [Captured, Not_captured, Output_truncated] \<and> t"
    using r read by (auto simp: collect_command_outputs_def names files_def)
  with outputs_bounded_and_marked [OF r] r show ?thesis
    by (simp add: files_def Let_def)
qed

subsection \<open>One result per command\<close>

lemma gather_total: "(\<And>l. f l \<noteq> None) \<Longrightarrow> gather f ls \<noteq> None"
  by (induction ls) (auto split: option.splits)

text \<open>What every parse has: a \<open>parsed\<close> flag.\<close>

definition flagged :: "bool \<Rightarrow> raw \<Rightarrow> bool" where
  "flagged b r \<longleftrightarrow> (\<exists>items. r = RawMap ((KStr ''parsed'', RawBool b) # items))"

lemma parser_flagged:
  "parse_bt tx = Some r \<Longrightarrow> flagged True r" "parse_ps tx = Some r \<Longrightarrow> flagged True r"
  "parse_sys tx = Some r \<Longrightarrow> flagged True r" "parse_log tx = Some r \<Longrightarrow> flagged True r"
  "parse_kmem_i tx = Some r \<Longrightarrow> flagged True r"
  by (auto simp: flagged_def parse_bt_def parse_ps_def parse_sys_def parse_log_def parse_kmem_i_def Let_def
      split: option.splits)

lemma registered_flagged: "map_of crash_parsers k = Some p \<Longrightarrow> p tx = Some r \<Longrightarrow> flagged True r"
  by (drule map_of_SomeD) (auto simp: crash_parsers_def parser_flagged)

lemma not_parsed_flagged: "flagged False (not_parsed reason r)"
  by (simp add: flagged_def not_parsed_def)

lemma parse_command_shape: "\<exists>b. flagged b (parse_command command tx)"
proof -
  define key where "key = dispatch_key command"
  define parser where "parser = (if key = Some ''kmem -i'' then Some parse_kmem_i
      else map_of crash_parsers (case key of None \<Rightarrow> [] | Some k \<Rightarrow> k))"
  have eq: "parse_command command tx = (case parser of
      None \<Rightarrow> not_parsed ''unknown_command'' (RawStr tx)
    | Some p \<Rightarrow> (case p tx of Some r \<Rightarrow> r | None \<Rightarrow> not_parsed ''parse_failed'' (RawStr tx)))"
    unfolding parse_command_def Let_def parser_def key_def ..
  have "flagged True r" if "parser = Some p" "p tx = Some r" for p r
  proof (cases "key = Some ''kmem -i''")
    case True
    then have "p = parse_kmem_i" using that(1) by (simp add: parser_def)
    with that(2) parser_flagged(5) show ?thesis by simp
  next
    case False
    then have "map_of crash_parsers (case key of None \<Rightarrow> [] | Some k \<Rightarrow> k) = Some p"
      using that(1) unfolding parser_def by (simp only: if_False)
    with that(2) show ?thesis by (rule registered_flagged [rotated])
  qed
  then show ?thesis
    unfolding eq using not_parsed_flagged by (fastforce split: option.split)
qed

text \<open>A key without one of these beginnings is not a secret's.\<close>

lemma ne_ci_lit: "rmatch (ci_lit l) (b, a, cs) \<noteq> [] \<longleftrightarrow> starts_with l (py_lower a)"
proof (induction l arbitrary: b a)
  case (Cons c l)
  show ?case
    using Cons.IH by (cases a) (auto simp: py_lower_def match_cls_def)
qed simp

lemma secret_word_begins:
  assumes "rmatch secret_word (b, a, cs) \<noteq> []"
  shows "\<exists>w \<in> set [''pass'', ''toke'', ''api'', ''secr'']. starts_with w (py_lower a)"
proof -
  have api: "rmatch (RSeq (ci_lit ''api'') r) (b, a, cs) \<noteq> [] \<Longrightarrow> starts_with ''api'' (py_lower a)" for r
    unfolding ne_ci_lit [symmetric, of _ _ b cs] rmatch.simps(2) by (metis concat.simps(1) list.simps(8))
  from assms consider "starts_with ''password'' (py_lower a)" | "starts_with ''passwd'' (py_lower a)"
    | "starts_with ''token'' (py_lower a)" | "starts_with ''api'' (py_lower a)" | "starts_with ''secret'' (py_lower a)"
    unfolding secret_word_def rmatch.simps(3) append_is_Nil_conv de_Morgan_conj ne_ci_lit
    using api by blast
  then show ?thesis by cases (auto simp: starts_with_iff)
qed

lemma plain_key:
  assumes "\<forall>w \<in> set [''pass'', ''toke'', ''api'', ''secr'']. \<not> contains_sub w (py_lower t)"
  shows "\<not> secret_key (KStr t)"
proof
  assume "secret_key (KStr t)"
  then obtain p q where t: "t = p @ q" and "re_at secret_word (rev p) q \<noteq> None"
    by (auto simp: secret_key_def re_search_def search_from_None)
  then obtain w where "w \<in> set [''pass'', ''toke'', ''api'', ''secr'']" "starts_with w (py_lower q)"
    using secret_word_begins unfolding re_at_None by blast
  moreover from this(2) have "contains_sub w (py_lower t)"
    unfolding t starts_with_iff contains_sub_iff by (auto simp: py_lower_def)
  ultimately show False using assms by blast
qed

lemma plain_parsed: "\<not> secret_key (KStr ''parsed'')" "\<not> secret_key (KStr ''reason'')" "\<not> secret_key (KStr ''raw'')"
  by (rule plain_key, code_simp)+

lemma redact_flagged: "flagged b r \<Longrightarrow> flagged b (redact_value rd r)"
  by (auto simp: flagged_def plain_parsed)

lemma segment_result_shape:
  "\<exists>b. flagged b (segment_result rd seg) \<and> (b \<longrightarrow> seg_capture seg = Captured)"
proof (cases "seg_capture seg")
  case Captured
  then show ?thesis
    using parse_command_shape redact_flagged unfolding segment_result_def Let_def by fastforce
qed (auto simp: segment_result_def not_parsed_flagged intro!: exI [of _ False])

lemma dict_set_snoc: "k \<notin> fst ` set d \<Longrightarrow> dict_set k x d = d @ [(k, x)]"
  by (induction d) auto

lemma fold_dict_set:
  assumes "distinct (map f xs)" "\<forall>x \<in> set xs. f x \<notin> fst ` set d"
  shows "fold (\<lambda>x. dict_set (f x) (g x)) xs d = d @ map (\<lambda>x. (f x, g x)) xs"
  using assms
proof (induction xs arbitrary: d)
  case (Cons x xs)
  then have "fold (\<lambda>x. dict_set (f x) (g x)) xs (d @ [(f x, g x)]) = (d @ [(f x, g x)]) @ map (\<lambda>x. (f x, g x)) xs"
    by (intro Cons.IH) (auto, metis imageI)
  with Cons.prems show ?case by (simp add: dict_set_snoc)
qed simp

lemma parsed_results:
  assumes "collect_command_outputs files commands CRASH_PER_CMD_CAP CRASH_STDOUT_CAP = (segs, t)"
    and "distinct (map seg_command segs)"
  shows "po_results (parse_crash_outputs files commands rd) =
    map (\<lambda>g. (KStr (seg_command g), segment_result rd g)) segs"
proof -
  have "distinct (map (\<lambda>g. KStr (seg_command g)) segs)"
    using assms(2) by (simp add: distinct_map inj_on_def)
  with assms(1) show ?thesis
    by (simp add: parse_crash_outputs_def fold_dict_set)
qed

subsection \<open>No secret\<close>

lemma segment_result_no_secret:
  assumes "maskable v" "v \<in> set (secret_values rd)" "t \<in> strings_of (segment_result rd seg)"
  shows "t \<in> {''not_captured'', ''output_truncated''} \<or> \<not> contains_sub v t"
  using assms(3) redact_strings_gone(1) [OF assms(1,2)] redact_text_gone [OF assms(1,2)]
  by (auto simp: segment_result_def Let_def not_parsed_def simp del: redact_value.simps split: capture.splits)

lemma fold_dict_set_values:
  "(k, x) \<in> set (fold (\<lambda>g. dict_set (f g) (h g)) gs d) \<Longrightarrow> (k, x) \<in> set d \<or> (\<exists>g. x = h g)"
proof (induction gs arbitrary: d)
  case (Cons g gs)
  then consider "(k, x) \<in> set (dict_set (f g) (h g) d)" | "\<exists>g. x = h g" by auto
  then show ?case using dict_set_set [of "f g" "h g" d] by cases auto
qed simp

lemma strings_items_set: "t \<in> strings_items items \<longleftrightarrow> (\<exists>x \<in> snd ` set items. t \<in> strings_of x)"
  by (induction items) auto

lemma results_no_secret:
  assumes "maskable v" "v \<in> set (secret_values rd)" "t \<in> strings_items (po_results (parse_crash_outputs files commands rd))"
  shows "t \<in> {''not_captured'', ''output_truncated''} \<or> \<not> contains_sub v t"
proof -
  obtain k x where x: "(k, x) \<in> set (po_results (parse_crash_outputs files commands rd))" and t: "t \<in> strings_of x"
    using assms(3) strings_items_set by fastforce
  obtain segs u where c: "collect_command_outputs files commands CRASH_PER_CMD_CAP CRASH_STDOUT_CAP = (segs, u)" by fastforce
  from x c obtain g where "x = segment_result rd g"
    using fold_dict_set_values [of k x "\<lambda>g. KStr (seg_command g)" "segment_result rd" segs "[]"]
    by (auto simp: parse_crash_outputs_def)
  with t segment_result_no_secret [OF assms(1,2)] show ?thesis by blast
qed

subsection \<open>The call\<close>

lemma retry_records:
  assumes "retry_loop k res True False f env n s = (Inr (), s')" "0 < n"
  shows "\<exists>u. manifest_of k s' = Some (Parsed u) \<and> map_of (step_results u) (sr_step_name res) = Some res"
  using assms
proof (induction n arbitrary: s)
  case (Suc n)
  obtain r s1 where r: "record_step_result k res False True f s = (r, s1)" by fastforce
  show ?case
  proof (cases r)
    case (Inr u)
    with Suc.prems r have "s1 = s'" by simp
    moreover obtain m where "manifest_of k s1 = Some (Parsed u)" "updated_manifest res False True m = Inr u"
      using recording_effect [OF r] Inr by blast
    ultimately show ?thesis
      by (auto simp: updated_manifest_def append_step_result_def dict_set_lookup split: if_splits sum.splits)
  next
    case (Inl e)
    with Suc.prems r show ?thesis using Suc.IH [of "env n s1"] by (auto split: if_splits)
  qed
qed simp

definition step_recorded :: "string \<Rightarrow> string \<Rightarrow> step_status \<Rightarrow> store \<Rightarrow> bool" where
  "step_recorded run_id name status s \<longleftrightarrow>
     (\<exists>u res. manifest_of run_id s = Some (Parsed u) \<and> map_of (step_results u) name = Some res \<and> sr_status res = status)"

lemma recorded_answer:
  assumes "answer_recorded env run_id res resp w s = (Inr resp', s', w')"
  shows "resp' = resp \<and> w' = w \<and> step_recorded run_id (sr_step_name res) (sr_status res) s'"
  using assms retry_records [of run_id res "re_faults (ce_read env)" "ce_others env" 5 s]
  by (auto simp: answer_recorded_def record_terminal_crash_result_def step_recorded_def split: prod.splits sum.splits)

text \<open>The call after its gates, and where its answer comes from.\<close>

definition crash_redactor :: "crash_env \<Rightarrow> redactor" where
  "crash_redactor env = make_redactor (ce_process_secrets env) (Some [])"

definition crash_script :: "crash_env \<Rightarrow> crash_request \<Rightarrow> vmcore_context \<Rightarrow> string" where
  "crash_script env q ctx =
     build_command_script (map strip (cq_commands q)) (sensitive_call_dir (vc_run_dir ctx) (ce_call_id env)) (vc_modules ctx)"

definition request_write :: "crash_env \<Rightarrow> crash_request \<Rightarrow> (string \<times> written) list" where
  "request_write env q = [(''request.json'', Json (redact_value (crash_redactor env) (dump_crash_request q)))]"

definition crash_gate :: "crash_env \<Rightarrow> crash_request \<Rightarrow> store \<Rightarrow> vmcore_context \<Rightarrow> bool" where
  "crash_gate env q s ctx \<longleftrightarrow>
     resolve_postmortem_vmcore_context (ce_read env) q s = Inr (Inr ctx) \<and> validate_crash_commands (cq_commands q) = None
     \<and> crash_calls (vc_manifest ctx) < MAX_POSTMORTEM_CRASH_CALLS_PER_RUN \<and> sensitive_refusal (cq_run_id q) s = None"

lemma refusals_not_ok:
  "validate_crash_commands cs = Some r \<Longrightarrow> \<not> resp_ok r" "sensitive_refusal k s = Some r \<Longrightarrow> \<not> resp_ok r"
  by (auto simp: validate_crash_commands_def sensitive_refusal_def crash_config_failure_def Let_def
      split: if_splits option.splits)

lemma build_id_refusal_not_ok:
  "crash_build_id_fail_loud a b c d = Inr (Inl r) \<Longrightarrow> \<not> resp_ok r"
  by (auto simp: crash_build_id_fail_loud_def crash_config_failure_def split: sum.splits elf_raised.splits if_splits)

lemma open_run_refusal_not_ok: "open_run env k s = Inr (Inl r) \<Longrightarrow> \<not> resp_ok r"
  by (auto simp: open_run_def crash_config_failure_def split: sum.splits option.splits)

lemma context_refusal_not_ok:
  assumes "resolve_postmortem_vmcore_context env q s = Inr (Inl r)"
  shows "\<not> resp_ok r"
proof -
  from assms obtain opened where o: "open_run env (cq_run_id q) s = Inr opened"
    unfolding resolve_postmortem_vmcore_context_def rbind_eq_Inr by blast
  show ?thesis
  proof (cases opened)
    case (Inl failure)
    with assms o show ?thesis
      by (auto simp: resolve_postmortem_vmcore_context_def dest: open_run_refusal_not_ok)
  next
    case (Inr found)
    obtain run_dir m where f: "found = (run_dir, m)" by fastforce
    have ccf: "\<not> resp_ok (crash_config_failure code)" for code by (simp add: crash_config_failure_def)
    from assms show ?thesis
      unfolding resolve_postmortem_vmcore_context_def o Inr f rbind_simps Let_def sum.case prod.case
      by (auto simp: ccf rbind_eq_Inl dest: build_id_refusal_not_ok
          split: sum.split_asm if_split_asm symbol_error.split_asm safety_error.split_asm)
  qed
qed

lemma handler_answers:
  assumes "debug_postmortem_crash_handler env q s = (Inr resp, s', w)"
  shows "(w = [] \<and> s' = s \<and> \<not> resp_ok resp) \<or>
    (\<exists>ctx. crash_gate env q s ctx \<and>
      ((\<exists>exn. ce_runner env (crash_argv ctx q) (crash_script env q ctx) = Inl exn \<and>
          runner_exception env (cq_run_id q) (vc_run_dir ctx) exn (request_write env q) s = (Inr resp, s', w)) \<or>
       (\<exists>r files. ce_runner env (crash_argv ctx q) (crash_script env q ctx) = Inr (r, files) \<and>
          finalize_crash_call env (crash_redactor env) (cq_run_id q) ctx r files (map strip (cq_commands q))
            (request_write env q) s = (Inr resp, s', w))))"
proof (cases "\<exists>ctx. crash_gate env q s ctx")
  case False
  with assms show ?thesis
    by (auto simp: debug_postmortem_crash_handler_def crash_gate_def not_less crash_config_failure_def
        dest: refusals_not_ok context_refusal_not_ok split: sum.splits option.splits if_splits)
next
  case True
  then obtain ctx where ctx: "crash_gate env q s ctx" by blast
  with assms show ?thesis
    by (auto simp: debug_postmortem_crash_handler_def crash_gate_def not_less crash_script_def crash_redactor_def
        request_write_def Let_def split: sum.splits if_splits)
qed

lemma build_id_verified:
  "crash_build_id_fail_loud vmcore vmlinux vr lr = Inr (Inr b) \<Longrightarrow>
     lr vmlinux = Inr b \<and> vr vmcore = Inr b \<and> re_match build_id_re b \<noteq> None"
  by (auto simp: crash_build_id_fail_loud_def split: sum.split_asm elf_raised.split_asm if_split_asm)

text \<open>What a call runs on: two files of the run whose build ids agree.\<close>

definition verified_pair :: "read_env \<Rightarrow> crash_request \<Rightarrow> vmcore_context \<Rightarrow> bool" where
  "verified_pair env q ctx \<longleftrightarrow>
     confine_run_relative (re_host env) (cq_vmlinux_ref q) (vc_run_dir ctx) = Inr (vc_vmlinux ctx) \<and>
     confine_run_relative (re_host env) (cq_vmcore_ref q) (vc_run_dir ctx) = Inr (vc_vmcore ctx) \<and>
     is_file (re_host env) (vc_vmlinux ctx) \<and> is_file (re_host env) (vc_vmcore ctx) \<and>
     re_vmlinux_reader env (vc_vmlinux ctx) = Inr (vc_build_id ctx) \<and>
     re_vmcore_reader env (vc_vmcore ctx) = Inr (vc_build_id ctx) \<and> re_match build_id_re (vc_build_id ctx) \<noteq> None"

lemma confined_Inr: "confined err m = Inr p \<longleftrightarrow> m = Inr p"
  by (auto simp: confined_def split: sum.splits safety_error.splits)

lemma resolve_symbols_vmlinux:
  "resolve_symbols h prov run_dir = Inr r \<Longrightarrow>
     confine_run_relative h (vmlinux_ref prov) run_dir = Inr (vmlinux_path r) \<and> is_file h (vmlinux_path r)"
  by (auto simp: resolve_symbols_def confined_Inr split: if_split_asm option.split_asm)

lemma context_verified:
  assumes "resolve_postmortem_vmcore_context env q s = Inr (Inr ctx)"
  shows "verified_pair env q ctx"
proof -
  from assms obtain opened where o: "open_run env (cq_run_id q) s = Inr opened"
    unfolding resolve_postmortem_vmcore_context_def rbind_eq_Inr by blast
  with assms obtain run_dir m where opened: "opened = Inr (run_dir, m)"
    by (cases opened) (auto simp: resolve_postmortem_vmcore_context_def)
  define prov where "prov = \<lparr>kp_build_id = [], kp_release = [], vmlinux_ref = cq_vmlinux_ref q,
    modules_ref = cq_modules_ref q, kp_cmdline = [], config_ref = None\<rparr>"
  from assms show ?thesis
    unfolding resolve_postmortem_vmcore_context_def o opened rbind_simps Let_def sum.case prod.case prov_def [symmetric]
    by (auto simp: verified_pair_def prov_def dest!: build_id_verified resolve_symbols_vmlinux
        split: sum.split_asm if_split_asm symbol_error.split_asm safety_error.split_asm)
qed

lemma finalized_answer:
  assumes "finalize_crash_call env rd k ctx r files commands w s = (Inr resp, s', w')"
  shows "step_recorded k (crash_step_name (ce_call_id env)) (if resp_ok resp then SUCCEEDED else FAILED) s'
    \<and> (\<exists>more. w' = w @ more) \<and> (resp_ok resp \<longrightarrow> crash_runner_terminal_failure r = None)"
  using assms
  by (auto simp: finalize_crash_call_def record_crash_infra_failure_def crash_success_response_def Let_def
      dest!: recorded_answer split: option.split_asm if_split_asm prod.split_asm)


lemma success_writes:
  assumes "debug_postmortem_crash_handler env q s = (Inr (Tool_success data arts), s', w)"
  obtains ctx r files where "crash_gate env q s ctx"
    and "ce_runner env (crash_argv ctx q) (crash_script env q ctx) = Inr (r, files)"
    and "map_of data ''results'' = Some (RawMap (po_results
           (parse_crash_outputs files (map strip (cq_commands q)) (crash_redactor env))))"
    and "w = request_write env q @
       [(''transcript.txt'', Text (redact_text (crash_redactor env) (po_transcript
           (parse_crash_outputs files (map strip (cq_commands q)) (crash_redactor env))))),
        (''parsed.json'', Json (RawMap (po_results
           (parse_crash_outputs files (map strip (cq_commands q)) (crash_redactor env)))))]"
proof -
  from handler_answers [OF assms] obtain ctx r files where ctx: "crash_gate env q s ctx"
    and run: "ce_runner env (crash_argv ctx q) (crash_script env q ctx) = Inr (r, files)"
    and fin: "finalize_crash_call env (crash_redactor env) (cq_run_id q) ctx r files (map strip (cq_commands q))
      (request_write env q) s = (Inr (Tool_success data arts), s', w)"
    by (auto simp: runner_exception_def Let_def dest!: recorded_answer)
  from fin have "map_of data ''results'' = Some (RawMap (po_results
        (parse_crash_outputs files (map strip (cq_commands q)) (crash_redactor env)))) \<and>
    w = request_write env q @
       [(''transcript.txt'', Text (redact_text (crash_redactor env) (po_transcript
           (parse_crash_outputs files (map strip (cq_commands q)) (crash_redactor env))))),
        (''parsed.json'', Json (RawMap (po_results
           (parse_crash_outputs files (map strip (cq_commands q)) (crash_redactor env)))))]"
    by (auto simp: finalize_crash_call_def record_crash_infra_failure_def crash_success_response_def Let_def
        dest!: recorded_answer split: option.split_asm if_split_asm prod.split_asm)
  with ctx run that show ?thesis by blast
qed


subsection \<open>A call\<close>

definition ex_crash_host :: host where
  "ex_crash_host = ex_host\<lparr>tree := tree ex_host @
     [([''srv'', ''r1''], Dir), ([''srv'', ''r1'', ''vmlinux''], File), ([''srv'', ''r1'', ''vmcore''], File)]\<rparr>"

definition ex_read_env :: read_env where
  "ex_read_env = \<lparr>re_host = ex_crash_host, re_root = Path True [''srv''], re_vmcore_reader = (\<lambda>p. Inr ''deadbeef''),
     re_vmlinux_reader = (\<lambda>p. Inr ''deadbeef''), re_faults = no_faults\<rparr>"

definition ex_crash_request :: crash_request where
  "ex_crash_request = \<lparr>cq_run_id = ''r1'', cq_vmcore_ref = ''vmcore'', cq_vmlinux_ref = ''vmlinux'',
     cq_modules_ref = None, cq_commands = [''bt''], cq_timeout = 60\<rparr>"

definition ex_crash_env :: crash_env where
  "ex_crash_env = \<lparr>ce_read = ex_read_env, ce_process_secrets = [''hunter2''], ce_call_id = ''c1'',
     ce_fails = (\<lambda>_. False),
     ce_runner = (\<lambda>argv script. Inr (\<lparr>exit_status = 0, timed_out = False, cancelled = False, stdin_failed = False,
        oversized_output = False\<rparr>, [''cmd-0000.out'' \<mapsto> ''token hunter2''])),
     ce_others = (\<lambda>n s. s), ce_started = ''t0'', ce_finished = ''t1'', ce_duration = 1000\<rparr>"

lemma ex_open_run: "open_run ex_read_env ''r1'' ex_store = Inr (Inr (Path True [''srv'', ''r1''], ex_manifest))"
proof -
  have "validate_artifact_root ex_crash_host (Path True [''srv'']) [] [] = Inr (Path True [''srv''])" by code_simp
  then show ?thesis
    by (simp add: open_run_def ex_read_env_def new_store_def ex_store_defs has_manifest_def load_manifest_def join_path_def)
qed

lemma ex_pair:
  "resolve_symbols ex_crash_host \<lparr>kp_build_id = [], kp_release = [], vmlinux_ref = ''vmlinux'', modules_ref = None,
     kp_cmdline = [], config_ref = None\<rparr> (Path True [''srv'', ''r1'']) =
     Inr \<lparr>vmlinux_path = Path True [''srv'', ''r1'', ''vmlinux''], modules_path = None, warnings = [modules_missing None]\<rparr>"
  "confine_run_relative ex_crash_host ''vmcore'' (Path True [''srv'', ''r1'']) = Inr (Path True [''srv'', ''r1'', ''vmcore''])"
  "is_file ex_crash_host (Path True [''srv'', ''r1'', ''vmcore''])"
  "re_match build_id_re ''deadbeef'' \<noteq> None"
  by code_simp+

lemma ex_context:
  "resolve_postmortem_vmcore_context ex_read_env ex_crash_request ex_store = Inr (Inr
     \<lparr>vc_manifest = ex_manifest, vc_run_dir = Path True [''srv'', ''r1''], vc_vmcore = Path True [''srv'', ''r1'', ''vmcore''],
      vc_vmlinux = Path True [''srv'', ''r1'', ''vmlinux''], vc_modules = None, vc_build_id = ''deadbeef''\<rparr>)"
  using ex_pair by (simp add: resolve_postmortem_vmcore_context_def ex_crash_request_def ex_open_run
      ex_read_env_def [THEN arg_cong, of re_host] ex_read_env_def [THEN arg_cong, of re_vmcore_reader]
      ex_read_env_def [THEN arg_cong, of re_vmlinux_reader] crash_build_id_fail_loud_def)

lemma ex_retry: "\<exists>s'. retry_loop ''r1'' res True False no_faults others 5 ex_store = (Inr (), s')"
proof -
  have rec: "\<exists>u s'. record_step_result ''r1'' res False True no_faults ex_store = (Inr u, s')"
  proof -
    have "ex_manifest\<lparr>step_results := [(n, r)]\<rparr> \<noteq> ex_manifest" for n r
      by (simp add: ex_manifest_def create_manifest_def)
    then show ?thesis
      by (auto simp: record_step_result_def ex_store_defs manifest_lock_def with_run_lock_def record_step_body_def
          load_manifest_def updated_manifest_def append_step_result_def ex_manifest_def create_manifest_def)
  qed
  then show ?thesis by (auto simp: numeral_eq_Suc)
qed

lemma ex_crash_call:
  "\<exists>data arts s' w. debug_postmortem_crash_handler ex_crash_env ex_crash_request ex_store
     = (Inr (Tool_success data arts), s', w) \<and> w \<noteq> []"
proof -
  have fields: "ce_read ex_crash_env = ex_read_env" "re_faults ex_read_env = no_faults" "ce_fails ex_crash_env = (\<lambda>_. False)"
    by (simp_all add: ex_crash_env_def ex_read_env_def)
  have "strip ''bt'' = ''bt''" by code_simp
  then have valid: "validate_crash_commands [''bt''] = None"
    using permitted_examples by (simp add: validated_commands)
  have budget: "crash_calls ex_manifest = 0" by (simp add: crash_calls_def ex_manifest_def create_manifest_def)
  have priv: "sensitive_refusal ''r1'' ex_store = None"
    by (simp add: sensitive_refusal_def ex_store_defs artifact_subdirs_def)
  have "\<exists>s'. record_terminal_crash_result ex_crash_env ''r1'' res ex_store = (Inr (), s')" for res
    using ex_retry by (simp add: record_terminal_crash_result_def fields)
  then have "\<exists>s'. answer_recorded ex_crash_env ''r1'' res resp w ex_store = (Inr resp, s', w)" for res resp w
    unfolding answer_recorded_def by (metis (no_types, lifting) case_prod_conv sum.case(2))
  then obtain f where f: "\<And>res resp w. answer_recorded ex_crash_env ''r1'' res resp w ex_store = (Inr resp, f res resp w, w)"
    by metis
  show ?thesis
    unfolding debug_postmortem_crash_handler_def fields ex_context
    by (simp add: ex_crash_request_def valid budget priv MAX_POSTMORTEM_CRASH_CALLS_PER_RUN_def Let_def fields
        finalize_crash_call_def crash_success_response_def crash_runner_terminal_failure_def
        ex_crash_env_def [THEN arg_cong, of ce_runner] f)
qed



end
