(* ===== verification/TriageProps.thy ===== *)
theory TriageProps
  imports Triage CrashProps
begin

text \<open>
  The triage report: a crash call never gives it a shape it cannot read, and it answers
  exactly when a source gave something.
\<close>

subsection \<open>A crash call as a source\<close>

lemma plain_keys:
  "\<not> secret_key (KStr ''lines'')" "\<not> secret_key (KStr ''text'')" "\<not> secret_key (KStr ''ts'')"
  "\<not> secret_key (KStr ''frames'')" "\<not> secret_key (KStr ''pid'')" "\<not> secret_key (KStr ''command'')"
  by (rule plain_key, code_simp)+

lemma redact_seq_map: "redact_seq rd xs = map (redact_value rd) xs"
  by (induction xs) auto

lemma dispatched:
  "dispatch_key ''log'' = Some ''log''" "dispatch_key ''bt'' = Some ''bt''"
  by code_simp+

lemma parse_log_command:
  "parse_command ''log'' tx = (case parse_log tx of Some r \<Rightarrow> r | None \<Rightarrow> not_parsed ''parse_failed'' (RawStr tx))"
  unfolding parse_command_def dispatched by (simp add: crash_parsers_def)

lemma parse_bt_command:
  "parse_command ''bt'' tx = (case parse_bt tx of Some r \<Rightarrow> r | None \<Rightarrow> not_parsed ''parse_failed'' (RawStr tx))"
  unfolding parse_command_def dispatched by (simp add: crash_parsers_def)

lemma gather_set: "gather f ls = Some xs \<Longrightarrow> x \<in> set xs \<Longrightarrow> \<exists>l. f l = Some (Some x)"
  by (induction ls arbitrary: xs) (auto split: option.splits)

text \<open>A log line that the selection can read.\<close>

lemma log_entry_readable:
  "log_entry line = Some (Some r) \<Longrightarrow> line_text (redact_value rd r) \<noteq> None"
  by (auto simp: log_entry_def plain_keys get_or_none_def Let_def split: option.splits if_splits)

lemma first_match_readable: "\<forall>l \<in> set ls. line_text l \<noteq> None \<Longrightarrow> first_match sig ls \<noteq> None"
  by (induction ls) auto

lemma select_readable:
  assumes "\<forall>l \<in> set ls. line_text l \<noteq> None"
  shows "select_panic_reason ls \<noteq> None"
proof -
  have "select_from sigs ls \<noteq> None" for sigs
    using first_match_readable [OF assms] by (induction sigs) (auto split: option.splits)
  then show ?thesis by (simp add: select_panic_reason_def)
qed

lemma panic_part_unparsed: "panic_part (redact_value rd (not_parsed reason v)) \<noteq> None"
  by (simp add: panic_part_def not_parsed_def parsed_items_def plain_parsed get_or_none_def reason_or_def Let_def)

lemma panic_part_unparsed': "panic_part (not_parsed reason v) \<noteq> None"
  by (simp add: panic_part_def not_parsed_def parsed_items_def get_or_none_def reason_or_def Let_def)

lemma backtrace_part_unparsed: "backtrace_part (redact_value rd (not_parsed reason v)) \<noteq> None"
  by (simp add: backtrace_part_def not_parsed_def parsed_items_def plain_parsed get_or_none_def reason_or_def Let_def)

lemma backtrace_part_unparsed': "backtrace_part (not_parsed reason v) \<noteq> None"
  by (simp add: backtrace_part_def not_parsed_def parsed_items_def get_or_none_def reason_or_def Let_def)

lemma log_part_readable: "parse_log tx = Some r \<Longrightarrow> panic_part (redact_value rd r) \<noteq> None"
proof -
  assume "parse_log tx = Some r"
  then obtain ls where ls: "gather log_entry (splitlines tx) = Some ls"
    and r: "r = RawMap [(KStr ''parsed'', RawBool True), (KStr ''lines'', RawList ls)]"
    by (auto simp: parse_log_def)
  have "\<forall>l \<in> set (map (redact_value rd) ls). line_text l \<noteq> None"
    using gather_set [OF ls] log_entry_readable by (auto simp del: redact_value.simps) blast
  from select_readable [OF this] show ?thesis
    by (simp add: r panic_part_def parsed_items_def plain_keys plain_parsed get_or_none_def redact_seq_map)
qed

lemma frame_row: "bt_frame_of line = Some (Some r) \<Longrightarrow> dict_row (redact_value rd r)"
  by (auto simp: bt_frame_of_def split: option.splits)

lemma bt_part_readable: "parse_bt tx = Some r \<Longrightarrow> backtrace_part (redact_value rd r) \<noteq> None"
proof -
  assume p: "parse_bt tx = Some r"
  then obtain items frames where fr: "gather bt_frame_of (splitlines tx) = Some frames"
    and r: "r = RawMap ([(KStr ''parsed'', RawBool True), (KStr ''frames'', RawList frames)] @ items)"
    and items: "items = [] \<or> (\<exists>p c. items = [(KStr ''pid'', RawInt p), (KStr ''command'', RawStr c)])"
    by (auto simp: parse_bt_def Let_def split: option.splits)
  have "list_all dict_row (map (redact_value rd) frames)"
    using gather_set [OF fr] frame_row by (fastforce simp: list_all_iff simp del: redact_value.simps)
  then show ?thesis
    using items by (auto simp: r backtrace_part_def parsed_items_def plain_keys plain_parsed get_or_none_def
        redact_seq_map rows_of_def)
qed

lemma log_segment_readable: "seg_command g = ''log'' \<Longrightarrow> panic_part (segment_result rd g) \<noteq> None"
  using log_part_readable panic_part_unparsed panic_part_unparsed'
  by (auto simp: segment_result_def Let_def parse_log_command simp del: redact_value.simps split: capture.splits option.splits)

lemma bt_segment_readable: "seg_command g = ''bt'' \<Longrightarrow> backtrace_part (segment_result rd g) \<noteq> None"
  using bt_part_readable backtrace_part_unparsed backtrace_part_unparsed'
  by (auto simp: segment_result_def Let_def parse_bt_command simp del: redact_value.simps split: capture.splits option.splits)

lemma part_of_missing: "panic_part RawNone \<noteq> None" "backtrace_part RawNone \<noteq> None"
  by (simp_all add: panic_part_def backtrace_part_def parsed_items_def reason_or_def)

lemma map_of_segments:
  "map_of (map (\<lambda>g. (KStr (seg_command g), h g)) gs) (KStr c) = Some x \<Longrightarrow> \<exists>g. seg_command g = c \<and> x = h g"
  by (induction gs) (auto split: if_splits)

text \<open>a crash call never breaks the triage report. Whatever crash printed and whatever was
  masked in it, the three crash sections of the report can be assembled from the answer of
  a crash call, refused, failed or successful.\<close>

theorem crash_answer_assembles:
  assumes "debug_postmortem_crash_handler env q s = (Inr resp, s', w)"
  shows "crash_sections (triage_crash_outcome resp) \<noteq> None"
proof (cases resp)
  case (Tool_failure cat details arts)
  then show ?thesis by (simp add: triage_crash_outcome_def crash_sections_def Let_def)
next
  case (Tool_success data arts)
  define rd where "rd = crash_redactor env"
  obtain ctx r files where gate: "crash_gate env q s ctx"
    and res: "map_of data ''results'' = Some (RawMap (po_results (parse_crash_outputs files (map strip (cq_commands q)) rd)))"
    using success_writes [OF assms [unfolded Tool_success]] unfolding rd_def by metis
  obtain segs t where c: "collect_command_outputs files (map strip (cq_commands q)) CRASH_PER_CMD_CAP CRASH_STDOUT_CAP = (segs, t)"
    by fastforce
  have "distinct (map seg_command segs)"
    using collect_from_spec [OF c [unfolded collect_command_outputs_def]] gate by (simp add: crash_gate_def validated_commands)
  then have results: "po_results (parse_crash_outputs files (map strip (cq_commands q)) rd) =
      map (\<lambda>g. (KStr (seg_command g), segment_result rd g)) segs"
    by (rule parsed_results [OF c])
  have "panic_part (get_or_none ''log'' (map (\<lambda>g. (KStr (seg_command g), segment_result rd g)) segs)) \<noteq> None"
    using log_segment_readable part_of_missing(1)
    by (auto simp: get_or_none_def dest!: map_of_segments split: option.split)
  moreover have "backtrace_part (get_or_none ''bt'' (map (\<lambda>g. (KStr (seg_command g), segment_result rd g)) segs)) \<noteq> None"
    using bt_segment_readable part_of_missing(2)
    by (auto simp: get_or_none_def dest!: map_of_segments split: option.split)
  ultimately show ?thesis
    by (auto simp: triage_crash_outcome_def Tool_success res results crash_sections_def)
qed

theorem crash_answer_assembles_witness:
  "\<exists>resp s' w. debug_postmortem_crash_handler ex_crash_env ex_crash_request ex_store = (Inr resp, s', w) \<and>
     crash_sections (triage_crash_outcome resp) \<noteq> None"
  using ex_crash_call crash_answer_assembles by blast

subsection \<open>The answer of a triage\<close>

text \<open>No process secret hides in the two words a status can be.\<close>

definition statuses_visible :: "redactor \<Rightarrow> bool" where
  "statuses_visible rd \<longleftrightarrow> (\<forall>v \<in> set (secret_values rd). v \<noteq> [] \<and> \<not> contains_sub v ''ok'' \<and> \<not> contains_sub v ''failed'')"

lemma replace_values_id: "(\<forall>v \<in> set vs. v \<noteq> [] \<and> \<not> contains_sub v t) \<Longrightarrow> replace_values vs t = t"
  by (induction vs) (auto simp: replace_all_id)

lemma status_unmasked:
  assumes "statuses_visible rd"
  shows "redact_text rd ''ok'' = ''ok''" "redact_text rd ''failed'' = ''failed''"
proof -
  have "replace_values (secret_values rd) ''ok'' = ''ok''" "replace_values (secret_values rd) ''failed'' = ''failed''"
    by (rule replace_values_id; use assms [unfolded statuses_visible_def] in blast)+
  then show "redact_text rd ''ok'' = ''ok''" "redact_text rd ''failed'' = ''failed''"
    by (simp_all add: redact_text_plain)
qed

lemma plain_section_keys:
  "\<not> secret_key (KStr ''vmcore_build_id'')" "\<not> secret_key (KStr ''panic_reason'')" "\<not> secret_key (KStr ''faulting_task'')"
  "\<not> secret_key (KStr ''backtrace'')" "\<not> secret_key (KStr ''recent_dmesg'')" "\<not> secret_key (KStr ''modules'')"
  "\<not> secret_key (KStr ''status'')"
  by (rule plain_key, code_simp)+

text \<open>Every section of a report is ok.\<close>

definition all_sections_ok :: "triage_report \<Rightarrow> bool" where
  "all_sections_ok r \<longleftrightarrow>
     sec_ok (tr_panic r) \<and> sec_ok (tr_task r) \<and> sec_ok (tr_backtrace r) \<and> sec_ok (tr_dmesg r) \<and> sec_ok (tr_modules r)"

lemma section_status:
  assumes "statuses_visible rd"
  shows "get_or_none ''status'' (redact_items rd sens (base_dump sec src @ rest)) = RawStr ''ok'' \<longleftrightarrow> sec_ok sec"
  using status_unmasked [OF assms] by (simp add: base_dump_def get_or_none_def plain_section_keys status_raw_def)

lemma redact_items_lookup:
  "map_of (redact_items rd sens items) k =
     map_option (\<lambda>v. if sens \<and> k = KStr ''path'' \<or> secret_key k then RawStr redaction_text else redact_value rd v) (map_of items k)"
  by (induction items) auto

lemma report_status:
  assumes "statuses_visible rd"
  shows "list_all (status_ok (redact_value rd (RawMap (report_dump r)))) section_names \<longleftrightarrow> all_sections_ok r"
proof -
  have sec: "status_ok (redact_value rd (RawMap (report_dump r))) name \<longleftrightarrow> sec_ok sec"
    if "map_of (report_dump r) (KStr name) = Some (RawMap (base_dump sec src @ rest))" "\<not> secret_key (KStr name)"
      "name \<noteq> ''path''" for name sec src rest
    using that section_status [OF assms]
    by (simp add: status_ok_def get_or_none_def [of name] redact_items_lookup)
  have "status_ok (redact_value rd (RawMap (report_dump r))) ''panic_reason'' \<longleftrightarrow> sec_ok (tr_panic r)"
    "status_ok (redact_value rd (RawMap (report_dump r))) ''faulting_task'' \<longleftrightarrow> sec_ok (tr_task r)"
    "status_ok (redact_value rd (RawMap (report_dump r))) ''backtrace'' \<longleftrightarrow> sec_ok (tr_backtrace r)"
    "status_ok (redact_value rd (RawMap (report_dump r))) ''recent_dmesg'' \<longleftrightarrow> sec_ok (tr_dmesg r)"
    "status_ok (redact_value rd (RawMap (report_dump r))) ''modules'' \<longleftrightarrow> sec_ok (tr_modules r)"
    by (rule sec; simp add: report_dump_def plain_section_keys)+
  then show ?thesis by (simp add: section_names_def all_sections_ok_def)
qed

lemma terminal_answer:
  assumes "record_terminal env run_id res resp w s = (Inr resp', s', w')"
  shows "resp' = resp \<and> w' = w \<and> step_recorded run_id (sr_step_name res) (sr_status res) s'"
  using assms retry_records [of run_id res "re_faults (ce_read env)" "ce_others env" 5 s]
  by (auto simp: record_terminal_def record_append_only_terminal_step_def record_step_with_retry_def step_recorded_def
      split: prod.splits sum.splits)

text \<open>The report's sections come from their sources.\<close>

lemma sources_give_sections:
  assumes "assemble_report b crash dmesg modules = Some r"
  shows "sec_ok (tr_dmesg r) = so_ok dmesg" "sec_ok (tr_modules r) = so_ok modules"
    "\<not> so_ok crash \<Longrightarrow> \<not> sec_ok (tr_panic r) \<and> \<not> sec_ok (tr_task r) \<and> \<not> sec_ok (tr_backtrace r)"
  using assms
  by (auto simp: assemble_report_def crash_sections_def dmesg_part_def modules_part_def failed_panic_def failed_task_def
      failed_backtrace_def Let_def split: option.splits if_splits raw.splits prod.splits)


definition ex_drgn :: "string \<Rightarrow> sub_handler" where
  "ex_drgn name q s =
     (if name = ''dmesg'' then Inr (Tool_success [(''result'', RawMap [(KStr ''entries'', RawList [])])] [])
      else Inl ''RuntimeError'', s)"

definition ex_sources :: sources where
  "ex_sources = \<lparr>src_crash = triage_subcall_failure ''postmortem_crash_failed'' ''OSError'',
     src_dmesg = Tool_success [(''result'', RawMap [(KStr ''entries'', RawList [])])] [],
     src_modules = triage_subcall_failure ''offline_introspect_failed'' ''RuntimeError''\<rparr>"

lemma ex_run_sources:
  "run_triage_sources (\<lambda>q s. (Inl ''OSError'', s)) ex_drgn ex_crash_request ex_store = (ex_sources, ex_store)"
  by (simp add: run_triage_sources_def ex_drgn_def ex_sources_def normalized_def)

lemma ex_triage_call:
  "\<exists>resp s' w. debug_postmortem_triage_handler (\<lambda>q s. (Inl ''OSError'', s)) ex_drgn ex_crash_env ex_crash_request ex_store
     = (Inr resp, s', w)"
proof -
  have env: "ce_read ex_crash_env = ex_read_env" "re_faults ex_read_env = no_faults" "ce_fails ex_crash_env = (\<lambda>_. False)"
    by (simp_all add: ex_crash_env_def ex_read_env_def)
  have run_id: "cq_run_id ex_crash_request = ''r1''" by (simp add: ex_crash_request_def)
  obtain report where rep: "assemble_report b (triage_crash_outcome (src_crash ex_sources))
      (triage_drgn_outcome (src_dmesg ex_sources)) (triage_drgn_outcome (src_modules ex_sources)) = Some (report b)"
    "any_section_ok (report b)" for b
  proof -
    have "\<exists>r. assemble_report b (triage_crash_outcome (src_crash ex_sources))
      (triage_drgn_outcome (src_dmesg ex_sources)) (triage_drgn_outcome (src_modules ex_sources)) = Some r \<and> any_section_ok r" for b
      by (simp add: ex_sources_def triage_subcall_failure_def triage_crash_outcome_def triage_drgn_outcome_def
          assemble_report_def crash_sections_def dmesg_part_def modules_part_def get_or_none_def rows_of_def
          field_or_none_def any_section_ok_def Let_def)
    with that show ?thesis by metis
  qed
  have "\<exists>s'. record_terminal ex_crash_env ''r1'' res resp w ex_store = (Inr resp, s', w)" for res resp w
    using ex_retry [of res "ce_others ex_crash_env"]
    by (auto simp: record_terminal_def record_append_only_terminal_step_def record_step_with_retry_def env)
  then obtain f where f: "\<And>res resp w. record_terminal ex_crash_env ''r1'' res resp w ex_store = (Inr resp, f res resp w, w)"
    by metis
  show ?thesis
    by (simp add: debug_postmortem_triage_handler_def env ex_context ex_run_sources Let_def rep run_id
        persist_successful_triage_report_def f del: redact_value.simps)
qed


end
