(* ===== verification/DebugState.thy ===== *)
theory DebugState
  imports Transaction SessionGuard DebugOps Triage
begin

text \<open>
  Models \<open>src/kdive/debug/policy.py\<close> and \<open>src/kdive/debug/session_state.py\<close>: the state a debug
  session has outside gdb, and the helpers that keep its parts together. The parts are the
  world: the transport system of \<open>Transaction\<close>, the run store, the live attachments, the
  session files and the gdb processes. An operation returns or raises, and what it did before
  raising stays.
\<close>

subsection \<open>The session\<close>

datatype debug_session_state = DS_unknown | DS_running | DS_stopped | DS_ended

fun session_state_text :: "debug_session_state \<Rightarrow> string" where
  "session_state_text DS_unknown = ''unknown''"
| "session_state_text DS_running = ''running''"
| "session_state_text DS_stopped = ''stopped''"
| "session_state_text DS_ended = ''ended''"

datatype debug_attach_status = ATTACHED

record debug_session =
  ds_session_id :: string
  ds_run_id :: string
  ds_provider_name :: string
  ds_gdbstub_endpoint :: dict_items
  ds_vmlinux_path :: string
  ds_profile :: string
  ds_attach_status :: debug_attach_status
  ds_started_at :: string
  ds_ended_at :: "string option"
  ds_state :: debug_session_state
  ds_breakpoints :: dict_items
  ds_loaded_modules :: dict_items
  ds_transcript_path :: string
  ds_command_metadata_path :: string
  ds_latest_summary_path :: string
  ds_symbol_identity :: dict_items

subsection \<open>The world\<close>

text \<open>Session files are kept by their resolved path.\<close>

record 'g world =
  w_sys :: sys
  w_store :: store
  w_live :: live_sessions
  w_files :: "(path \<times> debug_session disk_file) list"
  w_gdb :: 'g

text \<open>What an operation raises, by class; texts are left out where no code reads them.\<close>

datatype 'x debug_raised =
    Store_failed store_error
  | Provider_error error_category fields
  | Gdb_failed mi_failure
  | Precondition_error string
  | Os_failed
  | Open_failed "'x open_error"
  | Close_failed_with "'x close_error"
  | Release_failed "'x open_error"
  | Record_failed registry_error
  | Admission_failed adm_code
  | Path_failed path_error
  | Inject_failed inject_error
  | Validation_failed
  | Reader_failed elf_raised
  | Type_failed
  | Raised_by_other 'x

type_synonym ('g, 'x, 'a) dop = "('g world, 'x debug_raised, 'a) effect"

definition dret :: "'a \<Rightarrow> ('g, 'x, 'a) dop" where
  "dret a w = (Inr a, w)"

definition draise :: "'x debug_raised \<Rightarrow> ('g, 'x, 'a) dop" where
  "draise e w = (Inl e, w)"

definition dbind :: "('g, 'x, 'a) dop \<Rightarrow> ('a \<Rightarrow> ('g, 'x, 'b) dop) \<Rightarrow> ('g, 'x, 'b) dop" where
  "dbind m f w = (case m w of (Inl e, w') \<Rightarrow> (Inl e, w') | (Inr a, w') \<Rightarrow> f a w')"

text \<open>\<open>contextlib.suppress(Exception)\<close>, and a value computed from the world without changing it.\<close>

definition dsuppress :: "('g, 'x, 'a) dop \<Rightarrow> ('g, 'x, unit) dop" where
  "dsuppress m w = (Inr (), snd (m w))"

definition dread :: "('g world \<Rightarrow> ('x debug_raised, 'a) result) \<Rightarrow> ('g, 'x, 'a) dop" where
  "dread f w = (f w, w)"

definition dtry :: "('g, 'x, 'a) dop \<Rightarrow> ('x debug_raised \<Rightarrow> ('g, 'x, 'a) dop) \<Rightarrow> ('g, 'x, 'a) dop" where
  "dtry m h w = (case m w of (Inl e, w') \<Rightarrow> h e w' | (Inr a, w') \<Rightarrow> (Inr a, w'))"

definition store_op :: "'a store_op \<Rightarrow> ('g, 'x, 'a) dop" where
  "store_op f w =
     (case f (w_store w) of
        (Inl e, s) \<Rightarrow> (Inl (Store_failed e), w\<lparr>w_store := s\<rparr>) | (Inr a, s) \<Rightarrow> (Inr a, w\<lparr>w_store := s\<rparr>))"

definition store_read :: "(store \<Rightarrow> (store_error, 'a) result) \<Rightarrow> ('g, 'x, 'a) dop" where
  "store_read f = store_op (\<lambda>s. (f s, s))"

subsection \<open>What a call is given\<close>

datatype debug_fs =
    Mkdir_sessions | Mkdir_transcript | Open_session | Write_session | Read_session
  | Write_halted | Write_executing | Write_legacy_tombstone

record ('g, 'x) guard_policy =
  gp_pre_attach :: "(guard_context \<Rightarrow> ('g, 'x, unit) dop) list"
  gp_post_attach :: "(guard_context \<Rightarrow> transport_session \<Rightarrow> ('g, 'x, unit) dop) list"
  gp_teardown_steps :: "(string \<times> (guard_context \<Rightarrow> ('g, 'x, unit) dop)) list"

text \<open>
  The dependencies of a handler, each of which may be missing, and what the calls of the
  operating system, the clock and \<open>uuid4\<close> give it.
\<close>

record ('g, 'x) debug_env =
  de_host :: host
  de_root :: path
  de_faults :: faults
  de_fs_ok :: "debug_fs \<Rightarrow> bool"
  de_secrets :: "string list"
  de_now :: string
  de_uuid_hex :: string
  de_engine :: "'g mi_env option"
  de_live_registry :: bool
  de_transports :: "(string \<rightharpoonup> 'x transport) option"
  de_admission :: bool
  de_registry :: bool
  de_guard :: "('g, 'x) guard_policy option"
  de_open :: open_env
  de_profiles :: "(string \<times> debug_profile) list option"
  de_vmlinux_file :: "path \<Rightarrow> bin_file option"
  de_build_id_reader :: "bin_file option \<Rightarrow> (elf_raised, string) result"

definition local_qemu :: "string \<Rightarrow> target_key" where
  "local_qemu run_id = \<lparr>provisioner = ''local-qemu'', target_id = run_id\<rparr>"

definition run_dir_of :: "('g, 'x) debug_env \<Rightarrow> string \<Rightarrow> store \<Rightarrow> (store_error, path) result" where
  "run_dir_of env run_id s =
     rbind (fst (new_store (de_host env) (de_root env) [] [] False (de_faults env) s)) (\<lambda>root.
     rbind (checked_run_id run_id) (\<lambda>r. Inr (join_path root (Path False [r]))))"

text \<open>The body of \<open>with store.debug_lock(run_id)\<close>.\<close>

definition with_debug_lock :: "('g, 'x) debug_env \<Rightarrow> string \<Rightarrow> ('g, 'x, 'a) dop \<Rightarrow> ('g, 'x, 'a) dop" where
  "with_debug_lock env run_id body w =
     (case debug_lock run_id (de_faults env)
             (\<lambda>s. let (r, w1) = body (w\<lparr>w_store := s\<rparr>) in (Inr (r, w1), w_store w1)) (w_store w) of
        (Inl e, s) \<Rightarrow> (Inl (Store_failed e), w\<lparr>w_store := s\<rparr>)
      | (Inr (r, w1), s) \<Rightarrow> (r, w1\<lparr>w_store := s\<rparr>))"

subsection \<open>\<open>policy.py\<close>\<close>

definition default_debug_profiles :: "(string \<times> debug_profile) list" where
  "default_debug_profiles =
     [(''qemu-gdbstub-default'', \<lparr>dp_name = ''qemu-gdbstub-default'', enabled_operations = allowed_debug_operations\<rparr>)]"

definition ensure_debug_operation_enabled :: "debug_profile \<Rightarrow> string \<Rightarrow> ('x debug_raised, unit) result" where
  "ensure_debug_operation_enabled profile op =
     (if op \<notin> set allowed_debug_operations
      then Inl (Provider_error CONFIGURATION_ERROR [(''operation'', RawStr op)])
      else if op \<notin> set (enabled_operations profile)
      then Inl (Provider_error CONFIGURATION_ERROR
             [(''debug_profile'', RawStr (dp_name profile)), (''operation'', RawStr op)])
      else Inr ())"

definition resolve_debug_profile ::
    "string \<Rightarrow> (string \<times> debug_profile) list option \<Rightarrow> ('x debug_raised, debug_profile) result" where
  "resolve_debug_profile name profiles =
     (case map_of (case profiles of None \<Rightarrow> default_debug_profiles | Some ps \<Rightarrow> ps) name of
        None \<Rightarrow> Inl (Provider_error CONFIGURATION_ERROR [(''debug_profile'', RawStr name)])
      | Some p \<Rightarrow> Inr p)"

definition write_execution_state ::
    "('g, 'x) debug_env \<Rightarrow> debug_fs \<Rightarrow> execution_state \<Rightarrow> transport_session \<Rightarrow> ('g, 'x, unit) dop" where
  "write_execution_state env op st ses w =
     (if de_fs_ok env op
      then (Inr (), w\<lparr>w_sys := (w_sys w)\<lparr>sy_registry :=
              write_record (ses\<lparr>execution_state := st\<rparr>) (sy_registry (w_sys w))\<rparr>\<rparr>)
      else (Inl Os_failed, w))"

definition with_admission :: "(admission \<Rightarrow> 'b \<times> admission) \<Rightarrow> 'g world \<Rightarrow> 'b \<times> 'g world" where
  "with_admission f w =
     (case f (sy_admission (w_sys w)) of (b, a) \<Rightarrow> (b, w\<lparr>w_sys := (w_sys w)\<lparr>sy_admission := a\<rparr>\<rparr>))"

definition halt_debug_transport :: "('g, 'x) debug_env \<Rightarrow> transport_session \<Rightarrow> ('g, 'x, unit) dop" where
  "halt_debug_transport env ses =
     dbind (write_execution_state env Write_halted HALTED ses) (\<lambda>_ w.
       let (epoch, w1) = with_admission (note_execution_transition (ts_target_key ses) (ts_generation ses)) w;
           (cancelled, w2) = with_admission (cancel_ssh_tier (ts_target_key ses) (ts_generation ses) epoch) w1
       in (Inr (), w2))"

subsection \<open>\<open>session_state.py\<close>\<close>

definition debug_session_details_from_result :: "step_result \<Rightarrow> bool \<Rightarrow> fields option" where
  "debug_session_details_from_result res allow_ended =
     (if sr_status res \<noteq> SUCCEEDED then None
      else if \<not> allow_ended \<and> map_of (sr_details res) ''current_execution_state'' = Some (RawStr ''ended'') then None
      else Some (sr_details res))"

definition session_file :: "path \<Rightarrow> string \<Rightarrow> path" where
  "session_file run_dir sid = join_path run_dir (parse_path (''debug/sessions/'' @ sid @ ''.json''))"

definition debug_session_manifest_details :: "path \<Rightarrow> debug_session \<Rightarrow> fields" where
  "debug_session_manifest_details run_dir ds =
     [(''debug_session_id'', RawStr (ds_session_id ds)),
      (''session_path'', RawStr (str_path (session_file run_dir (ds_session_id ds)))),
      (''current_execution_state'', RawStr (session_state_text (ds_state ds))),
      (''gdbstub_endpoint'', RawMap (ds_gdbstub_endpoint ds)),
      (''transcript_path'', RawStr (ds_transcript_path ds)),
      (''command_metadata_path'', RawStr (ds_command_metadata_path ds)),
      (''latest_summary_path'', RawStr (ds_latest_summary_path ds)),
      (''symbol_identity_validation'', RawMap (ds_symbol_identity ds)),
      (''breakpoints'', RawMap (ds_breakpoints ds))]
     @ (case ds_ended_at ds of None \<Rightarrow> [] | Some t \<Rightarrow> [(''ended_at'', RawStr t)])"

definition require_run_debug_path :: "host \<Rightarrow> path \<Rightarrow> path \<Rightarrow> ('x debug_raised, path) result" where
  "require_run_debug_path h p run_dir =
     (case rbind (rbind (expanduser h p) (resolve_path h)) (\<lambda>resolved.
           rbind (rbind (expanduser h (join_path run_dir (Path False [''debug'']))) (resolve_path h)) (\<lambda>debug_dir.
             Inr (resolved, debug_dir))) of
        Inl e \<Rightarrow> Inl (Path_failed e)
      | Inr (resolved, debug_dir) \<Rightarrow>
          (if relative_to resolved debug_dir then Inr resolved
           else Inl (Provider_error CONFIGURATION_ERROR
             [(''path'', RawStr (str_path p)), (''debug_dir'', RawStr (str_path debug_dir))])))"

text \<open>Opening the file for writing empties it; a write that fails then leaves it unreadable.\<close>

definition persist_mi_debug_session :: "('g, 'x) debug_env \<Rightarrow> path \<Rightarrow> debug_session \<Rightarrow> ('g, 'x, path) dop" where
  "persist_mi_debug_session env run_dir ds w =
     (let session_path = session_file run_dir (ds_session_id ds) in
      if \<not> (de_fs_ok env Mkdir_sessions \<and> de_fs_ok env Mkdir_transcript \<and> de_fs_ok env Open_session)
      then (Inl Os_failed, w)
      else case resolve_path (de_host env) session_path of
          Inl e \<Rightarrow> (Inl Os_failed, w)
        | Inr p \<Rightarrow>
            (if de_fs_ok env Write_session
             then (Inr session_path, w\<lparr>w_files := dict_set p (Parsed ds) (w_files w)\<rparr>)
             else (Inl Os_failed, w\<lparr>w_files := dict_set p Malformed (w_files w)\<rparr>)))"

definition resume_debug_transport :: "('g, 'x) debug_env \<Rightarrow> transport_session \<Rightarrow> ('g, 'x, unit) dop" where
  "resume_debug_transport env ses =
     dbind (write_execution_state env Write_executing EXECUTING ses) (\<lambda>_ w.
       (Inr (), snd (with_admission (note_execution_transition (ts_target_key ses) (ts_generation ses)) w)))"

text \<open>The transaction's operations and the registry's reader, on the world.\<close>

definition close_transport :: "(string \<rightharpoonup> 'x transport) \<Rightarrow> ('g, 'x) debug_env \<Rightarrow> string \<Rightarrow> bool \<Rightarrow> ('g, 'x, unit) dop" where
  "close_transport transports env sid force w =
     (case close_session transports (oe_fs_ok (de_open env)) sid force (w_sys w) of
        (Inl e, s) \<Rightarrow> (Inl (Close_failed_with e), w\<lparr>w_sys := s\<rparr>)
      | (Inr _, s) \<Rightarrow> (Inr (), w\<lparr>w_sys := s\<rparr>))"

definition release_transport :: "('g, 'x) debug_env \<Rightarrow> string \<Rightarrow> ('g, 'x, unit) dop" where
  "release_transport env sid w =
     (case force_release (oe_fs_ok (de_open env)) sid (w_sys w) of
        (Inl e, s) \<Rightarrow> (Inl (Release_failed e), w\<lparr>w_sys := s\<rparr>)
      | (Inr _, s) \<Rightarrow> (Inr (), w\<lparr>w_sys := s\<rparr>))"

definition read_transport :: "target_key \<Rightarrow> ('g, 'x, transport_session option) dop" where
  "read_transport k = dread (\<lambda>w.
     case read_record k (sy_registry (w_sys w)) of Inl e \<Rightarrow> Inl (Record_failed e) | Inr r \<Rightarrow> Inr r)"

definition guarded_teardown ::
    "(string \<rightharpoonup> 'x transport) \<Rightarrow> ('g, 'x) debug_env \<Rightarrow> ('g, 'x) guard_policy \<Rightarrow> guard_context \<Rightarrow> string \<Rightarrow> bool
      \<Rightarrow> ('g, 'x, 'x debug_raised teardown_report) dop" where
  "guarded_teardown transports env gp ctx sid force =
     teardown (gp_teardown_steps gp) ctx (close_transport transports env sid force)
       (read_transport (gc_target_key ctx)) (release_transport env sid)"

definition teardown_debug_transport ::
    "(string \<rightharpoonup> 'x transport) \<Rightarrow> ('g, 'x) debug_env \<Rightarrow> transport_session \<Rightarrow> ('g, 'x, unit) dop" where
  "teardown_debug_transport transports env ses =
     (case de_guard env of
        Some gp \<Rightarrow>
          if de_registry env
          then dbind (guarded_teardown transports env gp
                 \<lparr>gc_target_key = ts_target_key ses, gc_generation = ts_generation ses,
                  gc_session_id = Some (session_id ses), gc_reason = Attach_error\<rparr> (session_id ses) False) (\<lambda>_. dret ())
          else dsuppress (close_transport transports env (session_id ses) False)
      | None \<Rightarrow> dsuppress (close_transport transports env (session_id ses) False))"

definition teardown_stalled_debug_session ::
    "('g, 'x) debug_env \<Rightarrow> string \<Rightarrow> bool \<Rightarrow> ('g, 'x, unit) dop" where
  "teardown_stalled_debug_session env run_id admission =
     (case de_transports env of
        None \<Rightarrow> dret ()
      | Some transports \<Rightarrow>
          if \<not> de_registry env then dret ()
          else dbind (read_transport (local_qemu run_id)) (\<lambda>found. case found of
              None \<Rightarrow> dret ()
            | Some rec \<Rightarrow>
                dbind (if admission then dsuppress (resume_debug_transport env rec) else dret ()) (\<lambda>_.
                  dsuppress (teardown_debug_transport transports env rec))))"

definition session_required :: "fields \<Rightarrow> 'x debug_raised" where
  "session_required d = Provider_error CONFIGURATION_ERROR d"

text \<open>The checks of a session read from its file, in their order.\<close>

definition check_session ::
    "host \<Rightarrow> path \<Rightarrow> string \<Rightarrow> raw \<Rightarrow> bool \<Rightarrow> path \<Rightarrow> debug_session \<Rightarrow> ('x debug_raised, debug_session) result" where
  "check_session h run_dir run_id active_id allow_ended session_path ds =
     (if ds_run_id ds \<noteq> run_id \<or> ds_provider_name ds \<noteq> ''local-qemu-gdbstub''
      then Inl (session_required [(''session_path'', RawStr (str_path session_path)),
             (''session_run_id'', RawStr (ds_run_id ds)), (''provider_name'', RawStr (ds_provider_name ds))])
      else rbind (require_run_debug_path h (parse_path (ds_transcript_path ds)) run_dir) (\<lambda>_.
           rbind (require_run_debug_path h (parse_path (ds_command_metadata_path ds)) run_dir) (\<lambda>_.
           rbind (require_run_debug_path h (parse_path (ds_latest_summary_path ds)) run_dir) (\<lambda>_.
             if active_id \<noteq> RawStr (ds_session_id ds)
             then Inl (session_required [(''session_path'', RawStr (str_path session_path)), (''session_id'', RawStr (ds_session_id ds))])
             else if \<not> allow_ended \<and> ds_state ds = DS_ended \<or> ds_attach_status ds \<noteq> ATTACHED
             then Inl (session_required [(''debug_session_id'', RawStr (ds_session_id ds))])
             else Inr ds))))"

definition field_value :: "string \<Rightarrow> fields \<Rightarrow> raw" where
  "field_value k d = (case map_of d k of None \<Rightarrow> RawNone | Some v \<Rightarrow> v)"

definition read_session_file :: "('g, 'x) debug_env \<Rightarrow> path \<Rightarrow> 'g world \<Rightarrow> ('x debug_raised, debug_session) result" where
  "read_session_file env p w =
     (case map_of (w_files w) p of
        Some (Parsed ds) \<Rightarrow> if de_fs_ok env Read_session then Inr ds
           else Inl (session_required [(''session_path'', RawStr (str_path p))])
      | _ \<Rightarrow> Inl (session_required [(''session_path'', RawStr (str_path p))]))"

definition load_active_debug_session ::
    "('g, 'x) debug_env \<Rightarrow> path \<Rightarrow> string \<Rightarrow> string option \<Rightarrow> bool \<Rightarrow> ('g, 'x, debug_session) dop" where
  "load_active_debug_session env run_dir run_id debug_session_id allow_ended =
     dbind (store_read (load_manifest run_id (de_faults env))) (\<lambda>m. dread (\<lambda>w.
       case Option.bind (map_of (step_results m) ''debug'') (\<lambda>res. debug_session_details_from_result res allow_ended) of
         None \<Rightarrow> Inl (session_required [])
       | Some details \<Rightarrow>
           (let active_id = field_value ''debug_session_id'' details in
            if debug_session_id \<noteq> None \<and> active_id \<noteq> RawStr (the debug_session_id)
            then Inl (session_required [(''requested_debug_session_id'', RawStr (the debug_session_id)),
                        (''active_debug_session_id'', active_id)])
            else case field_value ''session_path'' details of
                RawStr text \<Rightarrow>
                  rbind (require_run_debug_path (de_host env) (parse_path text) run_dir) (\<lambda>p.
                  rbind (read_session_file env p w) (check_session (de_host env) run_dir run_id active_id allow_ended p))
              | _ \<Rightarrow> Inl (session_required []))))"

definition mark_legacy_session_recovery_required :: "('g, 'x) debug_env \<Rightarrow> string \<Rightarrow> ('g, 'x, unit) dop" where
  "mark_legacy_session_recovery_required env run_id w =
     (let k = local_qemu run_id; s = w_sys w;
          gen = (case current_snapshot k (sy_admission s) of None \<Rightarrow> 0 | Some snap \<Rightarrow> ss_generation snap)
      in if de_fs_ok env Write_legacy_tombstone
         then (Inr (), w\<lparr>w_sys := s\<lparr>
                 sy_registry := write_tombstone \<lparr>rt_target_key = k, rt_generation = gen,
                   rt_reason = ''legacy_session_no_ownership''\<rparr> (sy_registry s),
                 sy_admission := mark_recovery_required k gen (sy_admission s)\<rparr>\<rparr>)
         else (Inl Os_failed, w))"

definition legacy_error :: "'x debug_raised" where
  "legacy_error = Provider_error DEBUG_ATTACH_FAILURE
     [(''code'', RawStr ''legacy_session_no_ownership''), (''debug_session_id'', RawNone)]"

definition assert_layer4_ownership :: "('g, 'x) debug_env \<Rightarrow> string \<Rightarrow> ('g, 'x, unit) dop" where
  "assert_layer4_ownership env run_id =
     (if \<not> de_registry env then dret ()
      else dbind (read_transport (local_qemu run_id)) (\<lambda>r. if r \<noteq> None then dret () else draise legacy_error))"

definition is_legacy_debug_session :: "('g, 'x) debug_env \<Rightarrow> string option \<Rightarrow> string \<Rightarrow> ('g, 'x, bool) dop" where
  "is_legacy_debug_session env transport_session_id run_id =
     (if de_admission env \<and> de_registry env \<and> transport_session_id = None
      then dbind (read_transport (local_qemu run_id)) (\<lambda>r. dret (r = None)) else dret False)"

definition fence_legacy_debug_session :: "('g, 'x) debug_env \<Rightarrow> string \<Rightarrow> ('g, 'x, unit) dop" where
  "fence_legacy_debug_session env run_id =
     (if \<not> de_registry env then dret ()
      else dbind (read_transport (local_qemu run_id)) (\<lambda>r.
        if r \<noteq> None then dret ()
        else dbind (mark_legacy_session_recovery_required env run_id) (\<lambda>_. draise legacy_error)))"

text \<open>\<open>admission\<close> says whether the caller passes the admission service on.\<close>

definition enforce_debug_ownership_fence :: "('g, 'x) debug_env \<Rightarrow> bool \<Rightarrow> string \<Rightarrow> ('g, 'x, unit) dop" where
  "enforce_debug_ownership_fence env admission run_id =
     (if admission then fence_legacy_debug_session env run_id else assert_layer4_ownership env run_id)"

definition mi_session_artifacts :: "path \<Rightarrow> debug_session \<Rightarrow> artifact_ref list" where
  "mi_session_artifacts run_dir ds =
     [\<lparr>ar_path = str_path (session_file run_dir (ds_session_id ds)), ar_kind = ''debug-session'', ar_sensitive = False,
       ar_description = None\<rparr>,
      \<lparr>ar_path = ds_transcript_path ds, ar_kind = ''debug-transcript'', ar_sensitive = True, ar_description = None\<rparr>]"

text \<open>A store error that is a \<open>ManifestStateError\<close>.\<close>

definition preserved_debug_step_details :: "('g, 'x) debug_env \<Rightarrow> string \<Rightarrow> ('g, 'x, fields) dop" where
  "preserved_debug_step_details env run_id = dread (\<lambda>w.
     case load_manifest run_id (de_faults env) (w_store w) of
       Inl e \<Rightarrow> if manifest_state_error e \<noteq> None then Inr [] else Inl (Store_failed e)
     | Inr m \<Rightarrow>
         (case map_of (step_results m) ''debug'' of
            None \<Rightarrow> Inr []
          | Some existing \<Rightarrow> Inr (List.map_filter (\<lambda>k. map_option (Pair k) (map_of (sr_details existing) k))
              [''transport_session_id'', ''mi_probe''])))"

definition recorded_transport_session_id :: "('g, 'x) debug_env \<Rightarrow> string \<Rightarrow> ('g, 'x, string option) dop" where
  "recorded_transport_session_id env run_id = dread (\<lambda>w.
     case rbind (run_dir_of env run_id (w_store w)) (\<lambda>_.
            if \<not> has_manifest run_id (w_store w) then Inr None
            else rbind (load_manifest run_id (de_faults env) (w_store w)) (\<lambda>m. Inr (map_of (step_results m) ''debug''))) of
       Inl e \<Rightarrow> if manifest_state_error e \<noteq> None then Inr None else Inl (Store_failed e)
     | Inr None \<Rightarrow> Inr None
     | Inr (Some res) \<Rightarrow>
         (case map_of (sr_details res) ''transport_session_id'' of Some (RawStr t) \<Rightarrow> Inr (Some t) | _ \<Rightarrow> Inr None))"

end
