(* ===== verification/DebugStart.thy ===== *)
theory DebugStart
  imports DebugState
begin

text \<open>
  Models \<open>src/kdive/debug/session_handlers.py\<close>: \<open>debug.start_session\<close>, from the checks of the
  run to the recorded session. The order of the code is kept: the checks, under the debug lock
  the reuse of a live session, the build-id lock between symbols and kernel, the open of the
  transport, the halt, the attach of gdb, and the recording; each failure undoes what the steps
  before it took. In a response, messages and suggested actions are left out.
\<close>

subsection \<open>Errors as responses\<close>

fun adm_code_text :: "adm_code \<Rightarrow> string" where
  "adm_code_text Snapshot_missing = ''snapshot_missing''"
| "adm_code_text Snapshot_generation_regression = ''snapshot_generation_regression''"
| "adm_code_text Target_not_ready = ''target_not_ready''"
| "adm_code_text Target_mismatch = ''target_mismatch''"
| "adm_code_text Not_recovery_required = ''not_recovery_required''"
| "adm_code_text Stale_platform = ''stale_platform''"
| "adm_code_text Admission_closed = ''admission_closed''"
| "adm_code_text Recovery_required = ''recovery_required''"
| "adm_code_text Stale_handle = ''stale_handle''"
| "adm_code_text Insufficient_caps = ''insufficient_caps''"
| "adm_code_text Foreign_ref = ''foreign_ref''"
| "adm_code_text Stale_lease = ''stale_lease''"
| "adm_code_text Lease_near_expiry = ''lease_near_expiry''"
| "adm_code_text Execution_state_unknown = ''execution_state_unknown''"
| "adm_code_text Target_halted = ''target_halted''"
| "adm_code_text Handle_not_pending = ''handle_not_pending''"
| "adm_code_text Admission_cancelled = ''admission_cancelled''"
| "adm_code_text Execution_state_changed = ''execution_state_changed''"
| "adm_code_text Invalid_terminal_transition = ''invalid_terminal_transition''"
| "adm_code_text Reaper_confirmation_required = ''reaper_confirmation_required''"
| "adm_code_text Reap_not_permitted = ''reap_not_permitted''"
| "adm_code_text Handle_already_disposed = ''handle_already_disposed''"
| "adm_code_text Abandon_not_permitted = ''abandon_not_permitted''"
| "adm_code_text Generation_not_advanced = ''generation_not_advanced''"
| "adm_code_text Bindings_outstanding = ''bindings_outstanding''"

definition code_field :: "string \<Rightarrow> fields" where
  "code_field c = [(''code'', RawStr c)]"

definition config_refusal :: "fields \<Rightarrow> tool_response" where
  "config_refusal d = Tool_failure CONFIGURATION_ERROR d []"

text \<open>\<open>except ManifestStateError\<close>.\<close>

definition manifest_refusal :: "'x debug_raised \<Rightarrow> tool_response option" where
  "manifest_refusal e =
     (case e of Store_failed s \<Rightarrow> map_option (\<lambda>c. Tool_failure c [] []) (manifest_state_error s) | _ \<Rightarrow> None)"

text \<open>The redacted details and artifacts of a response; every artifact stays one.\<close>

definition redacted_fields :: "redactor \<Rightarrow> fields \<Rightarrow> fields" where
  "redacted_fields rd d = fields_of (redact_value rd (RawMap (map (\<lambda>(k, v). (KStr k, v)) d)))"

definition shown_artifacts :: "redactor \<Rightarrow> artifact_ref list \<Rightarrow> artifact_ref list" where
  "shown_artifacts rd arts = List.map_filter (\<lambda>a. a) (redacted_artifacts arts rd)"

definition session_redactor :: "('g, 'x) debug_env \<Rightarrow> redactor" where
  "session_redactor env = make_redactor (de_secrets env) None"

text \<open>\<open>{**a, **b}\<close>.\<close>

definition merge_fields :: "fields \<Rightarrow> fields \<Rightarrow> fields" where
  "merge_fields a b = foldl (\<lambda>d (k, v). dict_set k v d) a b"

subsection \<open>The checks of the run\<close>

record start_request =
  sq_run_id :: string
  sq_debug_profile :: "string option"
  sq_new_session :: bool
  sq_recovery :: bool

record preflight =
  pf_run_dir :: path
  pf_manifest :: run_manifest
  pf_build :: step_result
  pf_boot :: step_result
  pf_vmlinux :: artifact_ref
  pf_kernel_image :: artifact_ref
  pf_endpoint :: dict_items
  pf_profile :: debug_profile
  pf_redactor :: redactor
  pf_started_at :: string

definition find_artifact :: "step_result \<Rightarrow> string \<Rightarrow> artifact_ref option" where
  "find_artifact res kind = List.find (\<lambda>a. ar_kind a = kind) (sr_artifacts res)"

definition succeeded_step :: "string \<Rightarrow> run_manifest \<Rightarrow> step_result option" where
  "succeeded_step name m =
     (case map_of (step_results m) name of
        Some res \<Rightarrow> if sr_status res = SUCCEEDED then Some res else None | None \<Rightarrow> None)"

definition requested_profile :: "string option \<Rightarrow> string option \<Rightarrow> string" where
  "requested_profile given recorded =
     (case given of
        Some p \<Rightarrow> if p \<noteq> [] then p else (case recorded of Some r \<Rightarrow> if r \<noteq> [] then r else ''qemu-gdbstub-default'' | None \<Rightarrow> ''qemu-gdbstub-default'')
      | None \<Rightarrow> (case recorded of Some r \<Rightarrow> if r \<noteq> [] then r else ''qemu-gdbstub-default'' | None \<Rightarrow> ''qemu-gdbstub-default''))"

definition profile_refusal :: "'x debug_raised \<Rightarrow> ('x debug_raised, (tool_response, 'a) result) result" where
  "profile_refusal e = (case e of Provider_error c d \<Rightarrow> Inr (Inl (config_refusal d)) | _ \<Rightarrow> Inl e)"

definition preflight_profile ::
    "('g, 'x) debug_env \<Rightarrow> start_request \<Rightarrow> run_manifest \<Rightarrow> ('x debug_raised, (tool_response, debug_profile) result) result" where
  "preflight_profile env q m =
     (let recorded = rq_debug_profile (rm_request m) in
      if recorded \<noteq> None \<and> sq_debug_profile q \<noteq> None \<and> sq_debug_profile q \<noteq> recorded
      then Inr (Inl (config_refusal [(''requested_profile'', RawStr (the (sq_debug_profile q))), (''manifest_profile'', RawStr (the recorded))]))
      else case rbind (resolve_debug_profile (requested_profile (sq_debug_profile q) recorded) (de_profiles env)) (\<lambda>p.
                  rbind (ensure_debug_operation_enabled p ''debug.start_session'') (\<lambda>_. Inr p)) of
          Inl e \<Rightarrow> profile_refusal e
        | Inr p \<Rightarrow> Inr (Inr p))"

definition check_preflight ::
    "('g, 'x) debug_env \<Rightarrow> start_request \<Rightarrow> path \<Rightarrow> run_manifest \<Rightarrow> ('x debug_raised, (tool_response, preflight) result) result" where
  "check_preflight env q run_dir m =
     (case (succeeded_step ''build'' m, succeeded_step ''boot'' m) of
        (Some build, Some boot) \<Rightarrow>
          if map_of (sr_details boot) ''debug_boot'' \<noteq> Some (RawBool True) then Inr (Inl (config_refusal []))
          else (case (find_artifact build ''vmlinux'', find_artifact build ''kernel-image'', map_of (sr_details boot) ''gdbstub_endpoint'') of
             (Some vmlinux, Some bz, Some (RawMap endpoint)) \<Rightarrow>
               rbind (preflight_profile env q m) (\<lambda>r. Inr (rbind r (\<lambda>p.
                 Inr \<lparr>pf_run_dir = run_dir, pf_manifest = m, pf_build = build, pf_boot = boot, pf_vmlinux = vmlinux,
                      pf_kernel_image = bz, pf_endpoint = endpoint, pf_profile = p,
                      pf_redactor = session_redactor env, pf_started_at = de_now env\<rparr>)))
           | _ \<Rightarrow> Inr (Inl (config_refusal [])))
      | _ \<Rightarrow> Inr (Inl (config_refusal [])))"

text \<open>The run's directory and manifest, or that it has none.\<close>

definition find_run ::
    "('g, 'x) debug_env \<Rightarrow> string \<Rightarrow> store \<Rightarrow> (store_error, (path \<times> run_manifest) option) result" where
  "find_run env run_id s =
     rbind (run_dir_of env run_id s) (\<lambda>d.
       if \<not> has_manifest run_id s then Inr None
       else rbind (load_manifest run_id (de_faults env) s) (\<lambda>m. Inr (Some (d, m))))"

definition debug_start_session_preflight ::
    "('g, 'x) debug_env \<Rightarrow> start_request \<Rightarrow> ('g, 'x, (tool_response, preflight) result) dop" where
  "debug_start_session_preflight env q = dread (\<lambda>w.
     case find_run env (sq_run_id q) (w_store w) of
       Inl e \<Rightarrow> (case manifest_refusal (Store_failed e :: 'x debug_raised) of Some t \<Rightarrow> Inr (Inl t) | None \<Rightarrow> Inl (Store_failed e))
     | Inr None \<Rightarrow> Inr (Inl (config_refusal []))
     | Inr (Some (d, m)) \<Rightarrow> check_preflight env q d m)"

definition debug_start_session_engine_missing :: "('g, 'x) debug_env \<Rightarrow> bool" where
  "debug_start_session_engine_missing env \<longleftrightarrow>
     \<not> (de_transports env \<noteq> None \<and> de_admission env \<and> de_registry env \<and> de_engine env \<noteq> None \<and> de_live_registry env)"

definition engine_unavailable :: tool_response where
  "engine_unavailable = Tool_failure INFRASTRUCTURE_FAILURE (code_field ''debug_engine_unavailable'') []"

subsection \<open>The symbols are those of the booted kernel\<close>

text \<open>A response refuses; \<open>str\<close> of a value that is no text is a parameter.\<close>

definition verify_gdb_symbol_version_lock ::
    "(raw \<Rightarrow> string) \<Rightarrow> (bin_file option \<Rightarrow> (elf_raised, string) result) \<Rightarrow> step_result \<Rightarrow> bin_file option
      \<Rightarrow> ('x debug_raised, tool_response option) result" where
  "verify_gdb_symbol_version_lock repr_of build_id_reader boot vmlinux =
     (case map_of (sr_details boot) ''kernel_provenance'' of
        Some (RawMap prov) \<Rightarrow>
          (case get_field ''build_id'' prov of
             RawStr expected \<Rightarrow>
               if re_match build_id_re expected = None
               then Inr (Some (Tool_failure INFRASTRUCTURE_FAILURE
                      [(''code'', RawStr ''provenance_corrupt''), (''recorded'', RawStr expected)] []))
               else (case verify_vmlinux_provenance build_id_reader expected vmlinux of
                   Inr _ \<Rightarrow> Inr None
                 | Inl (Build_id_unread (Build_id_read_error f)) \<Rightarrow>
                     Inr (Some (config_refusal (code_field ''vmlinux_build_id_unreadable'')))
                 | Inl (Build_id_unread e) \<Rightarrow> Inl (Reader_failed e)
                 | Inl (Provenance_mismatch ex ob) \<Rightarrow>
                     Inr (Some (config_refusal [(''code'', RawStr ''provenance_mismatch''), (''expected'', RawStr ex),
                        (''observed'', RawStr ob)])))
           | v \<Rightarrow> Inr (Some (Tool_failure INFRASTRUCTURE_FAILURE
                      [(''code'', RawStr ''provenance_corrupt''), (''recorded'', RawStr (py_str repr_of v))] [])))
      | _ \<Rightarrow>
          Inr (Some (config_refusal (code_field ''provenance_missing'' @
            (case map_of (sr_details boot) ''kernel_provenance_capture_error'' of
               Some (RawMap err) \<Rightarrow> [(''capture_error'', get_field ''code'' err)] | _ \<Rightarrow> [])))))"

text \<open>
  What is found under the lock: a live session is answered from the manifest, a refusal ends
  the call, otherwise the call goes on, replacing an ended session or not.
\<close>

definition reuse_or_readiness ::
    "('g, 'x) debug_env \<Rightarrow> (raw \<Rightarrow> string) \<Rightarrow> start_request \<Rightarrow> preflight \<Rightarrow> ('g, 'x, (tool_response, bool) result) dop" where
  "reuse_or_readiness env repr_of q pf =
     dbind (store_read (load_manifest (sq_run_id q) (de_faults env))) (\<lambda>m. dread (\<lambda>_.
       let existing = map_of (step_results m) ''debug'';
           active = (if sq_new_session q then None
                     else Option.bind existing (\<lambda>res. map_option (Pair res) (debug_session_details_from_result res False)))
       in case active of
            Some (res, details) \<Rightarrow>
              Inr (Inl (Tool_success (redacted_fields (pf_redactor pf) details) (shown_artifacts (pf_redactor pf) (sr_artifacts res))))
          | None \<Rightarrow>
              rbind (verify_gdb_symbol_version_lock repr_of (de_build_id_reader env) (pf_boot pf)
                       (de_vmlinux_file env (parse_path (ar_path (pf_vmlinux pf))))) (\<lambda>refused.
                Inr (case refused of
                       Some t \<Rightarrow> Inl t
                     | None \<Rightarrow>
                         if debug_start_session_engine_missing env then Inl engine_unavailable
                         else Inr (sq_new_session q \<or> (case existing of None \<Rightarrow> False | Some res \<Rightarrow> sr_status res = SUCCEEDED))))))"

subsection \<open>Opening the transport and attaching gdb\<close>

definition debug_open_request :: "string \<Rightarrow> dict_items \<Rightarrow> admission \<Rightarrow> ('x debug_raised, open_request) result" where
  "debug_open_request run_id endpoint a =
     (case require_target_snapshot (local_qemu run_id) a of
        Inl e \<Rightarrow> Inl (Admission_failed e)
      | Inr snap \<Rightarrow>
          (case deep_freeze (RawMap endpoint) of
             Inl _ \<Rightarrow> Inl Validation_failed
           | Inr frozen \<Rightarrow>
               if ss_generation snap < 0 then Inl Validation_failed
               else Inr \<lparr>req_target_key = local_qemu run_id, req_generation = ss_generation snap,
                 req_transport_ref = \<lparr>tr_provider = ''qemu-gdbstub'', tr_channel_id = ''rsp0'', tr_line_role = RSP,
                   tr_caps = [''rsp''], tr_target_ref = frozen, tr_opts = frozen, tr_secret_refs = []\<rparr>,
                 req_required_caps = [''rsp''], req_platform = ss_platform snap, req_lease = None,
                 req_min_lease_ttl = None\<rparr>))"

definition mi_probe_transcript_path :: "path \<Rightarrow> path" where
  "mi_probe_transcript_path run_dir = join_path run_dir (Path False [''debug'', ''mi-probe.log''])"

definition dump_symbol :: "string \<Rightarrow> string \<Rightarrow> raw" where
  "dump_symbol name v = RawMap [(KStr ''name'', RawStr name), (KStr ''value'', RawStr v)]"

definition probe_details :: "redactor \<Rightarrow> path \<Rightarrow> mi_record \<Rightarrow> string \<Rightarrow> fields" where
  "probe_details rd run_dir rec v = [(''mi_probe'', redact_value rd (RawMap
     [(KStr ''record'', dump_record rec), (KStr ''symbol'', dump_symbol canonical_probe_symbol v),
      (KStr ''transcript_path'', RawStr (str_path (mi_probe_transcript_path run_dir)))]))]"

definition gdb_attach :: "'g mi_env \<Rightarrow> endpoint option \<Rightarrow> path \<Rightarrow> ('g, 'x, attachment) dop" where
  "gdb_attach eng e vmlinux w =
     (case attach eng e vmlinux (w_gdb w) of
        (Inl err, g) \<Rightarrow> (Inl (Gdb_failed err), w\<lparr>w_gdb := g\<rparr>) | (Inr a, g) \<Rightarrow> (Inr a, w\<lparr>w_gdb := g\<rparr>))"

text \<open>An operation of the engine on an attachment, whose list of records it extends.\<close>

definition gdb_op :: "('g, 'a) mi_op \<Rightarrow> attachment \<Rightarrow> 'g world \<Rightarrow> ('x debug_raised, 'a) result \<times> attachment \<times> 'g world" where
  "gdb_op f a w =
     (case f (at_records a, w_gdb w) of
        (Inl err, rs, g) \<Rightarrow> (Inl (Gdb_failed err), a\<lparr>at_records := rs\<rparr>, w\<lparr>w_gdb := g\<rparr>)
      | (Inr v, rs, g) \<Rightarrow> (Inr v, a\<lparr>at_records := rs\<rparr>, w\<lparr>w_gdb := g\<rparr>))"

definition force_resume :: "'g mi_env \<Rightarrow> ('g, 'x, bool) dop" where
  "force_resume eng w = (case resume_inferior eng (w_gdb w) of (b, g) \<Rightarrow> (Inr b, w\<lparr>w_gdb := g\<rparr>))"

definition reap_live :: "string \<Rightarrow> ('g, 'x, attachment option) dop" where
  "reap_live sid w = (case session_reap sid (w_live w) of (found, ls) \<Rightarrow> (Inr found, w\<lparr>w_live := ls\<rparr>))"

text \<open>\<open>reap\<close>, then \<open>force_resume\<close> of what was reaped.\<close>

definition reap_and_resume :: "'g mi_env \<Rightarrow> string \<Rightarrow> ('g, 'x, unit) dop" where
  "reap_and_resume eng sid =
     dbind (reap_live sid) (\<lambda>found. case found of None \<Rightarrow> dret () | Some a \<Rightarrow> dsuppress (force_resume eng))"

definition failure_category :: "'x debug_raised \<Rightarrow> error_category" where
  "failure_category e = (case e of Gdb_failed (Gdb_mi_error c d) \<Rightarrow> c | _ \<Rightarrow> INFRASTRUCTURE_FAILURE)"

definition failure_details :: "'x debug_raised \<Rightarrow> fields" where
  "failure_details e = (case e of Gdb_failed (Gdb_mi_error c d) \<Rightarrow> d | _ \<Rightarrow> [])"

text \<open>The handler of \<open>_run_mi_attach_probe\<close>; \<open>attached\<close> says whether the attach had returned.\<close>

definition probe_failed ::
    "(string \<rightharpoonup> 'x transport) \<Rightarrow> ('g, 'x) debug_env \<Rightarrow> 'g mi_env \<Rightarrow> redactor \<Rightarrow> transport_session \<Rightarrow> string \<Rightarrow> bool
      \<Rightarrow> 'x debug_raised \<Rightarrow> ('g, 'x, tool_response) dop" where
  "probe_failed transports env eng rd ses sid attached e =
     dbind (if attached then force_resume eng else dret True) (\<lambda>resumed.
     dbind (reap_live sid) (\<lambda>_.
     dbind (if resumed then dsuppress (resume_debug_transport env ses) else dret ()) (\<lambda>_.
     dbind (teardown_debug_transport transports env ses) (\<lambda>_.
       dret (Tool_failure (failure_category e)
         (redacted_fields rd (merge_fields (failure_details e) [(''transport_session_id'', RawStr (session_id ses))])) [])))))"

definition run_mi_attach_probe ::
    "(string \<rightharpoonup> 'x transport) \<Rightarrow> ('g, 'x) debug_env \<Rightarrow> 'g mi_env \<Rightarrow> redactor \<Rightarrow> path \<Rightarrow> path \<Rightarrow> transport_session \<Rightarrow> string
      \<Rightarrow> ('g, 'x, (tool_response, fields) result) dop" where
  "run_mi_attach_probe transports env eng rd run_dir vmlinux ses sid w =
     (case gdb_attach eng (rsp_endpoint ses) vmlinux w of
        (Inl e, w1) \<Rightarrow> dbind (probe_failed transports env eng rd ses sid False e) (\<lambda>t. dret (Inl t)) w1
      | (Inr a, w1) \<Rightarrow>
          (case probe_read a of
             Inl err \<Rightarrow> dbind (probe_failed transports env eng rd ses sid True (Gdb_failed err)) (\<lambda>t. dret (Inl t)) w1
           | Inr rec \<Rightarrow>
               (case gdb_op (resolve_symbol eng canonical_probe_symbol) a w1 of
                  (Inl e, a', w2) \<Rightarrow> dbind (probe_failed transports env eng rd ses sid True e) (\<lambda>t. dret (Inl t)) w2
                | (Inr v, a', w2) \<Rightarrow>
                    (Inr (Inr (probe_details rd run_dir rec v)), w2\<lparr>w_live := session_register sid a' (w_live w2)\<rparr>))))"

text \<open>What the open of the transport raises, as far as the handler catches it.\<close>

definition open_refusal :: "'x debug_raised \<Rightarrow> tool_response option" where
  "open_refusal e =
     (case e of
        Open_failed (Guard_held g) \<Rightarrow> Some (Tool_failure TRANSPORT_CONFLICT (code_field ''stop_capable_conflict'') [])
      | Open_failed (Unsafe Endpoint_unsafe) \<Rightarrow> Some (Tool_failure TRANSPORT_CONFLICT (code_field ''endpoint_unsafe'') [])
      | Open_failed (Refused c) \<Rightarrow> Some (Tool_failure (category c) (code_field (adm_code_text c)) [])
      | Admission_failed c \<Rightarrow> Some (Tool_failure (category c) (code_field (adm_code_text c)) [])
      | _ \<Rightarrow> None)"

definition open_transport ::
    "(string \<rightharpoonup> 'x transport) \<Rightarrow> ('g, 'x) debug_env \<Rightarrow> string \<Rightarrow> dict_items \<Rightarrow> bool \<Rightarrow> ('g, 'x, transport_session) dop" where
  "open_transport transports env run_id endpoint recovery w =
     (case debug_open_request run_id endpoint (sy_admission (w_sys w)) of
        Inl e \<Rightarrow> (Inl e, w)
      | Inr req \<Rightarrow>
          (case open_session transports (de_open env) req recovery (w_sys w) of
             (Inl e, s) \<Rightarrow> (Inl (Open_failed e), w\<lparr>w_sys := s\<rparr>)
           | (Inr ses, s) \<Rightarrow> (Inr ses, w\<lparr>w_sys := s\<rparr>)))"

definition precondition_refusal :: "string \<Rightarrow> tool_response" where
  "precondition_refusal n = Tool_failure READINESS_FAILURE
     [(''code'', RawStr ''precondition_failed''), (''precondition'', RawStr n)] []"

definition enter_guard :: "('g, 'x) debug_env \<Rightarrow> string \<Rightarrow> ('g, 'x, unit) dop" where
  "enter_guard env run_id =
     (case de_guard env of
        None \<Rightarrow> dret ()
      | Some gp \<Rightarrow> enter (gp_pre_attach gp)
          \<lparr>gc_target_key = local_qemu run_id, gc_generation = 0, gc_session_id = None, gc_reason = Attach_error\<rparr>)"

record debug_attach =
  da_session :: transport_session
  da_session_id :: string
  da_probe :: fields

definition open_and_probe ::
    "(string \<rightharpoonup> 'x transport) \<Rightarrow> ('g, 'x) debug_env \<Rightarrow> 'g mi_env \<Rightarrow> start_request \<Rightarrow> preflight
      \<Rightarrow> ('g, 'x, (tool_response, debug_attach) result) dop" where
  "open_and_probe transports env eng q pf w =
     (case enter_guard env (sq_run_id q) w of
        (Inl (Precondition_error n), w1) \<Rightarrow> (Inr (Inl (precondition_refusal n)), w1)
      | (Inl e, w1) \<Rightarrow> (Inl e, w1)
      | (Inr _, w1) \<Rightarrow>
          (case open_transport transports env (sq_run_id q) (pf_endpoint pf) (sq_recovery q) w1 of
             (Inl e, w2) \<Rightarrow> (case open_refusal e of Some t \<Rightarrow> (Inr (Inl t), w2) | None \<Rightarrow> (Inl e, w2))
           | (Inr ses, w2) \<Rightarrow>
               dbind (halt_debug_transport env ses) (\<lambda>_.
               dbind (run_mi_attach_probe transports env eng (pf_redactor pf) (pf_run_dir pf)
                        (parse_path (ar_path (pf_vmlinux pf))) ses (''debug-'' @ de_uuid_hex env)) (\<lambda>r.
                 dret (rbind r (\<lambda>probe.
                   Inr \<lparr>da_session = ses, da_session_id = ''debug-'' @ de_uuid_hex env, da_probe = probe\<rparr>)))) w2))"

subsection \<open>Recording the session\<close>

definition build_mi_debug_session :: "string \<Rightarrow> string \<Rightarrow> preflight \<Rightarrow> debug_session" where
  "build_mi_debug_session sid run_id pf =
     (let transcript = mi_probe_transcript_path (pf_run_dir pf); dir = parent_of transcript in
      \<lparr>ds_session_id = sid, ds_run_id = run_id, ds_provider_name = ''local-qemu-gdbstub'',
       ds_gdbstub_endpoint = pf_endpoint pf, ds_vmlinux_path = str_path (parse_path (ar_path (pf_vmlinux pf))),
       ds_profile = dp_name (pf_profile pf), ds_attach_status = ATTACHED, ds_started_at = pf_started_at pf,
       ds_ended_at = None, ds_state = DS_stopped, ds_breakpoints = [], ds_loaded_modules = [],
       ds_transcript_path = str_path transcript,
       ds_command_metadata_path = str_path (join_path dir (Path False [''commands.jsonl''])),
       ds_latest_summary_path = str_path (join_path dir (Path False [''debug-summary.json''])),
       ds_symbol_identity = []\<rparr>)"

definition post_context :: "transport_session \<Rightarrow> guard_context" where
  "post_context ses = \<lparr>gc_target_key = ts_target_key ses, gc_generation = ts_generation ses,
     gc_session_id = Some (session_id ses), gc_reason = Attach_error\<rparr>"

definition verify_guard ::
    "(string \<rightharpoonup> 'x transport) \<Rightarrow> ('g, 'x) debug_env \<Rightarrow> 'g mi_env \<Rightarrow> debug_attach \<Rightarrow> ('g, 'x, unit) dop" where
  "verify_guard transports env eng da w =
     (case de_guard env of
        None \<Rightarrow> (Inr (), w)
      | Some gp \<Rightarrow>
          (case verify_attached (gp_post_attach gp) (post_context (da_session da)) (da_session da) w of
             (Inl (Precondition_error n), w1) \<Rightarrow>
               dbind (reap_and_resume eng (da_session_id da)) (\<lambda>_.
               dbind (guarded_teardown transports env gp (post_context (da_session da)) (session_id (da_session da)) False) (\<lambda>_.
                 draise (Precondition_error n))) w1
           | r \<Rightarrow> r))"

definition debug_step :: "string \<Rightarrow> artifact_ref list \<Rightarrow> fields \<Rightarrow> step_result" where
  "debug_step summary arts details =
     \<lparr>sr_step_name = ''debug'', sr_status = SUCCEEDED, sr_summary = summary, sr_artifacts = arts, sr_details = details\<rparr>"

definition start_details :: "preflight \<Rightarrow> debug_attach \<Rightarrow> debug_session \<Rightarrow> fields" where
  "start_details pf da ds =
     dict_set ''transport_session_id'' (RawStr (session_id (da_session da)))
       (merge_fields (debug_session_manifest_details (pf_run_dir pf) ds) (da_probe da))"

definition persist_success ::
    "(string \<rightharpoonup> 'x transport) \<Rightarrow> ('g, 'x) debug_env \<Rightarrow> 'g mi_env \<Rightarrow> start_request \<Rightarrow> preflight \<Rightarrow> bool \<Rightarrow> debug_attach
      \<Rightarrow> ('g, 'x, fields \<times> artifact_ref list) dop" where
  "persist_success transports env eng q pf replace_existing da =
     (let ds = build_mi_debug_session (da_session_id da) (sq_run_id q) pf;
          arts = mi_session_artifacts (pf_run_dir pf) ds; details = start_details pf da ds
      in dbind (persist_mi_debug_session env (pf_run_dir pf) ds) (\<lambda>_.
         dbind (verify_guard transports env eng da) (\<lambda>_.
         dbind (store_op (record_step_result (sq_run_id q) (debug_step ''gdb/MI debug session started'' arts details)
                  replace_existing False (de_faults env))) (\<lambda>_.
           dret (details, arts)))))"

text \<open>The class and text of the exception in the details are left out.\<close>

definition cleanup_attach ::
    "(string \<rightharpoonup> 'x transport) \<Rightarrow> ('g, 'x) debug_env \<Rightarrow> 'g mi_env \<Rightarrow> redactor \<Rightarrow> debug_attach \<Rightarrow> 'x debug_raised
      \<Rightarrow> ('g, 'x, tool_response) dop" where
  "cleanup_attach transports env eng rd da e =
     dbind (reap_and_resume eng (da_session_id da)) (\<lambda>_.
     dbind (dsuppress (resume_debug_transport env (da_session da))) (\<lambda>_.
     dbind (teardown_debug_transport transports env (da_session da)) (\<lambda>_.
       dret (Tool_failure (case manifest_refusal e of Some (Tool_failure c d a) \<Rightarrow> c | _ \<Rightarrow> INFRASTRUCTURE_FAILURE)
         (redacted_fields rd (code_field ''debug_session_persist_failed'')) []))))"

definition lossy_out_of_band :: "console_kind \<Rightarrow> bool" where
  "lossy_out_of_band k \<longleftrightarrow> k \<in> {HVC, VIRTIO}"

definition quality_warning :: "console_kind \<Rightarrow> string" where
  "quality_warning k =
     ''gdb/MI RSP is riding a lossy out-of-band console ('' @ (case k of UART \<Rightarrow> ''uart'' | HVC \<Rightarrow> ''hvc'' | VIRTIO \<Rightarrow> ''virtio'')
     @ ''); break-in and live transcripts may be dropped or corrupted. Prefer the in-guest/postmortem tiers for reliable inspection.''"

definition start_success_response ::
    "string \<Rightarrow> redactor \<Rightarrow> fields \<times> artifact_ref list \<Rightarrow> 'g world \<Rightarrow> tool_response" where
  "start_success_response run_id rd recorded w =
     (let (details, arts) = recorded;
          warned = (case current_snapshot (local_qemu run_id) (sy_admission (w_sys w)) of
                      None \<Rightarrow> details
                    | Some snap \<Rightarrow>
                        if lossy_out_of_band (console_kind (ss_platform snap))
                        then dict_set ''transport_quality_warning'' (RawStr (quality_warning (console_kind (ss_platform snap)))) details
                        else details)
      in Tool_success (redacted_fields rd warned) (shown_artifacts rd arts))"

text \<open>The part under the lock; the engine and the transports are there once readiness is found.\<close>

definition start_attached ::
    "(string \<rightharpoonup> 'x transport) \<Rightarrow> ('g, 'x) debug_env \<Rightarrow> 'g mi_env \<Rightarrow> start_request \<Rightarrow> preflight \<Rightarrow> bool
      \<Rightarrow> ('g, 'x, (tool_response, fields \<times> artifact_ref list) result) dop" where
  "start_attached transports env eng q pf replace_existing =
     dbind (open_and_probe transports env eng q pf) (\<lambda>r. case r of
       Inl t \<Rightarrow> dret (Inl t)
     | Inr da \<Rightarrow>
         dtry (dbind (persist_success transports env eng q pf replace_existing da) (\<lambda>recorded. dret (Inr recorded)))
           (\<lambda>e. case e of
              Precondition_error n \<Rightarrow> dret (Inl (precondition_refusal n))
            | _ \<Rightarrow> dbind (cleanup_attach transports env eng (pf_redactor pf) da e) (\<lambda>t. dret (Inl t))))"

definition start_locked ::
    "('g, 'x) debug_env \<Rightarrow> (raw \<Rightarrow> string) \<Rightarrow> start_request \<Rightarrow> preflight
      \<Rightarrow> ('g, 'x, (tool_response, fields \<times> artifact_ref list) result) dop" where
  "start_locked env repr_of q pf =
     dbind (reuse_or_readiness env repr_of q pf) (\<lambda>r. case r of
       Inl t \<Rightarrow> dret (Inl t)
     | Inr replace_existing \<Rightarrow>
         (case (de_transports env, de_engine env) of
            (Some transports, Some eng) \<Rightarrow> start_attached transports env eng q pf replace_existing
          | _ \<Rightarrow> draise Type_failed))"

definition debug_start_session_handler ::
    "('g, 'x) debug_env \<Rightarrow> (raw \<Rightarrow> string) \<Rightarrow> start_request \<Rightarrow> ('g, 'x, tool_response) dop" where
  "debug_start_session_handler env repr_of q =
     dbind (debug_start_session_preflight env q) (\<lambda>checked. case checked of
       Inl t \<Rightarrow> dret t
     | Inr pf \<Rightarrow> (\<lambda>w.
         case with_debug_lock env (sq_run_id q) (start_locked env repr_of q pf) w of
           (Inl e, w1) \<Rightarrow> (case manifest_refusal e of Some t \<Rightarrow> (Inr t, w1) | None \<Rightarrow> (Inl e, w1))
         | (Inr (Inl t), w1) \<Rightarrow> (Inr t, w1)
         | (Inr (Inr recorded), w1) \<Rightarrow> (Inr (start_success_response (sq_run_id q) (pf_redactor pf) recorded w1), w1)))"

end
