(* ===== verification/DebugEnd.thy ===== *)
theory DebugEnd
  imports DebugStart
begin

text \<open>
  Models \<open>src/kdive/debug/session_end.py\<close>, \<open>debug.end_session\<close>, and the operation response of
  \<open>src/kdive/debug/operations.py\<close>: one request on a live session, the record of what it changed,
  and the reaping of a session whose engine stalled or faulted.
\<close>

subsection \<open>Ending\<close>

definition os_refusal :: "string \<Rightarrow> 'x debug_raised \<Rightarrow> tool_response option" where
  "os_refusal code e = (if e = Os_failed \<or> e = Store_failed Raw_os_error
     then Some (Tool_failure INFRASTRUCTURE_FAILURE (code_field code) []) else None)"

definition provider_refusal :: "redactor \<Rightarrow> 'x debug_raised \<Rightarrow> tool_response option" where
  "provider_refusal rd e =
     (case e of Provider_error c d \<Rightarrow> Some (Tool_failure c (redacted_fields rd d) []) | _ \<Rightarrow> None)"

text \<open>The first handler that applies; an exception of no handled class escapes.\<close>

definition handled :: "'x debug_raised \<Rightarrow> tool_response option list \<Rightarrow> ('g, 'x, tool_response) dop" where
  "handled e hs = (case List.map_filter (\<lambda>h. h) hs of [] \<Rightarrow> draise e | t # _ \<Rightarrow> dret t)"

definition live_reap :: "('g, 'x) debug_env \<Rightarrow> string \<Rightarrow> ('g, 'x, unit) dop" where
  "live_reap env sid =
     (if \<not> de_live_registry env then dret ()
      else case de_engine env of
          Some eng \<Rightarrow> reap_and_resume eng sid
        | None \<Rightarrow> dbind (reap_live sid) (\<lambda>_. dret ()))"

definition end_locked ::
    "('g, 'x) debug_env \<Rightarrow> path \<Rightarrow> string \<Rightarrow> string option \<Rightarrow> ('g, 'x, fields \<times> debug_session) dop" where
  "end_locked env run_dir run_id debug_session_id =
     dbind (load_active_debug_session env run_dir run_id debug_session_id True) (\<lambda>ds.
     dbind (dread (\<lambda>_. rbind (resolve_debug_profile (ds_profile ds) (de_profiles env)) (\<lambda>p.
              ensure_debug_operation_enabled p ''debug.end_session''))) (\<lambda>_.
     (let ended = ds\<lparr>ds_state := DS_ended, ds_ended_at := Some (de_now env)\<rparr> in
      dbind (persist_mi_debug_session env run_dir ended) (\<lambda>_.
      dbind (preserved_debug_step_details env run_id) (\<lambda>kept.
      (let details = merge_fields (debug_session_manifest_details run_dir ended) kept in
       dbind (store_op (record_step_result run_id
                (debug_step ''debug.end_session succeeded'' (mi_session_artifacts run_dir ended) details) True False (de_faults env))) (\<lambda>_.
       dbind (live_reap env (ds_session_id ds)) (\<lambda>_.
         dret (details, ended)))))))))"

text \<open>The store and the run directory are looked up outside the \<open>try\<close>.\<close>

definition end_mi_debug_session ::
    "('g, 'x) debug_env \<Rightarrow> string \<Rightarrow> string option \<Rightarrow> ('g, 'x, tool_response) dop" where
  "end_mi_debug_session env run_id debug_session_id =
     dbind (store_read (run_dir_of env run_id)) (\<lambda>run_dir w.
       if \<not> has_manifest run_id (w_store w) then (Inr (config_refusal []), w)
       else let rd = session_redactor env in
         case with_debug_lock env run_id (end_locked env run_dir run_id debug_session_id) w of
           (Inl e, w1) \<Rightarrow> handled e [manifest_refusal e, os_refusal ''debug_session_end_record_failed'' e, provider_refusal rd e] w1
         | (Inr (details, ended), w1) \<Rightarrow>
             (Inr (Tool_success (redacted_fields rd details) (shown_artifacts rd (mi_session_artifacts run_dir ended))), w1))"

definition close_bound_transport_session ::
    "('g, 'x) debug_env \<Rightarrow> string \<Rightarrow> string option \<Rightarrow> ('g, 'x, unit) dop" where
  "close_bound_transport_session env run_id transport_session_id =
     (case (de_transports env, transport_session_id) of
        (Some transports, Some sid) \<Rightarrow>
          (case (de_guard env, de_registry env) of
             (Some gp, True) \<Rightarrow>
               dbind (read_transport (local_qemu run_id)) (\<lambda>rec.
               dbind (guarded_teardown transports env gp
                 \<lparr>gc_target_key = local_qemu run_id,
                  gc_generation = (case rec of None \<Rightarrow> 0 | Some r \<Rightarrow> ts_generation r),
                  gc_session_id = Some sid, gc_reason = Ended\<rparr> sid True) (\<lambda>_. dret ()))
           | _ \<Rightarrow> close_transport transports env sid True)
      | _ \<Rightarrow> dret ())"

definition debug_end_session_handler ::
    "('g, 'x) debug_env \<Rightarrow> string \<Rightarrow> string option \<Rightarrow> ('g, 'x, tool_response) dop" where
  "debug_end_session_handler env run_id debug_session_id =
     dbind (if de_transports env \<noteq> None then recorded_transport_session_id env run_id else dret None) (\<lambda>tsid.
     dbind (is_legacy_debug_session env tsid run_id) (\<lambda>legacy.
     dbind (end_mi_debug_session env run_id debug_session_id) (\<lambda>response.
       if \<not> resp_ok response then dret response
       else dbind (close_bound_transport_session env run_id tsid) (\<lambda>_.
            dbind (if legacy then mark_legacy_session_recovery_required env run_id else dret ()) (\<lambda>_.
              dret response)))))"

subsection \<open>The break of an interrupt\<close>

definition inject_break_stop_timeout_sec :: rat where
  "inject_break_stop_timeout_sec = 10"

definition break_entry_method :: "transport_session option \<Rightarrow> break_method" where
  "break_entry_method ses =
     (case Option.bind ses ts_break_plan of None \<Rightarrow> GDBSTUB_NATIVE | Some bp \<Rightarrow> bp_method bp)"

definition lookup_transport_session :: "('g, 'x) debug_env \<Rightarrow> string \<Rightarrow> ('g, 'x, transport_session option) dop" where
  "lookup_transport_session env run_id =
     (if \<not> de_registry env \<or> de_transports env = None then dret None
      else dbind (recorded_transport_session_id env run_id) (\<lambda>found. case found of
          None \<Rightarrow> dret None
        | Some sid \<Rightarrow> dread (\<lambda>w.
            case list_records (sy_registry (w_sys w)) of
              Inl e \<Rightarrow> Inl (Record_failed e)
            | Inr recs \<Rightarrow> Inr (List.find (\<lambda>r. session_id r = sid) recs))))"

fun break_method_text :: "break_method \<Rightarrow> string" where
  "break_method_text GDBSTUB_NATIVE = ''gdbstub_native''"
| "break_method_text UART_BREAK = ''uart_break''"
| "break_method_text AGENT_PROXY_BREAK = ''agent_proxy_break''"
| "break_method_text SYSRQ_G = ''sysrq_g''"

text \<open>The break resources a transport gives act on the gdb side of the world.\<close>

type_synonym ('g, 'x) break_handles = "string \<rightharpoonup> (transport_session \<Rightarrow> ('g, 'x) break_resources option)"

definition inject_for_session ::
    "('g, 'x) break_handles \<Rightarrow> string \<Rightarrow> break_method \<Rightarrow> ('g, 'x, unit) dop" where
  "inject_for_session handles_of sid m w =
     (case inject_break_for_session handles_of sid (break_method_text m) (w_sys w) (w_gdb w) of
        (Inl (Inl e), g) \<Rightarrow> (Inl (Record_failed e), w\<lparr>w_gdb := g\<rparr>)
      | (Inl (Inr (Inject_break_error e)), g) \<Rightarrow> (Inl (Inject_failed e), w\<lparr>w_gdb := g\<rparr>)
      | (Inl (Inr (Other_raise x)), g) \<Rightarrow> (Inl (Raised_by_other x), w\<lparr>w_gdb := g\<rparr>)
      | (Inr _, g) \<Rightarrow> (Inr (), w\<lparr>w_gdb := g\<rparr>))"

text \<open>An operation on the attachment that the registry holds: its records stay with it.\<close>

type_synonym ('g, 'x, 'a) aop = "attachment \<Rightarrow> 'g world \<Rightarrow> ('x debug_raised, 'a) result \<times> attachment \<times> 'g world"

definition aop_of :: "('g, 'x, 'a) dop \<Rightarrow> ('g, 'x, 'a) aop" where
  "aop_of f a w = (case f w of (r, w') \<Rightarrow> (r, a, w'))"

definition abind :: "('g, 'x, 'a) aop \<Rightarrow> ('a \<Rightarrow> ('g, 'x, 'b) aop) \<Rightarrow> ('g, 'x, 'b) aop" where
  "abind m f a w = (case m a w of (Inl e, a', w') \<Rightarrow> (Inl e, a', w') | (Inr v, a', w') \<Rightarrow> f v a' w')"

definition aret :: "'a \<Rightarrow> ('g, 'x, 'a) aop" where
  "aret v a w = (Inr v, a, w)"

definition interrupt_data :: "stop_record option \<Rightarrow> raw" where
  "interrupt_data stop =
     (case stop of
        None \<Rightarrow> RawMap [(KStr ''stop'', RawNone), (KStr ''current_execution_state'', RawStr ''unknown'')]
      | Some s \<Rightarrow> stopped_data s)"

definition interrupt_op_data ::
    "('g, 'x) debug_env \<Rightarrow> 'g mi_env \<Rightarrow> ('g, 'x) break_handles \<Rightarrow> transport_session option \<Rightarrow> ('g, 'x, raw) aop" where
  "interrupt_op_data env eng handles_of ses =
     abind (case ses of
              Some rec \<Rightarrow>
                if break_entry_method ses = GDBSTUB_NATIVE \<or> de_transports env = None then gdb_op (interrupt eng)
                else abind (aop_of (inject_for_session handles_of (session_id rec) (break_entry_method ses)))
                       (\<lambda>_. gdb_op (wait_for_stop eng inject_break_stop_timeout_sec))
            | None \<Rightarrow> gdb_op (interrupt eng))
       (\<lambda>stop. aret (interrupt_data stop))"

subsection \<open>One operation on the engine\<close>

datatype op_result = Op_success raw debug_session | Op_failure error_category fields

fun is_interrupt :: "debug_request \<Rightarrow> bool" where
  "is_interrupt (Interrupt_request t) = True"
| "is_interrupt _ = False"

definition breakpoint_ledger :: "breakpoint_ref list \<Rightarrow> dict_items" where
  "breakpoint_ledger bs = foldl (\<lambda>d b. dict_set (KStr (bp_number b)) (dump_breakpoint b) d) [] bs"

definition engine_op ::
    "('g, 'x) debug_env \<Rightarrow> 'g mi_env \<Rightarrow> ('g, 'x) break_handles \<Rightarrow> string \<Rightarrow> debug_session \<Rightarrow> debug_request
      \<Rightarrow> ('g, 'x, op_result) aop" where
  "engine_op env eng handles_of run_id ds req =
     abind (if is_interrupt req
            then abind (aop_of (lookup_transport_session env run_id)) (interrupt_op_data env eng handles_of)
            else gdb_op (engine_op_data eng req)) (\<lambda>data.
     if breakpoint_mutator req
     then abind (gdb_op (list_breakpoints eng)) (\<lambda>bs. aret (Op_success data (ds\<lparr>ds_breakpoints := breakpoint_ledger bs\<rparr>)))
     else aret (Op_success data ds))"

definition is_stall :: "'x debug_raised \<Rightarrow> bool" where
  "is_stall e = (case e of
     Gdb_failed (Gdb_mi_error c d) \<Rightarrow> map_of d ''code'' = Some (RawStr ''transport_stall'') | _ \<Rightarrow> False)"

text \<open>An \<open>InjectBreakError\<close>; what a failed sysrq write reported is left out of its details.\<close>

fun inject_error_failure :: "inject_error \<Rightarrow> error_category \<times> fields" where
  "inject_error_failure Sysrq_g_write_failed = (DEBUG_ATTACH_FAILURE, code_field ''sysrq_g_write_failed'')"
| "inject_error_failure Break_inject_unavailable = (CONFIGURATION_ERROR, code_field ''break_inject_unavailable'')"
| "inject_error_failure e = (CONFIGURATION_ERROR, [])"

definition inject_failure :: "'x debug_raised \<Rightarrow> op_result option" where
  "inject_failure e = (case e of Inject_failed i \<Rightarrow> Some (case inject_error_failure i of (c, d) \<Rightarrow> Op_failure c d) | _ \<Rightarrow> None)"

text \<open>The live attachment, back in the registry with the records it gathered.\<close>

definition keep_attachment :: "string \<Rightarrow> attachment \<Rightarrow> 'g world \<Rightarrow> 'g world" where
  "keep_attachment sid a w = w\<lparr>w_live := dict_set sid a (w_live w)\<rparr>"

definition run_debug_engine_op ::
    "('g, 'x) debug_env \<Rightarrow> 'g mi_env \<Rightarrow> ('g, 'x) break_handles \<Rightarrow> bool \<Rightarrow> string
      \<Rightarrow> debug_session \<Rightarrow> debug_request \<Rightarrow> attachment \<Rightarrow> ('g, 'x, op_result) dop" where
  "run_debug_engine_op env eng handles_of admission run_id ds req a w =
     (case engine_op env eng handles_of run_id ds req a w of
        (Inr res, a', w1) \<Rightarrow> (Inr res, keep_attachment (ds_session_id ds) a' w1)
      | (Inl e, a', w1) \<Rightarrow>
          (let w2 = keep_attachment (ds_session_id ds) a' w1 in
           if is_stall e
           then dbind (reap_and_resume eng (ds_session_id ds)) (\<lambda>_.
                dbind (teardown_stalled_debug_session env run_id admission) (\<lambda>_.
                  dret (Op_failure INFRASTRUCTURE_FAILURE (code_field ''transport_stall'')))) w2
           else case e of
               Gdb_failed (Gdb_mi_error c d) \<Rightarrow> (Inl e, w2)
             | Provider_error c d \<Rightarrow> (Inl e, w2)
             | _ \<Rightarrow>
                 (case inject_failure e of
                    Some res \<Rightarrow> (Inr res, w2)
                  | None \<Rightarrow>
                      dbind (reap_and_resume eng (ds_session_id ds)) (\<lambda>_.
                        dret (Op_failure INFRASTRUCTURE_FAILURE (code_field ''debug_engine_faulted''))) w2)))"

subsection \<open>The response\<close>

fun summary_name :: "debug_request \<Rightarrow> string" where
  "summary_name (Continue_request t) = ''continue_execution''"
| "summary_name req = drop 6 (profile_operation req)"

definition summary_of :: "debug_request \<Rightarrow> string" where
  "summary_of req = ''debug.'' @ summary_name req @ '' succeeded''"

definition persist_debug_op_details ::
    "('g, 'x) debug_env \<Rightarrow> path \<Rightarrow> string \<Rightarrow> debug_request \<Rightarrow> debug_session \<Rightarrow> raw \<Rightarrow> ('g, 'x, fields) dop" where
  "persist_debug_op_details env run_dir run_id req ds data =
     dbind (persist_mi_debug_session env run_dir ds) (\<lambda>_.
     dbind (preserved_debug_step_details env run_id) (\<lambda>kept.
     (let details = merge_fields (merge_fields (debug_session_manifest_details run_dir ds) kept) (fields_of data) in
      dbind (store_op (record_step_result run_id (debug_step (summary_of req) (mi_session_artifacts run_dir ds) details)
               True False (de_faults env))) (\<lambda>_. dret details))))"

definition gdb_refusal :: "redactor \<Rightarrow> 'x debug_raised \<Rightarrow> tool_response option" where
  "gdb_refusal rd e =
     (case e of Gdb_failed (Gdb_mi_error c d) \<Rightarrow> Some (Tool_failure c (redacted_fields rd d) []) | _ \<Rightarrow> None)"

definition map_debug_op_exception :: "redactor \<Rightarrow> 'x debug_raised \<Rightarrow> ('g, 'x, tool_response) dop" where
  "map_debug_op_exception rd e =
     handled e [manifest_refusal e, provider_refusal rd e, gdb_refusal rd e, os_refusal ''debug_session_op_record_failed'' e]"

definition op_locked ::
    "('g, 'x) debug_env \<Rightarrow> 'g mi_env \<Rightarrow> ('g, 'x) break_handles \<Rightarrow> path \<Rightarrow> string
      \<Rightarrow> string option \<Rightarrow> bool \<Rightarrow> debug_request \<Rightarrow> ('g, 'x, (tool_response, fields \<times> debug_session) result) dop" where
  "op_locked env eng handles_of run_dir run_id debug_session_id allow_ended req =
     dbind (load_active_debug_session env run_dir run_id debug_session_id allow_ended) (\<lambda>ds.
     (let admission = de_admission env \<and> requires_admission_fence req in
      dbind (enforce_debug_ownership_fence env admission run_id) (\<lambda>_.
      dbind (dread (\<lambda>_. rbind (resolve_debug_profile (ds_profile ds) (de_profiles env)) (\<lambda>p.
               ensure_debug_operation_enabled p (profile_operation req)))) (\<lambda>_.
      dbind (dread (\<lambda>w. case session_require (ds_session_id ds) (w_live w) of
                Inl err \<Rightarrow> Inl (Gdb_failed err) | Inr a \<Rightarrow> Inr a)) (\<lambda>a.
      dbind (run_debug_engine_op env eng handles_of admission run_id ds req a) (\<lambda>res.
        case res of
          Op_failure c d \<Rightarrow> dret (Inl (Tool_failure c (redacted_fields (session_redactor env) d) []))
        | Op_success data ds' \<Rightarrow>
            if persist_manifest req
            then dbind (persist_debug_op_details env run_dir run_id req ds' data) (\<lambda>details. dret (Inr (details, ds')))
            else dret (Inr (fields_of data, ds'))))))))"

definition debug_operation_response ::
    "('g, 'x) debug_env \<Rightarrow> ('g, 'x) break_handles \<Rightarrow> string \<Rightarrow> string option \<Rightarrow> bool
      \<Rightarrow> debug_request \<Rightarrow> ('g, 'x, tool_response) dop" where
  "debug_operation_response env handles_of run_id debug_session_id allow_ended req w =
     (case run_dir_of env run_id (w_store w) of
        Inl e \<Rightarrow> (case manifest_refusal (Store_failed e :: 'x debug_raised) of
                   Some t \<Rightarrow> (Inr t, w) | None \<Rightarrow> (Inl (Store_failed e), w))
      | Inr run_dir \<Rightarrow>
          if \<not> has_manifest run_id (w_store w) then (Inr (config_refusal []), w)
          else (case (de_engine env, de_live_registry env) of
             (Some eng, True) \<Rightarrow>
               (let rd = session_redactor env in
                case with_debug_lock env run_id
                       (op_locked env eng handles_of run_dir run_id debug_session_id allow_ended req) w of
                  (Inl e, w1) \<Rightarrow> map_debug_op_exception rd e w1
                | (Inr (Inl t), w1) \<Rightarrow> (Inr t, w1)
                | (Inr (Inr (details, ds)), w1) \<Rightarrow>
                    (Inr (Tool_success (redacted_fields rd details) (shown_artifacts rd (mi_session_artifacts run_dir ds))), w1))
           | _ \<Rightarrow> (Inr engine_unavailable, w)))"

end
