(* ===== verification/DebugFrame.thy ===== *)
theory DebugFrame
  imports DebugEnd TransactionProps StoreProps
begin

text \<open>
  What an open of the transport leaves of other targets, and what the close of a session it
  opened leaves of the target: the lemmas that the properties of a debug session rest on.
\<close>

subsection \<open>An open touches its own target\<close>

definition others_kept :: "target_key \<Rightarrow> bool \<Rightarrow> sys \<Rightarrow> sys \<Rightarrow> bool" where
  "others_kept k recovery s0 s \<longleftrightarrow>
     guard_ok (sy_guard s) \<and> distinct (map fst (owner_files (sy_registry s)))
     \<and> (\<forall>j. j \<noteq> k \<longrightarrow> map_of (owner_files (sy_registry s)) j = map_of (owner_files (sy_registry s0)) j
           \<and> sg_holders (sy_guard s) j = sg_holders (sy_guard s0) j)
     \<and> (recovery \<or> tomb_files (sy_registry s) = tomb_files (sy_registry s0))"

lemma others_kept_cong:
  "others_kept k b s0 s \<Longrightarrow> sy_registry s' = sy_registry s \<Longrightarrow> sy_guard s' = sy_guard s \<Longrightarrow> others_kept k b s0 s'"
  by (simp add: others_kept_def)

lemma others_kept_write:
  "others_kept k b s0 s \<Longrightarrow> ts_target_key rec = k \<Longrightarrow> others_kept k b s0 (s\<lparr>sy_registry := write_record rec (sy_registry s)\<rparr>)"
  by (auto simp: others_kept_def write_record_def dict_set_distinct)

definition keeps_others :: "target_key \<Rightarrow> bool \<Rightarrow> sys \<Rightarrow> ('x, 'a) step \<Rightarrow> ('a \<Rightarrow> bool) \<Rightarrow> bool" where
  "keeps_others k b s0 m F \<longleftrightarrow> triple (\<lambda>_. others_kept k b s0) m (\<lambda>v _ s. others_kept k b s0 s \<and> F v) (\<lambda>_ _. True)"

lemma keeps_others_bind:
  "keeps_others k b s0 m F \<Longrightarrow> (\<And>v. F v \<Longrightarrow> keeps_others k b s0 (f v) G) \<Longrightarrow> keeps_others k b s0 (tbind m f) G"
  unfolding keeps_others_def by (erule triple_bind) (rule triple_fact)

lemma keeps_othersI:
  "(\<And>st s v st' s'. others_kept k b s0 s \<Longrightarrow> m st s = (Inr v, st', s') \<Longrightarrow> others_kept k b s0 s' \<and> F v) \<Longrightarrow> keeps_others k b s0 m F"
  unfolding keeps_others_def by (rule tripleI) simp_all

lemma keeps_others_pure: "keeps_others k b s0 (tpure r) (\<lambda>v. r = Inr v)"
  by (rule keeps_othersI) (auto simp: tpure_def)

lemma keeps_others_lift:
  assumes "\<And>s v s'. f s = (Inr v, s') \<Longrightarrow> sy_registry s' = sy_registry s \<and> sy_guard s' = sy_guard s"
  shows "keeps_others k b s0 (tlift f) (\<lambda>_. True)"
proof (rule keeps_othersI)
  fix st s v st' s'
  assume o: "others_kept k b s0 s" and "tlift f st s = (Inr v, st', s')"
  then have "f s = (Inr v, s')" by (auto simp: tlift_def split: prod.splits)
  from others_kept_cong [OF o] assms [OF this] show "others_kept k b s0 s' \<and> True" by simp
qed

lemma keeps_others_guard: "keeps_others k b s0 (acquire_guard env k) (\<lambda>_. True)"
proof (rule keeps_othersI)
  fix st s v st' s'
  assume o: "others_kept k b s0 s" and run: "acquire_guard env k st s = (Inr v, st', s')"
  obtain g where g: "guard_acquire k (oe_guard_secret env) (sy_guard s) = (Inr v, g)" "s' = s\<lparr>sy_guard := g\<rparr>"
    using run by (auto simp: acquire_guard_def split: prod.splits sum.splits)
  have ok: "guard_ok (sy_guard s)" using o by (simp add: others_kept_def)
  have "sg_holders g = (sg_holders (sy_guard s))(k \<mapsto> v)" "guard_ok g"
    using guard.acquired [OF ok g(1)] guard.invar_acquire [OF ok, of k "oe_guard_secret env"] g(1) by simp_all
  then show "others_kept k b s0 s' \<and> True"
    using o by (simp add: others_kept_def g(2))
qed

lemma keeps_others_lease: "keeps_others k b s0 (acquire_lease env cap k) (\<lambda>_. True)"
  by (rule keeps_othersI)
    (auto simp: acquire_lease_def others_kept_def split: if_splits prod.splits sum.splits)

definition own_record :: "target_key \<Rightarrow> string \<Rightarrow> string \<Rightarrow> transport_session \<Rightarrow> bool" where
  "own_record k sid n rec \<longleftrightarrow> our_record k sid rec \<and> ts_provider rec = n"

lemma keeps_others_opening:
  assumes "req_target_key req = k" and "oe_session_id env = sid"
  shows "keeps_others k b s0 (write_opening_record env req h sel prov tok lt) (own_record k sid prov)"
proof (rule keeps_othersI)
  fix st s v st' s'
  assume o: "others_kept k b s0 s" and run: "write_opening_record env req h sel prov tok lt st s = (Inr v, st', s')"
  have "own_record k sid prov v" "s' = s\<lparr>sy_tokens := (sy_tokens s)(sid \<mapsto> tok), sy_registry := write_record v (sy_registry s)\<rparr>"
    using run assms by (auto simp: write_opening_record_def fs_write_def Let_def own_record_def our_record_def split: if_splits)
  moreover have "others_kept k b s0 (s\<lparr>sy_tokens := (sy_tokens s)(sid \<mapsto> tok)\<rparr>)"
    using others_kept_cong [OF o] by simp
  from others_kept_write [OF this, of v] have "ts_target_key v = k \<Longrightarrow> others_kept k b s0 (s\<lparr>sy_tokens := (sy_tokens s)(sid \<mapsto> tok),
      sy_registry := write_record v (sy_registry s)\<rparr>)" by simp
  ultimately show "others_kept k b s0 s' \<and> own_record k sid prov v"
    by (simp add: own_record_def our_record_def)
qed

lemma run_partials_others:
  assumes "others_kept k b s0 s" and "ts_target_key rec = k" and "run_partials env rec n ps x st s = (r, st', s')"
  shows "others_kept k b s0 s'"
  using assms
proof (induction ps arbitrary: n x st s)
  case (Cons p ps)
  obtain label resource where p: "p = (label, resource)" by (cases p)
  have w: "others_kept k b s0 (s\<lparr>sy_registry := write_record (with_backend pid start rec) (sy_registry s)\<rparr>)" for pid start
    by (rule others_kept_write [OF Cons.prems(1)]) (simp add: with_backend_def Cons.prems(2))
  show ?case
    using Cons.prems Cons.IH [OF Cons.prems(1,2)] Cons.IH [OF w Cons.prems(2)]
    by (auto simp: p fs_write_def split: if_splits option.splits)
qed simp

lemma keeps_others_attach:
  fixes tp :: "'x transport"
  assumes q: "quiet env" and "ts_target_key rec = k"
  shows "keeps_others k b s0 (attach_open_backend env tp req rec secrets) (\<lambda>_. True)"
proof (rule keeps_othersI)
  fix st s v st' s'
  assume o: "others_kept k b s0 s" and run: "attach_open_backend env tp req rec secrets st s = (Inr v, st', s')"
  obtain r :: "('x open_error, int option \<times> string option) result" and st1 s1
    where r: "run_partials env rec 0 (tp_partials tp req) (None, None) st s = (r, st1, s1)"
    by (rule prod_cases3)
  have "s' = s1"
    using run q by (cases r) (auto simp: attach_open_backend_def Let_def r split: sum.splits prod.splits option.splits)
  then show "others_kept k b s0 s' \<and> True"
    using run_partials_others [OF o assms(2) r] by simp
qed

lemma keeps_others_ready:
  assumes "ts_target_key ses = k"
  shows "keeps_others k b s0 (tlift (fs_write ok W_ready ses)) (\<lambda>_. True)"
  by (rule keeps_othersI) (auto simp: tlift_def fs_write_def others_kept_write [OF _ assms] split: if_splits)

lemma keeps_others_commit:
  assumes "req_target_key req = k"
  shows "keeps_others k recovery s0 (commit_open_session env req h ses recovery :: ('x, unit) step) (\<lambda>_. True)"
proof (rule keeps_othersI)
  fix st s v st' s'
  assume o: "others_kept k recovery s0 s" and run: "(commit_open_session env req h ses recovery :: ('x, unit) step) st s = (Inr v, st', s')"
  show "others_kept k recovery s0 s' \<and> True"
  proof (cases recovery)
    case False
    then show ?thesis
      using run o by (auto simp: commit_open_session_def on_admission_def Let_def others_kept_def split: sum.splits prod.splits)
  next
    case True
    then obtain x s3 s4 where s3: "clear_recovery_durable (oe_fs_ok env) (req_target_key req) (req_generation req) s3
          = (x :: ('x open_error, unit) result, s4)"
        "s' = clear_recovery_cache (req_target_key req) (req_generation req) s4"
        "sy_guard s3 = sy_guard s" "sy_registry s3 = sy_registry s"
      using run by (auto simp: commit_open_session_def on_admission_def Let_def split: sum.splits prod.splits)
    from clear_durable_frame [OF this(1)] show ?thesis
      using o True by (simp add: others_kept_def s3 clear_recovery_cache_def)
  qed
qed

lemma open_body_others:
  fixes env :: open_env and req :: open_request and tp :: "'x transport"
  assumes q: "quiet env"
  defines "k \<equiv> req_target_key req" and "sid \<equiv> oe_session_id env"
  defines "n \<equiv> cp_provider_name (tp_capability tp)"
  shows "keeps_others k recovery s0 (open_body env tp req recovery h) (own_record k sid n)"
proof -
  have c: "keeps_others k recovery s0 (tlift (checkpoint env l)) (\<lambda>_. True)" for l
    by (rule keeps_others_lift) (use q in \<open>auto simp: checkpoint_def Let_def split: if_splits\<close>)
  have hc: "keeps_others k recovery s0 (tlift (handle_channel h)) (\<lambda>_. True)"
    by (rule keeps_others_lift) (auto simp: handle_channel_def split: option.splits)
  have sc: "keeps_others k recovery s0 (tlift (select_channel env req h ch)) (\<lambda>_. True)" for ch
    by (rule keeps_others_lift) (auto simp: select_channel_def split: sum.splits)
  have rs: "keeps_others k recovery s0 (tlift (resolve_secrets env refs)) (\<lambda>_. True)" for refs
    by (rule keeps_others_lift) (auto simp: resolve_secrets_def split: sum.splits prod.splits)
  have tail: "keeps_others k recovery s0 (tpure (Inr ses)) (own_record k sid n)" if "own_record k sid n ses" for ses
    by (rule keeps_othersI) (use that in \<open>auto simp: tpure_def\<close>)
  have rk: "ts_target_key rec = k" if "own_record k sid n rec" for rec
    using that by (simp add: own_record_def our_record_def)
  have rr: "own_record k sid n (ready_session rec att pid start)" if "own_record k sid n rec" for rec att pid start
    using that by (simp add: own_record_def ready_session_def our_record_def)
  have k: "req_target_key req = k" and sid: "oe_session_id env = sid"
    by (simp_all add: k_def sid_def)
  note tail_steps = keeps_others_bind [OF c] keeps_others_bind [OF keeps_others_attach [OF q rk]]
        keeps_others_bind [OF keeps_others_pure] keeps_others_bind [OF keeps_others_ready [OF rk [OF rr]]]
        keeps_others_bind [OF keeps_others_commit [OF k]] tail [OF rr]
  show ?thesis
    unfolding open_body_def k n_def [symmetric]
    by (rule keeps_others_bind [OF hc], rule keeps_others_bind [OF sc], rule keeps_others_bind [OF c],
        rule keeps_others_bind [OF keeps_others_guard], rule keeps_others_bind [OF c],
        rule keeps_others_bind [OF keeps_others_lease], rule keeps_others_bind [OF c], rule keeps_others_bind [OF rs],
        rule keeps_others_bind [OF keeps_others_opening [OF k sid]])
      (auto intro!: tail_steps split: prod.split)
qed

definition registered_by_name :: "(string \<rightharpoonup> 'x transport) \<Rightarrow> bool" where
  "registered_by_name transports \<longleftrightarrow> (\<forall>n tp. transports n = Some tp \<longrightarrow> cp_provider_name (tp_capability tp) = n)"

lemma open_others:
  assumes "open_session transports env req recovery s = (Inr ses, s')" and q: "quiet env"
    and "distinct (map fst (owner_files (sy_registry s)))" and "guard_ok (sy_guard s)"
    and named: "registered_by_name transports"
  shows "others_kept (req_target_key req) recovery s s'" and "our_record (req_target_key req) (oe_session_id env) ses"
    and "transports (ts_provider ses) \<noteq> None"
  using assms(1)
proof (atomize (full), cases rule: open_session_cases)
  case (opened_ok tp h a st ses')
  have "others_kept (req_target_key req) recovery s (s\<lparr>sy_admission := a\<rparr>)"
    using assms(3,4) by (simp add: others_kept_def)
  from tripleD(2) [OF open_body_others [OF q, of req recovery s tp h, unfolded keeps_others_def] this opened_ok(3)] opened_ok(1,4)
  show "others_kept (req_target_key req) recovery s s' \<and> our_record (req_target_key req) (oe_session_id env) ses
     \<and> transports (ts_provider ses) \<noteq> None"
    using named opened_ok(1) by (simp add: own_record_def registered_by_name_def)
qed simp_all

subsection \<open>Finding and closing the opened session\<close>

definition readable_others :: "target_key \<Rightarrow> string \<Rightarrow> (target_key \<times> transport_session disk_file) list \<Rightarrow> bool" where
  "readable_others k sid own \<longleftrightarrow> distinct (map fst own)
     \<and> (\<forall>j f. j \<noteq> k \<longrightarrow> map_of own j = Some f \<longrightarrow> (\<exists>rec. f = Parsed rec \<and> session_id rec \<noteq> sid))"

lemma parse_all_parsed:
  "\<forall>(j, f) \<in> set own. \<exists>rec. f = Parsed rec \<Longrightarrow> \<exists>recs. parse_all own = Inr recs \<and> map Parsed recs = map snd own"
proof (induction own)
  case (Cons x own)
  then obtain recs where "parse_all own = Inr recs" "map Parsed recs = map snd own" by auto
  moreover obtain j rec where "x = (j, Parsed rec)" using Cons.prems by auto
  ultimately show ?case by auto
qed simp

lemma record_found:
  assumes o: "readable_others k sid (owner_files (sy_registry s))"
    and r: "read_record k (sy_registry s) = Inr (Some rec)" and sid: "session_id rec = sid"
  shows "record_by_session_id sid s = Inr (Some rec)"
proof -
  let ?own = "owner_files (sy_registry s)"
  have at_k: "map_of ?own k = Some (Parsed rec)"
    using r by (auto simp: read_record_def split: option.splits disk_file.splits)
  have entry: "(j, f) \<in> set ?own \<Longrightarrow> (f = Parsed rec \<or> (\<exists>x. f = Parsed x \<and> session_id x \<noteq> sid))" for j f
    using o at_k by (cases "j = k") (auto simp: readable_others_def)
  then have "\<forall>(j, f) \<in> set ?own. \<exists>x. f = Parsed x" by fastforce
  from parse_all_parsed [OF this] obtain recs where p: "parse_all ?own = Inr recs" and m: "map Parsed recs = map snd ?own"
    by blast
  have "Parsed ` set recs = snd ` set ?own"
    using arg_cong [OF m, of set] by simp
  moreover have "Parsed rec \<in> snd ` set ?own"
    using map_of_SomeD [OF at_k] by force
  ultimately have mem: "rec \<in> set recs" by auto
  have only: "x = rec" if "x \<in> set recs" "session_id x = sid" for x
  proof -
    have "Parsed x \<in> snd ` set ?own" using that \<open>Parsed ` set recs = snd ` set ?own\<close> by blast
    then obtain j where "(j, Parsed x) \<in> set ?own" by auto
    from entry [OF this] that(2) show ?thesis by auto
  qed
  have "List.find (\<lambda>x. session_id x = sid) recs = Some rec"
  proof (cases "List.find (\<lambda>x. session_id x = sid) recs")
    case None
    then show ?thesis using mem sid by (simp add: find_None_iff)
  next
    case (Some x)
    then have "x \<in> set recs" "session_id x = sid"
      by (auto simp: find_Some_iff)
    with only Some show ?thesis by simp
  qed
  then show ?thesis
    by (simp add: record_by_session_id_def list_records_def p)
qed

text \<open>Closing a session gives up its guard and its record; one that runs leaves no marker.\<close>

lemma close_frees:
  fixes transports :: "string \<rightharpoonup> 'x transport" and force :: bool
  assumes found: "record_by_session_id sid s = Inr (Some rec)" and tp: "transports (ts_provider rec) = Some tp"
    and ok: "ok W_closing" "ok D_close" and k: "ts_target_key rec = k" "session_id rec = sid"
    and g: "guard_ok (sy_guard s)" and tok: "sy_tokens s sid = Some tok" "sg_holders (sy_guard s) k = Some tok"
  defines "s' \<equiv> snd (close_session transports ok sid force s)"
  shows "sg_holders (sy_guard s') = (sg_holders (sy_guard s))(k := None)"
    and "map_of (owner_files (sy_registry s')) = (map_of (owner_files (sy_registry s)))(k := None)"
    and "force \<or> execution_state rec = EXECUTING \<Longrightarrow> tomb_files (sy_registry s') = tomb_files (sy_registry s)"
proof -
  let ?s1 = "s\<lparr>sy_registry := write_record (rec\<lparr>record_state := CLOSING\<rparr>) (sy_registry s)\<rparr>"
  let ?s3 = "pop_token k sid (release_lease k (console_lease_token rec) ?s1)"
  let ?c1 = "collect ([] :: 'x open_error list, ?s3) (complete_handle sid)"
  define c2 where "c2 = (if execution_state rec \<in> {HALTED, UNKNOWN} \<and> \<not> force
      then collect ?c1 (mark_recovery ok k (ts_generation rec) ''closed_while_halted'') else ?c1)"
  let ?c3 = "collect c2 (fs_delete ok D_close k sid)"
  have s': "s' = unsubscribe_session k sid (snd ?c3)"
    using assms(1-6) by (simp add: s'_def close_session_def fs_write_def Let_def c2_def)
  have c1: "sy_guard (snd ?c1) = sy_guard ?s3" "sy_registry (snd ?c1) = sy_registry ?s1"
    by (auto simp: collect_holds complete_handle_def on_admission_def pop_token_def split: option.split sum.split prod.split)
  have c2: "sy_guard (snd c2) = sy_guard ?s3" "owner_files (sy_registry (snd c2)) = owner_files (sy_registry ?s1)"
    using c1 by (auto simp: c2_def collect_holds [of "collect _ _"] mark_recovery_def write_tombstone_def)
  have d: "delete_record k (Some sid) (sy_registry (snd c2)) = Inr (unlink_record k (sy_registry (snd c2)))"
    using k by (simp add: delete_record_def read_record_def c2) (simp add: write_record_def)
  have "sy_registry (snd ?c3) = unlink_record k (sy_registry (snd c2))" "sy_guard (snd ?c3) = sy_guard ?s3"
    using ok(2) c2 d by (auto simp: collect_holds fs_delete_def)
  then have c3: "sy_guard (snd ?c3) = sy_guard ?s3" "owner_files (sy_registry (snd ?c3)) = dict_pop k (owner_files (sy_registry ?s1))"
      "tomb_files (sy_registry (snd ?c3)) = tomb_files (sy_registry (snd c2))"
    by (simp_all add: unlink_record_def c2)
  have g3: "sg_holders (sy_guard ?s3) = (sg_holders (sy_guard s))(k := None)"
    using tok release_guard_holder(1) [of "(release_lease k (console_lease_token rec) ?s1)\<lparr>sy_tokens := (sy_tokens s)(sid := None)\<rparr>" k "Some tok"] g
    by (simp add: pop_token_def)
  have e: "sy_guard s' = sy_guard ?s3" "sy_registry s' = sy_registry (snd ?c3)"
    unfolding s' c3(1) [symmetric] by (simp_all add: unsubscribe_session_def)
  show "sg_holders (sy_guard s') = (sg_holders (sy_guard s))(k := None)"
    unfolding e by (rule g3)
  show "map_of (owner_files (sy_registry s')) = (map_of (owner_files (sy_registry s)))(k := None)"
    unfolding e c3 using k by (simp add: write_record_def)
  assume "force \<or> execution_state rec = EXECUTING"
  then have "c2 = ?c1" by (auto simp: c2_def)
  then show "tomb_files (sy_registry s') = tomb_files (sy_registry s)"
    unfolding e c3 by (simp only: c1) (simp add: write_record_def)
qed

end
