(* ===== verification/DebugProps.thy ===== *)
theory DebugProps
  imports DebugFrame
begin

text \<open>
  What a start of a debug session leaves when it fails and when it succeeds, what an end leaves,
  and when an operation reaches gdb.
\<close>

subsection \<open>The parts of the world an operation leaves alone\<close>

definition same_books :: "'g world \<Rightarrow> 'g world \<Rightarrow> bool" where
  "same_books w w' \<longleftrightarrow> w_sys w' = w_sys w \<and> w_store w' = w_store w \<and> w_live w' = w_live w"

lemma same_books_refl [simp]: "same_books w w"
  by (simp add: same_books_def)

lemma same_books_trans: "same_books a b \<Longrightarrow> same_books b c \<Longrightarrow> same_books a c"
  by (simp add: same_books_def)

text \<open>Checks and teardown steps that do not act on the transport, the store or the attachments.\<close>

definition outside_checks :: "('g, 'x) guard_policy \<Rightarrow> bool" where
  "outside_checks gp \<longleftrightarrow>
     (\<forall>p \<in> set (gp_pre_attach gp). \<forall>c w. same_books w (snd (p c w)))
     \<and> (\<forall>p \<in> set (gp_post_attach gp). \<forall>c t w. same_books w (snd (p c t w)))
     \<and> (\<forall>(n, p) \<in> set (gp_teardown_steps gp). \<forall>c w. same_books w (snd (p c w)))"

lemma run_preconditions_books:
  "\<forall>p \<in> set ps. \<forall>c w. same_books w (snd (p c w)) \<Longrightarrow> same_books w (snd (run_preconditions ps ctx w))"
proof (induction ps arbitrary: w)
  case (Cons p ps)
  obtain r w1 where p: "p ctx w = (r, w1)" by fastforce
  with Cons.prems have "same_books w w1" by (metis list.set_intros(1) snd_conv)
  moreover have "same_books w1 (snd (run_preconditions ps ctx w1))" using Cons by simp
  ultimately show ?case using p by (cases r) (auto intro: same_books_trans)
qed simp

lemma verify_attached_books:
  "\<forall>p \<in> set ps. \<forall>c t w. same_books w (snd (p c t w)) \<Longrightarrow> same_books w (snd (verify_attached ps ctx ses w))"
proof (induction ps arbitrary: w)
  case (Cons p ps)
  obtain r w1 where p: "p ctx ses w = (r, w1)" by fastforce
  with Cons.prems have "same_books w w1" by (metis list.set_intros(1) snd_conv)
  moreover have "same_books w1 (snd (verify_attached ps ctx ses w1))" using Cons by simp
  ultimately show ?case using p by (cases r) (auto intro: same_books_trans)
qed simp

lemma run_steps_books:
  "\<forall>(n, p) \<in> set ss. \<forall>c w. same_books w (snd (p c w)) \<Longrightarrow> same_books w (snd (run_steps ss ctx errs w))"
proof (induction ss arbitrary: errs w)
  case (Cons x ss)
  obtain n p where x: "x = (n, p)" by fastforce
  obtain r w1 where p: "p ctx w = (r, w1)" by fastforce
  with Cons.prems x have "same_books w w1" by (metis (no_types, lifting) case_prodD list.set_intros(1) snd_conv)
  moreover have "same_books w1 (snd (run_steps ss ctx errs' w1))" for errs' using Cons by simp
  ultimately show ?case using p x by (cases r) (auto intro: same_books_trans)
qed simp

subsection \<open>An opened session in the books\<close>

definition session_held :: "target_key \<Rightarrow> string \<Rightarrow> sys \<Rightarrow> sys \<Rightarrow> bool" where
  "session_held k sid s0 s \<longleftrightarrow> guard_ok (sy_guard s) \<and> sg_holders (sy_guard s0) k = None
     \<and> (\<exists>tok. sg_holders (sy_guard s) = (sg_holders (sy_guard s0))(k \<mapsto> tok) \<and> sy_tokens s sid = Some tok)
     \<and> readable_others k sid (owner_files (sy_registry s))
     \<and> (\<forall>j. j \<noteq> k \<longrightarrow> map_of (owner_files (sy_registry s)) j = map_of (owner_files (sy_registry s0)) j)"

definition recorded_as :: "(string \<rightharpoonup> 'x transport) \<Rightarrow> target_key \<Rightarrow> string \<Rightarrow> execution_state \<Rightarrow> sys \<Rightarrow> bool" where
  "recorded_as transports k sid st s \<longleftrightarrow>
     (\<exists>rec. read_record k (sy_registry s) = Inr (Some rec) \<and> our_record k sid rec \<and> execution_state rec = st
        \<and> transports (ts_provider rec) \<noteq> None)"

definition freed :: "target_key \<Rightarrow> sys \<Rightarrow> sys \<Rightarrow> bool" where
  "freed k s0 s \<longleftrightarrow> sg_holders (sy_guard s) = sg_holders (sy_guard s0)
     \<and> map_of (owner_files (sy_registry s)) = (map_of (owner_files (sy_registry s0)))(k := None)"

lemma open_held:
  assumes run: "open_session transports env req recovery s = (Inr ses, s')" and q: "quiet env" and w: "oe_fs_ok env W_opening"
    and ok: "guard_ok (sy_guard s)" "leases_ok (sy_leases s)" "adm_ok (sy_admission s)"
    and own: "readable_others (req_target_key req) (oe_session_id env) (owner_files (sy_registry s))"
    and named: "registered_by_name transports"
  shows "session_held (req_target_key req) (oe_session_id env) s s'" and "read_record (req_target_key req) (sy_registry s') = Inr (Some ses)"
    and "our_record (req_target_key req) (oe_session_id env) ses" and "transports (ts_provider ses) \<noteq> None"
    and "recovery \<or> tomb_files (sy_registry s') = tomb_files (sy_registry s)"
proof -
  let ?k = "req_target_key req" and ?sid = "oe_session_id env"
  have d: "distinct (map fst (owner_files (sy_registry s)))" using own by (simp add: readable_others_def)
  note others = open_others [OF run q d ok(1) named]
  obtain h where o: "opened ?k h ses s'"
    using open_success [OF run q w ok] by (auto simp: ready_opened_def)
  have none: "sg_holders (sy_guard s) ?k = None"
    using open_refused_while_held [OF _ q, of s req transports recovery] run by (cases "sg_holders (sy_guard s) ?k") auto
  have sid: "session_id ses = ?sid" using others(2) by (simp add: our_record_def)
  show "session_held ?k ?sid s s'"
    using others(1) o none own sid
    by (fastforce simp: session_held_def opened_def others_kept_def readable_others_def fun_eq_iff)
  show "read_record ?k (sy_registry s') = Inr (Some ses)" using o by (simp add: opened_def)
  show "our_record ?k ?sid ses" "transports (ts_provider ses) \<noteq> None" using others(2,3) by simp_all
  show "recovery \<or> tomb_files (sy_registry s') = tomb_files (sy_registry s)"
    using others(1) by (simp add: others_kept_def)
qed

lemma held_cong:
  "session_held k sid s0 s \<Longrightarrow> sy_guard s' = sy_guard s \<Longrightarrow> sy_tokens s' = sy_tokens s \<Longrightarrow> sy_registry s' = sy_registry s \<Longrightarrow> session_held k sid s0 s'"
  by (simp add: session_held_def)

lemma held_write:
  assumes "session_held k sid s0 s" and "our_record k sid rec"
  shows "session_held k sid s0 (s\<lparr>sy_registry := write_record rec (sy_registry s)\<rparr>)"
  using assms by (auto simp: session_held_def our_record_def write_record_def readable_others_def dict_set_distinct)

lemma our_record_state [simp]: "our_record k sid (ses\<lparr>execution_state := st\<rparr>) = our_record k sid ses"
  by (simp add: our_record_def)

lemma write_state_recorded:
  assumes "de_fs_ok env op" and "session_held k sid s0 (w_sys w)" and "our_record k sid ses" and "transports (ts_provider ses) \<noteq> None"
  shows "\<exists>w'. write_execution_state env op st ses w = (Inr (), w') \<and> session_held k sid s0 (w_sys w') \<and> recorded_as transports k sid st (w_sys w')
     \<and> tomb_files (sy_registry (w_sys w')) = tomb_files (sy_registry (w_sys w)) \<and> w_live w' = w_live w \<and> w_store w' = w_store w"
  using assms held_write [OF assms(2), of "ses\<lparr>execution_state := st\<rparr>"] read_write [of "ses\<lparr>execution_state := st\<rparr>" "sy_registry (w_sys w)"]
  by (auto simp: write_execution_state_def recorded_as_def our_record_def) (simp add: write_record_def)

text \<open>What only touches admission.\<close>

lemma with_admission_frame:
  assumes "with_admission f w = (b, w')"
  shows "sy_guard (w_sys w') = sy_guard (w_sys w)" "sy_tokens (w_sys w') = sy_tokens (w_sys w)"
    "sy_registry (w_sys w') = sy_registry (w_sys w)" "w_live w' = w_live w" "w_store w' = w_store w" "w_gdb w' = w_gdb w"
  using assms by (auto simp: with_admission_def split: prod.splits)

definition kept_in :: "(string \<rightharpoonup> 'x transport) \<Rightarrow> target_key \<Rightarrow> string \<Rightarrow> execution_state \<Rightarrow> sys \<Rightarrow> 'g world \<Rightarrow> 'g world \<Rightarrow> bool" where
  "kept_in transports k sid st s0 w w' \<longleftrightarrow> session_held k sid s0 (w_sys w') \<and> recorded_as transports k sid st (w_sys w')
     \<and> tomb_files (sy_registry (w_sys w')) = tomb_files (sy_registry (w_sys w)) \<and> w_live w' = w_live w \<and> w_store w' = w_store w"

lemma kept_in_admission:
  assumes "kept_in transports k sid st s0 w w1" and "with_admission f w1 = (b, w2)"
  shows "kept_in transports k sid st s0 w w2"
  using assms(1) with_admission_frame [OF assms(2)] held_cong [of k sid s0 "w_sys w1" "w_sys w2"]
  by (simp add: kept_in_def recorded_as_def)

lemma halt_kept:
  assumes "de_fs_ok env Write_halted" and "session_held k sid s0 (w_sys w)" and "our_record k sid ses" and "transports (ts_provider ses) \<noteq> None"
  shows "\<exists>w'. halt_debug_transport env ses w = (Inr (), w') \<and> kept_in transports k sid HALTED s0 w w'"
proof -
  obtain w1 where w1: "write_execution_state env Write_halted HALTED ses w = (Inr (), w1)" "kept_in transports k sid HALTED s0 w w1"
    using write_state_recorded [where transports = transports and op = Write_halted, OF assms] by (auto simp: kept_in_def)
  obtain ep w2 where w2: "with_admission (note_execution_transition (ts_target_key ses) (ts_generation ses)) w1 = (ep, w2)" by fastforce
  obtain hs w3 where w3: "with_admission (cancel_ssh_tier (ts_target_key ses) (ts_generation ses) ep) w2 = (hs, w3)" by fastforce
  have "halt_debug_transport env ses w = (Inr (), w3)"
    by (simp add: halt_debug_transport_def dbind_def w1(1) w2 w3)
  with kept_in_admission [OF kept_in_admission [OF w1(2) w2] w3] show ?thesis by blast
qed

lemma resume_kept:
  assumes "de_fs_ok env Write_executing" and "session_held k sid s0 (w_sys w)" and "our_record k sid ses" and "transports (ts_provider ses) \<noteq> None"
  shows "\<exists>w'. resume_debug_transport env ses w = (Inr (), w') \<and> kept_in transports k sid EXECUTING s0 w w'"
proof -
  obtain w1 where w1: "write_execution_state env Write_executing EXECUTING ses w = (Inr (), w1)" "kept_in transports k sid EXECUTING s0 w w1"
    using write_state_recorded [where transports = transports and op = Write_executing, OF assms] by (auto simp: kept_in_def)
  obtain ep w2 where w2: "with_admission (note_execution_transition (ts_target_key ses) (ts_generation ses)) w1 = (ep, w2)" by fastforce
  have "resume_debug_transport env ses w = (Inr (), w2)"
    by (simp add: resume_debug_transport_def dbind_def w1(1) w2)
  with kept_in_admission [OF w1(2) w2] show ?thesis by blast
qed

subsection \<open>Teardown frees the target\<close>

definition fs_fine :: "('g, 'x) debug_env \<Rightarrow> bool" where
  "fs_fine env \<longleftrightarrow> (\<forall>op. oe_fs_ok (de_open env) op)"

lemma close_transport_frees:
  fixes env :: "('g, 'x) debug_env" and w :: "'g world"
  assumes h: "session_held k sid s0 (w_sys w)" and r: "recorded_as transports k sid st (w_sys w)" and fs: "fs_fine env"
  shows "\<exists>x w'. close_transport transports env sid force w = (x, w') \<and> freed k s0 (w_sys w')
     \<and> w_live w' = w_live w \<and> w_store w' = w_store w
     \<and> (force \<or> st = EXECUTING \<longrightarrow> tomb_files (sy_registry (w_sys w')) = tomb_files (sy_registry (w_sys w)))"
proof -
  obtain rec tp where rec: "read_record k (sy_registry (w_sys w)) = Inr (Some rec)" "our_record k sid rec" "execution_state rec = st"
      "transports (ts_provider rec) = Some tp"
    using r by (auto simp: recorded_as_def)
  obtain tok where tok: "sg_holders (sy_guard (w_sys w)) = (sg_holders (sy_guard s0))(k \<mapsto> tok)" "sy_tokens (w_sys w) sid = Some tok"
    and g: "guard_ok (sy_guard (w_sys w))" and none: "sg_holders (sy_guard s0) k = None"
    and own: "readable_others k sid (owner_files (sy_registry (w_sys w)))"
    and same: "\<forall>j. j \<noteq> k \<longrightarrow> map_of (owner_files (sy_registry (w_sys w))) j = map_of (owner_files (sy_registry s0)) j"
    using h by (auto simp: session_held_def)
  have sid: "session_id rec = sid" "ts_target_key rec = k" using rec(2) by (simp_all add: our_record_def)
  let ?ok = "oe_fs_ok (de_open env)"
  obtain x s' where c: "close_session transports ?ok sid force (w_sys w) = (x, s')" by fastforce
  note cf = close_frees [where transports = transports and ok = ?ok and force = force, OF record_found [OF own rec(1) sid(1)] rec(4) _ _ sid(2,1) g tok(2), unfolded c snd_conv]
  have "freed k s0 s'"
    using cf(1,2) fs tok(1) none same by (auto simp: freed_def fs_fine_def fun_eq_iff)
  moreover have "force \<or> st = EXECUTING \<longrightarrow> tomb_files (sy_registry s') = tomb_files (sy_registry (w_sys w))"
    using cf(3) fs tok(1) rec(3) by (auto simp: fs_fine_def)
  ultimately show ?thesis
    using c by (cases x) (auto simp: close_transport_def)
qed

lemma freed_read: "freed k s0 s \<Longrightarrow> read_record k (sy_registry s) = Inr None"
  by (simp add: freed_def read_record_def)

definition freed_in :: "target_key \<Rightarrow> bool \<Rightarrow> sys \<Rightarrow> 'g world \<Rightarrow> 'g world \<Rightarrow> bool" where
  "freed_in k running s0 w w' \<longleftrightarrow> freed k s0 (w_sys w') \<and> w_live w' = w_live w \<and> w_store w' = w_store w
     \<and> (running \<longrightarrow> tomb_files (sy_registry (w_sys w')) = tomb_files (sy_registry (w_sys w)))"

lemma guarded_teardown_frees:
  fixes env :: "('g, 'x) debug_env" and w :: "'g world"
  assumes h: "session_held k sid s0 (w_sys w)" and r: "recorded_as transports k sid st (w_sys w)" and fs: "fs_fine env"
    and gp: "outside_checks gp" and k: "gc_target_key ctx = k"
  shows "\<exists>rep w'. guarded_teardown transports env gp ctx sid force w = (Inr rep, w') \<and> freed_in k (force \<or> st = EXECUTING) s0 w w'"
proof -
  obtain errs w1 where st: "run_steps (rev (gp_teardown_steps gp)) ctx Map.empty w = (errs, w1)" by fastforce
  have "same_books w w1"
    using run_steps_books [of "rev (gp_teardown_steps gp)" w ctx Map.empty] gp st by (auto simp: outside_checks_def)
  then have b: "w_sys w1 = w_sys w" "w_live w1 = w_live w" "w_store w1 = w_store w" by (simp_all add: same_books_def)
  obtain x w2 where c: "close_transport transports env sid force w1 = (x, w2)" and f: "freed k s0 (w_sys w2)"
    "w_live w2 = w_live w1" "w_store w2 = w_store w1" "force \<or> st = EXECUTING \<longrightarrow> tomb_files (sy_registry (w_sys w2)) = tomb_files (sy_registry (w_sys w1))"
    using close_transport_frees [of k sid s0 w1 transports st env force] h r fs b by auto
  have "\<exists>rep. guarded_teardown transports env gp ctx sid force w = (Inr rep, w2)"
    by (simp add: guarded_teardown_def teardown_def st c resume_holds_def read_transport_def dread_def k freed_read [OF f(1)])
  with f b show ?thesis by (auto simp: freed_in_def)
qed

definition guard_outside :: "('g, 'x) debug_env \<Rightarrow> bool" where
  "guard_outside env \<longleftrightarrow> (\<forall>gp. de_guard env = Some gp \<longrightarrow> outside_checks gp)"

lemma teardown_frees:
  fixes env :: "('g, 'x) debug_env" and w :: "'g world"
  assumes h: "session_held k sid s0 (w_sys w)" and r: "recorded_as transports k sid st (w_sys w)" and fs: "fs_fine env"
    and gp: "guard_outside env" and ses: "our_record k sid ses"
  shows "\<exists>w'. teardown_debug_transport transports env ses w = (Inr (), w') \<and> freed_in k (st = EXECUTING) s0 w w'"
proof -
  have k: "ts_target_key ses = k" "session_id ses = sid" using ses by (simp_all add: our_record_def)
  obtain x w1 where c: "close_transport transports env sid False w = (x, w1)" "freed_in k (st = EXECUTING) s0 w w1"
    using close_transport_frees [OF h r fs, of False] by (auto simp: freed_in_def)
  show ?thesis
  proof (cases "\<exists>gp. de_guard env = Some gp \<and> de_registry env")
    case True
    then obtain gp where g: "de_guard env = Some gp" "de_registry env" by blast
    then have "outside_checks gp" using gp by (simp add: guard_outside_def)
    from guarded_teardown_frees [OF h r fs this, of "\<lparr>gc_target_key = ts_target_key ses, gc_generation = ts_generation ses,
        gc_session_id = Some (session_id ses), gc_reason = Attach_error\<rparr>" False] g k
    show ?thesis by (auto simp: teardown_debug_transport_def dbind_def dret_def)
  next
    case False
    then have "teardown_debug_transport transports env ses = dsuppress (close_transport transports env sid False)"
      by (auto simp: teardown_debug_transport_def k split: option.split)
    with c show ?thesis by (simp add: dsuppress_def)
  qed
qed

subsection \<open>A failing start is undone\<close>

lemma map_of_reap: "map_of (snd (session_reap sid ls)) = (map_of ls)(sid := None)"
  by (simp add: session_reap_def)

text \<open>What every failure after the halt leads to.\<close>

definition undone :: "target_key \<Rightarrow> bool \<Rightarrow> string \<Rightarrow> sys \<Rightarrow> 'g world \<Rightarrow> 'g world \<Rightarrow> bool" where
  "undone k unmarked dsid s0 w w' \<longleftrightarrow> freed k s0 (w_sys w') \<and> map_of (w_live w') = (map_of (w_live w))(dsid := None)
     \<and> (unmarked \<longrightarrow> tomb_files (sy_registry (w_sys w')) = tomb_files (sy_registry (w_sys w)))"

lemma resume_and_teardown:
  fixes env :: "('g, 'x) debug_env" and w :: "'g world"
  assumes h: "session_held k sid s0 (w_sys w)" and ses: "our_record k sid ses" "transports (ts_provider ses) \<noteq> None"
    and fs: "fs_fine env" "de_fs_ok env Write_executing" and gp: "guard_outside env"
  shows "\<exists>w'. dbind (dsuppress (resume_debug_transport env ses)) (\<lambda>_. dbind (teardown_debug_transport transports env ses) f) w = f () w'
     \<and> freed_in k True s0 w w'"
proof -
  obtain w1 where w1: "resume_debug_transport env ses w = (Inr (), w1)" "kept_in transports k sid EXECUTING s0 w w1"
    using resume_kept [where transports = transports, OF fs(2) h ses] by blast
  then have k1: "session_held k sid s0 (w_sys w1)" "recorded_as transports k sid EXECUTING (w_sys w1)"
      "tomb_files (sy_registry (w_sys w1)) = tomb_files (sy_registry (w_sys w))" "w_live w1 = w_live w" "w_store w1 = w_store w"
    by (simp_all add: kept_in_def)
  obtain w2 where w2: "teardown_debug_transport transports env ses w1 = (Inr (), w2)" "freed_in k True s0 w1 w2"
    using teardown_frees [OF k1(1,2) fs(1) gp ses(1)] by auto
  have "dbind (dsuppress (resume_debug_transport env ses)) (\<lambda>_. dbind (teardown_debug_transport transports env ses) f) w = f () w2"
    by (simp add: dbind_def dsuppress_def w1(1) w2(1))
  with w2(2) k1 show ?thesis by (auto simp: freed_in_def)
qed

lemma dbind_step: "m w = (Inr a, w1) \<Longrightarrow> dbind m f w = f a w1"
  by (simp add: dbind_def)

lemma reap_live_eq: "reap_live sid w = (Inr (map_of (w_live w) sid), w\<lparr>w_live := dict_pop sid (w_live w)\<rparr>)"
  by (simp add: reap_live_def session_reap_def)

lemma reap_and_resume_books:
  obtains w' where "reap_and_resume eng sid w = (Inr (), w')" "w_sys w' = w_sys w" "w_store w' = w_store w"
    "w_live w' = dict_pop sid (w_live w)"
  by (cases "map_of (w_live w) sid"; cases "resume_inferior eng (w_gdb w)")
    (simp_all add: reap_and_resume_def dbind_def reap_live_eq dret_def dsuppress_def force_resume_def)

lemma resume_inferior_confirms: "fst (resume_inferior eng g) = True"
  by (simp add: resume_inferior_def Let_def)

lemma probe_failed_undone:
  fixes env :: "('g, 'x) debug_env" and w :: "'g world"
  assumes h: "session_held k sid s0 (w_sys w)" and ses: "our_record k sid ses" "transports (ts_provider ses) \<noteq> None"
    and fs: "fs_fine env" "de_fs_ok env Write_executing" and gp: "guard_outside env"
  shows "\<exists>c d w'. probe_failed transports env eng rd ses dsid attached e w = (Inr (Tool_failure c d []), w') \<and> undone k True dsid s0 w w'"
proof -
  obtain w1 where w1: "(if attached then force_resume eng else dret True :: ('g, 'x, bool) dop) w = (Inr True, w1)" "same_books w w1"
    using resume_inferior_confirms [of eng "w_gdb w"]
    by (cases "resume_inferior eng (w_gdb w)"; cases attached) (auto simp: force_resume_def dret_def same_books_def)
  let ?w2 = "w1\<lparr>w_live := dict_pop dsid (w_live w1)\<rparr>"
  have h2: "session_held k sid s0 (w_sys ?w2)" using h w1(2) by (simp add: same_books_def)
  obtain w3 where w3: "dbind (dsuppress (resume_debug_transport env ses)) (\<lambda>_. dbind (teardown_debug_transport transports env ses)
        (\<lambda>_. dret (Tool_failure (failure_category e)
         (redacted_fields rd (merge_fields (failure_details e) [(''transport_session_id'', RawStr (session_id ses))])) []))) ?w2
      = dret (Tool_failure (failure_category e)
         (redacted_fields rd (merge_fields (failure_details e) [(''transport_session_id'', RawStr (session_id ses))])) []) w3"
      "freed_in k True s0 ?w2 w3"
    using resume_and_teardown [where transports = transports, OF h2 ses fs gp] by blast
  have "probe_failed transports env eng rd ses dsid attached e w = (Inr (Tool_failure (failure_category e)
         (redacted_fields rd (merge_fields (failure_details e) [(''transport_session_id'', RawStr (session_id ses))])) []), w3)"
    unfolding probe_failed_def
    by (subst dbind_step, rule w1(1), subst dbind_step, rule reap_live_eq) (use w3(1) in \<open>simp add: dret_def\<close>)
  with w3(2) w1(2) show ?thesis by (auto simp: undone_def freed_in_def same_books_def)
qed

lemma gdb_attach_books: "gdb_attach eng e v w = (r, w') \<Longrightarrow> same_books w w'"
  by (auto simp: gdb_attach_def same_books_def split: prod.splits sum.splits)

lemma gdb_op_books: "gdb_op f a w = (r, a', w') \<Longrightarrow> same_books w w'"
  by (auto simp: gdb_op_def same_books_def split: prod.splits sum.splits)

lemma attach_probe_outcome:
  fixes env :: "('g, 'x) debug_env" and w :: "'g world"
  assumes h: "session_held k sid s0 (w_sys w)" and ses: "our_record k sid ses" "transports (ts_provider ses) \<noteq> None"
    and fs: "fs_fine env" "de_fs_ok env Write_executing" and gp: "guard_outside env"
    and run: "run_mi_attach_probe transports env eng rd run_dir vmlinux ses dsid w = (r, w')"
  obtains (failed) c d where "r = Inr (Inl (Tool_failure c d []))" "undone k True dsid s0 w w'"
  | (attached) probe a where "r = Inr (Inr probe)" "w_sys w' = w_sys w" "w_store w' = w_store w"
      "w_live w' = session_register dsid a (w_live w)"
proof -
  have fail: thesis
    if "same_books w w1" and "dbind (probe_failed transports env eng rd ses dsid b e) (\<lambda>t. dret (Inl t)) w1 = (r, w')" for b e w1
  proof -
    have "session_held k sid s0 (w_sys w1)" using h that(1) by (simp add: same_books_def)
    from probe_failed_undone [where transports = transports, OF this ses fs gp, of eng rd dsid b e] obtain c d w2 where
      "probe_failed transports env eng rd ses dsid b e w1 = (Inr (Tool_failure c d []), w2)" "undone k True dsid s0 w1 w2" by blast
    with that show ?thesis by (intro failed [of c d]) (auto simp: dbind_def dret_def undone_def same_books_def)
  qed
  obtain ra :: "('x debug_raised, attachment) result" and w1 where a: "gdb_attach eng (rsp_endpoint ses) vmlinux w = (ra, w1)" by fastforce
  note b1 = gdb_attach_books [OF a]
  show ?thesis
  proof (cases ra)
    case (Inl e)
    show ?thesis by (rule fail [OF b1, of False e]) (use run a Inl in \<open>simp add: run_mi_attach_probe_def\<close>)
  next
    case at: (Inr x)
    show ?thesis
    proof (cases "probe_read x")
      case (Inl e)
      show ?thesis by (rule fail [OF b1, of True "Gdb_failed e"]) (use run a at Inl in \<open>simp add: run_mi_attach_probe_def\<close>)
    next
      case rec: (Inr rec)
      obtain rs :: "('x debug_raised, string) result" and a2 w2 where o: "gdb_op (resolve_symbol eng canonical_probe_symbol) x w1 = (rs, a2, w2)" by (metis prod_cases3)
      have b2: "same_books w w2" by (rule same_books_trans [OF b1 gdb_op_books [OF o]])
      show ?thesis
      proof (cases rs)
        case (Inl e)
        show ?thesis by (rule fail [OF b2, of True e]) (use run a at rec o Inl in \<open>simp add: run_mi_attach_probe_def\<close>)
      next
        case (Inr v)
        with run a at rec o have "r = Inr (Inr (probe_details rd run_dir rec v))"
          "w' = w2\<lparr>w_live := session_register dsid a2 (w_live w2)\<rparr>"
          by (simp_all add: run_mi_attach_probe_def)
        with b2 show ?thesis by (intro attached) (auto simp: same_books_def)
      qed
    qed
  qed
qed

lemma persist_session_books: "persist_mi_debug_session env d ds w = (r, w') \<Longrightarrow> same_books w w'"
  by (auto simp: persist_mi_debug_session_def Let_def same_books_def split: if_splits sum.splits)

text \<open>The checks after the attach: they pass, a precondition fails and undoes the start, or something else is raised.\<close>

lemma verify_guard_outcome:
  fixes env :: "('g, 'x) debug_env" and w :: "'g world"
  assumes h: "session_held k sid s0 (w_sys w)" and r: "recorded_as transports k sid st (w_sys w)" and ses: "our_record k sid (da_session da)"
    and fs: "fs_fine env" and gp: "guard_outside env"
    and run: "verify_guard transports env eng da w = (x, w')"
  obtains (passed) "x = Inr ()" "same_books w w'"
  | (refused) n where "x = Inl (Precondition_error n)" "undone k False (da_session_id da) s0 w w'"
  | (raised) e where "x = Inl e" "\<And>n. e \<noteq> Precondition_error n" "same_books w w'"
proof (cases "de_guard env")
  case None
  with run show ?thesis by (intro passed) (simp_all add: verify_guard_def)
next
  case (Some g)
  then have o: "outside_checks g" using gp by (simp add: guard_outside_def)
  obtain y w1 where v: "verify_attached (gp_post_attach g) (post_context (da_session da)) (da_session da) w = (y, w1)" by fastforce
  have b: "same_books w w1"
    using verify_attached_books [of "gp_post_attach g" w "post_context (da_session da)" "da_session da"] o v by (auto simp: outside_checks_def)
  show ?thesis
  proof (cases "\<exists>n. y = Inl (Precondition_error n)")
    case False
    then have "x = y" "w' = w1"
      using run Some v by (auto simp: verify_guard_def split: sum.splits debug_raised.splits)
    with b False show ?thesis by (cases y) (auto intro: passed raised)
  next
    case True
    then obtain n where n: "y = Inl (Precondition_error n)" by blast
    obtain w2 where w2: "(reap_and_resume eng (da_session_id da) :: ('g, 'x, unit) dop) w1 = (Inr (), w2)" "w_sys w2 = w_sys w1"
        "w_store w2 = w_store w1" "w_live w2 = dict_pop (da_session_id da) (w_live w1)"
      by (rule reap_and_resume_books)
    have k: "gc_target_key (post_context (da_session da)) = k" "session_id (da_session da) = sid"
      using ses by (simp_all add: post_context_def our_record_def)
    have "session_held k sid s0 (w_sys w2)" "recorded_as transports k sid st (w_sys w2)"
      using h r b w2(2) by (simp_all add: same_books_def)
    from guarded_teardown_frees [OF this fs o k(1), of False] obtain rep w3 where
      w3: "guarded_teardown transports env g (post_context (da_session da)) sid False w2 = (Inr rep, w3)" "freed_in k (False \<or> st = EXECUTING) s0 w2 w3"
      by blast
    have "x = Inl (Precondition_error n)" "w' = w3"
      using run Some v n w2(1) w3(1) by (simp_all add: verify_guard_def dbind_def draise_def k(2))
    with w3(2) w2 b show ?thesis by (intro refused) (auto simp: undone_def freed_in_def same_books_def)
  qed
qed

lemma cleanup_undone:
  fixes env :: "('g, 'x) debug_env" and w :: "'g world"
  assumes h: "session_held k sid s0 (w_sys w)" and ses: "our_record k sid (da_session da)" "transports (ts_provider (da_session da)) \<noteq> None"
    and fs: "fs_fine env" "de_fs_ok env Write_executing" and gp: "guard_outside env"
  shows "\<exists>c d w'. cleanup_attach transports env eng rd da e w = (Inr (Tool_failure c d []), w') \<and> undone k True (da_session_id da) s0 w w'"
proof -
  obtain w2 where w2: "(reap_and_resume eng (da_session_id da) :: ('g, 'x, unit) dop) w = (Inr (), w2)" "w_sys w2 = w_sys w"
      "w_store w2 = w_store w" "w_live w2 = dict_pop (da_session_id da) (w_live w)"
    by (rule reap_and_resume_books)
  have h2: "session_held k sid s0 (w_sys w2)" using h w2(2) by simp
  let ?f = "\<lambda>_ :: unit. dret (Tool_failure (case manifest_refusal e of Some (Tool_failure c d a) \<Rightarrow> c | _ \<Rightarrow> INFRASTRUCTURE_FAILURE)
         (redacted_fields rd (code_field ''debug_session_persist_failed'')) []) :: ('g, 'x, tool_response) dop"
  from resume_and_teardown [where transports = transports and f = ?f, OF h2 ses fs gp] obtain w3 where
    w3: "dbind (dsuppress (resume_debug_transport env (da_session da))) (\<lambda>_. dbind (teardown_debug_transport transports env (da_session da)) ?f) w2 = ?f () w3"
      "freed_in k True s0 w2 w3" by blast
  have "cleanup_attach transports env eng rd da e w = ?f () w3"
    unfolding cleanup_attach_def by (subst dbind_step, rule w2(1)) (use w3(1) in simp)
  with w3(2) w2 show ?thesis by (auto simp: dret_def undone_def freed_in_def)
qed

text \<open>The part under the lock after the readiness check: it records a session or leaves nothing of it.\<close>

definition left_nothing :: "target_key \<Rightarrow> bool \<Rightarrow> 'g world \<Rightarrow> 'g world \<Rightarrow> bool" where
  "left_nothing k unmarked w w' \<longleftrightarrow>
     sg_holders (sy_guard (w_sys w')) = sg_holders (sy_guard (w_sys w)) \<and> map_of (w_live w') = map_of (w_live w)
     \<and> map_of (owner_files (sy_registry (w_sys w'))) \<in>
         {map_of (owner_files (sy_registry (w_sys w))), (map_of (owner_files (sy_registry (w_sys w))))(k := None)}
     \<and> (unmarked \<longrightarrow> tomb_files (sy_registry (w_sys w')) = tomb_files (sy_registry (w_sys w)))"

lemma left_nothing_books: "same_books w w' \<Longrightarrow> left_nothing k b w w'"
  by (simp add: left_nothing_def same_books_def)

lemma undone_left_nothing:
  assumes "undone k u dsid (w_sys w) w1 w2" and "map_of (w_live w) dsid = None" and "\<And>j. j \<noteq> dsid \<Longrightarrow> map_of (w_live w1) j = map_of (w_live w) j"
    and "b \<Longrightarrow> u \<and> tomb_files (sy_registry (w_sys w1)) = tomb_files (sy_registry (w_sys w))"
  shows "left_nothing k b w w2"
  using assms by (auto simp: undone_def freed_def left_nothing_def fun_eq_iff)

text \<open>The hypotheses of a start: consistent services, fresh names, a durable store that writes.\<close>

definition start_ready :: "('g, 'x) debug_env \<Rightarrow> string \<Rightarrow> 'g world \<Rightarrow> bool" where
  "start_ready env run_id w \<longleftrightarrow>
     guard_ok (sy_guard (w_sys w)) \<and> leases_ok (sy_leases (w_sys w)) \<and> adm_ok (sy_admission (w_sys w))
     \<and> sy_tokens (w_sys w) (oe_session_id (de_open env)) = None \<and> sy_handles (w_sys w) (oe_session_id (de_open env)) = None
     \<and> map_of (w_live w) (''debug-'' @ de_uuid_hex env) = None
     \<and> readable_others (local_qemu run_id) (oe_session_id (de_open env)) (owner_files (sy_registry (w_sys w)))
     \<and> (\<forall>transports. de_transports env = Some transports \<longrightarrow> registered_by_name transports)
     \<and> quiet (de_open env) \<and> fs_fine env \<and> de_fs_ok env Write_halted \<and> de_fs_ok env Write_executing \<and> guard_outside env"

lemma start_ready_books: "start_ready env run_id w \<Longrightarrow> w_sys w' = w_sys w \<Longrightarrow> w_live w' = w_live w \<Longrightarrow> start_ready env run_id w'"
  by (simp add: start_ready_def)

lemma debug_open_request_key: "debug_open_request run_id ep a = Inr req \<Longrightarrow> req_target_key req = local_qemu run_id"
  by (auto simp: debug_open_request_def split: sum.splits if_splits)

lemma enter_guard_books: "guard_outside env \<Longrightarrow> enter_guard env run_id w = (r, w') \<Longrightarrow> same_books w w'"
  using run_preconditions_books [of "gp_pre_attach (the (de_guard env))" w]
  by (cases "de_guard env") (auto simp: enter_guard_def dret_def enter_def guard_outside_def outside_checks_def, metis snd_conv)

lemma open_transport_outcome:
  fixes env :: "('g, 'x) debug_env" and w :: "'g world"
  assumes ready: "start_ready env run_id w" and t: "de_transports env = Some transports"
    and run: "open_transport transports env run_id ep recovery w = (x, w')"
  defines "k \<equiv> local_qemu run_id" and "sid \<equiv> oe_session_id (de_open env)"
  obtains (failed) e where "x = Inl e" "left_nothing k True w w'" "w_store w' = w_store w"
  | (opened) ses where "x = Inr ses" "session_held k sid (w_sys w) (w_sys w')" "read_record k (sy_registry (w_sys w')) = Inr (Some ses)"
      "our_record k sid ses" "transports (ts_provider ses) \<noteq> None" "w_live w' = w_live w" "w_store w' = w_store w"
      "recovery \<or> tomb_files (sy_registry (w_sys w')) = tomb_files (sy_registry (w_sys w))"
proof (cases "debug_open_request run_id ep (sy_admission (w_sys w)) :: ('x debug_raised, open_request) result")
  case (Inl e)
  with run show ?thesis by (intro failed) (auto simp: open_transport_def left_nothing_books)
next
  case (Inr req)
  note key = debug_open_request_key [OF Inr, folded k_def]
  have r: "guard_ok (sy_guard (w_sys w))" "leases_ok (sy_leases (w_sys w))" "adm_ok (sy_admission (w_sys w))"
      "sy_tokens (w_sys w) sid = None" "sy_handles (w_sys w) sid = None"
      "readable_others k sid (owner_files (sy_registry (w_sys w)))" "registered_by_name transports" "quiet (de_open env)"
      "\<And>op. oe_fs_ok (de_open env) op"
    using ready t by (simp_all add: start_ready_def k_def sid_def fs_fine_def)
  obtain y s' where o: "open_session transports (de_open env) req recovery (w_sys w) = (y, s')" by fastforce
  show ?thesis
  proof (cases y)
    case (Inl e)
    note f = open_failure_restores [OF o [unfolded Inl] r(8,9,9,1-3) r(4,5) [unfolded sid_def]]
    have "left_nothing k True w (w\<lparr>w_sys := s'\<rparr>)"
      using f by (simp add: left_nothing_def key)
    then show ?thesis
      using run Inr o Inl by (intro failed) (auto simp: open_transport_def)
  next
    case ses: (Inr ses)
    note h = open_held [OF o [unfolded ses] r(8) r(9) r(1-3) r(6) [folded key, unfolded sid_def] r(7), unfolded key, folded sid_def]
    show ?thesis
      by (rule opened [of ses]) (use run Inr o ses h in \<open>auto simp: open_transport_def\<close>)
  qed
qed

lemma open_and_probe_outcome:
  fixes env :: "('g, 'x) debug_env" and w :: "'g world"
  assumes ready: "start_ready env (sq_run_id q) w" and t: "de_transports env = Some transports"
    and run: "open_and_probe transports env eng q pf w = (x, w')"
  defines "k \<equiv> local_qemu (sq_run_id q)" and "sid \<equiv> oe_session_id (de_open env)" and "dsid \<equiv> ''debug-'' @ de_uuid_hex env"
  obtains (left) "\<And>da. x \<noteq> Inr (Inr da)" "\<And>d a. x \<noteq> Inr (Inl (Tool_success d a))" "left_nothing k (\<not> sq_recovery q) w w'"
  | (attached) da a where "x = Inr (Inr da)" "da_session_id da = dsid" "session_held k sid (w_sys w) (w_sys w')"
      "recorded_as transports k sid HALTED (w_sys w')" "our_record k sid (da_session da)" "transports (ts_provider (da_session da)) \<noteq> None"
      "w_live w' = session_register dsid a (w_live w)" "w_store w' = w_store w"
      "sq_recovery q \<or> tomb_files (sy_registry (w_sys w')) = tomb_files (sy_registry (w_sys w))"
proof -
  have fs: "fs_fine env" "de_fs_ok env Write_executing" "de_fs_ok env Write_halted" "guard_outside env" "map_of (w_live w) dsid = None"
    using ready by (simp_all add: start_ready_def dsid_def)
  obtain g w1 where g: "enter_guard env (sq_run_id q) w = (g, w1)" by fastforce
  note b = enter_guard_books [OF fs(4) g]
  show ?thesis
  proof (cases g)
    case (Inl e)
    with run g have x: "w' = w1" "\<And>da. x \<noteq> Inr (Inr da)" "\<And>d a. x \<noteq> Inr (Inl (Tool_success d a))"
      by (auto simp: open_and_probe_def precondition_refusal_def split: debug_raised.splits)
    show ?thesis by (rule left [OF x(2,3)]) (simp add: x(1) left_nothing_books [OF b])
  next
    case passed: (Inr u)
    have ready1: "start_ready env (sq_run_id q) w1"
      using start_ready_books [OF ready] b by (simp add: same_books_def)
    obtain y w2 where o: "open_transport transports env (sq_run_id q) (pf_endpoint pf) (sq_recovery q) w1 = (y, w2)" by fastforce
    from ready1 t o show ?thesis
    proof (cases rule: open_transport_outcome)
      case (failed e)
      have "\<And>d a. open_refusal e \<noteq> Some (Tool_success d a)"
        by (auto simp: open_refusal_def split: debug_raised.splits open_error.splits endpoint_safety_error.splits)
      then have x: "w' = w2" "\<And>da. x \<noteq> Inr (Inr da)" "\<And>d a. x \<noteq> Inr (Inl (Tool_success d a))"
        using run g passed o failed(1) by (auto simp: open_and_probe_def split: option.splits)
      have "left_nothing k (\<not> sq_recovery q) w w2"
        using failed(2) b by (auto simp: left_nothing_def same_books_def k_def)
      then show ?thesis using left [OF x(2,3)] x(1) by simp
    next
      case (opened ses)
      obtain w3 where w3: "halt_debug_transport env ses w2 = (Inr (), w3)" "kept_in transports k sid HALTED (w_sys w1) w2 w3"
        using halt_kept [where transports = transports, OF fs(3) opened(2,4,5)] by (auto simp: k_def sid_def)
      obtain z w4 where p: "run_mi_attach_probe transports env eng (pf_redactor pf) (pf_run_dir pf)
          (parse_path (ar_path (pf_vmlinux pf))) ses dsid w3 = (z, w4)" by fastforce
      have x: "x = (case z of Inl e \<Rightarrow> Inl e | Inr r \<Rightarrow> Inr (rbind r (\<lambda>probe.
          Inr \<lparr>da_session = ses, da_session_id = dsid, da_probe = probe\<rparr>)))" "w' = w4"
        using run g passed o opened(1) w3(1) p
        by (auto simp: open_and_probe_def dbind_def dret_def dsid_def split: sum.splits)
      have s1: "w_sys w1 = w_sys w" "w_live w1 = w_live w" "w_store w1 = w_store w" using b by (simp_all add: same_books_def)
      have h3: "session_held k sid (w_sys w1) (w_sys w3)" using w3(2) by (simp add: kept_in_def)
      from h3 opened(4,5) [folded k_def sid_def] fs(1,2,4) p show ?thesis
      proof (cases rule: attach_probe_outcome)
        case (failed c d)
        have "left_nothing k (\<not> sq_recovery q) w w4"
          by (rule undone_left_nothing [OF failed(2) [unfolded s1] fs(5)])
            (use w3(2) opened(6,8) s1 in \<open>auto simp: kept_in_def\<close>)
        then show ?thesis using x failed(1) left by simp
      next
        case (attached probe a)
        show ?thesis
          by (rule that(2) [of "\<lparr>da_session = ses, da_session_id = dsid, da_probe = probe\<rparr>" a])
            (use x attached w3(2) opened s1 in \<open>auto simp: kept_in_def k_def sid_def\<close>)
      qed
    qed
  qed
qed

lemma persist_success_outcome:
  fixes env :: "('g, 'x) debug_env" and w :: "'g world"
  assumes h: "session_held k sid s0 (w_sys w)" and r: "recorded_as transports k sid st (w_sys w)" and ses: "our_record k sid (da_session da)"
    and fs: "fs_fine env" and gp: "guard_outside env"
    and run: "persist_success transports env eng q pf rep da w = (x, w')"
  obtains (recorded) rec where "x = Inr rec" "w_sys w' = w_sys w" "w_live w' = w_live w"
  | (refused) n where "x = Inl (Precondition_error n)" "undone k False (da_session_id da) s0 w w'"
  | (raised) e where "x = Inl e" "\<And>n. e \<noteq> Precondition_error n" "w_sys w' = w_sys w" "w_live w' = w_live w"
proof -
  let ?ds = "build_mi_debug_session (da_session_id da) (sq_run_id q) pf"
  obtain y w1 where p: "persist_mi_debug_session env (pf_run_dir pf) ?ds w = (y :: ('x debug_raised, path) result, w1)" by fastforce
  have b1: "same_books w w1" by (rule persist_session_books [OF p])
  show ?thesis
  proof (cases y)
    case (Inl e)
    then have "e = Os_failed" using p by (auto simp: persist_mi_debug_session_def Let_def split: if_splits sum.splits)
    with Inl show ?thesis
      using run p b1 by (intro raised [of Os_failed]) (simp_all add: persist_success_def Let_def dbind_def same_books_def)
  next
    case written: (Inr sp)
    obtain z w2 where v: "verify_guard transports env eng da w1 = (z, w2)" by fastforce
    have "session_held k sid s0 (w_sys w1)" "recorded_as transports k sid st (w_sys w1)" using h r b1 by (simp_all add: same_books_def)
    from this ses fs gp v show ?thesis
    proof (cases rule: verify_guard_outcome)
      case passed
      let ?step = "debug_step ''gdb/MI debug session started'' (mi_session_artifacts (pf_run_dir pf) ?ds) (start_details pf da ?ds)"
      obtain m s' where m: "record_step_result (sq_run_id q) ?step rep False (de_faults env) (w_store w2) = (m, s')" by fastforce
      have w2: "w_sys w2 = w_sys w" "w_live w2 = w_live w" using passed(2) b1 by (simp_all add: same_books_def)
      show ?thesis
      proof (cases m)
        case (Inl e)
        then show ?thesis
          by (intro raised [of "Store_failed e"])
            (use run p written v passed(1) m w2 in \<open>auto simp: persist_success_def Let_def dbind_def store_op_def\<close>)
      next
        case (Inr u)
        then show ?thesis
          by (intro recorded)
            (use run p written v passed(1) m w2 in \<open>auto simp: persist_success_def Let_def dbind_def store_op_def dret_def\<close>)
      qed
    next
      case (refused n)
      then have "undone k False (da_session_id da) s0 w w2" using b1 by (simp add: undone_def same_books_def)
      then show ?thesis
        by (intro that(2) [of n]) (use run p written v refused in \<open>simp_all add: persist_success_def Let_def dbind_def\<close>)
    next
      case (raised e)
      have "same_books w w2" by (rule same_books_trans [OF b1 raised(3)])
      then show ?thesis
        by (intro that(3) [of e]) (use run p written v raised in \<open>simp_all add: persist_success_def Let_def dbind_def same_books_def\<close>)
    qed
  qed
qed

definition is_recorded :: "('x debug_raised, (tool_response, 'a) result) result \<Rightarrow> bool" where
  "is_recorded x \<longleftrightarrow> (\<exists>rec. x = Inr (Inr rec))"

definition precondition_answer :: "('x debug_raised, (tool_response, 'a) result) result \<Rightarrow> bool" where
  "precondition_answer x \<longleftrightarrow> (\<exists>n. x = Inr (Inl (precondition_refusal n)))"

lemma start_attached_outcome:
  fixes env :: "('g, 'x) debug_env" and w :: "'g world"
  assumes ready: "start_ready env (sq_run_id q) w" and t: "de_transports env = Some transports"
    and run: "start_attached transports env eng q pf rep w = (x, w')"
  shows "is_recorded x \<or> left_nothing (local_qemu (sq_run_id q)) (\<not> sq_recovery q \<and> \<not> precondition_answer x) w w'"
    and "\<And>d a. x \<noteq> Inr (Inl (Tool_success d a))"
proof (atomize (full), goal_cases)
  case 1
  let ?k = "local_qemu (sq_run_id q)"
  obtain y w1 where o: "open_and_probe transports env eng q pf w = (y, w1)" by fastforce
  from ready t o show ?case
  proof (cases rule: open_and_probe_outcome)
    case left
    then have "(\<exists>e. x = Inl e) \<or> (\<exists>t. y = Inr (Inl t) \<and> x = Inr (Inl t))" "w' = w1"
      using run o by (auto simp: start_attached_def dbind_def dret_def split: sum.splits)
    with left show ?thesis by (auto simp: left_nothing_def)
  next
    case (attached da a)
    have fs: "fs_fine env" "de_fs_ok env Write_executing" "guard_outside env" "map_of (w_live w) (''debug-'' @ de_uuid_hex env) = None"
      using ready by (simp_all add: start_ready_def)
    obtain z w2 where p: "persist_success transports env eng q pf rep da w1 = (z, w2)" by fastforce
    have live: "map_of (w_live w1) j = map_of (w_live w) j" if "j \<noteq> ''debug-'' @ de_uuid_hex env" for j
      using that attached(7) by (simp add: session_register_def)
    from attached(3-5) fs(1,3) p show ?thesis
    proof (cases rule: persist_success_outcome)
      case (recorded rec)
      then have "x = Inr (Inr rec)"
        using run o attached(1) p by (simp add: start_attached_def dbind_def dtry_def dret_def)
      then show ?thesis by (simp add: is_recorded_def)
    next
      case (refused n)
      then have x: "x = Inr (Inl (precondition_refusal n))" "w' = w2"
        using run o attached(1) p by (simp_all add: start_attached_def dbind_def dtry_def dret_def)
      have "left_nothing ?k False w w2"
        by (rule undone_left_nothing [OF refused(2) [unfolded attached(2)] fs(4)]) (use live in simp_all)
      with x show ?thesis by (auto simp: precondition_answer_def precondition_refusal_def)
    next
      case (raised e)
      have "session_held ?k (oe_session_id (de_open env)) (w_sys w) (w_sys w2)" using attached(3) raised(3) by simp
      from cleanup_undone [where transports = transports, OF this attached(5,6) fs(1-3), of eng "pf_redactor pf" e] obtain c d w3 where
        c: "cleanup_attach transports env eng (pf_redactor pf) da e w2 = (Inr (Tool_failure c d []), w3)"
          "undone ?k True (da_session_id da) (w_sys w) w2 w3" by blast
      have x: "x = Inr (Inl (Tool_failure c d []))" "w' = w3"
        using run o attached(1) p raised(1,2) c(1)
        by (cases e; simp add: start_attached_def dbind_def dtry_def dret_def)+
      have "left_nothing ?k (\<not> sq_recovery q) w w3"
        by (rule undone_left_nothing [OF c(2) [unfolded attached(2)] fs(4)])
          (use live raised(3,4) attached(9) in simp_all)
      with x show ?thesis by (auto simp: left_nothing_def)
    qed
  qed
qed

subsection \<open>The lock and the handler\<close>

lemma with_debug_lock_cases:
  assumes "with_debug_lock env run_id body w = (r, w')"
  obtains (unlocked) e s' where "r = Inl (Store_failed e)" "w' = w\<lparr>w_store := s'\<rparr>"
  | (ran) s s' w1 where "body (w\<lparr>w_store := s\<rparr>) = (r, w1)" "w' = w1\<lparr>w_store := s'\<rparr>"
proof -
  obtain x s' where l: "debug_lock run_id (de_faults env)
      (\<lambda>s. let (r, w1) = body (w\<lparr>w_store := s\<rparr>) in (Inr (r, w1), w_store w1)) (w_store w) = (x, s')" by fastforce
  show ?thesis
  proof (cases x)
    case (Inl e)
    with l assms show ?thesis by (intro unlocked) (auto simp: with_debug_lock_def)
  next
    case (Inr y)
    obtain r1 w1 where y: "y = (r1, w1)" by fastforce
    have "\<exists>s. body (w\<lparr>w_store := s\<rparr>) = (r1, w1)"
      using l Inr y by (auto simp: debug_lock_def with_run_lock_def Let_def split: sum.splits option.splits if_splits prod.splits)
    then obtain s where "body (w\<lparr>w_store := s\<rparr>) = (r1, w1)" ..
    with l assms Inr y show ?thesis by (intro ran [of s w1 s']) (auto simp: with_debug_lock_def)
  qed
qed

lemma reuse_books: "reuse_or_readiness env rp q pf w = (x, w') \<Longrightarrow> same_books w w'"
  by (auto simp: reuse_or_readiness_def dbind_def store_read_def store_op_def dread_def Let_def same_books_def
      split: sum.splits prod.splits)

lemma manifest_refusal_failure: "manifest_refusal e = Some t \<Longrightarrow> \<not> resp_ok t"
  by (auto simp: manifest_refusal_def split: debug_raised.splits)

end
