(* ===== verification/DebugStartProps.thy ===== *)
theory DebugStartProps
  imports DebugProps GdbAttach TriageProps
begin

text \<open>
  The properties of \<open>debug.start_session\<close>, and a run with a booted kernel on which they are
  applied: once with gdb on the path and once without.
\<close>

subsection \<open>An engine that cannot attach\<close>

lemma failing_attach_not_recorded:
  fixes env :: "('g, 'x) debug_env" and w :: "'g world"
  assumes "\<And>e v g. isl (fst (attach eng e v g))" and run: "start_attached transports env eng q pf rep w = (x, w')"
  shows "\<not> is_recorded x"
proof -
  have p: False
    if "run_mi_attach_probe transports env eng rd dir vm ses sid w1 = (Inr (Inr a), w2)" for rd dir vm ses sid a and w1 w2 :: "'g world"
    using that assms(1) [of "rsp_endpoint ses" vm "w_gdb w1"]
    by (auto simp: run_mi_attach_probe_def gdb_attach_def dbind_def dret_def split: prod.splits sum.splits)
  obtain y w1 where o: "open_and_probe transports env eng q pf w = (y, w1)" by fastforce
  have "\<And>a. y \<noteq> Inr (Inr a)"
    using o by (auto dest: p simp: open_and_probe_def dbind_def dret_def precondition_refusal_def split: prod.splits sum.splits option.splits debug_raised.splits)
  then show ?thesis
    using run o by (auto simp: start_attached_def dbind_def dret_def is_recorded_def split: sum.splits)
qed

lemma version_lock_refusal:
  "verify_gdb_symbol_version_lock rp rd boot vm = Inr (Some t) \<Longrightarrow> \<not> resp_ok t"
  by (auto simp: verify_gdb_symbol_version_lock_def config_refusal_def Let_def
      split: option.splits raw.splits if_splits sum.splits provenance_error.splits elf_raised.splits)

lemma failing_attach_fails:
  fixes env :: "('g, 'x) debug_env" and w :: "'g world"
  assumes ready: "start_ready env (sq_run_id q) w" and q: "sq_new_session q" and eng: "de_engine env = Some eng"
    and a: "\<And>e v g. isl (fst (attach eng e v g))" and run: "debug_start_session_handler env rp q w = (r, w')"
  shows "r \<noteq> Inr (Tool_success d arts)"
proof -
  obtain c w0 where c: "debug_start_session_preflight env q w = (c :: ('x debug_raised, (tool_response, preflight) result) result, w0)" by fastforce
  then have w0: "w0 = w" and nc: "c \<noteq> Inr (Inl (Tool_success d arts))"
    by (auto simp: debug_start_session_preflight_def dread_def check_preflight_def preflight_profile_def profile_refusal_def config_refusal_def
      manifest_refusal_def rbind_def Let_def split: sum.splits option.splits if_splits debug_raised.splits raw.splits prod.splits)
  show ?thesis
  proof (cases "\<exists>pf. c = Inr (Inr pf)")
    case False
    then show ?thesis
      using run c w0 nc by (auto simp: debug_start_session_handler_def dbind_def dret_def split: sum.splits)
  next
    case True
    then obtain pf where pf: "c = Inr (Inr pf)" by blast
    obtain x w1 where x: "with_debug_lock env (sq_run_id q) (start_locked env rp q pf) w = (x, w1)" by fastforce
    have "\<not> is_recorded x \<and> x \<noteq> Inr (Inl (Tool_success d arts))"
      using x
    proof (cases rule: with_debug_lock_cases)
      case (unlocked e s')
      then show ?thesis by (simp add: is_recorded_def)
    next
      case (ran s s' w2)
      obtain y w3 where y: "reuse_or_readiness env rp q pf (w\<lparr>w_store := s\<rparr>) = (y, w3)" by fastforce
      have ny: "y \<noteq> Inr (Inl (Tool_success d arts))"
        using y q by (auto dest: version_lock_refusal simp: reuse_or_readiness_def dbind_def store_read_def store_op_def dread_def rbind_def
            engine_unavailable_def split: sum.splits option.splits if_splits prod.splits)
      show ?thesis
      proof (cases "\<exists>rep transports. y = Inr (Inr rep) \<and> de_transports env = Some transports")
        case False
        then show ?thesis
          using ran(1) y ny eng by (auto simp: start_locked_def dbind_def dret_def draise_def is_recorded_def split: sum.splits option.splits)
      next
        case True
        then obtain rep transports where t: "y = Inr (Inr rep)" "de_transports env = Some transports" by blast
        have run3: "start_attached transports env eng q pf rep w3 = (x, w2)"
          using ran(1) y t eng by (simp add: start_locked_def dbind_def)
        have "start_ready env (sq_run_id q) w3"
          by (rule start_ready_books [OF ready]) (use reuse_books [OF y] in \<open>simp_all add: same_books_def\<close>)
        from start_attached_outcome(2) [OF this t(2) run3] failing_attach_not_recorded [OF a run3] show ?thesis by simp
      qed
    qed
    then show ?thesis
      using run c w0 pf x manifest_refusal_failure
      by (fastforce simp: debug_start_session_handler_def dbind_def is_recorded_def split: sum.splits option.splits prod.splits)
  qed
qed
subsection \<open>A booted run\<close>

definition ex_dbg_endpoint :: dict_items where
  "ex_dbg_endpoint = [(KStr ''host'', RawStr ''127.0.0.1''), (KStr ''port'', RawInt 1234)]"

definition ex_dbg_frozen :: frozen where
  "ex_dbg_frozen = FMap [(''host'', FStr ''127.0.0.1''), (''port'', FInt 1234)]"

definition ex_dbg_snapshot :: target_snapshot where
  "ex_dbg_snapshot = \<lparr>ss_generation = 1, ss_transports = [\<lparr>tr_provider = ''qemu-gdbstub'', tr_channel_id = ''rsp0'',
      tr_line_role = RSP, tr_caps = [''rsp''], tr_target_ref = ex_dbg_frozen, tr_opts = FMap [], tr_secret_refs = []\<rparr>],
     ss_platform = ex_platform, ss_state = TS_READY, ss_lease = None\<rparr>"

definition ex_dbg_sys :: sys where
  "ex_dbg_sys = ex_sys\<lparr>sy_admission := run_calls [Publish (local_qemu ''r1'') ex_dbg_snapshot] (new_admission 300)\<rparr>"

definition ex_dbg_results :: "(string \<times> step_result) list" where
  "ex_dbg_results =
    [(''build'', \<lparr>sr_step_name = ''build'', sr_status = SUCCEEDED, sr_summary = [],
       sr_artifacts = [\<lparr>ar_path = ''/vmlinux'', ar_kind = ''vmlinux'', ar_sensitive = False, ar_description = None\<rparr>,
                       \<lparr>ar_path = ''/bz'', ar_kind = ''kernel-image'', ar_sensitive = False, ar_description = None\<rparr>], sr_details = []\<rparr>),
     (''boot'', \<lparr>sr_step_name = ''boot'', sr_status = SUCCEEDED, sr_summary = [], sr_artifacts = [],
       sr_details = [(''debug_boot'', RawBool True), (''gdbstub_endpoint'', RawMap ex_dbg_endpoint),
         (''kernel_provenance'', RawMap [(KStr ''build_id'', RawStr ''deadbeef'')])]\<rparr>)]"

definition ex_dbg_store :: store where
  "ex_dbg_store = ex_store\<lparr>runs := [(''r1'', ex_run\<lparr>manifest_file := Some (Parsed (ex_manifest\<lparr>step_results := ex_dbg_results\<rparr>))\<rparr>)]\<rparr>"

definition ex_dbg_world :: "unit world" where
  "ex_dbg_world = \<lparr>w_sys = ex_dbg_sys, w_store = ex_dbg_store, w_live = [], w_files = [], w_gdb = ()\<rparr>"

definition connected_item :: dict_items where
  "connected_item = [(KStr ''type'', RawStr ''result''), (KStr ''message'', RawStr ''connected''),
     (KStr ''payload'', RawMap [(KStr ''value'', RawStr ''0x1'')])]"

definition ex_dbg_engine :: "string option \<Rightarrow> unit mi_env" where
  "ex_dbg_engine g = canned (Inr [connected_item]) (Inr []) (Inr ()) \<lparr>gdb_path := g\<rparr>"

definition ex_dbg_env :: "string option \<Rightarrow> (unit, unit) debug_env" where
  "ex_dbg_env g = \<lparr>de_host = ex_crash_host, de_root = Path True [''srv''], de_faults = no_faults, de_fs_ok = (\<lambda>_. True),
     de_secrets = [], de_now = ''t1'', de_uuid_hex = ''u1'', de_engine = Some (ex_dbg_engine g), de_live_registry = True,
     de_transports = Some ex_transports, de_admission = True, de_registry = True, de_guard = None,
     de_open = ex_env {} (\<lambda>_. True), de_profiles = None, de_vmlinux_file = (\<lambda>_. None),
     de_build_id_reader = (\<lambda>_. Inr ''deadbeef'')\<rparr>"

definition ex_dbg_request :: start_request where
  "ex_dbg_request = \<lparr>sq_run_id = ''r1'', sq_debug_profile = None, sq_new_session = True, sq_recovery = False\<rparr>"


lemma no_gdb_attach: "attach (ex_dbg_engine None) e v g = (r, g') \<Longrightarrow> \<exists>err. r = Inl err"
  by (auto simp: attach_def attach_inputs_def ex_dbg_engine_def split: sum.splits)

lemma ex_dbg_ready: "start_ready (ex_dbg_env g) ''r1'' ex_dbg_world"
  using adm_ok_run [OF adm_ok_new [of 300], of "[Publish (local_qemu ''r1'') ex_dbg_snapshot]"]
  by (simp add: start_ready_def ex_dbg_env_def ex_dbg_world_def ex_dbg_sys_def ex_sys_ok fs_fine_def guard_outside_def registered_by_name_def
     readable_others_def ex_env_quiet ex_transports_def ex_transport_def ex_capability_def ex_env_def ex_sys_def new_registry_def leases_ok_def
     del: run_calls.simps)


lemma ex_dbg_preflight: "(case debug_start_session_preflight (ex_dbg_env None) ex_dbg_request ex_dbg_world of (Inr (Inr p), w) \<Rightarrow> True | _ \<Rightarrow> False)"
  by code_simp

lemma ex_dbg_lock: "(case verify_gdb_symbol_version_lock (\<lambda>_. []) (\<lambda>_. Inr ''deadbeef'') (snd (ex_dbg_results ! 1)) None :: (unit debug_raised, tool_response option) result of
    Inr None \<Rightarrow> True | _ \<Rightarrow> False)"
  by code_simp
subsection \<open>A failing start\<close>




subsection \<open>The kernel's symbols are checked first\<close>

definition symbols_match :: "('g, 'x) debug_env \<Rightarrow> step_result \<Rightarrow> artifact_ref \<Rightarrow> bool" where
  "symbols_match env boot vmlinux \<longleftrightarrow>
     (\<exists>prov expected. map_of (sr_details boot) ''kernel_provenance'' = Some (RawMap prov) \<and> get_field ''build_id'' prov = RawStr expected
        \<and> re_match build_id_re expected \<noteq> None
        \<and> verify_vmlinux_provenance (de_build_id_reader env) expected (de_vmlinux_file env (parse_path (ar_path vmlinux))) = Inr expected)"

lemma version_lock_passes:
  "verify_gdb_symbol_version_lock rp (de_build_id_reader env) boot (de_vmlinux_file env (parse_path (ar_path v))) = (Inr None :: ('x debug_raised, _) result)
    \<Longrightarrow> symbols_match env boot v"
  by (auto simp: symbols_match_def verify_gdb_symbol_version_lock_def verify_vmlinux_provenance_def verify_build_id_def rbind_def
      split: option.splits raw.splits if_splits sum.splits provenance_error.splits elf_raised.splits)

definition start_allowed :: "('g, 'x) debug_env \<Rightarrow> start_request \<Rightarrow> run_manifest \<Rightarrow> bool" where
  "start_allowed env q m \<longleftrightarrow>
     (\<exists>build boot vmlinux name p. succeeded_step ''build'' m = Some build \<and> succeeded_step ''boot'' m = Some boot
        \<and> map_of (sr_details boot) ''debug_boot'' = Some (RawBool True) \<and> find_artifact build ''vmlinux'' = Some vmlinux
        \<and> symbols_match env boot vmlinux
        \<and> map_of (case de_profiles env of None \<Rightarrow> default_debug_profiles | Some ps \<Rightarrow> ps) name = Some p
        \<and> ''debug.start_session'' \<in> set (enabled_operations p))"

lemma preflight_checked:
  assumes "check_preflight env q dir m = (Inr (Inr pf) :: ('x debug_raised, _) result)"
  obtains build boot name p where "succeeded_step ''build'' m = Some build" "succeeded_step ''boot'' m = Some boot" "pf_boot pf = boot"
    "map_of (sr_details boot) ''debug_boot'' = Some (RawBool True)" "find_artifact build ''vmlinux'' = Some (pf_vmlinux pf)"
    "map_of (case de_profiles env of None \<Rightarrow> default_debug_profiles | Some ps \<Rightarrow> ps) name = Some p"
    "''debug.start_session'' \<in> set (enabled_operations p)"
  using assms
  by (auto simp: check_preflight_def preflight_profile_def resolve_debug_profile_def ensure_debug_operation_enabled_def profile_refusal_def
      rbind_def Let_def split: option.splits if_splits raw.splits sum.splits debug_raised.splits)

lemma find_run_manifest: "find_run env k s = Inr (Some (d, m)) \<Longrightarrow> load_manifest k (de_faults env) s = Inr m"
  by (auto simp: find_run_def rbind_def split: sum.splits if_splits)



text \<open>A check before the attach that leaves a mark and refuses.\<close>

definition ex_marking_env :: "(unit, unit) debug_env" where
  "ex_marking_env = (ex_dbg_env None)\<lparr>de_guard := Some \<lparr>gp_pre_attach = [\<lambda>_ w. (Inl (Precondition_error ''ssh''),
      w\<lparr>w_live := [(''mark'', \<lparr>at_host = [], at_port = 0, at_records = []\<rparr>)]\<rparr>)], gp_post_attach = [], gp_teardown_steps = []\<rparr>\<rparr>"

lemma ex_marked:
  "w_live (snd (debug_start_session_handler ex_marking_env (\<lambda>_. []) ex_dbg_request ex_dbg_world)) \<noteq> w_live ex_dbg_world"
  by code_simp


end
