(* ===== verification/DebugOpProps.thy ===== *)
theory DebugOpProps
  imports DebugStartProps
begin

text \<open>
  The properties of the operations on a live debug session and of its end: what has to hold
  before gdb is spoken to, what a stalled or faulted engine leaves, and what an ended session
  gives back.
\<close>

subsection \<open>The lock leaves the manifest\<close>

lemma debug_lock_reads:
  assumes "debug_lock k f body s = (Inr v, s')"
  obtains t t' where "body t = (Inr v, t')" "\<And>g. load_manifest k g t = load_manifest k g s" "manifest_of k s' = manifest_of k t'"
proof -
  have c: "checked_run_id k = Inr k" using assms by (auto simp: debug_lock_def checked_run_id_Inr split: sum.splits)
  then obtain d where d: "run_at k s = Some d" using assms by (auto simp: debug_lock_def with_run_lock_def split: option.splits)
  let ?t = "put_run k (d\<lparr>run_locks := ''.debug.lock'' # run_locks d\<rparr>) s"
  obtain t' where t: "body ?t = (Inr v, t')"
    and s': "s' = (case run_at k t' of None \<Rightarrow> t' | Some d' \<Rightarrow> put_run k (d'\<lparr>run_locks := removeAll ''.debug.lock'' (run_locks d')\<rparr>) t')"
    using assms d c by (auto simp: debug_lock_def with_run_lock_def Let_def split: if_splits prod.splits)
  have "load_manifest k g ?t = load_manifest k g s" for g by (simp add: load_manifest_def c d)
  moreover have "manifest_of k s' = manifest_of k t'" by (simp add: s' manifest_of_def split: option.split)
  ultimately show ?thesis using t that by blast
qed

lemma with_debug_lock_reads:
  assumes "with_debug_lock env run_id body w = (r, w')"
  obtains (unlocked) e s' where "r = Inl (Store_failed e)" "w' = w\<lparr>w_store := s'\<rparr>"
  | (ran) s s' w1 where "body (w\<lparr>w_store := s\<rparr>) = (r, w1)" "w' = w1\<lparr>w_store := s'\<rparr>"
      "\<And>g. load_manifest run_id g s = load_manifest run_id g (w_store w)" "manifest_of run_id s' = manifest_of run_id (w_store w1)"
proof -
  obtain x s' where l: "debug_lock run_id (de_faults env)
      (\<lambda>s. let (r, w1) = body (w\<lparr>w_store := s\<rparr>) in (Inr (r, w1), w_store w1)) (w_store w) = (x, s')" by fastforce
  show ?thesis
  proof (cases x)
    case (Inl e)
    with l assms show ?thesis by (intro unlocked) (auto simp: with_debug_lock_def)
  next
    case (Inr y)
    obtain r1 w1 where y: "y = (r1, w1)" by fastforce
    from debug_lock_reads [OF l [unfolded Inr y]] obtain t t' where
      t: "(let (r, w1) = body (w\<lparr>w_store := t\<rparr>) in (Inr (r, w1), w_store w1)) = (Inr (r1, w1) :: (store_error, _) result, t')"
        "\<And>g. load_manifest run_id g t = load_manifest run_id g (w_store w)" "manifest_of run_id s' = manifest_of run_id t'" by blast
    then have "body (w\<lparr>w_store := t\<rparr>) = (r1, w1)" "t' = w_store w1" by (auto split: prod.splits)
    with l assms Inr y t show ?thesis by (intro ran [of t w1 s']) (auto simp: with_debug_lock_def)
  qed
qed

lemma with_debug_lock_free:
  assumes "checked_run_id k = Inr k" and "run_at k (w_store w) = Some d" and "''.debug.lock'' \<notin> set (run_locks d)"
    and "\<not> de_faults env Open_lock" and "\<not> de_faults env Write_lock"
  shows "\<exists>s s'. run_at k s = Some (d\<lparr>run_locks := ''.debug.lock'' # run_locks d\<rparr>) \<and> with_debug_lock env k body w
     = (fst (body (w\<lparr>w_store := s\<rparr>)), (snd (body (w\<lparr>w_store := s\<rparr>)))\<lparr>w_store := s'\<rparr>)"
proof -
  let ?s = "put_run k (d\<lparr>run_locks := ''.debug.lock'' # run_locks d\<rparr>) (w_store w)"
  have "\<exists>s'. with_debug_lock env k body w = (fst (body (w\<lparr>w_store := ?s\<rparr>)), (snd (body (w\<lparr>w_store := ?s\<rparr>)))\<lparr>w_store := s'\<rparr>)"
  proof -
    obtain r w1 where b: "body (w\<lparr>w_store := ?s\<rparr>) = (r, w1)" by fastforce
    show ?thesis using assms by (simp add: with_debug_lock_def debug_lock_def with_run_lock_def Let_def b) blast
  qed
  moreover have "run_at k ?s = Some (d\<lparr>run_locks := ''.debug.lock'' # run_locks d\<rparr>)" by simp
  ultimately show ?thesis by blast
qed

subsection \<open>What an operation needs\<close>

definition active_session :: "('g, 'x) debug_env \<Rightarrow> string \<Rightarrow> string option \<Rightarrow> bool \<Rightarrow> store \<Rightarrow> debug_session \<Rightarrow> bool" where
  "active_session env run_id asked allow_ended s ds \<longleftrightarrow>
     (\<exists>m step. load_manifest run_id (de_faults env) s = Inr m \<and> map_of (step_results m) ''debug'' = Some step \<and> sr_status step = SUCCEEDED
        \<and> map_of (sr_details step) ''debug_session_id'' = Some (RawStr (ds_session_id ds)))
     \<and> ds_run_id ds = run_id \<and> (allow_ended \<or> ds_state ds \<noteq> DS_ended) \<and> (\<forall>i. asked = Some i \<longrightarrow> i = ds_session_id ds)"

lemma check_session_Inr:
  assumes "check_session h d k active ended p ds0 = (Inr ds :: ('x debug_raised, _) result)"
  shows "ds0 = ds \<and> ds_run_id ds = k \<and> active = RawStr (ds_session_id ds) \<and> (ended \<or> ds_state ds \<noteq> DS_ended)"
  using assms by (auto simp: check_session_def rbind_def split: if_splits sum.splits)

lemma load_active_sound:
  fixes env :: "('g, 'x) debug_env"
  assumes "load_active_debug_session env d k asked ended w = (Inr ds, w')"
  shows "w' = w \<and> active_session env k asked ended (w_store w) ds"
proof -
  obtain m where m: "load_manifest k (de_faults env) (w_store w) = Inr m"
    using assms by (auto simp: load_active_debug_session_def dbind_def store_read_def store_op_def split: sum.splits)
  obtain details where det: "Option.bind (map_of (step_results m) ''debug'') (\<lambda>res. debug_session_details_from_result res ended) = Some details"
    using assms m by (auto simp: load_active_debug_session_def dbind_def store_read_def store_op_def dread_def split: option.splits)
  then obtain step where step: "map_of (step_results m) ''debug'' = Some step" "sr_status step = SUCCEEDED" "details = sr_details step"
    by (auto simp: bind_eq_Some_conv debug_session_details_from_result_def split: if_splits)
  let ?active = "field_value ''debug_session_id'' details"
  have w: "w' = w" and asked: "\<not> (asked \<noteq> None \<and> ?active \<noteq> RawStr (the asked))"
    using assms m det by (auto simp: load_active_debug_session_def dbind_def store_read_def store_op_def dread_def Let_def split: if_splits)
  have "\<exists>p ds0. check_session (de_host env) d k ?active ended p ds0 = (Inr ds :: ('x debug_raised, _) result)"
    using assms m det by (auto simp: load_active_debug_session_def dbind_def store_read_def store_op_def dread_def Let_def rbind_def
        split: if_splits raw.splits sum.splits)
  then obtain p ds0 where "check_session (de_host env) d k ?active ended p ds0 = (Inr ds :: ('x debug_raised, _) result)" by blast
  from check_session_Inr [OF this] m step w asked show ?thesis
    by (auto simp: active_session_def field_value_def split: option.splits)
qed

lemma fence_passed:
  "enforce_debug_ownership_fence env b k w = (Inr (), w') \<Longrightarrow>
     w' = w \<and> (de_registry env \<longrightarrow> (\<exists>rec. read_record (local_qemu k) (sy_registry (w_sys w)) = Inr (Some rec)))"
  by (auto simp: enforce_debug_ownership_fence_def fence_legacy_debug_session_def assert_layer4_ownership_def dbind_def dret_def draise_def
      read_transport_def dread_def split: if_splits sum.splits prod.splits)

lemma fence_refused:
  "enforce_debug_ownership_fence env b k w = (Inl e, w') \<Longrightarrow> w_gdb w' = w_gdb w \<and> w_live w' = w_live w"
  by (auto simp: enforce_debug_ownership_fence_def fence_legacy_debug_session_def assert_layer4_ownership_def dbind_def dret_def draise_def
      read_transport_def dread_def mark_legacy_session_recovery_required_def Let_def split: if_splits sum.splits prod.splits)

definition operation_allowed :: "('g, 'x) debug_env \<Rightarrow> string \<Rightarrow> string option \<Rightarrow> bool \<Rightarrow> debug_request \<Rightarrow> 'g world \<Rightarrow> bool" where
  "operation_allowed env run_id asked allow_ended req w \<longleftrightarrow>
     (\<exists>ds p a. active_session env run_id asked allow_ended (w_store w) ds
        \<and> map_of (case de_profiles env of None \<Rightarrow> default_debug_profiles | Some ps \<Rightarrow> ps) (ds_profile ds) = Some p
        \<and> profile_operation req \<in> set (enabled_operations p) \<and> map_of (w_live w) (ds_session_id ds) = Some a
        \<and> (de_registry env \<longrightarrow> (\<exists>rec. read_record (local_qemu run_id) (sy_registry (w_sys w)) = Inr (Some rec))))"

lemma op_locked_allowed:
  fixes env :: "('g, 'x) debug_env"
  assumes run: "op_locked env eng handles_of d k asked ended req w = (x, w')"
  shows "w_gdb w' = w_gdb w \<and> w_live w' = w_live w \<or> operation_allowed env k asked ended req w"
proof -
  obtain y w1 where y: "load_active_debug_session env d k asked ended w = (y, w1)" by fastforce
  show ?thesis
  proof (cases y)
    case (Inl e)
    then have "w' = w1" using run y by (simp add: op_locked_def dbind_def)
    moreover have "w1 = w" using y
      by (auto simp: load_active_debug_session_def dbind_def store_read_def store_op_def dread_def split: sum.splits)
    ultimately show ?thesis by simp
  next
    case (Inr ds)
    note active = load_active_sound [OF y [unfolded Inr]]
    obtain z w2 where z: "enforce_debug_ownership_fence env (de_admission env \<and> requires_admission_fence req) k w = (z, w2)" by fastforce
    show ?thesis
    proof (cases z)
      case Inl': (Inl e)
      then have "w' = w2" using run y z Inr active by (simp add: op_locked_def dbind_def Let_def)
      with fence_refused [OF z [unfolded Inl']] show ?thesis by simp
    next
      case Inr': (Inr u)
      have fence: "w2 = w \<and> (de_registry env \<longrightarrow> (\<exists>rec. read_record (local_qemu k) (sy_registry (w_sys w)) = Inr (Some rec)))"
        using fence_passed [of env _ k w w2] z Inr' by auto
      let ?p = "rbind (resolve_debug_profile (ds_profile ds) (de_profiles env)) (\<lambda>p. ensure_debug_operation_enabled p (profile_operation req)) :: ('x debug_raised, unit) result"
      show ?thesis
      proof (cases "?p = Inr () \<and> map_of (w_live w) (ds_session_id ds) \<noteq> None")
        case False
        then have "w' = w"
          using run y z Inr Inr' active fence
          by (auto simp: op_locked_def dbind_def Let_def dread_def session_require_def session_get_def split: sum.splits option.splits)
        then show ?thesis by simp
      next
        case True
        then show ?thesis using active fence
          by (auto simp: operation_allowed_def resolve_debug_profile_def ensure_debug_operation_enabled_def rbind_def split: option.splits sum.splits if_splits)
      qed
    qed
  qed
qed

text \<open>C35: an operation speaks to gdb, or touches the registry of live attachments, only for the run's
  active session: the manifest's debug step records it, its file belongs to the run and, where
  asked for, is the session named by the client, it has not ended, its profile enables the
  operation, its attachment is alive in this server, and the target has an ownership record.\<close>

theorem operation_needs_active_session:
  fixes env :: "('g, 'x) debug_env"
  assumes run: "debug_operation_response env handles_of run_id asked allow_ended req w = (r, w')"
    and touched: "w_gdb w' \<noteq> w_gdb w \<or> w_live w' \<noteq> w_live w"
  shows "operation_allowed env run_id asked allow_ended req w"
proof -
  obtain d eng x w1 where lock: "with_debug_lock env run_id (op_locked env eng handles_of d run_id asked allow_ended req) w = (x, w1)"
    and w': "w' = w1"
    using run touched
    by (fastforce simp: debug_operation_response_def Let_def map_debug_op_exception_def handled_def draise_def dret_def
        split: sum.splits if_splits option.splits bool.splits list.splits prod.splits)
  from lock show ?thesis
  proof (cases rule: with_debug_lock_reads)
    case (unlocked e s')
    then show ?thesis using touched w' by simp
  next
    case (ran s s' w2)
    from op_locked_allowed [OF ran(1)] have "operation_allowed env run_id asked allow_ended req (w\<lparr>w_store := s\<rparr>)"
      using touched w' ran(2) by auto
    then show ?thesis by (simp add: operation_allowed_def active_session_def ran(3))
  qed
qed

subsection \<open>Stalls and faults\<close>

text \<open>What is done on an attachment touches gdb and nothing else of the world.\<close>

definition books_kept :: "('g, 'x, 'a) aop \<Rightarrow> bool" where
  "books_kept m \<longleftrightarrow> (\<forall>a w. same_books w (snd (snd (m a w))))"

lemma books_kept_bind:
  assumes "books_kept m" and "\<And>v. books_kept (f v)"
  shows "books_kept (abind m f)"
  unfolding books_kept_def
proof (intro allI)
  fix a w
  obtain x a1 w1 where m: "m a w = (x, a1, w1)" by (metis prod_cases3)
  with assms(1) have "same_books w w1" by (metis books_kept_def snd_conv)
  moreover have "same_books w1 (snd (snd (f v a1 w1)))" for v using assms(2) by (simp add: books_kept_def)
  ultimately show "same_books w (snd (snd (abind m f a w)))"
    using m by (cases x) (auto simp: abind_def intro: same_books_trans)
qed

lemma books_kept_ret: "books_kept (aret v)"
  by (simp add: books_kept_def aret_def)

lemma books_kept_gdb: "books_kept (gdb_op f)"
  unfolding books_kept_def by (metis gdb_op_books prod.collapse)

lemma books_kept_of: "(\<And>w. same_books w (snd (f w))) \<Longrightarrow> books_kept (aop_of f)"
  by (simp add: books_kept_def aop_of_def split: prod.split) (metis snd_conv)

lemma inject_books: "same_books w (snd (inject_for_session h sid m w))"
  by (simp add: inject_for_session_def same_books_def split: prod.split sum.split inject_raise.split)

lemma lookup_books: "same_books w (snd (lookup_transport_session env k w))"
  by (auto simp: lookup_transport_session_def recorded_transport_session_id_def dbind_def dret_def dread_def
      split: sum.splits option.splits prod.splits)

lemmas books_kept_intros = books_kept_bind books_kept_ret books_kept_gdb books_kept_of inject_books lookup_books

lemma books_kept_engine_op: "books_kept (engine_op env eng hs k ds req)"
proof -
  have "books_kept (interrupt_op_data env eng hs v)" for v
    unfolding interrupt_op_data_def by (cases v) (simp_all add: books_kept_intros)
  then show ?thesis
    unfolding engine_op_def by (intro books_kept_intros conjI impI | simp split: if_split | rule books_kept_intros)+
qed

text \<open>The teardown of a stalled session frees the target, whatever was recorded last.\<close>

lemma teardown_stalled_frees:
  fixes env :: "('g, 'x) debug_env" and w :: "'g world"
  assumes h: "session_held (local_qemu run_id) sid s0 (w_sys w)" and r: "recorded_as transports (local_qemu run_id) sid st (w_sys w)"
    and t: "de_transports env = Some transports" "de_registry env"
    and fs: "fs_fine env" "de_fs_ok env Write_executing" and gp: "guard_outside env"
  shows "\<exists>w'. teardown_stalled_debug_session env run_id adm w = (Inr (), w') \<and> freed_in (local_qemu run_id) (adm \<or> st = EXECUTING) s0 w w'"
proof -
  let ?k = "local_qemu run_id"
  obtain rec where rec: "read_record ?k (sy_registry (w_sys w)) = Inr (Some rec)" "our_record ?k sid rec" "transports (ts_provider rec) \<noteq> None"
    using r by (auto simp: recorded_as_def)
  have eq: "teardown_stalled_debug_session env run_id adm w =
      dbind (if adm then dsuppress (resume_debug_transport env rec) else dret ()) (\<lambda>_. dsuppress (teardown_debug_transport transports env rec)) w"
    by (simp add: teardown_stalled_debug_session_def t dbind_def read_transport_def dread_def rec(1))
  show ?thesis
  proof (cases adm)
    case True
    from resume_and_teardown [where transports = transports and f = "\<lambda>_ :: unit. dret () :: ('g, 'x, unit) dop", OF h rec(2,3) fs gp] True obtain w1 where
      w1: "dbind (dsuppress (resume_debug_transport env rec)) (\<lambda>_. dbind (teardown_debug_transport transports env rec) (\<lambda>_. dret ())) w = (dret () :: ('g, 'x, unit) dop) w1"
        "freed_in ?k True s0 w w1" by blast
    then have "dbind (dsuppress (resume_debug_transport env rec)) (\<lambda>_. dsuppress (teardown_debug_transport transports env rec)) w = (Inr (), w1)"
      by (auto simp: dbind_def dsuppress_def dret_def split: prod.splits sum.splits)
    with w1(2) True show ?thesis unfolding eq by auto
  next
    case False
    from teardown_frees [OF h r fs(1) gp rec(2)] False show ?thesis unfolding eq by (auto simp: dbind_def dret_def dsuppress_def)
  qed
qed

lemma stalled_run:
  fixes env :: "('g, 'x) debug_env" and w :: "'g world"
  assumes x: "engine_op env eng hs run_id ds req a w = (Inl e, a1, w1)" and e: "is_stall e"
    and h: "session_held (local_qemu run_id) sid s0 (w_sys w)" and rec: "recorded_as transports (local_qemu run_id) sid st (w_sys w)"
    and t: "de_transports env = Some transports" "de_registry env"
    and fs: "fs_fine env" "de_fs_ok env Write_executing" and gp: "guard_outside env"
  shows "\<exists>w'. run_debug_engine_op env eng hs adm run_id ds req a w
      = (Inr (Op_failure INFRASTRUCTURE_FAILURE (code_field ''transport_stall'')), w') \<and> undone (local_qemu run_id) adm (ds_session_id ds) s0 w w'"
proof -
  let ?dsid = "ds_session_id ds" and ?k = "local_qemu run_id"
  have b: "same_books w w1" using books_kept_engine_op [of env eng hs run_id ds req] x by (auto simp: books_kept_def) (metis snd_conv)
  let ?w2 = "keep_attachment ?dsid a1 w1"
  have w2: "w_sys ?w2 = w_sys w" "w_store ?w2 = w_store w" "map_of (w_live ?w2) = (map_of (w_live w))(?dsid \<mapsto> a1)"
    using b by (simp_all add: keep_attachment_def same_books_def)
  obtain w3 where w3: "(reap_and_resume eng ?dsid :: ('g, 'x, unit) dop) ?w2 = (Inr (), w3)" "w_sys w3 = w_sys ?w2" "w_store w3 = w_store ?w2"
      "w_live w3 = dict_pop ?dsid (w_live ?w2)"
    by (rule reap_and_resume_books)
  have "session_held ?k sid s0 (w_sys w3)" "recorded_as transports ?k sid st (w_sys w3)" using h rec w2 w3(2) by simp_all
  from teardown_stalled_frees [OF this t fs gp] obtain w4 where
    w4: "teardown_stalled_debug_session env run_id adm w3 = (Inr (), w4)" "freed_in ?k (adm \<or> st = EXECUTING) s0 w3 w4" by blast
  have "run_debug_engine_op env eng hs adm run_id ds req a w = (Inr (Op_failure INFRASTRUCTURE_FAILURE (code_field ''transport_stall'')), w4)"
    using x e w3(1) w4(1) by (simp add: run_debug_engine_op_def dbind_def dret_def)
  moreover have "undone ?k adm ?dsid s0 w w4" using w4(2) w3 w2 by (auto simp: undone_def freed_in_def)
  ultimately show ?thesis by blast
qed

definition operation_outcome :: "target_key \<Rightarrow> bool \<Rightarrow> string \<Rightarrow> sys \<Rightarrow> 'g world \<Rightarrow> ('x debug_raised, op_result) result \<Rightarrow> 'g world \<Rightarrow> bool" where
  "operation_outcome k unmarked dsid s0 w r w' \<longleftrightarrow>
     (case r of
        Inr (Op_failure c d) \<Rightarrow>
          d = code_field ''transport_stall'' \<and> undone k unmarked dsid s0 w w'
          \<or> d = code_field ''debug_engine_faulted'' \<and> w_sys w' = w_sys w \<and> map_of (w_live w') = (map_of (w_live w))(dsid := None)
          \<or> (\<exists>i. inject_error_failure i = (c, d)) \<and> w_sys w' = w_sys w \<and> dom (map_of (w_live w')) = insert dsid (dom (map_of (w_live w)))
      | _ \<Rightarrow> w_sys w' = w_sys w \<and> dom (map_of (w_live w')) = insert dsid (dom (map_of (w_live w))))"


definition ex_stalling :: "unit mi_env" where
  "ex_stalling = canned (Inl (timeout_error ''-break-list'')) (Inr []) (Inr ())"

definition ex_debug_session :: debug_session where
  "ex_debug_session = \<lparr>ds_session_id = ''debug-u1'', ds_run_id = ''vm1'', ds_provider_name = ''local-qemu-gdbstub'',
     ds_gdbstub_endpoint = ex_dbg_endpoint, ds_vmlinux_path = ''/vmlinux'', ds_profile = ''qemu-gdbstub-default'',
     ds_attach_status = ATTACHED, ds_started_at = ''t0'', ds_ended_at = None, ds_state = DS_stopped, ds_breakpoints = [],
     ds_loaded_modules = [], ds_transcript_path = ''/srv/vm1/debug/mi-probe.log'',
     ds_command_metadata_path = ''/srv/vm1/debug/commands.jsonl'', ds_latest_summary_path = ''/srv/vm1/debug/debug-summary.json'',
     ds_symbol_identity = []\<rparr>"

definition ex_attachment :: attachment where
  "ex_attachment = \<lparr>at_host = ''127.0.0.1'', at_port = 1234, at_records = []\<rparr>"

definition ex_live_world :: "unit world" where
  "ex_live_world = \<lparr>w_sys = snd (ex_open {} (\<lambda>_. True)), w_store = ex_dbg_store, w_live = [(''debug-u1'', ex_attachment)],
     w_files = [], w_gdb = ()\<rparr>"

lemma no_inject_stall: "inject_error_failure i \<noteq> (c, [(''code'', RawStr ''transport_stall'')])"
  by (cases i) (simp_all add: code_field_def)

lemma ex_stalls:
  "\<exists>a'. engine_op (ex_dbg_env None) ex_stalling hs ''vm1'' ex_debug_session List_breakpoints a w = (Inl (Gdb_failed (timeout_error ''-break-list'')), a', w)"
  by (cases w) (simp add: engine_op_def abind_def gdb_op_def ex_stalling_def canned_def list_breakpoints_def mi_bind_def mi_map_def run_command_def write_command_def mi_io_def)

lemma ex_live_held:
  "\<exists>ses. session_held (local_qemu ''vm1'') ''s0'' ex_sys (w_sys ex_live_world)
     \<and> read_record (local_qemu ''vm1'') (sy_registry (w_sys ex_live_world)) = Inr (Some ses)
     \<and> recorded_as ex_transports (local_qemu ''vm1'') ''s0'' (execution_state ses) (w_sys ex_live_world)"
proof -
  obtain ses :: transport_session where o: "ex_open {} (\<lambda>_. True) = (Inr ses, w_sys ex_live_world)"
    using ex_open_succeeds by (cases "ex_open {} (\<lambda>_. True)"; cases "fst (ex_open {} (\<lambda>_. True))") (auto simp: ex_live_world_def)
  have key: "req_target_key (ex_request 1) = ex_key" "local_qemu ''vm1'' = ex_key" by (simp_all add: ex_request_def local_qemu_def ex_key_def)
  have own: "readable_others (req_target_key (ex_request 1)) (oe_session_id (ex_env {} (\<lambda>_. True))) (owner_files (sy_registry ex_sys))"
    and named: "registered_by_name ex_transports"
    by (simp_all add: readable_others_def ex_sys_def new_registry_def registered_by_name_def ex_transports_def ex_transport_def ex_capability_def)
  note h = open_held [OF o [unfolded ex_open_def] ex_env_quiet _ ex_sys_ok(1-3) own named, unfolded key(1)]
  have "oe_session_id (ex_env {} (\<lambda>_. True)) = ''s0''" by (simp add: ex_env_def)
  with h show ?thesis by (auto simp: key(2) recorded_as_def ex_env_def)
qed



definition ex_op_run :: run_dir where
  "ex_op_run = ex_run\<lparr>manifest_file := Some (Parsed (ex_manifest\<lparr>step_results :=
       [(''debug'', debug_step [] [] [(''debug_session_id'', RawStr ''debug-u1''), (''session_path'', RawStr ''/srv/vm1/debug/sessions/debug-u1.json''),
         (''transport_session_id'', RawStr ''s0'')])]\<rparr>))\<rparr>"

definition ex_op_world :: "unit world" where
  "ex_op_world = ex_live_world\<lparr>w_store := ex_store\<lparr>runs := [(''vm1'', ex_op_run)]\<rparr>,
     w_files := [(Path True [''srv'', ''vm1'', ''debug'', ''sessions'', ''debug-u1.json''], Parsed ex_debug_session)]\<rparr>"

definition ex_op_env :: "(unit, unit) debug_env" where
  "ex_op_env = (ex_dbg_env None)\<lparr>de_engine := Some (canned (Inl (Other_exception ''BrokenPipe'')) (Inr []) (Inr ())),
     de_guard := Some \<lparr>gp_pre_attach = [], gp_post_attach = [], gp_teardown_steps = []\<rparr>\<rparr>"

lemma ex_op_paths:
  "require_run_debug_path ex_crash_host (parse_path ''/srv/vm1/debug/sessions/debug-u1.json'') (Path True [''srv'', ''vm1''])
     = (Inr (Path True [''srv'', ''vm1'', ''debug'', ''sessions'', ''debug-u1.json'']) :: (unit debug_raised, path) result)"
  "require_run_debug_path ex_crash_host (parse_path ''/srv/vm1/debug/mi-probe.log'') (Path True [''srv'', ''vm1''])
     = (Inr (Path True [''srv'', ''vm1'', ''debug'', ''mi-probe.log'']) :: (unit debug_raised, path) result)"
  "require_run_debug_path ex_crash_host (parse_path ''/srv/vm1/debug/commands.jsonl'') (Path True [''srv'', ''vm1''])
     = (Inr (Path True [''srv'', ''vm1'', ''debug'', ''commands.jsonl'']) :: (unit debug_raised, path) result)"
  "require_run_debug_path ex_crash_host (parse_path ''/srv/vm1/debug/debug-summary.json'') (Path True [''srv'', ''vm1''])
     = (Inr (Path True [''srv'', ''vm1'', ''debug'', ''debug-summary.json'']) :: (unit debug_raised, path) result)"
  by code_simp+

lemma ex_op_run_dir: "run_dir_of ex_op_env ''vm1'' s = Inr (Path True [''srv'', ''vm1''])"
proof -
  have "validate_artifact_root ex_crash_host (Path True [''srv'']) [] [] = Inr (Path True [''srv''])" by code_simp
  moreover have "checked_run_id ''vm1'' = Inr ''vm1''" by code_simp
  ultimately show ?thesis
    by (simp add: run_dir_of_def ex_op_env_def ex_dbg_env_def new_store_def join_path_def)
qed

lemma ex_op_manifest:
  assumes "manifest_of ''vm1'' s = manifest_of ''vm1'' (w_store ex_op_world)"
  shows "load_manifest ''vm1'' no_faults s = Inr (ex_manifest\<lparr>step_results :=
       [(''debug'', debug_step [] [] [(''debug_session_id'', RawStr ''debug-u1''), (''session_path'', RawStr ''/srv/vm1/debug/sessions/debug-u1.json''),
         (''transport_session_id'', RawStr ''s0'')])]\<rparr>)"
proof -
  have "checked_run_id ''vm1'' = Inr ''vm1''" by code_simp
  then show ?thesis
    using assms by (auto simp: load_manifest_def manifest_of_def ex_op_world_def ex_op_run_def run_at_def split: option.splits)
qed

lemma ex_op_load:
  assumes "manifest_of ''vm1'' (w_store w) = manifest_of ''vm1'' (w_store ex_op_world)" and "w_files w = w_files ex_op_world"
  shows "load_active_debug_session ex_op_env (Path True [''srv'', ''vm1'']) ''vm1'' None b w = (Inr ex_debug_session, w)"
proof -
  have f: "de_faults ex_op_env = no_faults" "de_host ex_op_env = ex_crash_host" "de_fs_ok ex_op_env = (\<lambda>_. True)"
    by (simp_all add: ex_op_env_def ex_dbg_env_def)
  show ?thesis
    using ex_op_paths assms(2)
    by (simp add: load_active_debug_session_def f dbind_def store_read_def store_op_def dread_def ex_op_manifest [OF assms(1)] debug_step_def
       debug_session_details_from_result_def field_value_def read_session_file_def ex_op_world_def check_session_def ex_debug_session_def)
qed

lemma ex_op_locks:
  "run_at ''vm1'' (w_store ex_op_world) = Some ex_op_run" "''.debug.lock'' \<notin> set (run_locks ex_op_run)"
  "\<not> de_faults ex_op_env Open_lock" "\<not> de_faults ex_op_env Write_lock"
  by (simp_all add: ex_op_world_def run_at_def ex_op_run_def ex_run_def ex_op_env_def ex_dbg_env_def)

lemma ex_op_faults:
  "\<exists>a'. engine_op ex_op_env (canned (Inl (Other_exception ''BrokenPipe'')) (Inr []) (Inr ())) hs ''vm1'' ex_debug_session List_breakpoints a w
     = (Inl (Gdb_failed (Other_exception ''BrokenPipe'')), a', w)"
  by (cases w) (simp add: engine_op_def abind_def gdb_op_def canned_def list_breakpoints_def mi_bind_def mi_map_def run_command_def
      write_command_def mi_io_def)

lemma ex_op_locked:
  assumes "manifest_of ''vm1'' (w_store w) = manifest_of ''vm1'' (w_store ex_op_world)" and "w_files w = w_files ex_op_world"
    and "w_live w = w_live ex_op_world" and "w_sys w = w_sys ex_op_world"
  shows "w_live (snd (op_locked ex_op_env (canned (Inl (Other_exception ''BrokenPipe'')) (Inr []) (Inr ())) (\<lambda>_. None) (Path True [''srv'', ''vm1''])
     ''vm1'' None False List_breakpoints w)) = []"
proof -
  let ?eng = "canned (Inl (Other_exception ''BrokenPipe'')) (Inr []) (Inr ()) :: unit mi_env"
  have fence: "enforce_debug_ownership_fence ex_op_env b ''vm1'' w = (Inr (), w)" for b
    using ex_live_held assms(4)
    by (auto simp: enforce_debug_ownership_fence_def fence_legacy_debug_session_def assert_layer4_ownership_def dret_def dbind_def
        read_transport_def dread_def ex_op_world_def)
  have "''debug.list_breakpoints'' \<in> set allowed_debug_operations" by code_simp
  then have profile: "rbind (resolve_debug_profile (ds_profile ex_debug_session) (de_profiles ex_op_env))
      (\<lambda>p. ensure_debug_operation_enabled p ''debug.list_breakpoints'') = (Inr () :: (unit debug_raised, unit) result)"
    by (simp add: resolve_debug_profile_def ex_debug_session_def ex_op_env_def ex_dbg_env_def default_debug_profiles_def ensure_debug_operation_enabled_def)
  have live: "session_require (ds_session_id ex_debug_session) (w_live w) = Inr ex_attachment"
    by (simp add: assms(3) session_require_def session_get_def ex_op_world_def ex_live_world_def ex_debug_session_def)
  obtain a' where e: "engine_op ex_op_env ?eng (\<lambda>_. None) ''vm1'' ex_debug_session List_breakpoints ex_attachment w
     = (Inl (Gdb_failed (Other_exception ''BrokenPipe'')), a', w)" using ex_op_faults by blast
  obtain w3 where w3: "(reap_and_resume ?eng (ds_session_id ex_debug_session) :: (unit, unit, unit) dop) (keep_attachment (ds_session_id ex_debug_session) a' w) = (Inr (), w3)"
      "w_live w3 = dict_pop (ds_session_id ex_debug_session) (w_live (keep_attachment (ds_session_id ex_debug_session) a' w))"
    by (rule reap_and_resume_books)
  have "w_live w3 = []"
    by (simp add: w3(2) keep_attachment_def assms(3) ex_op_world_def ex_live_world_def ex_debug_session_def dict_pop_def)
  then show ?thesis
    using w3(1)
    by (simp add: op_locked_def dbind_def ex_op_load [OF assms(1,2)] Let_def fence profile dread_def live run_debug_engine_op_def e is_stall_def
        inject_failure_def dret_def)
qed

theorem operation_needs_active_session_witness:
  "operation_allowed ex_op_env ''vm1'' None False List_breakpoints ex_op_world"
proof -
  obtain r w' where run: "debug_operation_response ex_op_env (\<lambda>_. None) ''vm1'' None False List_breakpoints ex_op_world = (r, w')" by fastforce
  let ?body = "op_locked ex_op_env (canned (Inl (Other_exception ''BrokenPipe'')) (Inr []) (Inr ())) (\<lambda>_. None) (Path True [''srv'', ''vm1''])
      ''vm1'' None False List_breakpoints"
  have "checked_run_id ''vm1'' = Inr ''vm1''" by code_simp
  from with_debug_lock_free [OF this ex_op_locks, of ?body] obtain s s' where
    s: "run_at ''vm1'' s = Some (ex_op_run\<lparr>run_locks := ''.debug.lock'' # run_locks ex_op_run\<rparr>)" and
    lock: "with_debug_lock ex_op_env ''vm1'' ?body ex_op_world
      = (fst (?body (ex_op_world\<lparr>w_store := s\<rparr>)), (snd (?body (ex_op_world\<lparr>w_store := s\<rparr>)))\<lparr>w_store := s'\<rparr>)" by blast
  have m: "manifest_of ''vm1'' s = manifest_of ''vm1'' (w_store ex_op_world)" using s ex_op_locks(1) by (simp add: manifest_of_def)
  have e: "de_engine ex_op_env = Some (canned (Inl (Other_exception ''BrokenPipe'')) (Inr []) (Inr ()))" "de_live_registry ex_op_env"
      "has_manifest ''vm1'' (w_store ex_op_world)"
    by (simp_all add: ex_op_env_def ex_dbg_env_def has_manifest_def ex_op_world_def run_at_def ex_op_run_def ex_run_def)
  have "w_live (snd (?body (ex_op_world\<lparr>w_store := s\<rparr>))) = []" using ex_op_locked m by simp
  then have "w_live w' = []"
    using run by (auto simp: debug_operation_response_def ex_op_run_dir e lock Let_def map_debug_op_exception_def handled_def draise_def dret_def
        split: sum.splits list.splits)
  then have "w_live w' \<noteq> w_live ex_op_world" by (simp add: ex_op_world_def ex_live_world_def)
  then show ?thesis by (intro operation_needs_active_session [OF run]) simp
qed

subsection \<open>The end of a session\<close>

lemma map_of_merge_fields: "k \<notin> fst ` set b \<Longrightarrow> map_of (merge_fields a b) k = map_of a k"
  by (induction b arbitrary: a) (auto simp: merge_fields_def)

definition marked_ended :: "string \<Rightarrow> store \<Rightarrow> bool" where
  "marked_ended run_id s \<longleftrightarrow>
     (\<exists>m step. manifest_of run_id s = Some (Parsed m) \<and> map_of (step_results m) ''debug'' = Some step
        \<and> map_of (sr_details step) ''current_execution_state'' = Some (RawStr ''ended''))"

lemma preserved_keys:
  "preserved_debug_step_details env k w = (Inr kept, w') \<Longrightarrow> w' = w \<and> fst ` set kept \<subseteq> {''transport_session_id'', ''mi_probe''}"
  by (auto simp: preserved_debug_step_details_def dread_def List.map_filter_def split: sum.splits option.splits if_splits)

lemma live_reap_eq:
  fixes w :: "'g world"
  assumes "de_live_registry env"
  obtains w' where "live_reap env sid w = (Inr (), w')" "w_sys w' = w_sys w" "w_store w' = w_store w" "w_live w' = dict_pop sid (w_live w)"
proof (cases "de_engine env")
  case None
  then show ?thesis
    using that [of "w\<lparr>w_live := dict_pop sid (w_live w)\<rparr>"] assms by (simp add: live_reap_def dbind_def reap_live_eq dret_def)
next
  case (Some eng)
  show ?thesis
    by (rule reap_and_resume_books [of eng sid w]) (use that Some assms in \<open>auto simp: live_reap_def\<close>)
qed

lemma end_locked_effect:
  fixes env :: "('g, 'x) debug_env" and w :: "'g world"
  assumes run: "end_locked env dir k asked w = (Inr (details, ended), w')" and live: "de_live_registry env"
  shows "\<exists>ds. active_session env k asked True (w_store w) ds \<and> w_sys w' = w_sys w
     \<and> map_of (w_live w') = (map_of (w_live w))(ds_session_id ds := None) \<and> marked_ended k (w_store w')"
proof -
  obtain ds where l: "load_active_debug_session env dir k asked True w = (Inr ds, w)"
    using run load_active_sound [of env dir k asked True w] by (auto simp: end_locked_def dbind_def split: sum.splits prod.splits)
  let ?ended = "ds\<lparr>ds_state := DS_ended, ds_ended_at := Some (de_now env)\<rparr>"
  obtain p w1 where p: "persist_mi_debug_session env dir ?ended w = (Inr p :: ('x debug_raised, path) result, w1)"
    using run l by (auto simp: end_locked_def dbind_def dread_def Let_def split: sum.splits prod.splits)
  have b: "same_books w w1" by (rule persist_session_books [OF p])
  obtain kept where kept: "preserved_debug_step_details env k w1 = (Inr kept :: ('x debug_raised, fields) result, w1)"
    using run l p preserved_keys [of env k w1] by (auto simp: end_locked_def dbind_def dread_def Let_def split: sum.splits prod.splits)
  let ?details = "merge_fields (debug_session_manifest_details dir ?ended) kept"
  let ?step = "debug_step ''debug.end_session succeeded'' (mi_session_artifacts dir ?ended) ?details"
  obtain u s where rec: "record_step_result k ?step True False (de_faults env) (w_store w1) = (Inr u, s)"
    using run l p kept by (auto simp: end_locked_def dbind_def dread_def Let_def store_op_def split: sum.splits prod.splits)
  obtain w3 where w3: "(live_reap env (ds_session_id ds) :: ('g, 'x, unit) dop) (w1\<lparr>w_store := s\<rparr>) = (Inr (), w3)" "w_sys w3 = w_sys w1" "w_store w3 = s"
      "w_live w3 = dict_pop (ds_session_id ds) (w_live w1)"
    using live_reap_eq [OF live, of "ds_session_id ds" "w1\<lparr>w_store := s\<rparr>"] by auto
  have w': "w' = w3"
    using run l p kept rec w3(1) by (auto simp: end_locked_def dbind_def dread_def Let_def store_op_def dret_def split: sum.splits prod.splits)
  have "fst ` set kept \<subseteq> {''transport_session_id'', ''mi_probe''}" using preserved_keys [OF kept] by simp
  then have "''current_execution_state'' \<notin> fst ` set kept" by auto
  then have "map_of ?details ''current_execution_state'' = Some (RawStr ''ended'')"
    by (simp add: map_of_merge_fields debug_session_manifest_details_def)
  moreover obtain m where m: "manifest_of k s = Some (Parsed u)" "updated_manifest ?step True False m = Inr u"
    using recording_effect [OF rec] by auto
  ultimately have "marked_ended k s"
    by (auto simp: marked_ended_def updated_manifest_def with_step_result_def debug_step_def Let_def split: option.splits)
  then show ?thesis
    using load_active_sound [OF l] w' w3 b by (auto simp: same_books_def)
qed


lemma ex_end_recorded:
  fixes w :: "unit world"
  assumes "run_at ''vm1'' s = Some (d\<lparr>run_locks := l\<rparr>)" and "manifest_file d = Some (Parsed m)" and "''.manifest.lock'' \<notin> set l"
  shows "\<exists>u s'. record_step_result ''vm1'' res True False no_faults s = (Inr u, s')"
proof -
  have "checked_run_id ''vm1'' = Inr ''vm1''" by code_simp
  then show ?thesis
    using assms by (simp add: record_step_result_def manifest_lock_def with_run_lock_def record_step_body_def load_manifest_def updated_manifest_def
        write_manifest_def Let_def)
qed

lemma ex_bound: "recorded_transport_session_id ex_op_env ''vm1'' ex_op_world = (Inr (Some ''s0'') :: (unit debug_raised, string option) result, ex_op_world)"
proof -
  have "load_manifest ''vm1'' (de_faults ex_op_env) (w_store ex_op_world) = Inr (ex_manifest\<lparr>step_results :=
       [(''debug'', debug_step [] [] [(''debug_session_id'', RawStr ''debug-u1''), (''session_path'', RawStr ''/srv/vm1/debug/sessions/debug-u1.json''),
         (''transport_session_id'', RawStr ''s0'')])]\<rparr>)"
    using ex_op_manifest by (simp add: ex_op_env_def ex_dbg_env_def)
  moreover have "has_manifest ''vm1'' (w_store ex_op_world)" by (simp add: has_manifest_def ex_op_world_def run_at_def ex_op_run_def ex_run_def)
  ultimately show ?thesis
    by (simp add: recorded_transport_session_id_def dread_def ex_op_run_dir debug_step_def)
qed

lemma ex_end_succeeds: "\<exists>d arts w'. debug_end_session_handler ex_op_env ''vm1'' None ex_op_world = (Inr (Tool_success d arts), w')"
proof -
  let ?dir = "Path True [''srv'', ''vm1'']"
  let ?body = "end_locked ex_op_env ?dir ''vm1'' None :: (unit, unit, fields \<times> debug_session) dop"
  have "checked_run_id ''vm1'' = Inr ''vm1''" by code_simp
  from with_debug_lock_free [OF this ex_op_locks, of ?body] obtain s s' where
    s: "run_at ''vm1'' s = Some (ex_op_run\<lparr>run_locks := ''.debug.lock'' # run_locks ex_op_run\<rparr>)" and
    lock: "with_debug_lock ex_op_env ''vm1'' ?body ex_op_world
      = (fst (?body (ex_op_world\<lparr>w_store := s\<rparr>)), (snd (?body (ex_op_world\<lparr>w_store := s\<rparr>)))\<lparr>w_store := s'\<rparr>)" by blast
  have m: "manifest_of ''vm1'' s = manifest_of ''vm1'' (w_store ex_op_world)" using s ex_op_locks(1) by (simp add: manifest_of_def)
  have "\<exists>details ended w1. ?body (ex_op_world\<lparr>w_store := s\<rparr>) = (Inr (details, ended), w1)"
  proof -
    have l: "load_active_debug_session ex_op_env ?dir ''vm1'' None True (ex_op_world\<lparr>w_store := s\<rparr>) = (Inr ex_debug_session, ex_op_world\<lparr>w_store := s\<rparr>)"
      by (rule ex_op_load) (use m in simp_all)
    have "''debug.end_session'' \<in> set allowed_debug_operations" by code_simp
    then have profile: "rbind (resolve_debug_profile (ds_profile ex_debug_session) (de_profiles ex_op_env))
        (\<lambda>p. ensure_debug_operation_enabled p ''debug.end_session'') = (Inr () :: (unit debug_raised, unit) result)"
      by (simp add: resolve_debug_profile_def ex_debug_session_def ex_op_env_def ex_dbg_env_def default_debug_profiles_def ensure_debug_operation_enabled_def)
    let ?ended = "ex_debug_session\<lparr>ds_state := DS_ended, ds_ended_at := Some (de_now ex_op_env)\<rparr>"
    have "resolve_path ex_crash_host (session_file ?dir ''debug-u1'') = Inr (Path True [''srv'', ''vm1'', ''debug'', ''sessions'', ''debug-u1.json''])"
      by code_simp
    then obtain sp w1 where p: "persist_mi_debug_session ex_op_env ?dir ?ended (ex_op_world\<lparr>w_store := s\<rparr>) = (Inr sp :: (unit debug_raised, path) result, w1)" "w_store w1 = s"
      by (auto simp: persist_mi_debug_session_def ex_op_env_def ex_dbg_env_def ex_debug_session_def Let_def)
    obtain kept where k: "preserved_debug_step_details ex_op_env ''vm1'' w1 = (Inr kept :: (unit debug_raised, fields) result, w1)"
      using ex_op_manifest [OF m] p(2) by (simp add: preserved_debug_step_details_def dread_def ex_op_env_def ex_dbg_env_def)
    have f: "de_faults ex_op_env = no_faults" "de_live_registry ex_op_env" by (simp_all add: ex_op_env_def ex_dbg_env_def)
    have rec: "\<exists>u s'. record_step_result ''vm1'' res True False no_faults s = (Inr u, s')" for res
      by (rule ex_end_recorded [OF s]) (simp_all add: ex_op_run_def ex_run_def)
    let ?step = "debug_step ''debug.end_session succeeded'' (mi_session_artifacts ?dir ?ended) (merge_fields (debug_session_manifest_details ?dir ?ended) kept)"
    obtain u s1 where u: "record_step_result ''vm1'' ?step True False no_faults s = (Inr u, s1)" using rec by blast
    obtain w3 where w3: "(live_reap ex_op_env (ds_session_id ex_debug_session) :: (unit, unit, unit) dop) (w1\<lparr>w_store := s1\<rparr>) = (Inr (), w3)"
      using live_reap_eq [OF f(2)] by blast
    show ?thesis
      using w3 by (simp add: end_locked_def dbind_def l profile dread_def p Let_def k store_op_def f(1) u dret_def)
  qed
  then obtain details ended w1 where b: "?body (ex_op_world\<lparr>w_store := s\<rparr>) = (Inr (details, ended), w1)" by blast
  have man: "has_manifest ''vm1'' (w_store ex_op_world)" by (simp add: has_manifest_def ex_op_world_def run_at_def ex_op_run_def ex_run_def)
  have e: "\<exists>d arts. end_mi_debug_session ex_op_env ''vm1'' None ex_op_world = (Inr (Tool_success d arts) :: (unit debug_raised, tool_response) result, w1\<lparr>w_store := s'\<rparr>)"
    by (simp add: end_mi_debug_session_def dbind_def store_read_def store_op_def ex_op_run_dir man lock b Let_def)
  have legacy: "is_legacy_debug_session ex_op_env (Some ''s0'') ''vm1'' ex_op_world = (Inr False :: (unit debug_raised, bool) result, ex_op_world)"
    by (simp add: is_legacy_debug_session_def dret_def)
  have books: "w_sys w1 = w_sys ex_live_world"
    using end_locked_effect [OF b] by (auto simp: ex_op_world_def ex_op_env_def ex_dbg_env_def)
  obtain ses :: transport_session where h: "session_held (local_qemu ''vm1'') ''s0'' ex_sys (w_sys (w1\<lparr>w_store := s'\<rparr>))"
    "recorded_as ex_transports (local_qemu ''vm1'') ''s0'' (execution_state ses) (w_sys (w1\<lparr>w_store := s'\<rparr>))"
    "read_record (local_qemu ''vm1'') (sy_registry (w_sys (w1\<lparr>w_store := s'\<rparr>))) = Inr (Some ses)"
    using ex_live_held books by auto
  let ?gp = "\<lparr>gp_pre_attach = [], gp_post_attach = [], gp_teardown_steps = []\<rparr> :: (unit, unit) guard_policy"
  have env: "fs_fine ex_op_env" "outside_checks ?gp" "de_guard ex_op_env = Some ?gp" "de_registry ex_op_env" "de_transports ex_op_env = Some ex_transports"
    by (simp_all add: fs_fine_def ex_op_env_def ex_dbg_env_def outside_checks_def ex_env_def)
  have "\<exists>w4. close_bound_transport_session ex_op_env ''vm1'' (Some ''s0'') (w1\<lparr>w_store := s'\<rparr>) = (Inr () :: (unit debug_raised, unit) result, w4)"
    using guarded_teardown_frees [OF h(1,2) env(1,2), of "\<lparr>gc_target_key = local_qemu ''vm1'', gc_generation = ts_generation ses,
        gc_session_id = Some ''s0'', gc_reason = Ended\<rparr>" True] h(3) env
    by (auto simp: close_bound_transport_session_def dbind_def read_transport_def dread_def dret_def)
  then show ?thesis
    using e ex_bound legacy env(5) by (auto simp: debug_end_session_handler_def dbind_def dret_def)
qed


end
