(* ===== verification/Introspect.thy ===== *)
theory Introspect
  imports Postmortem Triage GdbMi
begin

text \<open>
  Models \<open>src/kdive/introspect/result.py\<close>: what becomes of a drgn introspection once its runner
  has returned. The captured output is judged, the JSON document of the wrapper is read, its
  build id is compared with the expected one, everything shown is redacted, and the terminal
  step is recorded. The live and the offline path share this stage. Messages of responses are
  left out; the summary of a step keeps its text.
\<close>

subsection \<open>What the stage is given\<close>

text \<open>
  The capture of stdout: its size in bytes and what \<open>json.loads\<close> makes of it. An empty capture
  is not parsed.
\<close>

datatype capture_content = Blank | Json_document raw | Not_json

record stdout_capture =
  cap_size :: nat
  cap_content :: capture_content

datatype introspect_io = Read_stdout | Read_stderr | Write_stderr_log | Write_stdout_json

record verdict =
  vd_ok :: bool
  vd_code :: "string option"
  vd_category :: "error_category option"
  vd_step_details :: fields
  vd_response_data :: fields

text \<open>
  The context of the call. \<open>ic_float_reaches\<close> is Python's comparison on floating point numbers,
  \<open>ic_repr\<close> its \<open>repr\<close> of containers; \<open>ic_others\<close> is what others do to the store between two
  attempts to record. The captures lie in the sensitive directory as \<open>stdout.raw\<close> and
  \<open>stderr.raw\<close>.
\<close>

record introspect_context =
  ic_run_id :: string
  ic_call_id :: string
  ic_agent_dir :: path
  ic_sensitive_dir :: path
  ic_stdout :: "stdout_capture option"
  ic_stderr :: "string option"
  ic_result :: ssh_outcome
  ic_started :: string
  ic_finished :: string
  ic_duration :: int
  ic_redactor :: redactor
  ic_expected_build_id :: string
  ic_timeout :: int
  ic_drgn_open_message :: string
  ic_principal :: "string option"
  ic_validator :: "(raw \<Rightarrow> verdict) option"
  ic_allow_write :: bool
  ic_permissions :: "string list option"
  ic_io_fails :: "introspect_io \<Rightarrow> bool"
  ic_faults :: faults
  ic_others :: "nat \<Rightarrow> store \<Rightarrow> store"
  ic_float_reaches :: "raw \<Rightarrow> int \<Rightarrow> bool"
  ic_repr :: "raw \<Rightarrow> string"

definition RUN_STDOUT_CAP :: nat where
  "RUN_STDOUT_CAP = 2 * 1024 * 1024"

definition PRELUDE_WARNING_FRACTION_PCT :: int where
  "PRELUDE_WARNING_FRACTION_PCT = 40"

subsection \<open>Snippets\<close>

definition char_count :: "string \<Rightarrow> nat" where
  "char_count s = length (filter (\<lambda>c. \<not> byte_in 0x80 0xBF c) s)"

text \<open>\<open>s[n:]\<close> on characters.\<close>

fun drop_chars :: "nat \<Rightarrow> string \<Rightarrow> string" where
  "drop_chars n [] = []"
| "drop_chars n (c # cs) =
     (if byte_in 0x80 0xBF c then drop_chars n cs
      else if n = 0 then c # cs else drop_chars (n - 1) cs)"

definition cut_marker :: string where
  "cut_marker = [newline, CHR 0xE2, CHR 0x80, CHR 0xA6] @ ''[truncated]'' @ [CHR 0xE2, CHR 0x80, CHR 0xA6, newline]"

definition head_tail_text :: "string \<Rightarrow> nat \<Rightarrow> nat \<Rightarrow> string" where
  "head_tail_text s head tail =
     (if char_count s \<le> head + tail then s else take_chars head s @ cut_marker @ drop_chars (char_count s - tail) s)"

text \<open>\<open>_head_tail\<close> on what the document holds: \<open>len\<close> fails on numbers, slicing on mappings.\<close>

fun head_tail :: "(raw \<Rightarrow> string) \<Rightarrow> raw \<Rightarrow> nat \<Rightarrow> nat \<Rightarrow> raw option" where
  "head_tail repr_of (RawStr s) head tail = Some (RawStr (head_tail_text s head tail))"
| "head_tail repr_of (RawList xs) head tail =
     Some (if length xs \<le> head + tail then RawList xs
           else RawStr (repr_of (RawList (take head xs)) @ cut_marker @ repr_of (RawList (drop (length xs - tail) xs))))"
| "head_tail repr_of (RawMap items) head tail = (if length items \<le> head + tail then Some (RawMap items) else None)"
| "head_tail repr_of _ head tail = None"

text \<open>\<open>_redact_and_truncate\<close>.\<close>

definition redact_and_truncate :: "redactor \<Rightarrow> string \<Rightarrow> nat \<Rightarrow> string" where
  "redact_and_truncate rd txt cap = take_chars cap (redact_text rd txt)"

subsection \<open>The artifacts\<close>

definition introspect_artifact :: "path \<Rightarrow> string \<Rightarrow> string \<Rightarrow> bool \<Rightarrow> artifact_ref" where
  "introspect_artifact dir name kind secret =
     \<lparr>ar_path = str_path (under dir [name]), ar_kind = kind, ar_sensitive = secret, ar_description = None\<rparr>"

definition raw_artifacts :: "introspect_context \<Rightarrow> artifact_ref list" where
  "raw_artifacts c =
     (if ic_stdout c \<noteq> None then [introspect_artifact (ic_sensitive_dir c) ''stdout.raw'' ''application/octet-stream'' True] else [])
     @ (if ic_stderr c \<noteq> None then [introspect_artifact (ic_sensitive_dir c) ''stderr.raw'' ''application/octet-stream'' True] else [])"

definition request_artifacts :: "introspect_context \<Rightarrow> artifact_ref list" where
  "request_artifacts c =
     [introspect_artifact (ic_agent_dir c) ''request.json'' ''application/json'' False,
      introspect_artifact (ic_agent_dir c) ''wrapper.skeleton.py'' ''text/x-python'' False,
      introspect_artifact (ic_sensitive_dir c) ''wrapper.py'' ''text/x-python'' True]"

definition public_artifacts :: "artifact_ref list \<Rightarrow> artifact_ref list" where
  "public_artifacts = filter (\<lambda>a. \<not> ar_sensitive a)"

text \<open>The principal and the write mode, as every step records them.\<close>

definition audit_details :: "introspect_context \<Rightarrow> fields" where
  "audit_details c =
     (case ic_principal c of None \<Rightarrow> [] | Some u \<Rightarrow> [(''ssh_user'', RawStr u)])
     @ [(''allow_write'', RawBool (ic_allow_write c))]
     @ (if ic_allow_write c
        then [(''acknowledged_permissions'', RawList (map RawStr (case ic_permissions c of None \<Rightarrow> [] | Some ps \<Rightarrow> ps)))]
        else [])"

definition introspect_step_name :: "string \<Rightarrow> string" where
  "introspect_step_name call_id = ''introspect:'' @ call_id"

definition record_introspect_step ::
    "introspect_context \<Rightarrow> step_result \<Rightarrow> tool_response \<Rightarrow> (string \<times> written) list \<Rightarrow> tool_response crash_op" where
  "record_introspect_step c res resp writes s =
     (case record_append_only_terminal_step (ic_run_id c) res (ic_faults c) (ic_others c) s of
        (Inl e, s') \<Rightarrow> (Inl (Store_raised e), s', writes)
      | (Inr _, s') \<Rightarrow> (Inr resp, s', writes))"

subsection \<open>A failing call\<close>

record failure_spec =
  fs_category :: error_category
  fs_code :: string
  fs_message :: string
  fs_forensic :: "string option"

definition failure_artifacts :: "introspect_context \<Rightarrow> bool \<Rightarrow> artifact_ref list" where
  "failure_artifacts c include_stdout_json =
     request_artifacts c @ [introspect_artifact (ic_agent_dir c) ''stderr.log'' ''text/plain'' False]
     @ (if include_stdout_json then [introspect_artifact (ic_agent_dir c) ''stdout.json'' ''application/json'' False] else [])
     @ raw_artifacts c"

definition failure_step :: "introspect_context \<Rightarrow> failure_spec \<Rightarrow> bool \<Rightarrow> step_result" where
  "failure_step c f include_stdout_json =
     \<lparr>sr_step_name = introspect_step_name (ic_call_id c), sr_status = FAILED, sr_summary = fs_message f,
      sr_artifacts = failure_artifacts c include_stdout_json,
      sr_details = [(''call_id'', RawStr (ic_call_id c)), (''timeout_seconds'', RawInt (ic_timeout c)),
        (''duration_ms'', RawInt (ic_duration c)), (''wrapper_exit_code'', RawInt (exit_status (ic_result c))),
        (''outcome_status'', opt_raw (fs_forensic f)), (''code'', RawStr (fs_code f))] @ audit_details c\<rparr>"

definition artifact_write_failed :: "introspect_context \<Rightarrow> failure_spec \<Rightarrow> tool_response" where
  "artifact_write_failed c f = Tool_failure INFRASTRUCTURE_FAILURE
     [(''code'', RawStr ''artifact_write_failed''), (''call_id'', RawStr (ic_call_id c)),
      (''original_code'', RawStr (fs_code f)), (''original_message'', RawStr (fs_message f))] []"

definition record_introspect_failure ::
    "introspect_context \<Rightarrow> failure_spec \<Rightarrow> string \<Rightarrow> bool \<Rightarrow> raw option \<Rightarrow> tool_response crash_op" where
  "record_introspect_failure c f raw_stderr include_stdout_json payload s =
     (let log = (''stderr.log'', Text (redact_text (ic_redactor c) raw_stderr));
          json = (case payload of Some p \<Rightarrow> if include_stdout_json then [(''stdout.json'', Json p)] else [] | None \<Rightarrow> [])
      in if ic_io_fails c Write_stderr_log then (Inr (artifact_write_failed c f), s, [])
         else if json \<noteq> [] \<and> ic_io_fails c Write_stdout_json then (Inr (artifact_write_failed c f), s, [log])
         else record_introspect_step c (failure_step c f include_stdout_json)
                (Tool_failure (fs_category f)
                  [(''code'', RawStr (fs_code f)), (''call_id'', RawStr (ic_call_id c)),
                   (''outcome_status'', opt_raw (fs_forensic f))]
                  (public_artifacts (failure_artifacts c include_stdout_json)))
                (log # json) s)"

subsection \<open>Judging the capture\<close>

definition runner_failure :: "error_category \<Rightarrow> string \<Rightarrow> string \<Rightarrow> failure_spec" where
  "runner_failure cat code message = \<lparr>fs_category = cat, fs_code = code, fs_message = message, fs_forensic = None\<rparr>"

text \<open>\<open>_read_capped\<close>: \<open>None\<close> for a capture above the cap; no file reads as an empty one.\<close>

definition read_capped_document :: "stdout_capture option \<Rightarrow> capture_content option" where
  "read_capped_document f =
     (case f of
        None \<Rightarrow> Some Blank
      | Some f \<Rightarrow> if RUN_STDOUT_CAP < cap_size f then None else Some (cap_content f))"

text \<open>A document that is \<open>null\<close> reads as no document.\<close>

definition parsed_document :: "capture_content option \<Rightarrow> raw option" where
  "parsed_document doc =
     (case doc of Some (Json_document v) \<Rightarrow> if v = RawNone then None else Some v | _ \<Rightarrow> None)"

definition triage_runner_output ::
    "introspect_context \<Rightarrow> (call_raised, string \<times> (failure_spec, raw) result) result" where
  "triage_runner_output c =
     (if ic_io_fails c Read_stdout \<or> ic_io_fails c Read_stderr then Inl File_operation_raised
      else let stdout = read_capped_document (ic_stdout c);
               raw_stderr = (case ic_stderr c of None \<Rightarrow> [] | Some b \<Rightarrow> decode_replace b);
               parsed = parsed_document stdout; r = ic_result c
           in Inr (raw_stderr,
             if oversized_output r \<or> stdout = None
             then Inl (runner_failure INFRASTRUCTURE_FAILURE ''oversized_output''
                    (''introspect stdout exceeded '' @ show_nat RUN_STDOUT_CAP @ '' bytes''))
             else if cancelled r
             then Inl (runner_failure READINESS_FAILURE ''introspect_cancelled'' ''introspect call cancelled by admission fence'')
             else if stdin_failed r
             then Inl (runner_failure INFRASTRUCTURE_FAILURE ''ssh_stdin_failure''
                    ''wrapper payload was not fully written to the runner stdin'')
             else if timed_out r
             then Inl (runner_failure INFRASTRUCTURE_FAILURE ''ssh_timeout'' ''runner round trip exceeded host-side timeout margin'')
             else case parsed of
                 None \<Rightarrow>
                   if exit_status r = 124 then Inl (runner_failure INFRASTRUCTURE_FAILURE ''introspect_timeout'' ''timeout(1) fired'')
                   else Inl (runner_failure INFRASTRUCTURE_FAILURE ''wrapper_crash''
                          (''wrapper exited '' @ show_int (exit_status r) @ '' without a parseable JSON document''))
               | Some v \<Rightarrow> Inr v))"

subsection \<open>What the wrapper reported\<close>

definition wrapper_failure_by_status :: "string \<Rightarrow> string \<Rightarrow> failure_spec option" where
  "wrapper_failure_by_status drgn_open_message status = map_of
     (map (\<lambda>(st, cat, code, message). (st, \<lparr>fs_category = cat, fs_code = code, fs_message = message, fs_forensic = Some st\<rparr>))
       [(''drgn_open_failure'', INFRASTRUCTURE_FAILURE, ''drgn_open_failure'', drgn_open_message),
        (''drgn_version_skew'', INFRASTRUCTURE_FAILURE, ''drgn_version_skew'',
           ''drgn'' @ [CHR 0x27] @ ''s module API lacks main_module().build_id (version skew); see outcome.drgn_version''),
        (''drgn_api_incompatible'', INFRASTRUCTURE_FAILURE, ''drgn_api_incompatible'',
           ''drgn raised resolving main_module().build_id; the installed drgn is incompatible with the introspect wrapper (see outcome.error_type and outcome.drgn_version)''),
        (''provenance_unverifiable'', CONFIGURATION_ERROR, ''provenance_unverifiable'',
           ''target reports no embedded build-id; provenance cannot be verified''),
        (''provenance_mismatch'', CONFIGURATION_ERROR, ''provenance_mismatch'',
           ''kernel build_id does not match the expected build_id''),
        (''script_compile_error'', CONFIGURATION_ERROR, ''script_compile_error'', ''user script failed to compile''),
        (''write_mode_disabled'', CONFIGURATION_ERROR, ''write_mode_disabled'',
           ''script attempted a drgn write API but allow_write is false''),
        (''wrapper_internal_error'', INFRASTRUCTURE_FAILURE, ''wrapper_crash'',
           ''wrapper exited 6 with a minimal-recovery JSON document'')]) status"

text \<open>\<open>d.get(k)\<close> on what may be a mapping.\<close>

definition item_of :: "string \<Rightarrow> raw \<Rightarrow> raw" where
  "item_of k v = (case v of RawMap items \<Rightarrow> get_or_none k items | _ \<Rightarrow> RawNone)"

definition outcome_status :: "raw \<Rightarrow> raw" where
  "outcome_status payload = item_of ''status'' (item_of ''outcome'' payload)"

definition inconsistent :: "string \<Rightarrow> failure_spec" where
  "inconsistent message = \<lparr>fs_category = CONFIGURATION_ERROR, fs_code = ''provenance_mismatch'', fs_message = message,
     fs_forensic = Some ''provenance_inconsistent''\<rparr>"

text \<open>\<open>parsed.get\<close> fails on a document that is no mapping. The id compared is the raw one.\<close>

definition map_wrapper_failure :: "introspect_context \<Rightarrow> raw \<Rightarrow> raw \<Rightarrow> (call_raised, failure_spec option) result" where
  "map_wrapper_failure c parsed status =
     (case (case status of RawStr st \<Rightarrow> wrapper_failure_by_status (ic_drgn_open_message c) st | _ \<Rightarrow> None) of
        Some f \<Rightarrow> Inr (Some f)
      | None \<Rightarrow>
          (case parsed of
             RawMap items \<Rightarrow>
               (case get_or_none ''build_id'' items of
                  RawStr observed \<Rightarrow>
                    (case verify_build_id (ic_expected_build_id c) observed of
                       Inl _ \<Rightarrow> Inr (Some (inconsistent ''host build_id verify disagrees with the wrapper-reported id''))
                     | Inr _ \<Rightarrow> Inr None)
                | _ \<Rightarrow> Inr (Some (inconsistent ''wrapper reported success without a build_id; cannot confirm provenance'')))
           | _ \<Rightarrow> Inl Type_error))"

subsection \<open>A successful call\<close>

text \<open>\<open>prelude_ms * 100 >= PRELUDE_WARNING_FRACTION_PCT * timeout * 1000\<close>, which fails on what is no number.\<close>

definition prelude_reaches :: "introspect_context \<Rightarrow> raw \<Rightarrow> bool option" where
  "prelude_reaches c v =
     (let limit = PRELUDE_WARNING_FRACTION_PCT * ic_timeout c * 1000 in
      case v of
        RawInt i \<Rightarrow> Some (limit \<le> i * 100)
      | RawBool b \<Rightarrow> Some (limit \<le> (if b then 100 else 0))
      | RawFloat m e \<Rightarrow> Some (ic_float_reaches c v limit)
      | RawNonFinite \<Rightarrow> Some (ic_float_reaches c v limit)
      | _ \<Rightarrow> None)"

definition prelude_diagnostic :: "introspect_context \<Rightarrow> raw \<Rightarrow> string" where
  "prelude_diagnostic c v =
     ''prelude ('' @ (case v of RawInt i \<Rightarrow> show_int i | _ \<Rightarrow> ic_repr c v) @ '' ms) consumed >= ''
     @ show_int PRELUDE_WARNING_FRACTION_PCT @ ''% of timeout_seconds ('' @ show_int (ic_timeout c)
     @ '' s); consider raising timeout_seconds.''"

definition get_default :: "string \<Rightarrow> raw \<Rightarrow> raw \<Rightarrow> raw" where
  "get_default k d payload = (case payload of RawMap items \<Rightarrow> (case map_of items (KStr k) of None \<Rightarrow> d | Some v \<Rightarrow> v) | _ \<Rightarrow> d)"

definition response_outcome :: "raw \<Rightarrow> raw \<Rightarrow> raw" where
  "response_outcome payload status =
     (case item_of ''outcome'' payload of
        RawMap items \<Rightarrow>
          if status = RawStr ''error''
          then RawMap ((KStr ''status'', RawStr ''error'')
                 # List.map_filter (\<lambda>k. map_option (Pair (KStr k)) (map_of items (KStr k))) [''error_type'', ''error_message'', ''traceback''])
          else RawMap [(KStr ''status'', RawStr ''ok'')]
      | _ \<Rightarrow> RawMap [(KStr ''status'', RawStr ''ok'')])"

definition success_artifacts :: "introspect_context \<Rightarrow> artifact_ref list" where
  "success_artifacts c =
     request_artifacts c @ [introspect_artifact (ic_agent_dir c) ''stdout.json'' ''application/json'' False,
       introspect_artifact (ic_agent_dir c) ''stderr.log'' ''text/plain'' False] @ raw_artifacts c"

definition build_introspect_success_response :: "introspect_context \<Rightarrow> raw \<Rightarrow> raw \<Rightarrow> string \<Rightarrow> (call_raised, fields) result" where
  "build_introspect_success_response c payload status raw_stderr =
     (let prelude_ms = get_default ''prelude_ms'' (RawInt 0) payload;
          warnings = get_default ''warnings'' (RawList []) payload
      in case (prelude_reaches c prelude_ms, head_tail (ic_repr c) (get_default ''user_stdout'' (RawStr []) payload) 2048 2048) of
           (Some slow, Some snippet) \<Rightarrow>
             Inr ([(''call_id'', RawStr (ic_call_id c)),
                   (''status'', RawStr (if status = RawStr ''error'' then ''script_error'' else ''ok'')),
                   (''outcome'', response_outcome payload status),
                   (''emits'', get_default ''emits'' (RawList []) payload),
                   (''user_stdout_snippet'', snippet),
                   (''drgn_stderr_snippet'', RawStr (head_tail_text (redact_text (ic_redactor c) raw_stderr) 2048 2048)),
                   (''build_id'', item_of ''build_id'' payload),
                   (''truncated'', get_default ''truncated'' (RawMap []) payload),
                   (''started_at'', RawStr (ic_started c)), (''finished_at'', RawStr (ic_finished c)),
                   (''duration_ms'', RawInt (ic_duration c)), (''prelude_ms'', prelude_ms),
                   (''artifacts'', RawList (map dump_artifact (public_artifacts (success_artifacts c)))),
                   (''diagnostic'', if slow then RawStr (prelude_diagnostic c prelude_ms) else RawNone)]
                  @ (if truthy warnings then [(''warnings'', warnings)] else []))
         | _ \<Rightarrow> Inl Type_error)"

definition success_step :: "introspect_context \<Rightarrow> raw \<Rightarrow> raw \<Rightarrow> verdict option \<Rightarrow> step_result" where
  "success_step c payload status verdict =
     (let failed = (case verdict of None \<Rightarrow> False | Some v \<Rightarrow> \<not> vd_ok v);
          code = (case verdict of None \<Rightarrow> None | Some v \<Rightarrow> vd_code v);
          base = [(''call_id'', RawStr (ic_call_id c)), (''build_id'', item_of ''build_id'' payload),
            (''timeout_seconds'', RawInt (ic_timeout c)), (''wrapper_exit_code'', RawInt (exit_status (ic_result c))),
            (''duration_ms'', RawInt (ic_duration c)), (''prelude_ms'', get_default ''prelude_ms'' (RawInt 0) payload),
            (''truncated'', get_default ''truncated'' (RawMap []) payload), (''outcome_status'', status)] @ audit_details c;
          extended = (case verdict of None \<Rightarrow> base | Some v \<Rightarrow> foldl (\<lambda>d (k, x). dict_set k x d) base (vd_step_details v))
      in \<lparr>sr_step_name = introspect_step_name (ic_call_id c), sr_status = (if failed then FAILED else SUCCEEDED),
          sr_summary = ''introspect call '' @ take_chars 8 (ic_call_id c) @ (if failed then '' failed: '' @ (case code of None \<Rightarrow> ''None'' | Some t \<Rightarrow> t) else '' ok''),
          sr_artifacts = success_artifacts c,
          sr_details = (if failed then dict_set ''code'' (opt_raw code) extended else extended)\<rparr>)"

definition success_answer :: "introspect_context \<Rightarrow> raw \<Rightarrow> fields \<Rightarrow> verdict option \<Rightarrow> tool_response" where
  "success_answer c payload data verdict =
     (case verdict of
        None \<Rightarrow> Tool_success data (public_artifacts (success_artifacts c))
      | Some v \<Rightarrow>
          if vd_ok v
          then Tool_success (foldl (\<lambda>d (k, x). dict_set k x d) (vd_response_data v)
                 [(''call_id'', RawStr (ic_call_id c)), (''truncated'', get_default ''truncated'' (RawMap []) payload),
                  (''prelude_ms'', get_default ''prelude_ms'' (RawInt 0) payload)]) (public_artifacts (success_artifacts c))
          else Tool_failure (case vd_category v of None \<Rightarrow> INFRASTRUCTURE_FAILURE | Some cat \<Rightarrow> cat) [(''code'', opt_raw (vd_code v)), (''call_id'', RawStr (ic_call_id c))] [])"

definition record_introspect_success :: "introspect_context \<Rightarrow> raw \<Rightarrow> raw \<Rightarrow> string \<Rightarrow> tool_response crash_op" where
  "record_introspect_success c payload status raw_stderr s =
     (let json = (''stdout.json'', Json payload); log = (''stderr.log'', Text (redact_text (ic_redactor c) raw_stderr))
      in if ic_io_fails c Write_stdout_json then (Inl File_operation_raised, s, [])
         else if ic_io_fails c Write_stderr_log then (Inl File_operation_raised, s, [json])
         else case build_introspect_success_response c payload status raw_stderr of
             Inl e \<Rightarrow> (Inl e, s, [json, log])
           | Inr data \<Rightarrow>
               let verdict = map_option (\<lambda>f. f payload) (ic_validator c)
               in record_introspect_step c (success_step c payload status verdict) (success_answer c payload data verdict) [json, log] s)"

definition finalize_introspect_call :: "introspect_context \<Rightarrow> tool_response crash_op" where
  "finalize_introspect_call c s =
     (case triage_runner_output c of
        Inl e \<Rightarrow> (Inl e, s, [])
      | Inr (raw_stderr, Inl f) \<Rightarrow> record_introspect_failure c f raw_stderr False None s
      | Inr (raw_stderr, Inr parsed) \<Rightarrow>
          let payload = redact_value (ic_redactor c) parsed; status = outcome_status payload
          in case map_wrapper_failure c parsed status of
               Inl e \<Rightarrow> (Inl e, s, [])
             | Inr (Some f) \<Rightarrow> record_introspect_failure c f raw_stderr True (case payload of RawMap _ \<Rightarrow> Some payload | _ \<Rightarrow> None) s
             | Inr None \<Rightarrow> record_introspect_success c payload status raw_stderr s)"

subsection \<open>The verdict on a helper's result\<close>

text \<open>The model of the helper's output is an argument: it refuses a value, or gives its dump.\<close>

record helper_spec =
  hp_name :: string
  hp_version :: int
  hp_output :: "raw \<Rightarrow> raw option"

definition helper_cap_profile :: "(string \<times> int) list" where
  "helper_cap_profile = [(''per_emit_bytes'', 4 * 1024 * 1024), (''emits'', 4), (''total_json'', 8 * 1024 * 1024)]"

definition helper_details :: "helper_spec \<Rightarrow> fields" where
  "helper_details h = [(''helper'', RawStr (hp_name h)), (''version'', RawInt (hp_version h))]"

definition refused_verdict :: "string \<Rightarrow> fields \<Rightarrow> verdict" where
  "refused_verdict code details = \<lparr>vd_ok = False, vd_code = Some code, vd_category = Some INFRASTRUCTURE_FAILURE,
     vd_step_details = details, vd_response_data = []\<rparr>"

definition helper_post_validator :: "helper_spec \<Rightarrow> raw \<Rightarrow> verdict" where
  "helper_post_validator h payload =
     (if outcome_status payload = RawStr ''error''
      then refused_verdict ''helper_script_error'' (helper_details h @ [(''error_type'', item_of ''error_type'' (item_of ''outcome'' payload))])
      else case item_of ''emits'' payload of
          RawList [item] \<Rightarrow>
            (case hp_output h item of
               None \<Rightarrow> refused_verdict ''helper_schema_drift'' (helper_details h)
             | Some dump \<Rightarrow>
                 \<lparr>vd_ok = True, vd_code = None, vd_category = None, vd_step_details = helper_details h,
                  vd_response_data = helper_details h @ [(''result'', dump)]\<rparr>)
        | _ \<Rightarrow> refused_verdict ''helper_schema_drift'' (helper_details h))"

end
