(* ===== verification/IntrospectProps.thy ===== *)
theory IntrospectProps
  imports Introspect TriageProps
begin

text \<open>
  The properties of the terminal stage of an introspection: what a success needs, that the answer
  and the recorded step agree, and that nothing shown holds a secret.
\<close>

subsection \<open>Where an answer comes from\<close>

lemma recorded_introspection:
  assumes "record_introspect_step c res resp w s = (Inr resp', s', w')"
  shows "resp' = resp \<and> w' = w \<and> (\<exists>u. manifest_of (ic_run_id c) s' = Some (Parsed u) \<and> map_of (step_results u) (sr_step_name res) = Some res)"
  using assms retry_records [of "ic_run_id c" res "ic_faults c" "ic_others c" 5 s]
  by (auto simp: record_introspect_step_def record_append_only_terminal_step_def record_step_with_retry_def split: prod.splits sum.splits)

text \<open>A capture that may be read, and the document in it.\<close>

definition readable_capture :: "introspect_context \<Rightarrow> raw \<Rightarrow> bool" where
  "readable_capture c v \<longleftrightarrow>
     (\<exists>f. ic_stdout c = Some f \<and> cap_size f \<le> RUN_STDOUT_CAP \<and> cap_content f = Json_document v) \<and> v \<noteq> RawNone
     \<and> \<not> oversized_output (ic_result c) \<and> \<not> cancelled (ic_result c) \<and> \<not> stdin_failed (ic_result c) \<and> \<not> timed_out (ic_result c)"

lemma triage_parsed: "triage_runner_output c = Inr (e, Inr v) \<Longrightarrow> readable_capture c v"
  by (auto simp: triage_runner_output_def readable_capture_def read_capped_document_def parsed_document_def Let_def
      split: if_splits option.splits capture_content.splits)

definition verified_document :: "introspect_context \<Rightarrow> (raw_key \<times> raw) list \<Rightarrow> bool" where
  "verified_document c items \<longleftrightarrow> readable_capture c (RawMap items)
     \<and> map_of items (KStr ''build_id'') = Some (RawStr (ic_expected_build_id c))
     \<and> (\<forall>st. outcome_status (redact_value (ic_redactor c) (RawMap items)) = RawStr st \<longrightarrow> wrapper_failure_by_status (ic_drgn_open_message c) st = None)"

lemma unmapped_verified:
  assumes "map_wrapper_failure c parsed status = Inr None"
  shows "\<exists>items. parsed = RawMap items \<and> map_of items (KStr ''build_id'') = Some (RawStr (ic_expected_build_id c))
     \<and> (\<forall>st. status = RawStr st \<longrightarrow> wrapper_failure_by_status (ic_drgn_open_message c) st = None)"
  using assms
  by (auto simp: map_wrapper_failure_def get_or_none_def verify_build_id_def split: option.splits raw.splits if_splits)

text \<open>The three ends of a call that answers.\<close>

lemma introspect_answer:
  assumes "finalize_introspect_call c s = (Inr resp, s', w)"
  obtains (unwritten) f where "resp = artifact_write_failed c f" "s' = s" "\<forall>x \<in> set w. \<exists>e. x = (''stderr.log'', Text (redact_text (ic_redactor c) e))"
  | (failed) f b where
      "resp = Tool_failure (fs_category f) [(''code'', RawStr (fs_code f)), (''call_id'', RawStr (ic_call_id c)),
           (''outcome_status'', opt_raw (fs_forensic f))] (public_artifacts (failure_artifacts c b))"
      "\<exists>u. manifest_of (ic_run_id c) s' = Some (Parsed u) \<and> map_of (step_results u) (introspect_step_name (ic_call_id c)) = Some (failure_step c f b)"
      "\<forall>x \<in> set w. (\<exists>e. x = (''stderr.log'', Text (redact_text (ic_redactor c) e))) \<or> (\<exists>v. x = (''stdout.json'', Json (redact_value (ic_redactor c) v)))"
  | (finished) items e data payload verdict where
      "verified_document c items" "payload = redact_value (ic_redactor c) (RawMap items)"
      "build_introspect_success_response c payload (outcome_status payload) e = Inr data"
      "verdict = map_option (\<lambda>f. f payload) (ic_validator c)" "resp = success_answer c payload data verdict"
      "\<exists>u. manifest_of (ic_run_id c) s' = Some (Parsed u)
         \<and> map_of (step_results u) (introspect_step_name (ic_call_id c)) = Some (success_step c payload (outcome_status payload) verdict)"
      "w = [(''stdout.json'', Json payload), (''stderr.log'', Text (redact_text (ic_redactor c) e))]"
proof -
  let ?rd = "ic_redactor c"
  have fail: thesis
    if "record_introspect_failure c f e b p s = (Inr resp, s', w)" and p: "\<And>x. p = Some x \<Longrightarrow> \<exists>v. x = redact_value ?rd v" for f e b p
  proof (cases "ic_io_fails c Write_stderr_log \<or> (p \<noteq> None \<and> b \<and> ic_io_fails c Write_stdout_json)")
    case True
    then show ?thesis using that by (intro unwritten [of f]) (auto simp: record_introspect_failure_def Let_def split: if_splits option.splits)
  next
    case False
    let ?json = "case p of Some x \<Rightarrow> if b then [(''stdout.json'', Json x)] else [] | None \<Rightarrow> []"
    let ?resp = "Tool_failure (fs_category f) [(''code'', RawStr (fs_code f)), (''call_id'', RawStr (ic_call_id c)),
           (''outcome_status'', opt_raw (fs_forensic f))] (public_artifacts (failure_artifacts c b))"
    have "record_introspect_step c (failure_step c f b) ?resp ((''stderr.log'', Text (redact_text ?rd e)) # ?json) s = (Inr resp, s', w)"
      using that(1) False by (auto simp: record_introspect_failure_def Let_def split: option.splits if_splits)
    from recorded_introspection [OF this] have "resp = ?resp" "w = (''stderr.log'', Text (redact_text ?rd e)) # ?json"
      "\<exists>u. manifest_of (ic_run_id c) s' = Some (Parsed u) \<and> map_of (step_results u) (introspect_step_name (ic_call_id c)) = Some (failure_step c f b)"
      by (auto simp: failure_step_def)
    then show ?thesis using p by (intro failed [of f b]) (auto split: option.splits if_splits)
  qed
  obtain e x where t: "triage_runner_output c = Inr (e, x)"
    using assms by (auto simp: finalize_introspect_call_def split: sum.splits)
  show ?thesis
  proof (cases x)
    case (Inl f)
    show ?thesis by (rule fail [of f e False None]) (use assms t Inl in \<open>simp_all add: finalize_introspect_call_def\<close>)
  next
    case (Inr parsed)
    let ?p = "redact_value ?rd parsed"
    obtain m where m: "map_wrapper_failure c parsed (outcome_status ?p) = Inr m"
      using assms t Inr by (auto simp: finalize_introspect_call_def Let_def split: sum.splits)
    show ?thesis
    proof (cases m)
      case (Some f)
      show ?thesis
        by (rule fail [of f e True "case ?p of RawMap _ \<Rightarrow> Some ?p | _ \<Rightarrow> None"])
          (use assms t Inr m Some in \<open>auto simp: finalize_introspect_call_def Let_def split: raw.splits\<close>)
    next
      case None
      have run: "record_introspect_success c ?p (outcome_status ?p) e s = (Inr resp, s', w)"
        using assms t Inr m None by (simp add: finalize_introspect_call_def Let_def)
      obtain items where items: "parsed = RawMap items" "verified_document c items"
        using unmapped_verified [OF m [unfolded None]] triage_parsed [OF t [unfolded Inr]] by (auto simp: verified_document_def)
      obtain data where data: "build_introspect_success_response c ?p (outcome_status ?p) e = Inr data"
        using run by (auto simp: record_introspect_success_def Let_def split: if_splits sum.splits)
      let ?v = "map_option (\<lambda>f. f ?p) (ic_validator c)"
      have "record_introspect_step c (success_step c ?p (outcome_status ?p) ?v) (success_answer c ?p data ?v)
          [(''stdout.json'', Json ?p), (''stderr.log'', Text (redact_text ?rd e))] s = (Inr resp, s', w)"
        using run data by (auto simp: record_introspect_success_def Let_def split: if_splits)
      from recorded_introspection [OF this] show ?thesis
        by (intro finished [OF items(2) _ data refl]) (auto simp: items(1) success_step_def Let_def)
    qed
  qed
qed

subsection \<open>Successes are verified, answers are recorded\<close>


text \<open>The code of a failing response and the one a step records.\<close>

definition failure_code :: "tool_response \<Rightarrow> raw option" where
  "failure_code resp = (case resp of Tool_failure cat d arts \<Rightarrow> map_of d ''code'' | _ \<Rightarrow> None)"

definition agrees_with_step :: "introspect_context \<Rightarrow> tool_response \<Rightarrow> store \<Rightarrow> bool" where
  "agrees_with_step c resp s \<longleftrightarrow>
     (\<exists>u res. manifest_of (ic_run_id c) s = Some (Parsed u) \<and> map_of (step_results u) (introspect_step_name (ic_call_id c)) = Some res
        \<and> (if resp_ok resp then sr_status res = SUCCEEDED
           else sr_status res = FAILED \<and> map_of (sr_details res) ''code'' = failure_code resp))"


subsection \<open>Nothing shown holds a secret\<close>

lemma take_chars_prefix: "\<exists>b. s = take_chars n s @ b"
  by (induction n s rule: take_chars.induct) auto

lemma drop_chars_suffix: "\<exists>a. s = a @ drop_chars n s"
proof (induction n s rule: drop_chars.induct)
  case (2 n c cs)
  show ?case
  proof (cases "byte_in 0x80 0xBF c \<or> n \<noteq> 0")
    case True
    have "\<exists>a. cs = a @ drop_chars (if byte_in 0x80 0xBF c then n else n - 1) cs"
      using 2 True by (cases "byte_in 0x80 0xBF c") simp_all
    then obtain a where "cs = a @ drop_chars (if byte_in 0x80 0xBF c then n else n - 1) cs" ..
    with True have "c # cs = (c # a) @ drop_chars n (c # cs)" by auto
    then show ?thesis by blast
  next
    case False
    then show ?thesis by (intro exI [of _ "[]"]) simp
  qed
qed simp

lemma contains_part: "contains_sub v b \<Longrightarrow> contains_sub v (a @ b @ d)"
  by (metis append.assoc contains_sub_iff)

lemma contains_around:
  assumes "contains_sub v (a @ c # b)" and "c \<notin> set v"
  shows "contains_sub v a \<or> contains_sub v b"
proof -
  obtain p q where e: "a @ c # b = p @ v @ q" using assms(1) by (auto simp: contains_sub_iff)
  show ?thesis
  proof (cases "length p + length v \<le> length a")
    case True
    then have "take (length p + length v) (a @ c # b) = p @ v" by (simp add: e)
    then have "a = p @ v @ drop (length p + length v) a"
      using True by (metis append.assoc append_take_drop_id take_append diff_is_0_eq' take_0 append_Nil2)
    then show ?thesis by (metis contains_sub_iff)
  next
    case False
    have "length a < length p"
    proof (rule ccontr)
      assume "\<not> length a < length p"
      then have "length a - length p < length v" using False by linarith
      moreover from this \<open>\<not> length a < length p\<close> have "(p @ v @ q) ! length a = v ! (length a - length p)"
        by (simp add: nth_append)
      moreover have "(a @ c # b) ! length a = c" by simp
      ultimately show False using assms(2) e by (metis nth_mem)
    qed
    then have "drop (Suc (length a)) (p @ v @ q) = drop (Suc (length a)) p @ v @ q" by simp
    moreover have "drop (Suc (length a)) (a @ c # b) = b" by simp
    ultimately have "b = drop (Suc (length a)) p @ v @ q" using e by simp
    then show ?thesis by (metis contains_sub_iff)
  qed
qed

lemma head_tail_clean:
  assumes "\<not> contains_sub v s" and "newline \<notin> set v" and "\<not> contains_sub v cut_marker"
  shows "\<not> contains_sub v (head_tail_text s h t)"
proof
  assume "contains_sub v (head_tail_text s h t)"
  with assms(1) have c: "contains_sub v (take_chars h s @ cut_marker @ drop_chars (char_count s - t) s)"
    by (auto simp: head_tail_text_def split: if_splits)
  let ?m = "[CHR 0xE2, CHR 0x80, CHR 0xA6] @ ''[truncated]'' @ [CHR 0xE2, CHR 0x80, CHR 0xA6]"
  have marker: "cut_marker = newline # ?m @ [newline]" by (simp add: cut_marker_def)
  obtain a b where ab: "s = take_chars h s @ b" "s = a @ drop_chars (char_count s - t) s"
    using take_chars_prefix drop_chars_suffix by metis
  have "contains_sub v (take_chars h s) \<or> contains_sub v (?m @ newline # drop_chars (char_count s - t) s)"
    using contains_around [of v "take_chars h s" newline "?m @ newline # drop_chars (char_count s - t) s"] c assms(2) by (simp add: marker)
  moreover have "contains_sub v (?m @ newline # drop_chars (char_count s - t) s) \<Longrightarrow> contains_sub v ?m \<or> contains_sub v (drop_chars (char_count s - t) s)"
    by (rule contains_around) (use assms(2) in simp_all)
  moreover have "contains_sub v ?m \<Longrightarrow> contains_sub v cut_marker"
    using contains_part [of v ?m "[newline]" "[newline]"] by (simp add: marker)
  moreover have "contains_sub v (take_chars h s) \<Longrightarrow> contains_sub v s" using contains_part [of v "take_chars h s" "[]" b] ab(1) by simp
  moreover have "contains_sub v (drop_chars (char_count s - t) s) \<Longrightarrow> contains_sub v s"
    using contains_part [of v "drop_chars (char_count s - t) s" a "[]"] ab(2) by simp
  ultimately show False using assms by blast
qed

text \<open>The wrapper writes the script's output as a text.\<close>

definition stdout_is_text :: "introspect_context \<Rightarrow> bool" where
  "stdout_is_text c \<longleftrightarrow> (\<forall>f v. ic_stdout c = Some f \<longrightarrow> cap_content f = Json_document v \<longrightarrow>
     (\<exists>u. get_default ''user_stdout'' (RawStr []) v = RawStr u))"

definition shown_fields :: "string list" where
  "shown_fields = [''outcome'', ''emits'', ''user_stdout_snippet'', ''drgn_stderr_snippet'', ''build_id'', ''truncated'', ''prelude_ms'', ''warnings'']"

definition free_of :: "string \<Rightarrow> raw \<Rightarrow> bool" where
  "free_of v x \<longleftrightarrow> (\<forall>t \<in> strings_of x. t \<in> {''ok'', ''error''} \<or> \<not> contains_sub v t)"

lemma strings_of_item: "map_of items k = Some x \<Longrightarrow> strings_of x \<subseteq> strings_items items"
  by (induction items) (auto split: if_splits)

lemma redacted_items_clean:
  assumes "maskable v" and "v \<in> set (secret_values rd)" and "redact_value rd (RawMap items) = RawMap items'"
  shows "map_of items' k = Some x \<Longrightarrow> \<forall>t \<in> strings_of x. \<not> contains_sub v t"
  using redact_strings_gone(1) [OF assms(1,2), of "RawMap items"] strings_of_item [of items' k x] assms(3) by (auto simp: subset_iff)

lemma get_default_clean:
  assumes "maskable v" and "v \<in> set (secret_values rd)" and "strings_of d = {} \<or> free_of v d"
  shows "free_of v (get_default k d (redact_value rd (RawMap items)))"
  using assms(3) redacted_items_clean [OF assms(1,2), of items "redact_items rd (marked_sensitive items) items" "KStr k"]
  by (auto simp: get_default_def free_of_def split: option.splits)

lemma item_clean:
  assumes "maskable v" and "v \<in> set (secret_values rd)"
  shows "free_of v (item_of k (redact_value rd (RawMap items)))"
  using redacted_items_clean [OF assms, of items "redact_items rd (marked_sensitive items) items" "KStr k"]
  by (auto simp: item_of_def get_or_none_def free_of_def split: option.splits)

lemma outcome_clean:
  assumes "maskable v" and "v \<in> set (secret_values rd)"
  shows "free_of v (response_outcome (redact_value rd (RawMap items)) st)"
proof (cases "item_of ''outcome'' (redact_value rd (RawMap items))")
  case (RawMap outs)
  have all: "\<forall>t \<in> strings_items outs. t \<in> {''ok'', ''error''} \<or> \<not> contains_sub v t"
    using item_clean [OF assms, of "''outcome''" items] unfolding RawMap free_of_def by simp
  have part: "t \<in> {''ok'', ''error''} \<or> \<not> contains_sub v t" if "map_of outs k = Some x" "t \<in> strings_of x" for k x t
    using all strings_of_item [OF that(1)] that(2) by blast
  show ?thesis
    unfolding response_outcome_def RawMap by (auto simp: free_of_def List.map_filter_def split: option.splits dest: part)
qed (simp_all add: response_outcome_def free_of_def del: redact_value.simps)


subsection \<open>A call, and what goes wrong\<close>

definition ex_document :: "string \<Rightarrow> raw" where
  "ex_document st = RawMap [(KStr ''outcome'', RawMap [(KStr ''status'', RawStr st)]), (KStr ''build_id'', RawStr ''deadbeef''),
     (KStr ''user_stdout'', RawStr ''token hunter2''), (KStr ''emits'', RawList [RawStr ''hunter2''])]"

definition ex_introspection :: "string \<Rightarrow> raw \<Rightarrow> introspect_context" where
  "ex_introspection secret doc = \<lparr>ic_run_id = ''r1'', ic_call_id = ''c1'', ic_agent_dir = Path True [''a''], ic_sensitive_dir = Path True [''b''],
     ic_stdout = Some \<lparr>cap_size = 100, cap_content = Json_document doc\<rparr>, ic_stderr = Some ''warn hunter2'',
     ic_result = \<lparr>exit_status = 0, timed_out = False, cancelled = False, stdin_failed = False, oversized_output = False\<rparr>,
     ic_started = ''t0'', ic_finished = ''t1'', ic_duration = 5, ic_redactor = \<lparr>secret_values = [secret]\<rparr>,
     ic_expected_build_id = ''deadbeef'', ic_timeout = 30, ic_drgn_open_message = [], ic_principal = Some ''root'', ic_validator = None,
     ic_allow_write = False, ic_permissions = None, ic_io_fails = (\<lambda>_. False), ic_faults = no_faults, ic_others = (\<lambda>n s. s),
     ic_float_reaches = (\<lambda>_ _. False), ic_repr = (\<lambda>_. [])\<rparr>"

lemma ex_recorded_step: "\<exists>s'. record_introspect_step (ex_introspection secret doc) res resp w ex_store = (Inr resp, s', w)"
proof -
  obtain s' where "retry_loop ''r1'' res True False no_faults (\<lambda>n s. s) 5 ex_store = (Inr (), s')"
    using ex_retry by blast
  then show ?thesis
    by (simp add: record_introspect_step_def record_append_only_terminal_step_def record_step_with_retry_def ex_introspection_def)
qed

lemma plain_document_keys:
  "\<not> secret_key (KStr ''outcome'')" "\<not> secret_key (KStr ''status'')" "\<not> secret_key (KStr ''user_stdout'')"
  by (rule plain_key, code_simp)+

lemma ex_replaced:
  "replace_values [''hunter2''] ''ok'' = ''ok''" "replace_values [''hunter2''] ''token hunter2'' = ''token [REDACTED]''"
  "replace_values [''mode''] ''write_mode_disabled'' = ''write_[REDACTED]_disabled''" "replace_values [''mode''] ''token hunter2'' = ''token hunter2''"
  by code_simp+

lemma ex_redacted_texts:
  "redact_text \<lparr>secret_values = [''hunter2'']\<rparr> ''ok'' = ''ok''"
  "redact_text \<lparr>secret_values = [''hunter2'']\<rparr> ''token hunter2'' = ''token [REDACTED]''"
  "redact_text \<lparr>secret_values = [''mode'']\<rparr> ''write_mode_disabled'' = ''write_[REDACTED]_disabled''"
  "redact_text \<lparr>secret_values = [''mode'']\<rparr> ''token hunter2'' = ''token hunter2''"
  by (simp_all add: redact_text_plain ex_replaced redaction_text_def)

lemma ex_unmarked: "\<not> marked_sensitive [(KStr ''status'', v)]" "marked_sensitive ((KStr ''outcome'', v) # rest) = marked_sensitive rest"
  by (simp_all add: marked_sensitive_def)

lemma ex_statuses:
  "outcome_status (redact_value \<lparr>secret_values = [''hunter2'']\<rparr> (ex_document ''ok'')) = RawStr ''ok''"
  "outcome_status (redact_value \<lparr>secret_values = [''mode'']\<rparr> (ex_document ''write_mode_disabled'')) = RawStr ''write_[REDACTED]_disabled''"
  by (simp_all add: outcome_status_def item_of_def get_or_none_def ex_document_def redact_items_lookup plain_document_keys ex_redacted_texts)

lemma ex_stdout_text:
  "get_default ''user_stdout'' (RawStr []) (redact_value \<lparr>secret_values = [''hunter2'']\<rparr> (ex_document ''ok'')) = RawStr ''token [REDACTED]''"
  "get_default ''user_stdout'' (RawStr []) (redact_value \<lparr>secret_values = [''mode'']\<rparr> (ex_document st)) = RawStr ''token hunter2''"
  by (simp_all add: get_default_def ex_document_def redact_items_lookup plain_document_keys ex_redacted_texts)

lemma ex_prelude: "get_default ''prelude_ms'' (RawInt 0) (redact_value rd (ex_document st)) = RawInt 0"
  by (simp add: get_default_def ex_document_def redact_items_lookup)

lemma ex_introspection_succeeds:
  assumes "outcome_status (redact_value \<lparr>secret_values = [secret]\<rparr> (ex_document st)) = RawStr shown" and "wrapper_failure_by_status [] shown = None"
    and "\<exists>u. get_default ''user_stdout'' (RawStr []) (redact_value \<lparr>secret_values = [secret]\<rparr> (ex_document st)) = RawStr u"
  shows "\<exists>data arts s' w. finalize_introspect_call (ex_introspection secret (ex_document st)) ex_store = (Inr (Tool_success data arts), s', w)
     \<and> map_of data ''status'' = Some (RawStr (if shown = ''error'' then ''script_error'' else ''ok''))"
proof -
  let ?c = "ex_introspection secret (ex_document st)" and ?p = "redact_value \<lparr>secret_values = [secret]\<rparr> (ex_document st)"
  have t: "\<exists>e. triage_runner_output ?c = Inr (e, Inr (ex_document st))"
    by (simp add: triage_runner_output_def ex_introspection_def read_capped_document_def parsed_document_def RUN_STDOUT_CAP_def ex_document_def)
  have m: "map_wrapper_failure ?c (ex_document st) (RawStr shown) = Inr None"
    using assms(2) by (simp add: map_wrapper_failure_def ex_introspection_def ex_document_def get_or_none_def verify_build_id_def)
  obtain u where u: "get_default ''user_stdout'' (RawStr []) ?p = RawStr u" using assms(3) by blast
  have slow: "prelude_reaches ?c (RawInt 0) = Some False"
    by (simp add: prelude_reaches_def PRELUDE_WARNING_FRACTION_PCT_def ex_introspection_def)
  have data: "\<exists>data. build_introspect_success_response ?c ?p (RawStr shown) e = Inr data
     \<and> map_of data ''status'' = Some (RawStr (if shown = ''error'' then ''script_error'' else ''ok''))" for e
    by (simp add: build_introspect_success_response_def Let_def ex_prelude slow u)
  obtain e where e: "triage_runner_output ?c = Inr (e, Inr (ex_document st))" using t by blast
  obtain data where d: "build_introspect_success_response ?c ?p (RawStr shown) e = Inr data"
     "map_of data ''status'' = Some (RawStr (if shown = ''error'' then ''script_error'' else ''ok''))" using data by blast
  let ?w = "[(''stdout.json'', Json ?p), (''stderr.log'', Text (redact_text (ic_redactor ?c) e))]"
  obtain s' where s': "record_introspect_step ?c (success_step ?c ?p (RawStr shown) None) (success_answer ?c ?p data None) ?w ex_store
      = (Inr (success_answer ?c ?p data None), s', ?w)"
    using ex_recorded_step by blast
  have io: "ic_io_fails ?c = (\<lambda>_. False)" "ic_validator ?c = None" "ic_redactor ?c = \<lparr>secret_values = [secret]\<rparr>"
    by (simp_all add: ex_introspection_def)
  have "record_introspect_success ?c ?p (RawStr shown) e ex_store = (Inr (success_answer ?c ?p data None), s', ?w)"
    using s' by (simp add: record_introspect_success_def Let_def io d(1))
  then have "finalize_introspect_call ?c ex_store = (Inr (success_answer ?c ?p data None), s', ?w)"
    by (simp add: finalize_introspect_call_def e io(3) Let_def assms(1) m)
  then show ?thesis using d(2) by (simp add: success_answer_def)
qed




text \<open>A secret that is part of a status hides the wrapper's failure: the blocked write counts as a success.\<close>

lemma redaction_hides_wrapper_failure:
  "wrapper_failure_by_status [] ''write_mode_disabled'' \<noteq> None"
  "\<exists>data arts s' w. finalize_introspect_call (ex_introspection ''mode'' (ex_document ''write_mode_disabled'')) ex_store = (Inr (Tool_success data arts), s', w)
     \<and> map_of data ''status'' = Some (RawStr ''ok'')"
  using ex_introspection_succeeds [OF ex_statuses(2)] ex_stdout_text(2) [of "''write_mode_disabled''"]
  by (simp_all add: wrapper_failure_by_status_def)

text \<open>A document that is a list, not a mapping, raises, and nothing is recorded.\<close>

lemma list_document_raises:
  "finalize_introspect_call (ex_introspection secret (RawList xs)) s = (Inl Type_error, s, [])"
  by (simp add: finalize_introspect_call_def triage_runner_output_def ex_introspection_def read_capped_document_def parsed_document_def
      RUN_STDOUT_CAP_def outcome_status_def item_of_def map_wrapper_failure_def Let_def)

end
