(* ===== verification/Spec2Isabelle.thy ===== *)
theory Spec2Isabelle
  imports AdmissionProps TransactionProps SessionProps CoreProps ElfProps PathProps ConfigProps
    StoreProps RedactionProps GdbAttach TriageProps DebugEnd DebugOpProps IntrospectProps
begin

text \<open>
  A model of kdive, a server that lets a client build, boot and debug Linux kernels. All
  paths below are under \<open>src/src/kdive/\<close>. What is modelled is the logic that decides: who may
  use a target, what happens to everything that was acquired when an operation fails, which
  files and paths are accepted, what is recorded and what is masked. Code whose whole content
  is a call of another program (make, gdb, libvirt, ssh, crash, drgn) is left to parameters.

  Parts and how they work together.

  A target is described by \<open>Target\<close> (\<open>seams/target.py\<close>) and by a published snapshot,
  \<open>TransportState\<close> (\<open>seams/transport_state.py\<close>, \<open>domain.py\<close>). A session on it is opened by
  \<open>Transaction\<close> (\<open>coordination/transaction.py\<close>), which asks in this order \<open>Admission\<close>
  (\<open>coordination/admission.py\<close>) for a handle, \<open>StopGuard\<close> (\<open>seams/guard.py\<close>) for the single
  right to stop the target, \<open>Lease\<close> (\<open>coordination/lease.py\<close>) for the console lines,
  \<open>Registry\<close> (\<open>coordination/registry.py\<close>) for a durable record, \<open>Selection\<close> with
  \<open>BreakPolicy\<close> (\<open>coordination/selection.py\<close>, \<open>seams/break_policy.py\<close>) for the channel, and
  the registry of \<open>TransportCore\<close> (\<open>transport/core/base.py\<close>, \<open>break_inject.py\<close>,
  \<open>coordination/endpoint_safety.py\<close>) for a transport. A failure on the way unwinds what was
  taken. \<open>Lifecycle\<close> (\<open>seams/lifecycle.py\<close>) tells open sessions that a target went away;
  \<open>Invalidation\<close> composes it with the transaction's subscriber and the closing of admission.
  \<open>SessionGuard\<close> and \<open>Watchdog\<close> (\<open>seams/guard.py\<close>, \<open>seams/watchdog.py\<close>) bring a halted
  target back to where it was. \<open>ExecProbe\<close> and \<open>RspProbe\<close> (\<open>coordination/exec_probe.py\<close>,
  \<open>transport/core/rsp_probe.py\<close>) prove that a target runs, which \<open>Admission\<close> asks for before
  an ssh operation. \<open>Secrets\<close> (\<open>seams/secrets.py\<close>, \<open>safety/secrets.py\<close>,
  \<open>safety/secret_registry.py\<close>) resolves credentials and registers them for masking.

  Beside a target there is the run: \<open>Store\<close> (\<open>artifacts/store.py\<close>, \<open>manifest.py\<close>,
  \<open>steps.py\<close>) keeps its directories and manifest, \<open>Paths\<close> (\<open>safety/paths.py\<close>,
  \<open>symbols/resolve.py\<close>) confines every path a client names, over the file system of
  \<open>FileTree\<close>; \<open>Config\<close> (\<open>config.py\<close>) validates and merges profiles; \<open>Elf\<close>
  (\<open>symbols/build_id.py\<close>, \<open>vmcore_build_id.py\<close>, \<open>verify.py\<close>) checks that symbols and
  memory image belong together. \<open>Redaction\<close> (\<open>safety/redaction.py\<close>,
  \<open>artifacts/redaction.py\<close>) masks what \<open>Secrets\<close> registered in everything shown.

  A debug session joins the two. \<open>GdbMi\<close> and \<open>GdbAttach\<close>
  (\<open>providers/local/debug/gdb_mi.py\<close>) are the engine that talks to gdb, \<open>GdbMiTap\<close> is the
  same engine over a controller that keeps what passes, \<open>DebugOps\<close> (\<open>debug/contracts.py\<close>,
  \<open>debug/operations.py\<close>, \<open>providers/debug.py\<close>) the requests and their dispatch.
  \<open>DebugState\<close> (\<open>debug/session_state.py\<close>, \<open>debug/policy.py\<close>) is the world of a session: the
  store, the live attachments and the transaction with its guards; \<open>DebugStart\<close>
  (\<open>debug/session_handlers.py\<close>) starts it, \<open>DebugEnd\<close> (\<open>debug/operations.py\<close>,
  \<open>debug/session_end.py\<close>) runs an operation in it and ends it.

  After a crash, \<open>CrashCmd\<close> (\<open>postmortem/crash/commands.py\<close>, \<open>batch.py\<close>, \<open>parsers.py\<close>) decides
  which crash commands are allowed, writes the script and reads the outputs,
  \<open>Postmortem\<close> (\<open>postmortem/crash/handler.py\<close>) is the whole call, and \<open>Triage\<close>
  (\<open>postmortem/triage\<close>) composes it with drgn helpers into a report. \<open>Introspect\<close>
  (\<open>introspect/result.py\<close>) is the stage that turns what a drgn run left into an answer and a
  recorded step.

  How the code is read. A class is a \<open>record\<close> of its attributes, an enumeration a
  \<open>datatype\<close>; a method is a function from its arguments and the state to a result and the
  new state. An exception is \<open>Inl\<close> of an error whose constructor names the class or the
  error code; the details dictionaries of error values are left out unless code reads them.
  Methods that hold one lock from start to end are one step of the state. Clocks, uuids,
  random bytes, hashes, and failures of the operating system are arguments: an oracle says
  which call fails. Strings are the lists of their UTF-8 bytes; \<open>PyText\<close> has the string methods of Python
  on them, with classes such as digits and blanks read on ASCII,
  \<open>PyRegex\<close> the matching of \<open>re\<close> by backtracking. Python integers are \<open>int\<close> or \<open>nat\<close>; bytes
  are 8-bit words.

  The interfaces are locales, each interpreted on the model that provides it: the break
  policy (\<open>BreakPolicy\<close>, used by \<open>Selection\<close>), the guard and lease authority
  (\<open>Authority\<close>, provided by \<open>StopGuard\<close> and \<open>Lease\<close>), and the loop over ELF notes that the
  two readers share (\<open>ElfImage\<close>).

  What the groups of lemmas show.
  \<^item> \<open>AdmissionInv\<close>, \<open>AdmissionFence\<close>, \<open>AdmissionProps\<close>: the table invariant in every
    reachable state, each call of the service as a step of an abstract fence (generation,
    closure, live bindings, held resources), and what follows: no reopen before every teardown
    is confirmed, no operation across a halt completes, draining always reopens.
  \<^item> \<open>TransactionOpen\<close>, \<open>TransactionClose\<close>, \<open>TransactionProps\<close>: a failing open restores
    guard, leases, tables and tombstones; a successful one has exactly one owner; close and
    forced release give everything up whatever raises.
  \<^item> \<open>SessionProps\<close>: tokens that lost a target stay dead, relaxing and restoring a watchdog,
    truthful teardown reports, one invalidation of each subscriber.
  \<^item> \<open>CoreProps\<close>: the durable registry converges after a crash, selection is the first
    capable channel, breaks use the admitted mechanism, freezing and frames round-trip.
  \<^item> \<open>ElfImage\<close>, \<open>ElfLine\<close>, \<open>ElfProps\<close>: reading an image that a writer produced gives the
    id written; failures are the declared ones.
  \<^item> \<open>PathProps\<close>: run ids are one path component, confined paths stay below the run directory
    with no link on the way, validated roots share nothing with the trees they must avoid.
  \<^item> \<open>ConfigProps\<close>: merged kernel arguments are read back by the kernel's own splitting,
    overrides keep a profile valid.
  \<^item> \<open>StoreProps\<close>: a recording is all or nothing, the history of a run only grows.
  \<^item> \<open>RedactionProps\<close>: no registered secret that masking can remove survives in a redacted
    value or in the log, whatever the order of registering and logging.
  \<^item> \<open>GdbMiProps\<close>, \<open>GdbAttach\<close>: gdb is only sent a fixed set of commands with checked
    arguments, a reported stop was received, an attachment is loopback and retried at most
    three times.
  \<^item> \<open>CrashProps\<close>, \<open>TriageProps\<close>: the script is the permitted commands, a call runs on a
    matching pair of kernel and vmcore, outputs are bounded, answers agree with the record.
  \<^item> \<open>DebugFrame\<close> says which parts of the world each step leaves alone; \<open>DebugProps\<close>,
    \<open>DebugStartProps\<close>, \<open>DebugOpProps\<close> build on it: a start succeeds or leaves nothing behind,
    the target is touched only after the symbols were verified, an operation needs an active
    session, a stalled one frees the target, an ended session gives it back.
  \<^item> \<open>IntrospectProps\<close>: a success is verified, the answer and the recorded step agree, and
    nothing shown holds a secret although snippets are cut after the redaction.
  Each theorem with hypotheses is followed by a witness on concrete data; \<open>Examples\<close> holds
  what the witnesses share.

  Bounds. Following symbolic links is a recursion with fuel (\<open>real_fuel\<close> in \<open>FileTree\<close>);
  \<open>real_walk_enough\<close> shows that this fuel never runs out. All other loops are
  structural or have a \<open>termination\<close> proof. The sum of the probe buffer is bounded in
  \<open>RspProbe\<close> as in the code, the answers that the gdb engine reads for one command by its
  deadline (the clock is an argument, the list of answers finite), and the outputs of crash
  by the caps of \<open>CrashCmd\<close>.

  Not modelled. The tool registrations (\<open>*/tools.py\<close>, \<open>server.py\<close>) and the handlers of
  \<open>transport\<close>, \<open>artifacts\<close>, \<open>kernel\<close>, \<open>workflow\<close> and \<open>target\<close> shape requests and responses
  around the operations above or around an external program. The providers under
  \<open>providers/local/\<close> other than the gdb engine, the transport backends, the introspection
  runner, the listing of dumps, the module symbols of \<open>debug/module_symbols.py\<close> and the
  prerequisite checks drive other programs. \<open>introspect/helpers\<close> and
  \<open>introspect/wrappers\<close> run inside drgn, against an interface that is not part of the
  repository. File locks and file modes (\<open>safety/runtime_locks.py\<close>, \<open>safety/files.py\<close>) are
  calls of the operating system. What \<open>json.loads\<close> makes of a captured text is part of the
  capture. A secret that overlaps its own mask or another mark of the redactor can show up
  again in the masked text; the theorems on masking are about the others (\<open>maskable\<close>).
\<close>

end
